(* ===== verification/AIB_Prelude.thy ===== *)
theory AIB_Prelude
  imports Main "HOL-Library.Word" "HOL-Library.Monad_Syntax"
begin

text \<open>
  Shared vocabulary of the development.

  \<^item> The machine types of the Go sources: \<^verbatim>\<open>byte\<close>, \<^verbatim>\<open>uint32\<close> and \<^verbatim>\<open>uint64\<close> are words of their
    width, a \<^verbatim>\<open>[]byte\<close> is a list of bytes, and a \<^verbatim>\<open>[32]byte\<close> array (a hash, an address) is a
    256-bit word read big-endian, so that comparing the words is comparing the arrays with
    \<^verbatim>\<open>bytes.Compare\<close>.
  \<^item> \<^verbatim>\<open>encoding/binary\<close>: little and big endian encodings of fixed width.
  \<^item> \<^verbatim>\<open>bytes.Reader\<close>: \<open>read_full\<close> is the \<^verbatim>\<open>io.ReadFull\<close> that \<^verbatim>\<open>binary.Read\<close> performs, \<open>reader_read\<close>
    is the plain \<^verbatim>\<open>Reader.Read\<close>, which fails only at the end of the data and leaves the rest of
    the destination zero on a short read.
  \<^item> The locale \<open>stream_codec\<close>: what a length-delimited encoder and decoder pair promises, and the
    consequence for a counted sequence of such values.
  \<^item> \<^verbatim>\<open>range\<close> over a Go map: an iteration order is a list of the keys without repetition.
\<close>

section \<open>Machine types\<close>

type_synonym byte = "8 word"
type_synonym bytes = "8 word list"
type_synonym u32 = "32 word"
type_synonym u64 = "64 word"
type_synonym hash = "256 word"
type_synonym address = "256 word"

named_theorems codec_simps \<open>unfolding of encoders and decoders\<close>
named_theorems err_splits \<open>case splits of results\<close>

text \<open>A Go function that returns \<^verbatim>\<open>(T, error)\<close> returns \<open>Inl\<close> of the error or \<open>Inr\<close> of the value.\<close>

type_synonym ('e, 'a) result = "'e + 'a"

definition rbind :: "('e, 'a) result \<Rightarrow> ('a \<Rightarrow> ('e, 'b) result) \<Rightarrow> ('e, 'b) result" where
  "rbind r f = (case r of Inl e \<Rightarrow> Inl e | Inr x \<Rightarrow> f x)"

lemma rbind_simps [simp]:
  "rbind (Inl e) f = Inl e"
  "rbind (Inr x) f = f x"
  by (simp_all add: rbind_def)

lemma rbind_Inr_iff: "rbind r f = Inr y \<longleftrightarrow> (\<exists>x. r = Inr x \<and> f x = Inr y)"
  by (cases r) auto

lemma rbind_split [err_splits]:
  "P (rbind r f) \<longleftrightarrow> (\<forall>e. r = Inl e \<longrightarrow> P (Inl e)) \<and> (\<forall>x. r = Inr x \<longrightarrow> P (f x))"
  by (cases r) auto

section \<open>Fixed width encodings\<close>

lemma unat_bound: "unat (w :: 'a::len word) < 2 ^ LENGTH('a)"
  by (rule unsigned_less)

fun le_bytes :: "nat \<Rightarrow> nat \<Rightarrow> bytes" where
  "le_bytes 0 n = []"
| "le_bytes (Suc k) n = of_nat (n mod 256) # le_bytes k (n div 256)"

fun le_val :: "bytes \<Rightarrow> nat" where
  "le_val [] = 0"
| "le_val (b # bs) = unat b + 256 * le_val bs"

definition be_bytes :: "nat \<Rightarrow> nat \<Rightarrow> bytes" where
  "be_bytes k n = rev (le_bytes k n)"

definition be_val :: "bytes \<Rightarrow> nat" where
  "be_val bs = le_val (rev bs)"

lemma length_le_bytes [simp]: "length (le_bytes k n) = k"
  by (induction k arbitrary: n) auto

lemma length_be_bytes [simp]: "length (be_bytes k n) = k"
  by (simp add: be_bytes_def)

lemma unat_of_nat_byte: "unat (of_nat (n mod 256) :: byte) = n mod 256"
  by (simp add: unat_of_nat)

lemma le_val_le_bytes: "n < 256 ^ k \<Longrightarrow> le_val (le_bytes k n) = n"
proof (induction k arbitrary: n)
  case 0
  then show ?case by simp
next
  case (Suc k)
  then have "n div 256 < 256 ^ k"
    by (simp add: less_mult_imp_div_less mult.commute)
  with Suc.IH show ?case
    by (simp add: unat_of_nat_byte)
qed

lemma le_val_bound: "le_val bs < 256 ^ length bs"
proof (induction bs)
  case Nil
  then show ?case by simp
next
  case (Cons b bs)
  have "unat b < 256"
    using unat_bound [of b] by simp
  with Cons show ?case by simp
qed

lemma byte_roundtrip: "(of_nat ((unat (b :: byte) + 256 * m) mod 256) :: byte) = b"
proof -
  have "unat b < 256"
    using unat_bound [of b] by simp
  then have "(unat b + 256 * m) mod 256 = unat b"
    by simp
  then show ?thesis by simp
qed

lemma le_bytes_le_val: "le_bytes (length bs) (le_val bs) = bs"
proof (induction bs)
  case Nil
  then show ?case by simp
next
  case (Cons b bs)
  have "unat b < 256"
    using unat_bound [of b] by simp
  with Cons show ?case
    by (simp add: byte_roundtrip del: of_nat_mod)
qed

lemma be_val_be_bytes: "n < 256 ^ k \<Longrightarrow> be_val (be_bytes k n) = n"
  by (simp add: be_val_def be_bytes_def le_val_le_bytes)

lemma be_bytes_be_val: "be_bytes (length bs) (be_val bs) = bs"
  using le_bytes_le_val [of "rev bs"] by (simp add: be_val_def be_bytes_def)

lemma be_val_bound: "be_val bs < 256 ^ length bs"
  using le_val_bound [of "rev bs"] by (simp add: be_val_def)

text \<open>The fixed width values the sources write, and the arrays they copy.\<close>

definition put_u32 :: "u32 \<Rightarrow> bytes" where
  "put_u32 w = le_bytes 4 (unat w)"

definition put_u64 :: "u64 \<Rightarrow> bytes" where
  "put_u64 w = le_bytes 8 (unat w)"

definition put_u64_be :: "u64 \<Rightarrow> bytes" where
  "put_u64_be w = be_bytes 8 (unat w)"

definition hash_bytes :: "hash \<Rightarrow> bytes" where
  "hash_bytes h = be_bytes 32 (unat h)"

definition hash_of_bytes :: "bytes \<Rightarrow> hash" where
  "hash_of_bytes bs = of_nat (be_val bs)"

definition put_len :: "'a list \<Rightarrow> bytes" where
  "put_len xs = put_u32 (of_nat (length xs))"

lemma length_puts [simp]:
  "length (put_u32 v) = 4"
  "length (put_u64 w) = 8"
  "length (put_u64_be w) = 8"
  "length (hash_bytes h) = 32"
  "length (put_len xs) = 4"
  by (simp_all add: put_u32_def put_u64_def put_u64_be_def hash_bytes_def put_len_def)

lemma put_u32_inverse: "of_nat (le_val (put_u32 w)) = w"
  using unat_bound [of w] by (simp add: put_u32_def le_val_le_bytes)

lemma put_u64_inverse: "of_nat (le_val (put_u64 w)) = w"
  using unat_bound [of w] by (simp add: put_u64_def le_val_le_bytes)

lemma put_u64_be_inverse: "of_nat (be_val (put_u64_be w)) = w"
  using unat_bound [of w] by (simp add: put_u64_be_def be_val_be_bytes)

lemma hash_of_hash_bytes [simp]: "hash_of_bytes (hash_bytes h) = h"
  using unat_bound [of h] by (simp add: hash_bytes_def hash_of_bytes_def be_val_be_bytes)

lemma put_u32_of_bytes: "length bs = 4 \<Longrightarrow> put_u32 (of_nat (le_val bs)) = bs"
  using le_val_bound [of bs] le_bytes_le_val [of bs]
  by (simp add: put_u32_def unat_of_nat)

lemma put_u64_of_bytes: "length bs = 8 \<Longrightarrow> put_u64 (of_nat (le_val bs)) = bs"
  using le_val_bound [of bs] le_bytes_le_val [of bs]
  by (simp add: put_u64_def unat_of_nat)

lemma hash_bytes_of_bytes: "length bs = 32 \<Longrightarrow> hash_bytes (hash_of_bytes bs) = bs"
  using be_val_bound [of bs] be_bytes_be_val [of bs]
  by (simp add: hash_bytes_def hash_of_bytes_def unat_of_nat)

lemma hash_bytes_inject [simp]: "hash_bytes a = hash_bytes b \<longleftrightarrow> a = b"
  by (metis hash_of_hash_bytes)

lemma put_u32_inject [simp]: "put_u32 a = put_u32 b \<longleftrightarrow> a = b"
  by (metis put_u32_inverse)

lemma put_u64_inject [simp]: "put_u64 a = put_u64 b \<longleftrightarrow> a = b"
  by (metis put_u64_inverse)

lemma put_u64_be_inject [simp]: "put_u64_be a = put_u64_be b \<longleftrightarrow> a = b"
  by (metis put_u64_be_inverse)

section \<open>Readers\<close>

text \<open>\<^verbatim>\<open>binary.Read\<close> fills a fixed width value or fails.\<close>

definition read_full :: "nat \<Rightarrow> bytes \<Rightarrow> (bytes \<times> bytes) option" where
  "read_full n r = (if n \<le> length r then Some (take n r, drop n r) else None)"

text \<open>
  \<^verbatim>\<open>bytes.Reader.Read\<close> into a destination of \<open>n\<close> zero bytes: it reports the end of the data only
  when nothing is left (even for an empty destination), and a short read is no error.
\<close>

definition reader_read :: "nat \<Rightarrow> bytes \<Rightarrow> (bytes \<times> bytes) option" where
  "reader_read n r =
     (if r = [] then None else Some (take n r @ replicate (n - length r) 0, drop n r))"

definition read_u32 :: "bytes \<Rightarrow> (u32 \<times> bytes) option" where
  "read_u32 r = do { (b, r) \<leftarrow> read_full 4 r; Some (of_nat (le_val b), r) }"

definition read_u64 :: "bytes \<Rightarrow> (u64 \<times> bytes) option" where
  "read_u64 r = do { (b, r) \<leftarrow> read_full 8 r; Some (of_nat (le_val b), r) }"

definition read_hash :: "bytes \<Rightarrow> (hash \<times> bytes) option" where
  "read_hash r = do { (b, r) \<leftarrow> reader_read 32 r; Some (hash_of_bytes b, r) }"

text \<open>A length prefixed slice: \<^verbatim>\<open>make([]byte, n)\<close> filled by \<^verbatim>\<open>Reader.Read\<close>.\<close>

definition put_bytes :: "bytes \<Rightarrow> bytes" where
  "put_bytes bs = put_len bs @ bs"

definition read_bytes :: "bytes \<Rightarrow> (bytes \<times> bytes) option" where
  "read_bytes r = do { (n, r) \<leftarrow> read_u32 r; reader_read (unat n) r }"

fun read_many :: "(bytes \<Rightarrow> ('a \<times> bytes) option) \<Rightarrow> nat \<Rightarrow> bytes \<Rightarrow> ('a list \<times> bytes) option" where
  "read_many dec 0 r = Some ([], r)"
| "read_many dec (Suc n) r =
     do { (x, r) \<leftarrow> dec r; (xs, r) \<leftarrow> read_many dec n r; Some (x # xs, r) }"

lemma put_neq_nil [simp]:
  "put_u32 v \<noteq> []" "put_u64 w \<noteq> []" "hash_bytes h \<noteq> []" "put_len xs \<noteq> []" "put_bytes bs \<noteq> []"
  by (simp_all add: put_bytes_def flip: length_greater_0_conv)

lemma append_eq_take_drop: "n \<le> length r \<Longrightarrow> take n r = a \<Longrightarrow> drop n r = b \<Longrightarrow> r = a @ b"
  by (metis append_take_drop_id)

lemma read_u32_iff: "read_u32 bs = Some (w, r) \<longleftrightarrow> bs = put_u32 w @ r"
proof
  assume "read_u32 bs = Some (w, r)"
  then have "4 \<le> length bs" and w: "w = of_nat (le_val (take 4 bs))" and r: "r = drop 4 bs"
    by (auto simp: read_u32_def read_full_def split: if_splits)
  then have "put_u32 w = take 4 bs"
    by (simp add: put_u32_of_bytes)
  with r show "bs = put_u32 w @ r" by simp
qed (simp add: read_u32_def read_full_def put_u32_inverse)

lemma read_u64_iff: "read_u64 bs = Some (w, r) \<longleftrightarrow> bs = put_u64 w @ r"
proof
  assume "read_u64 bs = Some (w, r)"
  then have "8 \<le> length bs" and w: "w = of_nat (le_val (take 8 bs))" and r: "r = drop 8 bs"
    by (auto simp: read_u64_def read_full_def split: if_splits)
  then have "put_u64 w = take 8 bs"
    by (simp add: put_u64_of_bytes)
  with r show "bs = put_u64 w @ r" by simp
qed (simp add: read_u64_def read_full_def put_u64_inverse)

lemma read_u32_put [simp]: "read_u32 (put_u32 w @ r) = Some (w, r)"
  by (simp add: read_u32_iff)

lemma read_u64_put [simp]: "read_u64 (put_u64 w @ r) = Some (w, r)"
  by (simp add: read_u64_iff)

lemma read_u32_nil [simp]: "read_u32 [] = None"
  by (simp add: read_u32_def read_full_def)

lemma read_u64_nil [simp]: "read_u64 [] = None"
  by (simp add: read_u64_def read_full_def)

lemma read_u64_none: "read_u64 bs = None \<longleftrightarrow> length bs < 8"
  by (auto simp: read_u64_def read_full_def)

lemma reader_read_nil [simp]: "reader_read n [] = None"
  by (simp add: reader_read_def)

lemma reader_read_append [simp]:
  "r \<noteq> [] \<Longrightarrow> n = length bs \<Longrightarrow> reader_read n (bs @ r) = Some (bs, r)"
  by (simp add: reader_read_def)

lemma reader_read_exact:
  "reader_read n bs = Some (x, r) \<Longrightarrow> r \<noteq> [] \<Longrightarrow> bs = x @ r \<and> length x = n"
  by (auto simp: reader_read_def split: if_splits)

lemma reader_read_length: "reader_read n bs = Some (x, r) \<Longrightarrow> length x = n"
  by (auto simp: reader_read_def split: if_splits)

lemma read_hash_nil [simp]: "read_hash [] = None"
  by (simp add: read_hash_def)

lemma read_hash_put [simp]: "read_hash (hash_bytes h @ r) = Some (h, r)"
  by (simp add: read_hash_def reader_read_def)

lemma read_hash_exact:
  assumes "read_hash bs = Some (h, r)" and "r \<noteq> []"
  shows "bs = hash_bytes h @ r"
proof -
  obtain x where x: "reader_read 32 bs = Some (x, r)" and h: "h = hash_of_bytes x"
    using assms(1) by (auto simp: read_hash_def split: bind_splits)
  have "bs = x @ r" "length x = 32"
    using reader_read_exact [OF x assms(2)] by auto
  with h show ?thesis by (simp add: hash_bytes_of_bytes)
qed

lemma read_bytes_nil [simp]: "read_bytes [] = None"
  by (simp add: read_bytes_def)

lemma read_bytes_put [simp]:
  "length x < 2 ^ 32 \<Longrightarrow> r \<noteq> [] \<Longrightarrow> read_bytes (put_bytes x @ r) = Some (x, r)"
  by (simp add: read_bytes_def put_bytes_def put_len_def unat_of_nat)

lemma read_bytes_exact:
  assumes "read_bytes bs = Some (x, r)" and "r \<noteq> []"
  shows "bs = put_bytes x @ r \<and> length x < 2 ^ 32"
proof -
  obtain n r1 where n: "read_u32 bs = Some (n, r1)" and x: "reader_read (unat n) r1 = Some (x, r)"
    using assms(1) by (auto simp: read_bytes_def split: bind_splits)
  have "r1 = x @ r" and len: "length x = unat n"
    using reader_read_exact [OF x assms(2)] by auto
  moreover have "put_len x = put_u32 n"
    by (simp add: put_len_def len)
  moreover have "unat n < 2 ^ 32"
    using unat_bound [of n] by simp
  ultimately show ?thesis
    using n by (simp add: read_u32_iff put_bytes_def)
qed

text \<open>
  An encoder and a decoder of values inside a longer stream. Both laws speak of a stream that
  goes on: at the very end of the data \<^verbatim>\<open>Reader.Read\<close> fails on an empty slice and accepts a
  truncated one, so a format relies on a value that is never last.
\<close>

locale stream_codec =
  fixes enc :: "'a \<Rightarrow> bytes"
    and dec :: "bytes \<Rightarrow> ('a \<times> bytes) option"
    and wf :: "'a \<Rightarrow> bool"
  assumes dec_nil: "dec [] = None"
    and dec_enc: "wf x \<Longrightarrow> r \<noteq> [] \<Longrightarrow> dec (enc x @ r) = Some (x, r)"
    and enc_dec: "dec bs = Some (x, r) \<Longrightarrow> r \<noteq> [] \<Longrightarrow> bs = enc x @ r \<and> wf x"
begin

lemma read_many_enc:
  "(\<forall>x \<in> set xs. wf x) \<Longrightarrow> r \<noteq> [] \<Longrightarrow>
   read_many dec (length xs) (concat (map enc xs) @ r) = Some (xs, r)"
proof (induction xs)
  case Nil
  then show ?case by simp
next
  case (Cons x xs)
  have "dec (enc x @ (concat (map enc xs) @ r)) = Some (x, concat (map enc xs) @ r)"
    using Cons.prems by (intro dec_enc) auto
  with Cons show ?case by simp
qed

lemma read_many_exact:
  "read_many dec n bs = Some (xs, r) \<Longrightarrow> r \<noteq> [] \<Longrightarrow>
   bs = concat (map enc xs) @ r \<and> length xs = n \<and> (\<forall>x \<in> set xs. wf x)"
proof (induction n arbitrary: bs xs)
  case 0
  then show ?case by simp
next
  case (Suc n)
  from Suc.prems(1) obtain x r1 ys where
    x: "dec bs = Some (x, r1)" and ys: "read_many dec n r1 = Some (ys, r)" and xs: "xs = x # ys"
    by (auto split: bind_splits)
  have "r1 \<noteq> []"
  proof
    assume "r1 = []"
    with ys Suc.prems(2) show False
      by (cases n) (auto simp: dec_nil)
  qed
  with x have "bs = enc x @ r1" and "wf x"
    using enc_dec by auto
  moreover have "r1 = concat (map enc ys) @ r \<and> length ys = n \<and> (\<forall>y \<in> set ys. wf y)"
    using ys Suc.prems(2) by (rule Suc.IH)
  ultimately show ?case by (simp add: xs)
qed

lemma read_many_end: "read_many dec n bs = Some (xs, r) \<Longrightarrow> n \<noteq> 0 \<Longrightarrow> bs \<noteq> []"
  by (cases n) (auto simp: dec_nil)

end

section \<open>Strings\<close>

text \<open>The verbs \<^verbatim>\<open>%x\<close> on a byte array and \<^verbatim>\<open>%d\<close> on an unsigned integer.\<close>

definition hex_digit :: "nat \<Rightarrow> char" where
  "hex_digit n = (if n < 10 then char_of (48 + n) else char_of (87 + n))"

definition hex_byte :: "byte \<Rightarrow> string" where
  "hex_byte b = [hex_digit (unat b div 16), hex_digit (unat b mod 16)]"

definition hex_string :: "bytes \<Rightarrow> string" where
  "hex_string bs = concat (map hex_byte bs)"

fun dec_string :: "nat \<Rightarrow> string" where
  "dec_string n =
     (if n < 10 then [char_of (48 + n)] else dec_string (n div 10) @ [char_of (48 + n mod 10)])"

declare dec_string.simps [simp del]

definition undec_string :: "string \<Rightarrow> nat" where
  "undec_string s = foldl (\<lambda>a c. 10 * a + (of_char c - 48)) 0 s"

lemma undec_dec_string: "undec_string (dec_string n) = n"
proof (induction n rule: dec_string.induct)
  case (1 n)
  show ?case
  proof (cases "n < 10")
    case True
    then show ?thesis
      by (simp add: dec_string.simps [of n] undec_string_def of_char_of)
  next
    case False
    with 1 have "undec_string (dec_string (n div 10)) = n div 10" by simp
    with False show ?thesis
      by (simp add: dec_string.simps [of n] undec_string_def of_char_of)
  qed
qed

lemma dec_string_inject [simp]: "dec_string m = dec_string n \<longleftrightarrow> m = n"
  by (metis undec_dec_string)

lemma hex_digit_inject: "m < 16 \<Longrightarrow> n < 16 \<Longrightarrow> hex_digit m = hex_digit n \<longleftrightarrow> m = n"
  by (auto simp: hex_digit_def split: if_splits)

lemma length_hex_string [simp]: "length (hex_string bs) = 2 * length bs"
  by (induction bs) (auto simp: hex_string_def hex_byte_def)

lemma hex_byte_inject [simp]: "hex_byte a = hex_byte b \<longleftrightarrow> a = b"
proof
  assume "hex_byte a = hex_byte b"
  moreover have "unat a < 256" "unat b < 256"
    using unat_bound [of a] unat_bound [of b] by auto
  ultimately have "unat a div 16 = unat b div 16" "unat a mod 16 = unat b mod 16"
    by (auto simp: hex_byte_def hex_digit_inject)
  then have "unat a = unat b"
    by (metis div_mult_mod_eq)
  then show "a = b" by (simp add: word_unat_eq_iff)
qed simp

lemma hex_string_inject [simp]: "length a = length b \<Longrightarrow> hex_string a = hex_string b \<longleftrightarrow> a = b"
proof (induction a b rule: list_induct2)
  case Nil
  then show ?case by simp
next
  case (Cons x xs y ys)
  have "hex_string (x # xs) = hex_string (y # ys)
      \<longleftrightarrow> hex_byte x = hex_byte y \<and> hex_string xs = hex_string ys"
    by (simp add: hex_string_def append_eq_append_conv hex_byte_def)
  with Cons.IH show ?case by simp
qed

section \<open>Go maps\<close>

text \<open>
  A Go map is a partial function with a finite domain. \<^verbatim>\<open>range\<close> visits every key once, in an order
  the language leaves open, so an operation that ranges over a map takes that order as an
  argument; \<^verbatim>\<open>len\<close> is the size of the domain; reading an absent key gives the zero value.
\<close>

definition iteration_of :: "'k list \<Rightarrow> ('k \<rightharpoonup> 'v) \<Rightarrow> bool" where
  "iteration_of ks m \<longleftrightarrow> distinct ks \<and> set ks = dom m"

definition range_values :: "'k list \<Rightarrow> ('k \<rightharpoonup> 'v) \<Rightarrow> 'v list" where
  "range_values ks m = List.map_filter m ks"

definition map_len :: "('k \<rightharpoonup> 'v) \<Rightarrow> nat" where
  "map_len m = card (dom m)"

definition map_get :: "'v \<Rightarrow> ('k \<rightharpoonup> 'v) \<Rightarrow> 'k \<Rightarrow> 'v" where
  "map_get z m k = (case m k of None \<Rightarrow> z | Some v \<Rightarrow> v)"

lemma range_values_map: "iteration_of ks m \<Longrightarrow> range_values ks m = map (\<lambda>k. the (m k)) ks"
  unfolding iteration_of_def range_values_def
  by (auto simp: map_filter_def dom_def intro!: filter_id_conv [THEN iffD2])

lemma length_iteration: "iteration_of ks m \<Longrightarrow> length ks = map_len m"
  by (metis iteration_of_def map_len_def distinct_card)

lemma set_range_values: "iteration_of ks m \<Longrightarrow> set (range_values ks m) = ran m"
  by (force simp: range_values_map iteration_of_def ran_def dom_def)

lemma iteration_finite: "iteration_of ks m \<Longrightarrow> finite (dom m)"
  by (metis iteration_of_def List.finite_set)

lemma sum_list_iteration:
  "iteration_of ks m \<Longrightarrow> sum_list (map f (range_values ks m)) = (\<Sum>k \<in> dom m. f (the (m k)))"
  by (simp add: range_values_map iteration_of_def comp_def sum_list_distinct_conv_sum_set)

section \<open>Sums of machine integers\<close>

text \<open>
  A Go loop \<^verbatim>\<open>total += x.Value\<close> computes the sum of the words, which wraps; the exact sum is the
  sum of their \<open>unat\<close> values.
\<close>

definition exact_sum :: "u64 list \<Rightarrow> nat" where
  "exact_sum ws = sum_list (map unat ws)"

lemma exact_sum_simps [simp]:
  "exact_sum [] = 0"
  "exact_sum (w # ws) = unat w + exact_sum ws"
  "exact_sum (vs @ ws) = exact_sum vs + exact_sum ws"
  by (simp_all add: exact_sum_def)

lemma unat_sum_list_mod: "unat (sum_list ws) = exact_sum ws mod 2 ^ 64"
proof (induction ws)
  case Nil
  then show ?case by simp
next
  case (Cons w ws)
  then show ?case
    by (simp add: unat_word_ariths mod_simps)
qed

lemma unat_sum_list: "exact_sum ws < 2 ^ 64 \<Longrightarrow> unat (sum_list ws) = exact_sum ws"
  by (simp add: unat_sum_list_mod)

lemma foldl_sum_list: "foldl (\<lambda>a x. a + f x) (z :: u64) xs = z + sum_list (map f xs)"
  by (induction xs arbitrary: z) (simp_all add: add.assoc)

lemma unat_minus_le: "(b :: u64) \<le> a \<Longrightarrow> unat (a - b) = unat a - unat b"
  by (simp add: unat_sub_if' word_le_nat_alt)

end
