(* ===== verification/Crypto.thy ===== *)
theory Crypto
  imports AIB_Prelude
begin

text \<open>
  The cryptographic primitives of Go's standard library that the sources call. They are a
  parameter of the model: every definition that hashes or verifies takes a value of \<open>crypto\<close>, and
  the theorems hold for every such value. What a theorem relies on beyond that is a named
  hypothesis about the parameter: \<open>key_pair\<close> (a signature made with a private key verifies under
  its public key) is the documented behaviour of \<^verbatim>\<open>crypto/ed25519\<close>. Nothing assumes that SHA-256 is
  injective, which no function into 32 bytes is; the theorems that need collision resistance
  ask only that it does not collide on the finitely many strings which the computations they compare
  hash, and list these strings (\<open>double_strings\<close>, \<open>tree_strings\<close>).
\<close>

record crypto =
  sha256 :: "bytes \<Rightarrow> hash"
  ed_verify :: "bytes \<Rightarrow> bytes \<Rightarrow> bytes \<Rightarrow> bool"
  ed_sign :: "bytes \<Rightarrow> bytes \<Rightarrow> bytes"

text \<open>
  \<^verbatim>\<open>ed25519.Verify\<close> panics when the public key is not 32 bytes long (\<open>None\<close> is the panic) and
  reports false when the signature is not 64 bytes long.
\<close>

definition ed25519_Verify :: "crypto \<Rightarrow> bytes \<Rightarrow> bytes \<Rightarrow> bytes \<Rightarrow> bool option" where
  "ed25519_Verify C pk msg sg =
     (if length pk \<noteq> 32 then None else Some (length sg = 64 \<and> ed_verify C pk msg sg))"

text \<open>\<^verbatim>\<open>ed25519.Sign\<close> panics when the private key is not 64 bytes long.\<close>

definition ed25519_Sign :: "crypto \<Rightarrow> bytes \<Rightarrow> bytes \<Rightarrow> bytes option" where
  "ed25519_Sign C priv msg = (if length priv \<noteq> 64 then None else Some (ed_sign C priv msg))"

text \<open>\<^verbatim>\<open>PrivateKey.Public\<close> copies the last 32 bytes.\<close>

definition ed25519_Public :: "bytes \<Rightarrow> bytes" where
  "ed25519_Public priv = drop 32 priv"

definition key_pair :: "crypto \<Rightarrow> bytes \<Rightarrow> bool" where
  "key_pair C priv \<longleftrightarrow> length priv = 64 \<and>
     (\<forall>msg. length (ed_sign C priv msg) = 64 \<and>
            ed_verify C (ed25519_Public priv) msg (ed_sign C priv msg))"

definition sha256d :: "crypto \<Rightarrow> bytes \<Rightarrow> hash" where
  "sha256d C data = sha256 C (hash_bytes (sha256 C data))"

text \<open>The two strings that SHA-256 is applied to when it is applied twice.\<close>

definition double_strings :: "crypto \<Rightarrow> bytes \<Rightarrow> bytes set" where
  "double_strings C data = {data, hash_bytes (sha256 C data)}"

lemma sha256d_inject:
  assumes "inj_on (sha256 C) (double_strings C a \<union> double_strings C b)"
  shows "sha256d C a = sha256d C b \<longleftrightarrow> a = b"
proof
  assume "sha256d C a = sha256d C b"
  then have "hash_bytes (sha256 C a) = hash_bytes (sha256 C b)"
    by (intro inj_onD [OF assms]) (simp_all add: sha256d_def double_strings_def)
  then show "a = b"
    by (intro inj_onD [OF assms]) (simp_all add: double_strings_def)
qed simp

lemma key_pair_verifies:
  assumes "key_pair C priv"
  shows "ed25519_Sign C priv msg = Some (ed_sign C priv msg)"
    and "ed25519_Verify C (ed25519_Public priv) msg (ed_sign C priv msg) = Some True"
    and "ed_sign C priv msg \<noteq> []"
    and "ed25519_Public priv \<noteq> []"
proof -
  have len: "length priv = 64" "length (ed_sign C priv msg) = 64"
    and v: "ed_verify C (ed25519_Public priv) msg (ed_sign C priv msg)"
    using assms by (auto simp: key_pair_def)
  then have pub: "length (ed25519_Public priv) = 32"
    by (simp add: ed25519_Public_def)
  show "ed25519_Sign C priv msg = Some (ed_sign C priv msg)"
    by (simp add: ed25519_Sign_def len)
  show "ed25519_Verify C (ed25519_Public priv) msg (ed_sign C priv msg) = Some True"
    by (simp add: ed25519_Verify_def pub len v)
  show "ed_sign C priv msg \<noteq> []" "ed25519_Public priv \<noteq> []"
    using len pub by auto
qed

text \<open>
  A concrete value of the parameter, for evaluating instances: a checksum for the hash and a
  signature that is its public key followed by zeros. It satisfies \<open>key_pair\<close>.
\<close>

definition sample_crypto :: crypto where
  "sample_crypto =
     \<lparr>sha256 = (\<lambda>bs. of_nat (length bs) + 256 * of_nat (le_val bs)),
      ed_verify = (\<lambda>pk msg sg. take 32 sg = pk),
      ed_sign = (\<lambda>priv msg. drop 32 priv @ replicate 32 0)\<rparr>"

lemma sample_crypto_key_pair: "length priv = 64 \<Longrightarrow> key_pair sample_crypto priv"
  by (simp add: key_pair_def sample_crypto_def ed25519_Public_def)

end
