(* ===== verification/Transaction.thy ===== *)
theory Transaction
  imports Crypto
begin

text \<open>
  \<^verbatim>\<open>pkg/utxo/transaction.go\<close>: the transaction, its wire format, its hash, the payload its inputs
  sign, and the fee. The wire format is proved to be a codec (\<open>stream_codec\<close>) component by component.
\<close>

section \<open>Data\<close>

record TXInput =
  ti_TxHash :: hash
  ti_Index :: u32
  ti_Signature :: bytes
  ti_PublicKey :: bytes

record TXOutput =
  to_Value :: u64
  to_Script :: bytes
  to_Address :: address

record UTXO =
  u_TxHash :: hash
  u_Index :: u32
  u_Value :: u64
  u_Script :: bytes
  u_Address :: address

record Transaction =
  tx_Version :: u32
  tx_Inputs :: "TXInput list"
  tx_Outputs :: "TXOutput list"
  tx_LockTime :: u32
  tx_Sequence :: u64

text \<open>The interface \<^verbatim>\<open>UTXOProvider\<close>: \<open>None\<close> is the error of \<^verbatim>\<open>GetUTXO\<close>.\<close>

type_synonym utxo_provider = "hash \<Rightarrow> u32 \<Rightarrow> UTXO option"

datatype tx_error =
    TxPanic
  | TxInvalidInputIndex int
  | TxUTXONotFound
  | TxInputsBelowOutputs u64 u64

definition NewTransaction :: "TXInput list \<Rightarrow> TXOutput list \<Rightarrow> Transaction" where
  "NewTransaction inputs outputs =
     \<lparr>tx_Version = 1, tx_Inputs = inputs, tx_Outputs = outputs, tx_LockTime = 0, tx_Sequence = 0\<rparr>"

section \<open>Wire format\<close>

definition serialize_input :: "TXInput \<Rightarrow> bytes" where
  "serialize_input i =
     hash_bytes (ti_TxHash i) @ put_u32 (ti_Index i)
     @ put_bytes (ti_Signature i) @ put_bytes (ti_PublicKey i)"

definition serialize_output :: "TXOutput \<Rightarrow> bytes" where
  "serialize_output out =
     put_u64 (to_Value out) @ put_bytes (to_Script out) @ hash_bytes (to_Address out)"

definition serialize_body :: "Transaction \<Rightarrow> bytes" where
  "serialize_body tx =
     put_u32 (tx_Version tx)
     @ put_len (tx_Inputs tx) @ concat (map serialize_input (tx_Inputs tx))
     @ put_len (tx_Outputs tx) @ concat (map serialize_output (tx_Outputs tx))
     @ put_u32 (tx_LockTime tx)"

definition Serialize :: "Transaction \<Rightarrow> bytes" where
  "Serialize tx = serialize_body tx @ put_u64 (tx_Sequence tx)"

definition deserialize_input :: "bytes \<Rightarrow> (TXInput \<times> bytes) option" where
  "deserialize_input r =
     do { (h, r) \<leftarrow> read_hash r;
          (i, r) \<leftarrow> read_u32 r;
          (sig, r) \<leftarrow> read_bytes r;
          (pk, r) \<leftarrow> read_bytes r;
          Some (\<lparr>ti_TxHash = h, ti_Index = i, ti_Signature = sig, ti_PublicKey = pk\<rparr>, r) }"

definition deserialize_output :: "bytes \<Rightarrow> (TXOutput \<times> bytes) option" where
  "deserialize_output r =
     do { (v, r) \<leftarrow> read_u64 r;
          (scr, r) \<leftarrow> read_bytes r;
          (addr, r) \<leftarrow> read_hash r;
          Some (\<lparr>to_Value = v, to_Script = scr, to_Address = addr\<rparr>, r) }"

definition DeserializeTransaction :: "bytes \<Rightarrow> Transaction option" where
  "DeserializeTransaction data =
     do { (version, r) \<leftarrow> read_u32 data;
          (inputCount, r) \<leftarrow> read_u32 r;
          (inputs, r) \<leftarrow> read_many deserialize_input (unat inputCount) r;
          (outputCount, r) \<leftarrow> read_u32 r;
          (outputs, r) \<leftarrow> read_many deserialize_output (unat outputCount) r;
          (lockTime, r) \<leftarrow> read_u32 r;
          Some \<lparr>tx_Version = version, tx_Inputs = inputs, tx_Outputs = outputs,
                tx_LockTime = lockTime,
                tx_Sequence =
                  (if 8 \<le> length r
                   then (case read_u64 r of None \<Rightarrow> 0 | Some (s, _) \<Rightarrow> s) else 0)\<rparr> }"

definition TxHash :: "crypto \<Rightarrow> Transaction \<Rightarrow> hash" where
  "TxHash C tx = sha256d C (Serialize tx)"

section \<open>Signing\<close>

definition signing_input :: "TXInput \<Rightarrow> bytes" where
  "signing_input i = hash_bytes (ti_TxHash i) @ put_u32 (ti_Index i) @ put_u32 0"

definition SerializeForSigning :: "Transaction \<Rightarrow> bytes" where
  "SerializeForSigning tx =
     put_u32 (tx_Version tx)
     @ put_len (tx_Inputs tx) @ concat (map signing_input (tx_Inputs tx))
     @ put_len (tx_Outputs tx) @ concat (map serialize_output (tx_Outputs tx))
     @ put_u32 (tx_LockTime tx)"

definition SignInput :: "crypto \<Rightarrow> Transaction \<Rightarrow> int \<Rightarrow> bytes \<Rightarrow> (tx_error, Transaction) result" where
  "SignInput C tx inputIndex privKey =
     (if inputIndex < 0 \<or> int (length (tx_Inputs tx)) \<le> inputIndex
      then Inl (TxInvalidInputIndex inputIndex)
      else case ed25519_Sign C privKey (SerializeForSigning tx) of
        None \<Rightarrow> Inl TxPanic
      | Some sig \<Rightarrow>
          Inr (tx\<lparr>tx_Inputs := (tx_Inputs tx)[nat inputIndex :=
                 (tx_Inputs tx ! nat inputIndex)
                   \<lparr>ti_Signature := sig, ti_PublicKey := ed25519_Public privKey\<rparr>]\<rparr>))"

text \<open>\<open>None\<close> is the panic of \<^verbatim>\<open>ed25519.Verify\<close> on a public key of the wrong length.\<close>

definition VerifyInput :: "crypto \<Rightarrow> Transaction \<Rightarrow> int \<Rightarrow> bool option" where
  "VerifyInput C tx inputIndex =
     (if inputIndex < 0 \<or> int (length (tx_Inputs tx)) \<le> inputIndex then Some False
      else let input = tx_Inputs tx ! nat inputIndex in
        if length (ti_Signature input) = 0 \<or> length (ti_PublicKey input) = 0 then Some False
        else ed25519_Verify C (ti_PublicKey input) (SerializeForSigning tx) (ti_Signature input))"

fun verify_inputs :: "crypto \<Rightarrow> Transaction \<Rightarrow> nat list \<Rightarrow> bool option" where
  "verify_inputs C tx [] = Some True"
| "verify_inputs C tx (i # is) =
     (case VerifyInput C tx (int i) of
        None \<Rightarrow> None
      | Some ok \<Rightarrow> if \<not> ok then Some False else verify_inputs C tx is)"

definition VerifyAllInputs :: "crypto \<Rightarrow> Transaction \<Rightarrow> bool option" where
  "VerifyAllInputs C tx = verify_inputs C tx [0..<length (tx_Inputs tx)]"

section \<open>Values and fees\<close>

fun add_input_values :: "utxo_provider \<Rightarrow> TXInput list \<Rightarrow> u64 \<Rightarrow> (tx_error, u64) result" where
  "add_input_values prov [] tot = Inr tot"
| "add_input_values prov (i # is) tot =
     (case prov (ti_TxHash i) (ti_Index i) of
        None \<Rightarrow> Inl TxUTXONotFound
      | Some u \<Rightarrow> add_input_values prov is (tot + u_Value u))"

definition TotalInputValue :: "utxo_provider \<Rightarrow> Transaction \<Rightarrow> (tx_error, u64) result" where
  "TotalInputValue prov tx = add_input_values prov (tx_Inputs tx) 0"

definition TotalOutputValue :: "Transaction \<Rightarrow> u64" where
  "TotalOutputValue tx = foldl (\<lambda>tot out. tot + to_Value out) 0 (tx_Outputs tx)"

definition IsCoinbase :: "Transaction \<Rightarrow> bool" where
  "IsCoinbase tx \<longleftrightarrow>
     (case tx_Inputs tx of [i] \<Rightarrow> ti_TxHash i = 0 \<and> ti_Index i = 0xffffffff | _ \<Rightarrow> False)"

definition SerializeSize :: "Transaction \<Rightarrow> nat" where
  "SerializeSize tx =
     4 + 4
     + sum_list (map (\<lambda>i. 32 + 4 + 4 + length (ti_Signature i) + 4 + length (ti_PublicKey i)) (tx_Inputs tx))
     + 4
     + sum_list (map (\<lambda>out. 8 + 4 + length (to_Script out) + 32) (tx_Outputs tx))
     + 4"

definition CalculateFee :: "Transaction \<Rightarrow> u64 \<Rightarrow> u64" where
  "CalculateFee tx feePerByte =
     (if IsCoinbase tx then 0
      else let fee = of_nat (SerializeSize tx) * feePerByte
           in if fee < 1 then 1 else fee)"

definition GetInputsValue :: "utxo_provider \<Rightarrow> Transaction \<Rightarrow> (tx_error, u64) result" where
  "GetInputsValue prov tx = (if IsCoinbase tx then Inr 0 else add_input_values prov (tx_Inputs tx) 0)"

definition GetFee :: "utxo_provider \<Rightarrow> Transaction \<Rightarrow> (tx_error, u64) result" where
  "GetFee prov tx =
     (if IsCoinbase tx then Inr 0
      else case GetInputsValue prov tx of
        Inl e \<Rightarrow> Inl e
      | Inr inputsValue \<Rightarrow>
          let outputsValue = TotalOutputValue tx in
          if inputsValue < outputsValue then Inl (TxInputsBelowOutputs inputsValue outputsValue)
          else Inr (inputsValue - outputsValue))"

section \<open>The wire format is a codec\<close>

definition input_wf :: "TXInput \<Rightarrow> bool" where
  "input_wf i \<longleftrightarrow> length (ti_Signature i) < 2 ^ 32 \<and> length (ti_PublicKey i) < 2 ^ 32"

definition output_wf :: "TXOutput \<Rightarrow> bool" where
  "output_wf out \<longleftrightarrow> length (to_Script out) < 2 ^ 32"

text \<open>Every length fits its 32-bit counter, as in any transaction that fits in memory.\<close>

definition tx_wf :: "Transaction \<Rightarrow> bool" where
  "tx_wf tx \<longleftrightarrow> length (tx_Inputs tx) < 2 ^ 32 \<and> length (tx_Outputs tx) < 2 ^ 32
     \<and> (\<forall>i \<in> set (tx_Inputs tx). input_wf i) \<and> (\<forall>out \<in> set (tx_Outputs tx). output_wf out)"

interpretation input_codec: stream_codec serialize_input deserialize_input input_wf
proof
  show "deserialize_input [] = None"
    by (simp add: deserialize_input_def)
next
  fix x :: TXInput and r :: bytes
  assume "input_wf x" and "r \<noteq> []"
  then show "deserialize_input (serialize_input x @ r) = Some (x, r)"
    by (simp add: deserialize_input_def serialize_input_def input_wf_def)
next
  fix bs x r
  assume d: "deserialize_input bs = Some (x, r)" and r: "r \<noteq> []"
  from d obtain r1 r2 r3 where
    "read_hash bs = Some (ti_TxHash x, r1)" and "read_u32 r1 = Some (ti_Index x, r2)"
    and "read_bytes r2 = Some (ti_Signature x, r3)" and "read_bytes r3 = Some (ti_PublicKey x, r)"
    by (auto simp: deserialize_input_def split: bind_splits)
  moreover from this have "r3 \<noteq> []" "r1 \<noteq> []"
    by auto
  ultimately show "bs = serialize_input x @ r \<and> input_wf x"
    using r by (auto simp: serialize_input_def input_wf_def read_u32_iff
        dest!: read_hash_exact read_bytes_exact)
qed

interpretation output_codec: stream_codec serialize_output deserialize_output output_wf
proof
  show "deserialize_output [] = None"
    by (simp add: deserialize_output_def)
next
  fix x :: TXOutput and r :: bytes
  assume "output_wf x" and "r \<noteq> []"
  then show "deserialize_output (serialize_output x @ r) = Some (x, r)"
    by (simp add: deserialize_output_def serialize_output_def output_wf_def)
next
  fix bs x r
  assume d: "deserialize_output bs = Some (x, r)" and r: "r \<noteq> []"
  from d obtain r1 r2 where
    "read_u64 bs = Some (to_Value x, r1)" and "read_bytes r1 = Some (to_Script x, r2)"
    and "read_hash r2 = Some (to_Address x, r)"
    by (auto simp: deserialize_output_def split: bind_splits)
  moreover from this have "r2 \<noteq> []"
    by auto
  ultimately show "bs = serialize_output x @ r \<and> output_wf x"
    using r by (auto simp: serialize_output_def output_wf_def read_u64_iff
        dest!: read_hash_exact read_bytes_exact)
qed

lemma unat_of_length [simp]: "n < 2 ^ 32 \<Longrightarrow> unat (of_nat n :: u32) = n"
  by (simp add: unat_of_nat)

lemma deserialize_body:
  assumes "tx_wf tx"
  shows "DeserializeTransaction (serialize_body tx @ rest) =
    Some (tx\<lparr>tx_Sequence := (if 8 \<le> length rest then of_nat (le_val (take 8 rest)) else 0)\<rparr>)"
proof -
  let ?r2 = "put_u32 (tx_LockTime tx) @ rest"
  let ?r1 = "put_len (tx_Outputs tx) @ concat (map serialize_output (tx_Outputs tx)) @ ?r2"
  have "read_many deserialize_input (length (tx_Inputs tx))
          (concat (map serialize_input (tx_Inputs tx)) @ ?r1) = Some (tx_Inputs tx, ?r1)"
    using assms by (intro input_codec.read_many_enc) (auto simp: tx_wf_def)
  moreover have "read_many deserialize_output (length (tx_Outputs tx))
          (concat (map serialize_output (tx_Outputs tx)) @ ?r2) = Some (tx_Outputs tx, ?r2)"
    using assms by (intro output_codec.read_many_enc) (auto simp: tx_wf_def)
  ultimately show ?thesis
    using assms
    by (auto simp: DeserializeTransaction_def serialize_body_def put_len_def tx_wf_def
        read_u64_def read_full_def)
qed

lemma deserialize_exact:
  assumes "DeserializeTransaction data = Some tx"
  shows "tx_wf tx \<and> (\<exists>rest. data = serialize_body tx @ rest \<and>
           tx_Sequence tx = (if 8 \<le> length rest then of_nat (le_val (take 8 rest)) else 0))"
proof -
  from assms obtain ni r1 r2 r3 no r4 r5 r6 where
    v: "read_u32 data = Some (tx_Version tx, r1)" and ni: "read_u32 r1 = Some (ni, r2)"
    and ins: "read_many deserialize_input (unat ni) r2 = Some (tx_Inputs tx, r3)"
    and no: "read_u32 r3 = Some (no, r4)"
    and outs: "read_many deserialize_output (unat no) r4 = Some (tx_Outputs tx, r5)"
    and lt: "read_u32 r5 = Some (tx_LockTime tx, r6)"
    and sq: "tx_Sequence tx = (if 8 \<le> length r6 then of_nat (le_val (take 8 r6)) else 0)"
    by (auto simp: DeserializeTransaction_def read_u64_def read_full_def
        split: bind_splits if_splits)
  have "r3 \<noteq> []" "r5 \<noteq> []"
    using no lt by auto
  then have "r2 = concat (map serialize_input (tx_Inputs tx)) @ r3"
    "length (tx_Inputs tx) = unat ni" "\<forall>i \<in> set (tx_Inputs tx). input_wf i"
    "r4 = concat (map serialize_output (tx_Outputs tx)) @ r5"
    "length (tx_Outputs tx) = unat no" "\<forall>out \<in> set (tx_Outputs tx). output_wf out"
    using input_codec.read_many_exact [OF ins] output_codec.read_many_exact [OF outs] by auto
  moreover have "unat ni < 2 ^ 32" "unat no < 2 ^ 32"
    using unat_bound [of ni] unat_bound [of no] by auto
  ultimately show ?thesis
    using v ni no lt sq by (auto simp: read_u32_iff serialize_body_def put_len_def tx_wf_def)
qed

lemma deserialize_serialize: "tx_wf tx \<Longrightarrow> DeserializeTransaction (Serialize tx) = Some tx"
  using deserialize_body [of tx "put_u64 (tx_Sequence tx)"]
  by (simp add: Serialize_def put_u64_inverse)

lemma Serialize_inject: "tx_wf a \<Longrightarrow> tx_wf b \<Longrightarrow> Serialize a = Serialize b \<longleftrightarrow> a = b"
  by (metis deserialize_serialize option.inject)

lemma length_serialize_inputs:
  "length (concat (map serialize_input ins)) =
   sum_list (map (\<lambda>i. 32 + 4 + 4 + length (ti_Signature i) + 4 + length (ti_PublicKey i)) ins)"
  by (induction ins) (simp_all add: serialize_input_def put_bytes_def)

lemma length_serialize_outputs:
  "length (concat (map serialize_output outs)) =
   sum_list (map (\<lambda>out. 8 + 4 + length (to_Script out) + 32) outs)"
  by (induction outs) (simp_all add: serialize_output_def put_bytes_def)

section \<open>Signatures and fees\<close>

lemma signing_input_update:
  "i < length ins \<Longrightarrow>
   map signing_input (ins[i := (ins ! i)\<lparr>ti_Signature := s, ti_PublicKey := p\<rparr>]) = map signing_input ins"
  by (rule nth_equalityI) (auto simp: signing_input_def nth_list_update)

lemma SerializeForSigning_SignInput:
  "SignInput C tx i priv = Inr tx' \<Longrightarrow> SerializeForSigning tx' = SerializeForSigning tx"
  by (auto simp: SignInput_def SerializeForSigning_def put_len_def signing_input_update
      split: if_splits option.splits)

lemma add_input_values_eq:
  "add_input_values prov ins tot =
     (if \<forall>i \<in> set ins. prov (ti_TxHash i) (ti_Index i) \<noteq> None
      then Inr (tot + sum_list (map (\<lambda>i. u_Value (the (prov (ti_TxHash i) (ti_Index i)))) ins))
      else Inl TxUTXONotFound)"
  by (induction ins arbitrary: tot) (auto split: option.splits simp: add.assoc)

lemma TotalOutputValue_sum: "TotalOutputValue tx = sum_list (map to_Value (tx_Outputs tx))"
  by (simp add: TotalOutputValue_def foldl_sum_list)

text \<open>The values a transaction consumes and creates, without wrap-around.\<close>

definition input_values :: "utxo_provider \<Rightarrow> Transaction \<Rightarrow> u64 list" where
  "input_values prov tx =
     map (\<lambda>i. u_Value (the (prov (ti_TxHash i) (ti_Index i)))) (tx_Inputs tx)"

definition output_values :: "Transaction \<Rightarrow> u64 list" where
  "output_values tx = map to_Value (tx_Outputs tx)"

lemma GetFee_Inr:
  "\<not> IsCoinbase tx \<Longrightarrow> GetFee prov tx = Inr fee \<longleftrightarrow>
     (\<forall>i \<in> set (tx_Inputs tx). prov (ti_TxHash i) (ti_Index i) \<noteq> None) \<and>
     sum_list (output_values tx) \<le> sum_list (input_values prov tx) \<and>
     fee = sum_list (input_values prov tx) - sum_list (output_values tx)"
  by (auto simp: GetFee_def GetInputsValue_def TotalOutputValue_sum add_input_values_eq
      input_values_def output_values_def Let_def not_less split: if_splits)

lemma GetFee_exact:
  assumes "\<not> IsCoinbase tx" and "GetFee prov tx = Inr fee"
    and "exact_sum (input_values prov tx) < 2 ^ 64" and "exact_sum (output_values tx) < 2 ^ 64"
  shows "exact_sum (input_values prov tx) = exact_sum (output_values tx) + unat fee"
  using assms by (auto simp: GetFee_Inr unat_minus_le unat_sum_list word_le_nat_alt)

section \<open>Properties\<close>

text \<open>C29. Decoding inverts encoding: \<^verbatim>\<open>DeserializeTransaction\<close> of the bytes \<^verbatim>\<open>Serialize\<close> writes returns the
  transaction, field for field, whatever bytes follow it, for every transaction whose lengths fit
  their 32-bit counters.\<close>

theorem tx_roundtrip: "tx_wf tx \<Longrightarrow> DeserializeTransaction (Serialize tx @ junk) = Some tx"
  using deserialize_body [of tx "put_u64 (tx_Sequence tx) @ junk"]
  by (simp add: Serialize_def put_u64_inverse)

definition sample_input :: TXInput where
  "sample_input = \<lparr>ti_TxHash = 7, ti_Index = 1, ti_Signature = [1, 2], ti_PublicKey = []\<rparr>"

definition sample_output :: TXOutput where
  "sample_output = \<lparr>to_Value = 5, to_Script = [0xA1], to_Address = 9\<rparr>"

definition sample_tx :: Transaction where
  "sample_tx = NewTransaction [sample_input] [sample_output]"

lemma sample_tx_wf: "tx_wf sample_tx"
  by (simp add: tx_wf_def sample_tx_def NewTransaction_def input_wf_def output_wf_def
      sample_input_def sample_output_def)

theorem tx_roundtrip_witness:
  "tx_wf sample_tx \<and> DeserializeTransaction (Serialize sample_tx @ [3]) = Some sample_tx"
  using sample_tx_wf tx_roundtrip [OF sample_tx_wf, of "[3]"] by simp

text \<open>The decoder accepts nothing else: if \<^verbatim>\<open>DeserializeTransaction\<close> accepts some bytes, they are the
  encoding of the transaction it returns followed by ignored bytes, or the older encoding that ends
  after the lock time, with fewer than eight bytes left and sequence zero. In particular the short
  reads that \<^verbatim>\<open>bytes.Reader.Read\<close> lets pass never reach an accepted transaction.\<close>

theorem tx_parse_exact:
  assumes "DeserializeTransaction data = Some tx"
  shows "tx_wf tx \<and> (\<exists>junk. data = Serialize tx @ junk
           \<or> data = serialize_body tx @ junk \<and> length junk < 8 \<and> tx_Sequence tx = 0)"
proof -
  obtain rest where wf: "tx_wf tx" and d: "data = serialize_body tx @ rest"
    and sq: "tx_Sequence tx = (if 8 \<le> length rest then of_nat (le_val (take 8 rest)) else 0)"
    using deserialize_exact [OF assms] by auto
  show ?thesis
  proof (cases "8 \<le> length rest")
    case True
    then have "put_u64 (tx_Sequence tx) = take 8 rest"
      by (simp add: sq put_u64_of_bytes)
    then have "data = Serialize tx @ drop 8 rest"
      by (simp add: d Serialize_def)
    with wf show ?thesis by blast
  next
    case False
    with wf d sq show ?thesis by auto
  qed
qed

theorem tx_parse_exact_witness:
  "DeserializeTransaction (Serialize sample_tx) = Some sample_tx \<and> tx_wf sample_tx \<and>
   (\<exists>junk. Serialize sample_tx = Serialize sample_tx @ junk
      \<or> Serialize sample_tx = serialize_body sample_tx @ junk \<and> length junk < 8 \<and> tx_Sequence sample_tx = 0)"
proof -
  have d: "DeserializeTransaction (Serialize sample_tx) = Some sample_tx"
    using deserialize_serialize [OF sample_tx_wf] .
  show ?thesis using d tx_parse_exact [OF d] by simp
qed

text \<open>A transaction hash commits to the whole transaction: as long as SHA-256 does not collide on the two
  serialized transactions and their first hashes, transactions with the same \<^verbatim>\<open>Hash\<close> are the same.\<close>

theorem tx_hash_binding:
  assumes "tx_wf a" and "tx_wf b"
    and "inj_on (sha256 C) (double_strings C (Serialize a) \<union> double_strings C (Serialize b))"
  shows "TxHash C a = TxHash C b \<longleftrightarrow> a = b"
  using assms by (simp add: TxHash_def sha256d_inject Serialize_inject)

text \<open>Signing an input makes that input verify and leaves the verification of every other input as
  it was: with a key pair, \<^verbatim>\<open>SignInput\<close> at an index in range succeeds, \<^verbatim>\<open>VerifyInput\<close> accepts there,
  and elsewhere it answers what it answered before, so inputs may be signed in any order.\<close>

theorem sign_then_verify:
  assumes "key_pair C priv" and "0 \<le> i" and "i < int (length (tx_Inputs tx))"
  shows "\<exists>tx'. SignInput C tx i priv = Inr tx' \<and> VerifyInput C tx' i = Some True
           \<and> (\<forall>j. j \<noteq> i \<longrightarrow> VerifyInput C tx' j = VerifyInput C tx j)"
proof -
  let ?msg = "SerializeForSigning tx"
  obtain tx' where tx': "SignInput C tx i priv = Inr tx'"
    and ins: "tx_Inputs tx' = (tx_Inputs tx)[nat i := (tx_Inputs tx ! nat i)
                \<lparr>ti_Signature := ed_sign C priv ?msg, ti_PublicKey := ed25519_Public priv\<rparr>]"
    using assms by (auto simp: SignInput_def key_pair_verifies)
  have msg: "SerializeForSigning tx' = ?msg"
    using tx' by (rule SerializeForSigning_SignInput)
  have "VerifyInput C tx' i = Some True"
    using assms by (simp add: VerifyInput_def ins msg Let_def key_pair_verifies)
  moreover have "VerifyInput C tx' j = VerifyInput C tx j" if "j \<noteq> i" for j
    using that assms(2) by (auto simp: VerifyInput_def ins msg Let_def nth_list_update)
  ultimately show ?thesis using tx' by blast
qed

theorem sign_then_verify_witness:
  "\<exists>tx'. SignInput sample_crypto sample_tx 0 (replicate 64 1) = Inr tx'
     \<and> VerifyInput sample_crypto tx' 0 = Some True
     \<and> (\<forall>j. j \<noteq> 0 \<longrightarrow> VerifyInput sample_crypto tx' j = VerifyInput sample_crypto sample_tx j)"
  by (rule sign_then_verify) (simp_all add: sample_crypto_key_pair sample_tx_def NewTransaction_def)

text \<open>The sequence number is not signed: any sequence can be put into a signed transaction without
  invalidating a signature, and the change gives a different encoding (so a different transaction
  to every check by hash), although the field is documented as replay protection.\<close>

theorem sequence_not_signed:
  "VerifyInput C (tx\<lparr>tx_Sequence := s\<rparr>) i = VerifyInput C tx i
   \<and> (s = tx_Sequence tx \<longleftrightarrow> Serialize (tx\<lparr>tx_Sequence := s\<rparr>) = Serialize tx)"
  by (auto simp: VerifyInput_def SerializeForSigning_def Serialize_def serialize_body_def Let_def)

text \<open>C30. Value is conserved when nothing wraps: if \<^verbatim>\<open>GetFee\<close> returns a fee for a transaction that is no
  coinbase, and neither the sum of the inputs nor that of the outputs reaches two to the 64, the
  inputs are worth exactly the outputs plus the fee.\<close>

theorem fee_conserves_value:
  assumes "\<not> IsCoinbase tx" and "GetFee prov tx = Inr fee"
    and "exact_sum (input_values prov tx) < 2 ^ 64" and "exact_sum (output_values tx) < 2 ^ 64"
  shows "exact_sum (input_values prov tx) = exact_sum (output_values tx) + unat fee"
  using assms by (rule GetFee_exact)

definition sample_provider :: utxo_provider where
  "sample_provider h i =
     Some \<lparr>u_TxHash = h, u_Index = i, u_Value = 12, u_Script = [], u_Address = 4\<rparr>"

theorem fee_conserves_value_witness:
  "GetFee sample_provider sample_tx = Inr 7 \<and>
   exact_sum (input_values sample_provider sample_tx) = exact_sum (output_values sample_tx) + unat (7 :: u64)"
proof -
  have f: "GetFee sample_provider sample_tx = Inr 7"
    by code_simp
  have h: "\<not> IsCoinbase sample_tx" "exact_sum (input_values sample_provider sample_tx) < 2 ^ 64"
    "exact_sum (output_values sample_tx) < 2 ^ 64"
    by (simp_all add: sample_tx_def sample_input_def sample_output_def NewTransaction_def
        IsCoinbase_def input_values_def output_values_def sample_provider_def)
  show ?thesis using f fee_conserves_value [OF h(1) f h(2,3)] by simp
qed

text \<open>Without that bound it is not: two outputs of two to the 63 each sum to zero, so a transaction
  that spends twelve units and creates two to the 64 passes \<^verbatim>\<open>GetFee\<close> with a fee of twelve.\<close>

theorem fee_overflow_mints:
  "let tx = sample_tx\<lparr>tx_Outputs := [sample_output\<lparr>to_Value := 0x8000000000000000\<rparr>,
                                      sample_output\<lparr>to_Value := 0x8000000000000000\<rparr>]\<rparr>
   in GetFee sample_provider tx = Inr 12
      \<and> exact_sum (input_values sample_provider tx) = 12 \<and> exact_sum (output_values tx) = 2 ^ 64"
proof -
  let ?tx = "sample_tx\<lparr>tx_Outputs := [sample_output\<lparr>to_Value := 0x8000000000000000\<rparr>,
                                      sample_output\<lparr>to_Value := 0x8000000000000000\<rparr>]\<rparr>"
  have "GetFee sample_provider ?tx = Inr 12" by code_simp
  moreover have "exact_sum (input_values sample_provider ?tx) = 12"
    by (simp add: sample_tx_def NewTransaction_def input_values_def sample_provider_def)
  moreover have "exact_sum (output_values ?tx) = 2 ^ 64"
    by (simp add: output_values_def)
  ultimately show ?thesis by simp
qed

end
