(* ===== verification/UTXO_Store.thy ===== *)
theory UTXO_Store
  imports Transaction
begin

text \<open>
  \<^verbatim>\<open>pkg/utxo/store.go\<close> (the in-memory \<^verbatim>\<open>UTXOStore\<close>) and the stake marker of \<^verbatim>\<open>pkg/utxo/staking.go\<close> that
  coin selection consults. The locale \<open>utxo_set\<close> is the contract of a set of unspent outputs; the
  store is an interpretation of it, with the balance table as part of its invariant.
\<close>

section \<open>The store\<close>

record UTXOStore =
  st_utxos :: "string \<rightharpoonup> UTXO"
  st_balances :: "address \<rightharpoonup> u64"

datatype store_error =
    StPanic
  | StNotFound string
  | StSpent
  | StDoubleSpend string
  | StBadSignature nat
  | StInsufficient u64 u64

definition NewUTXOStore :: UTXOStore where
  "NewUTXOStore = \<lparr>st_utxos = Map.empty, st_balances = Map.empty\<rparr>"

definition UTXOKey :: "hash \<Rightarrow> u32 \<Rightarrow> string" where
  "UTXOKey txHash index = hex_string (hash_bytes txHash) @ '':'' @ dec_string (unat index)"

definition AddUTXO :: "UTXOStore \<Rightarrow> UTXO \<Rightarrow> UTXOStore" where
  "AddUTXO s u =
     \<lparr>st_utxos = (st_utxos s)(UTXOKey (u_TxHash u) (u_Index u) \<mapsto> u),
      st_balances = (st_balances s)(u_Address u \<mapsto> map_get 0 (st_balances s) (u_Address u) + u_Value u)\<rparr>"

definition GetUTXO :: "UTXOStore \<Rightarrow> hash \<Rightarrow> u32 \<Rightarrow> UTXO option" where
  "GetUTXO s txHash index = st_utxos s (UTXOKey txHash index)"

definition HasUTXO :: "UTXOStore \<Rightarrow> hash \<Rightarrow> u32 \<Rightarrow> bool" where
  "HasUTXO s txHash index \<longleftrightarrow> st_utxos s (UTXOKey txHash index) \<noteq> None"

text \<open>\<^verbatim>\<open>balances[a] -= v\<close>, followed by the deletion of an entry that reaches zero.\<close>

definition debit :: "(address \<rightharpoonup> u64) \<Rightarrow> address \<Rightarrow> u64 \<Rightarrow> (address \<rightharpoonup> u64)" where
  "debit bal a v =
     (let rest = map_get 0 bal a - v in if rest = 0 then bal(a := None) else bal(a \<mapsto> rest))"

definition SpendUTXO :: "UTXOStore \<Rightarrow> hash \<Rightarrow> u32 \<Rightarrow> (store_error, UTXOStore) result" where
  "SpendUTXO s txHash index =
     (case st_utxos s (UTXOKey txHash index) of
        None \<Rightarrow> Inl StSpent
      | Some u \<Rightarrow>
          Inr \<lparr>st_utxos = (st_utxos s)(UTXOKey txHash index := None),
               st_balances = debit (st_balances s) (u_Address u) (u_Value u)\<rparr>)"

definition GetBalance :: "UTXOStore \<Rightarrow> address \<Rightarrow> u64" where
  "GetBalance s addr = map_get 0 (st_balances s) addr"

definition GetAllUTXOs :: "string list \<Rightarrow> UTXOStore \<Rightarrow> address \<Rightarrow> UTXO list" where
  "GetAllUTXOs ks s addr = filter (\<lambda>u. u_Address u = addr) (range_values ks (st_utxos s))"

definition GetUTXOCount :: "UTXOStore \<Rightarrow> nat" where
  "GetUTXOCount s = map_len (st_utxos s)"

definition GetAllUTXOsAll :: "string list \<Rightarrow> UTXOStore \<Rightarrow> UTXO list" where
  "GetAllUTXOsAll ks s = range_values ks (st_utxos s)"

definition GetStats :: "string list \<Rightarrow> UTXOStore \<Rightarrow> nat \<times> nat \<times> u64" where
  "GetStats ks s =
     (map_len (st_utxos s), map_len (st_balances s),
      foldl (\<lambda>tot u. tot + u_Value u) 0 (range_values ks (st_utxos s)))"

section \<open>Validating and applying a transaction\<close>

fun check_inputs :: "UTXOStore \<Rightarrow> TXInput list \<Rightarrow> string set \<Rightarrow> (store_error, unit) result" where
  "check_inputs s [] seen = Inr ()"
| "check_inputs s (i # is) seen =
     (let key = UTXOKey (ti_TxHash i) (ti_Index i) in
      if key \<in> seen then Inl (StDoubleSpend key)
      else if \<not> HasUTXO s (ti_TxHash i) (ti_Index i) then Inl (StNotFound key)
      else check_inputs s is (insert key seen))"

fun check_signatures :: "crypto \<Rightarrow> Transaction \<Rightarrow> nat list \<Rightarrow> (store_error, unit) result" where
  "check_signatures C tx [] = Inr ()"
| "check_signatures C tx (i # is) =
     (case VerifyInput C tx (int i) of
        None \<Rightarrow> Inl StPanic
      | Some ok \<Rightarrow> if \<not> ok then Inl (StBadSignature i) else check_signatures C tx is)"

definition ValidateTransaction :: "crypto \<Rightarrow> UTXOStore \<Rightarrow> Transaction \<Rightarrow> (store_error, unit) result" where
  "ValidateTransaction C s tx =
     rbind (check_inputs s (tx_Inputs tx) {})
       (\<lambda>_. check_signatures C tx [0..<length (tx_Inputs tx)])"

text \<open>
  The loop that marks inputs as spent reads \<^verbatim>\<open>s.utxos[key]\<close> without a check: a missing entry is a nil
  pointer, whose dereference panics.
\<close>

fun spend_inputs :: "UTXOStore \<Rightarrow> TXInput list \<Rightarrow> (store_error, UTXOStore) result" where
  "spend_inputs s [] = Inr s"
| "spend_inputs s (i # is) =
     (let key = UTXOKey (ti_TxHash i) (ti_Index i) in
      case st_utxos s key of
        None \<Rightarrow> Inl StPanic
      | Some u \<Rightarrow>
          spend_inputs \<lparr>st_utxos = (st_utxos s)(key := None),
                        st_balances = debit (st_balances s) (u_Address u) (u_Value u)\<rparr> is)"

definition output_utxo :: "hash \<Rightarrow> nat \<Rightarrow> TXOutput \<Rightarrow> UTXO" where
  "output_utxo txHash i out =
     \<lparr>u_TxHash = txHash, u_Index = of_nat i, u_Value = to_Value out,
      u_Script = to_Script out, u_Address = to_Address out\<rparr>"

fun add_outputs :: "UTXOStore \<Rightarrow> hash \<Rightarrow> nat \<Rightarrow> TXOutput list \<Rightarrow> UTXOStore" where
  "add_outputs s txHash i [] = s"
| "add_outputs s txHash i (out # outs) =
     add_outputs (AddUTXO s (output_utxo txHash i out)) txHash (Suc i) outs"

definition ApplyTransaction :: "crypto \<Rightarrow> UTXOStore \<Rightarrow> Transaction \<Rightarrow> (store_error, UTXOStore) result" where
  "ApplyTransaction C s tx =
     rbind (ValidateTransaction C s tx)
       (\<lambda>_. rbind (spend_inputs s (tx_Inputs tx))
          (\<lambda>s'. Inr (add_outputs s' (TxHash C tx) 0 (tx_Outputs tx))))"

section \<open>Coin selection\<close>

definition StakeScriptTag :: byte where
  "StakeScriptTag = 0xA1"

definition IsStakeOutput :: "UTXO \<Rightarrow> bool" where
  "IsStakeOutput u \<longleftrightarrow> length (u_Script u) > 0 \<and> u_Script u ! 0 = StakeScriptTag"

fun select_utxos :: "address \<Rightarrow> u64 \<Rightarrow> UTXO list \<Rightarrow> UTXO list \<Rightarrow> u64 \<Rightarrow> UTXO list \<times> u64" where
  "select_utxos addr amount [] selected tot = (selected, tot)"
| "select_utxos addr amount (u # us) selected tot =
     (if u_Address u = addr \<and> \<not> IsStakeOutput u
      then (let selected' = selected @ [u]; tot' = tot + u_Value u in
            if tot' \<ge> amount then (selected', tot') else select_utxos addr amount us selected' tot')
      else select_utxos addr amount us selected tot)"

definition GetUTXOsForAmount ::
  "string list \<Rightarrow> UTXOStore \<Rightarrow> address \<Rightarrow> u64 \<Rightarrow> (store_error, UTXO list \<times> u64) result" where
  "GetUTXOsForAmount ks s addr amount =
     (let (selected, tot) = select_utxos addr amount (range_values ks (st_utxos s)) [] 0 in
      if tot < amount then Inl (StInsufficient tot amount) else Inr (selected, tot))"

section \<open>Coinbase transactions\<close>

definition coinbase_input :: TXInput where
  "coinbase_input = \<lparr>ti_TxHash = 0, ti_Index = 0xffffffff, ti_Signature = [], ti_PublicKey = []\<rparr>"

definition CreateCoinbaseTransaction :: "address \<Rightarrow> u64 \<Rightarrow> bytes \<Rightarrow> Transaction" where
  "CreateCoinbaseTransaction toAddr reward data =
     NewTransaction [coinbase_input] [\<lparr>to_Value = reward, to_Script = data, to_Address = toAddr\<rparr>]"

definition CreateStakeCoinbaseTransaction :: "address \<Rightarrow> u64 \<Rightarrow> bytes \<Rightarrow> Transaction" where
  "CreateStakeCoinbaseTransaction toAddr reward data =
     NewTransaction [coinbase_input]
       [\<lparr>to_Value = reward, to_Script = StakeScriptTag # data, to_Address = toAddr\<rparr>]"

definition CreateCoinbaseWithFees :: "address \<Rightarrow> u64 \<Rightarrow> u64 \<Rightarrow> bytes \<Rightarrow> Transaction" where
  "CreateCoinbaseWithFees toAddr blockSubsidy txFees data =
     CreateCoinbaseTransaction toAddr (blockSubsidy + txFees) data"

section \<open>Keys and balances\<close>

lemma UTXOKey_inject [simp]: "UTXOKey h i = UTXOKey h' i' \<longleftrightarrow> h = h' \<and> i = i'"
  by (auto simp: UTXOKey_def word_unat_eq_iff)

definition owned :: "UTXO \<Rightarrow> address \<Rightarrow> u64" where
  "owned u a = (if u_Address u = a then u_Value u else 0)"

definition balance_of :: "('k \<rightharpoonup> UTXO) \<Rightarrow> address \<Rightarrow> u64" where
  "balance_of m a = (\<Sum>k \<in> dom m. owned (the (m k)) a)"

text \<open>The value held by a set of outputs, without wrap-around.\<close>

definition total_value :: "('k \<rightharpoonup> UTXO) \<Rightarrow> nat" where
  "total_value m = (\<Sum>k \<in> dom m. unat (u_Value (the (m k))))"

lemma sum_dom_upd:
  fixes f :: "'v \<Rightarrow> 'b::comm_monoid_add"
  assumes "finite (dom m)" and "m k = None"
  shows "(\<Sum>j \<in> dom (m(k \<mapsto> v)). f (the ((m(k \<mapsto> v)) j))) = f v + (\<Sum>j \<in> dom m. f (the (m j)))"
proof -
  have k: "k \<notin> dom m"
    using assms(2) by auto
  have "(\<Sum>j \<in> dom m. f (the ((m(k \<mapsto> v)) j))) = (\<Sum>j \<in> dom m. f (the (m j)))"
    using k by (intro sum.cong) auto
  with assms(1) k show ?thesis by simp
qed

lemma sum_dom_del:
  fixes f :: "'v \<Rightarrow> 'b::comm_monoid_add"
  assumes "finite (dom m)" and "m k = Some v"
  shows "f v + (\<Sum>j \<in> dom (m(k := None)). f (the ((m(k := None)) j))) = (\<Sum>j \<in> dom m. f (the (m j)))"
proof -
  have "m = (m(k := None))(k \<mapsto> v)"
    using assms(2) by auto
  then have "(\<Sum>j \<in> dom m. f (the (m j)))
      = (\<Sum>j \<in> dom ((m(k := None))(k \<mapsto> v)). f (the (((m(k := None))(k \<mapsto> v)) j)))"
    by (rule arg_cong)
  also have "\<dots> = f v + (\<Sum>j \<in> dom (m(k := None)). f (the ((m(k := None)) j)))"
    by (rule sum_dom_upd) (use assms(1) in \<open>simp_all del: fun_upd_apply\<close>, simp)
  finally show ?thesis by simp
qed

lemma balance_of_upd:
  "finite (dom m) \<Longrightarrow> m k = None \<Longrightarrow> balance_of (m(k \<mapsto> u)) a = owned u a + balance_of m a"
  unfolding balance_of_def by (rule sum_dom_upd)

lemma balance_of_del:
  "finite (dom m) \<Longrightarrow> m k = Some u \<Longrightarrow> balance_of (m(k := None)) a = balance_of m a - owned u a"
  using sum_dom_del [of m k u "\<lambda>u. owned u a"] by (simp add: balance_of_def algebra_simps)

lemma total_value_upd:
  "finite (dom m) \<Longrightarrow> m k = None \<Longrightarrow> total_value (m(k \<mapsto> u)) = unat (u_Value u) + total_value m"
  unfolding total_value_def by (rule sum_dom_upd)

lemma total_value_del:
  "finite (dom m) \<Longrightarrow> m k = Some u \<Longrightarrow> unat (u_Value u) + total_value (m(k := None)) = total_value m"
  unfolding total_value_def by (rule sum_dom_del)

text \<open>
  The invariant of the store: finitely many outputs, each under its own key, and a balance table
  that agrees with them for every address.
\<close>

definition store_inv :: "UTXOStore \<Rightarrow> bool" where
  "store_inv s \<longleftrightarrow> finite (dom (st_utxos s))
     \<and> (\<forall>k u. st_utxos s k = Some u \<longrightarrow> k = UTXOKey (u_TxHash u) (u_Index u))
     \<and> (\<forall>a. GetBalance s a = balance_of (st_utxos s) a)"

lemma map_get_upd [simp]: "map_get z (m(k \<mapsto> v)) j = (if j = k then v else map_get z m j)"
  by (simp add: map_get_def)

lemma map_get_debit: "map_get 0 (debit bal a v) b = (if b = a then map_get 0 bal a - v else map_get 0 bal b)"
  by (simp add: debit_def Let_def map_get_def)

lemma GetUTXO_AddUTXO:
  "GetUTXO (AddUTXO s u) h i = (if h = u_TxHash u \<and> i = u_Index u then Some u else GetUTXO s h i)"
  by (simp add: GetUTXO_def AddUTXO_def)

lemma store_inv_new: "store_inv NewUTXOStore"
  by (simp add: store_inv_def NewUTXOStore_def GetBalance_def map_get_def balance_of_def)

lemma store_inv_AddUTXO:
  assumes "store_inv s" and "GetUTXO s (u_TxHash u) (u_Index u) = None"
  shows "store_inv (AddUTXO s u)"
  using assms
  by (auto simp: store_inv_def AddUTXO_def GetUTXO_def GetBalance_def balance_of_upd owned_def add.commute)

lemma store_inv_SpendUTXO:
  assumes "store_inv s" and "SpendUTXO s h i = Inr s'"
  shows "store_inv s'"
  using assms
  by (auto simp: store_inv_def SpendUTXO_def GetBalance_def balance_of_del map_get_debit owned_def
      split: option.splits if_splits)

section \<open>The contract of a set of unspent outputs\<close>

type_synonym outpoint = "hash \<times> u32"

definition outpoint_of :: "TXInput \<Rightarrow> outpoint" where
  "outpoint_of i = (ti_TxHash i, ti_Index i)"

fun spend_all :: "('s \<Rightarrow> hash \<Rightarrow> u32 \<Rightarrow> ('e, 's) result) \<Rightarrow> 's \<Rightarrow> outpoint list \<Rightarrow> ('e, 's) result" where
  "spend_all spend s [] = Inr s"
| "spend_all spend s (p # ps) = rbind (spend s (fst p) (snd p)) (\<lambda>s'. spend_all spend s' ps)"

locale utxo_set =
  fixes get :: "'s \<Rightarrow> hash \<Rightarrow> u32 \<Rightarrow> UTXO option"
    and add :: "'s \<Rightarrow> UTXO \<Rightarrow> 's"
    and spend :: "'s \<Rightarrow> hash \<Rightarrow> u32 \<Rightarrow> ('e, 's) result"
    and holds :: "'s \<Rightarrow> nat"
    and invar :: "'s \<Rightarrow> bool"
  assumes get_add: "invar s \<Longrightarrow>
      get (add s u) h i = (if h = u_TxHash u \<and> i = u_Index u then Some u else get s h i)"
    and holds_add: "invar s \<Longrightarrow> get s (u_TxHash u) (u_Index u) = None \<Longrightarrow>
      holds (add s u) = unat (u_Value u) + holds s"
    and invar_add: "invar s \<Longrightarrow> get s (u_TxHash u) (u_Index u) = None \<Longrightarrow> invar (add s u)"
    and spend_ok: "invar s \<Longrightarrow> get s h i = Some u \<Longrightarrow>
      \<exists>s'. spend s h i = Inr s' \<and> invar s' \<and> unat (u_Value u) + holds s' = holds s
         \<and> (\<forall>h' i'. get s' h' i' = (if h' = h \<and> i' = i then None else get s h' i'))"
    and spend_missing: "invar s \<Longrightarrow> get s h i = None \<Longrightarrow> \<exists>e. spend s h i = Inl e"
begin

text \<open>An output is spent at most once.\<close>

lemma spend_twice: "invar s \<Longrightarrow> spend s h i = Inr s' \<Longrightarrow> \<exists>e. spend s' h i = Inl e"
  by (metis Inl_Inr_False Inr_inject not_None_eq spend_missing spend_ok)

text \<open>Spending a list of distinct present outputs succeeds, removes exactly them and takes their value.\<close>

lemma spend_all_ok:
  "invar s \<Longrightarrow> distinct ps \<Longrightarrow> (\<forall>p \<in> set ps. get s (fst p) (snd p) \<noteq> None) \<Longrightarrow>
   \<exists>s'. spend_all spend s ps = Inr s' \<and> invar s'
     \<and> sum_list (map (\<lambda>p. unat (u_Value (the (get s (fst p) (snd p))))) ps) + holds s' = holds s
     \<and> (\<forall>h i. get s' h i = (if (h, i) \<in> set ps then None else get s h i))"
proof (induction ps arbitrary: s)
  case Nil
  then show ?case by simp
next
  case (Cons p ps)
  obtain u where u: "get s (fst p) (snd p) = Some u"
    using Cons.prems by auto
  from spend_ok [OF Cons.prems(1) u] obtain s1 where s1: "spend s (fst p) (snd p) = Inr s1" and inv1: "invar s1"
    and h1: "unat (u_Value u) + holds s1 = holds s"
    and g1: "\<forall>h i. get s1 h i = (if h = fst p \<and> i = snd p then None else get s h i)"
    by blast
  have other: "get s1 (fst q) (snd q) = get s (fst q) (snd q)" if "q \<in> set ps" for q
    using that Cons.prems(2) g1 by (cases "q = p") (auto simp: prod_eq_iff)
  then have vals: "map (\<lambda>p. unat (u_Value (the (get s1 (fst p) (snd p))))) ps
      = map (\<lambda>p. unat (u_Value (the (get s (fst p) (snd p))))) ps"
    by (intro map_cong) simp_all
  obtain s' where s': "spend_all spend s1 ps = Inr s'" "invar s'"
    and tot: "sum_list (map (\<lambda>p. unat (u_Value (the (get s1 (fst p) (snd p))))) ps) + holds s' = holds s1"
    and g': "\<forall>h i. get s' h i = (if (h, i) \<in> set ps then None else get s1 h i)"
    using Cons.IH [OF inv1] Cons.prems other by auto
  have "sum_list (map (\<lambda>p. unat (u_Value (the (get s (fst p) (snd p))))) (p # ps)) + holds s' = holds s"
    using tot [unfolded vals] h1 u by simp
  moreover have "get s' h i = (if (h, i) \<in> set (p # ps) then None else get s h i)" for h i
    using g' g1 by (cases p) auto
  ultimately show ?case
    using s1 s' by simp
qed

end

interpretation mem_store: utxo_set GetUTXO AddUTXO SpendUTXO "\<lambda>s. total_value (st_utxos s)" store_inv
proof
  fix s and u :: UTXO and h i
  show "store_inv s \<Longrightarrow>
      GetUTXO (AddUTXO s u) h i = (if h = u_TxHash u \<and> i = u_Index u then Some u else GetUTXO s h i)"
    by (rule GetUTXO_AddUTXO)
next
  fix s and u :: UTXO
  assume "store_inv s" and "GetUTXO s (u_TxHash u) (u_Index u) = None"
  then show "total_value (st_utxos (AddUTXO s u)) = unat (u_Value u) + total_value (st_utxos s)"
    by (simp add: store_inv_def GetUTXO_def AddUTXO_def total_value_upd)
next
  fix s and u :: UTXO
  show "store_inv s \<Longrightarrow> GetUTXO s (u_TxHash u) (u_Index u) = None \<Longrightarrow> store_inv (AddUTXO s u)"
    by (rule store_inv_AddUTXO)
next
  fix s h i u
  assume inv: "store_inv s" and g: "GetUTXO s h i = Some u"
  then obtain s' where s': "SpendUTXO s h i = Inr s'"
    by (auto simp: SpendUTXO_def GetUTXO_def)
  moreover have "store_inv s'"
    using inv s' by (rule store_inv_SpendUTXO)
  moreover have "unat (u_Value u) + total_value (st_utxos s') = total_value (st_utxos s)"
    using s' g inv by (auto simp: SpendUTXO_def GetUTXO_def store_inv_def total_value_del)
  moreover have "GetUTXO s' h' i' = (if h' = h \<and> i' = i then None else GetUTXO s h' i')" for h' i'
    using s' g by (auto simp: SpendUTXO_def GetUTXO_def)
  ultimately show "\<exists>s'. SpendUTXO s h i = Inr s' \<and> store_inv s'
      \<and> unat (u_Value u) + total_value (st_utxos s') = total_value (st_utxos s)
      \<and> (\<forall>h' i'. GetUTXO s' h' i' = (if h' = h \<and> i' = i then None else GetUTXO s h' i'))"
    by blast
next
  fix s h i
  show "store_inv s \<Longrightarrow> GetUTXO s h i = None \<Longrightarrow> \<exists>e. SpendUTXO s h i = Inl e"
    by (simp add: SpendUTXO_def GetUTXO_def)
qed

section \<open>Applying a transaction\<close>

lemma check_inputs_ok:
  "check_inputs s ins seen = Inr () \<longleftrightarrow>
     distinct (map outpoint_of ins)
     \<and> (\<forall>i \<in> set ins. GetUTXO s (ti_TxHash i) (ti_Index i) \<noteq> None
          \<and> UTXOKey (ti_TxHash i) (ti_Index i) \<notin> seen)"
  by (induction ins arbitrary: seen)
    (auto simp: Let_def HasUTXO_def GetUTXO_def outpoint_of_def image_iff)

lemma spend_inputs_spend_all:
  "spend_inputs s ins = Inr s' \<longleftrightarrow> spend_all SpendUTXO s (map outpoint_of ins) = Inr s'"
  by (induction ins arbitrary: s) (auto simp: Let_def SpendUTXO_def outpoint_of_def split: option.splits)

lemma GetUTXO_add_outputs:
  "n + length outs \<le> 2 ^ 32 \<Longrightarrow>
   GetUTXO (add_outputs s txHash n outs) h i =
     (if h = txHash \<and> n \<le> unat i \<and> unat i < n + length outs
      then Some (output_utxo txHash (unat i) (outs ! (unat i - n))) else GetUTXO s h i)"
proof (induction outs arbitrary: s n)
  case Nil
  then show ?case by auto
next
  case (Cons out outs)
  have idx: "unat (of_nat n :: u32) = n"
    using Cons.prems by (simp add: unat_of_nat)
  have "GetUTXO (AddUTXO s (output_utxo txHash n out)) h i =
      (if h = txHash \<and> unat i = n then Some (output_utxo txHash n out) else GetUTXO s h i)"
    using idx by (auto simp: GetUTXO_AddUTXO output_utxo_def)
  with Cons show ?case
    by (auto simp: nth_Cons' not_less_eq_eq)
qed

lemma add_outputs_inv:
  "store_inv s \<Longrightarrow> n + length outs \<le> 2 ^ 32 \<Longrightarrow>
   (\<forall>i. n \<le> unat i \<and> unat i < n + length outs \<longrightarrow> GetUTXO s txHash i = None) \<Longrightarrow>
   store_inv (add_outputs s txHash n outs)
   \<and> total_value (st_utxos (add_outputs s txHash n outs))
       = total_value (st_utxos s) + exact_sum (map to_Value outs)"
proof (induction outs arbitrary: s n)
  case Nil
  then show ?case by simp
next
  case (Cons out outs)
  let ?u = "output_utxo txHash n out"
  have idx: "unat (of_nat n :: u32) = n"
    using Cons.prems by (simp add: unat_of_nat)
  have fresh: "GetUTXO s (u_TxHash ?u) (u_Index ?u) = None"
    using Cons.prems(3) idx by (simp add: output_utxo_def)
  have "store_inv (AddUTXO s ?u)"
    using Cons.prems(1) fresh by (rule store_inv_AddUTXO)
  moreover have "GetUTXO (AddUTXO s ?u) txHash i = None"
    if "Suc n \<le> unat i \<and> unat i < Suc n + length outs" for i
    using that Cons.prems(3) idx by (auto simp: GetUTXO_AddUTXO output_utxo_def)
  moreover have "total_value (st_utxos (AddUTXO s ?u)) = unat (to_Value out) + total_value (st_utxos s)"
    using mem_store.holds_add [OF Cons.prems(1) fresh] by (simp add: output_utxo_def)
  ultimately show ?case
    using Cons.IH [of "AddUTXO s ?u" "Suc n"] Cons.prems(2) by simp
qed

lemma ApplyTransaction_cases:
  assumes "store_inv s" and "ApplyTransaction C s tx = Inr s'"
  obtains s1 where "store_inv s1" and "s' = add_outputs s1 (TxHash C tx) 0 (tx_Outputs tx)"
    and "exact_sum (input_values (GetUTXO s) tx) + total_value (st_utxos s1) = total_value (st_utxos s)"
    and "\<forall>h i. GetUTXO s1 h i = (if (h, i) \<in> outpoint_of ` set (tx_Inputs tx) then None else GetUTXO s h i)"
    and "distinct (map outpoint_of (tx_Inputs tx))"
    and "\<forall>i \<in> set (tx_Inputs tx). GetUTXO s (ti_TxHash i) (ti_Index i) \<noteq> None"
proof -
  have chk: "check_inputs s (tx_Inputs tx) {} = Inr ()"
    using assms(2) by (auto simp: ApplyTransaction_def ValidateTransaction_def rbind_Inr_iff)
  obtain s1 where sp: "spend_inputs s (tx_Inputs tx) = Inr s1"
    and s': "s' = add_outputs s1 (TxHash C tx) 0 (tx_Outputs tx)"
    using assms(2) by (auto simp: ApplyTransaction_def rbind_Inr_iff)
  let ?ps = "map outpoint_of (tx_Inputs tx)"
  have d: "distinct ?ps" and ex: "\<forall>i \<in> set (tx_Inputs tx). GetUTXO s (ti_TxHash i) (ti_Index i) \<noteq> None"
    using chk by (auto simp: check_inputs_ok)
  then obtain s2 where s2: "spend_all SpendUTXO s ?ps = Inr s2" "store_inv s2"
    and tot: "sum_list (map (\<lambda>p. unat (u_Value (the (GetUTXO s (fst p) (snd p))))) ?ps)
         + total_value (st_utxos s2) = total_value (st_utxos s)"
    and get: "\<forall>h i. GetUTXO s2 h i = (if (h, i) \<in> set ?ps then None else GetUTXO s h i)"
    using mem_store.spend_all_ok [OF assms(1), of ?ps] by (auto simp: outpoint_of_def)
  have eq: "s2 = s1"
    using sp s2(1) by (simp add: spend_inputs_spend_all)
  have "exact_sum (input_values (GetUTXO s) tx) + total_value (st_utxos s1) = total_value (st_utxos s)"
    using tot eq by (simp add: exact_sum_def input_values_def outpoint_of_def comp_def)
  with that [of s1] s2(2) s' get d ex eq show thesis by simp
qed

lemma select_utxos_result:
  assumes "select_utxos addr amount us sel tot = (sel', tot')"
    and "tot = sum_list (map u_Value sel)"
    and "\<forall>u \<in> set sel. u_Address u = addr \<and> \<not> IsStakeOutput u"
  shows "tot' = sum_list (map u_Value sel')
    \<and> (\<forall>u \<in> set sel'. u_Address u = addr \<and> \<not> IsStakeOutput u)
    \<and> set sel' \<subseteq> set sel \<union> set us"
  using assms
proof (induction us arbitrary: sel tot)
  case Nil
  then show ?case by auto
next
  case (Cons u us)
  let ?mine = "u_Address u = addr \<and> \<not> IsStakeOutput u" and ?tot = "tot + u_Value u"
  consider (skip) "\<not> ?mine" | (stop) ?mine "?tot \<ge> amount" | (more) ?mine "\<not> ?tot \<ge> amount"
    by blast
  then show ?case
  proof cases
    case skip
    then have "select_utxos addr amount us sel tot = (sel', tot')"
      using Cons.prems(1) by (auto split: if_splits)
    from Cons.IH [OF this Cons.prems(2,3)] show ?thesis by auto
  next
    case stop
    with Cons.prems show ?thesis by (auto simp: Let_def)
  next
    case more
    then have "select_utxos addr amount us (sel @ [u]) ?tot = (sel', tot')"
      using Cons.prems(1) by (simp add: Let_def)
    from Cons.IH [OF this] more(1) Cons.prems(2,3) show ?thesis by auto
  qed
qed

section \<open>Properties\<close>

text \<open>C1. What applying a transaction does to the set of unspent outputs: if \<^verbatim>\<open>ApplyTransaction\<close> succeeds, the
  outputs it spent were present and pairwise different, a lookup afterwards finds the new outputs
  under the transaction's hash, finds none of the spent ones, and finds everything else unchanged.\<close>

theorem apply_transaction_lookup:
  assumes "store_inv s" and "ApplyTransaction C s tx = Inr s'" and "length (tx_Outputs tx) \<le> 2 ^ 32"
  shows "GetUTXO s' h i =
      (if h = TxHash C tx \<and> unat i < length (tx_Outputs tx)
       then Some (output_utxo (TxHash C tx) (unat i) (tx_Outputs tx ! unat i))
       else if (h, i) \<in> outpoint_of ` set (tx_Inputs tx) then None else GetUTXO s h i)
    \<and> distinct (map outpoint_of (tx_Inputs tx))
    \<and> (\<forall>j \<in> set (tx_Inputs tx). GetUTXO s (ti_TxHash j) (ti_Index j) \<noteq> None)"
proof -
  obtain s1 where "s' = add_outputs s1 (TxHash C tx) 0 (tx_Outputs tx)"
    and "\<forall>h i. GetUTXO s1 h i =
        (if (h, i) \<in> outpoint_of ` set (tx_Inputs tx) then None else GetUTXO s h i)"
    and "distinct (map outpoint_of (tx_Inputs tx))"
    and "\<forall>j \<in> set (tx_Inputs tx). GetUTXO s (ti_TxHash j) (ti_Index j) \<noteq> None"
    using assms(1,2) by (rule ApplyTransaction_cases)
  with assms(3) show ?thesis
    by (simp add: GetUTXO_add_outputs)
qed

text \<open>C27. Applying a transaction keeps the books: when its outputs are not in the set yet, the store's
  invariant survives, so the balance table still gives every address the sum of its outputs, and
  the total value changes by exactly what the outputs create minus what the inputs held.\<close>

theorem apply_transaction_books:
  assumes "store_inv s" and "ApplyTransaction C s tx = Inr s'" and "length (tx_Outputs tx) \<le> 2 ^ 32"
    and "\<forall>i. unat i < length (tx_Outputs tx) \<longrightarrow> GetUTXO s (TxHash C tx) i = None"
  shows "(\<forall>a. GetBalance s' a = balance_of (st_utxos s') a) \<and> store_inv s'
    \<and> total_value (st_utxos s') + exact_sum (input_values (GetUTXO s) tx)
        = total_value (st_utxos s) + exact_sum (output_values tx)"
proof -
  obtain s1 where s1: "store_inv s1" and s': "s' = add_outputs s1 (TxHash C tx) 0 (tx_Outputs tx)"
    and tot: "exact_sum (input_values (GetUTXO s) tx) + total_value (st_utxos s1) = total_value (st_utxos s)"
    and get: "\<forall>h i. GetUTXO s1 h i =
        (if (h, i) \<in> outpoint_of ` set (tx_Inputs tx) then None else GetUTXO s h i)"
    using assms(1,2) by (rule ApplyTransaction_cases)
  have "store_inv s'
    \<and> total_value (st_utxos s') = total_value (st_utxos s1) + exact_sum (map to_Value (tx_Outputs tx))"
    unfolding s' using s1 assms(3,4) get by (intro add_outputs_inv) auto
  then show ?thesis
    using tot by (auto simp: store_inv_def output_values_def)
qed

text \<open>After validation nothing can go wrong half way: if \<^verbatim>\<open>ValidateTransaction\<close> accepts, \<^verbatim>\<open>ApplyTransaction\<close>
  succeeds; its unchecked pointer reads never hit a missing entry.\<close>

theorem apply_after_validate:
  assumes "store_inv s" and "ValidateTransaction C s tx = Inr ()"
  shows "\<exists>s'. ApplyTransaction C s tx = Inr s'"
proof -
  have "check_inputs s (tx_Inputs tx) {} = Inr ()"
    using assms(2) by (auto simp: ValidateTransaction_def rbind_Inr_iff)
  then obtain s1 where "spend_all SpendUTXO s (map outpoint_of (tx_Inputs tx)) = Inr s1"
    using mem_store.spend_all_ok [OF assms(1), of "map outpoint_of (tx_Inputs tx)"]
    by (auto simp: check_inputs_ok outpoint_of_def)
  then have "spend_inputs s (tx_Inputs tx) = Inr s1"
    by (simp add: spend_inputs_spend_all)
  with assms(2) show ?thesis by (simp add: ApplyTransaction_def)
qed

definition sample_utxo :: UTXO where
  "sample_utxo = \<lparr>u_TxHash = 7, u_Index = 1, u_Value = 12, u_Script = [], u_Address = 4\<rparr>"

definition sample_store :: UTXOStore where
  "sample_store = AddUTXO NewUTXOStore sample_utxo"

definition signed_tx :: Transaction where
  "signed_tx = NewTransaction
     [\<lparr>ti_TxHash = 7, ti_Index = 1, ti_Signature = replicate 64 2, ti_PublicKey = replicate 32 2\<rparr>]
     [sample_output]"

definition demo_crypto :: crypto where
  "demo_crypto = sample_crypto\<lparr>sha256 := \<lambda>_. 5\<rparr>"

lemma sample_store_inv: "store_inv sample_store"
  unfolding sample_store_def
  by (intro store_inv_AddUTXO store_inv_new) (simp add: GetUTXO_def NewUTXOStore_def)

lemma sample_store_get: "GetUTXO sample_store h i = (if h = 7 \<and> i = 1 then Some sample_utxo else None)"
  by (simp add: sample_store_def GetUTXO_AddUTXO sample_utxo_def) (simp add: GetUTXO_def NewUTXOStore_def)

lemma signed_tx_valid: "ValidateTransaction demo_crypto sample_store signed_tx = Inr ()"
  using sample_store_get [of 7 1]
  by (simp add: ValidateTransaction_def signed_tx_def NewTransaction_def HasUTXO_def GetUTXO_def
      VerifyInput_def ed25519_Verify_def demo_crypto_def sample_crypto_def)

lemma signed_tx_hash: "TxHash demo_crypto signed_tx = 5"
  by (simp add: TxHash_def sha256d_def demo_crypto_def)

theorem apply_after_validate_witness:
  "store_inv sample_store \<and> ValidateTransaction demo_crypto sample_store signed_tx = Inr ()
   \<and> (\<exists>s'. ApplyTransaction demo_crypto sample_store signed_tx = Inr s')"
  using sample_store_inv signed_tx_valid apply_after_validate [OF sample_store_inv signed_tx_valid]
  by simp

lemma signed_tx_applies:
  "ApplyTransaction demo_crypto sample_store signed_tx
     = Inr (add_outputs \<lparr>st_utxos = (st_utxos sample_store)(UTXOKey 7 1 := None),
                        st_balances = debit (st_balances sample_store) 4 12\<rparr> 5 0 [sample_output])"
  using sample_store_get [of 7 1] signed_tx_valid
  by (simp add: ApplyTransaction_def signed_tx_hash)
    (simp add: signed_tx_def NewTransaction_def GetUTXO_def sample_utxo_def)

theorem apply_transaction_lookup_witness:
  "\<exists>s'. ApplyTransaction demo_crypto sample_store signed_tx = Inr s'
     \<and> GetUTXO s' 5 0 = Some (output_utxo 5 0 sample_output) \<and> GetUTXO s' 7 1 = None"
proof -
  obtain s' where s': "ApplyTransaction demo_crypto sample_store signed_tx = Inr s'"
    using signed_tx_applies by blast
  have len: "length (tx_Outputs signed_tx) \<le> 2 ^ 32"
    by (simp add: signed_tx_def NewTransaction_def)
  show ?thesis
    using s' apply_transaction_lookup [OF sample_store_inv s' len, of 5 0]
      apply_transaction_lookup [OF sample_store_inv s' len, of 7 1]
    by (simp add: signed_tx_hash) (simp add: signed_tx_def NewTransaction_def outpoint_of_def)
qed

theorem apply_transaction_books_witness:
  "\<exists>s'. ApplyTransaction demo_crypto sample_store signed_tx = Inr s' \<and> store_inv s'
     \<and> total_value (st_utxos s') + exact_sum (input_values (GetUTXO sample_store) signed_tx)
        = total_value (st_utxos sample_store) + exact_sum (output_values signed_tx)"
proof -
  obtain s' where s': "ApplyTransaction demo_crypto sample_store signed_tx = Inr s'"
    using signed_tx_applies by blast
  have len: "length (tx_Outputs signed_tx) \<le> 2 ^ 32"
    by (simp add: signed_tx_def NewTransaction_def)
  have fresh: "\<forall>i. unat i < length (tx_Outputs signed_tx) \<longrightarrow>
      GetUTXO sample_store (TxHash demo_crypto signed_tx) i = None"
    by (simp add: signed_tx_hash sample_store_get)
  show ?thesis
    using s' apply_transaction_books [OF sample_store_inv s' len fresh] by blast
qed

text \<open>C32. Coin selection: in whatever order the map is ranged over, \<^verbatim>\<open>GetUTXOsForAmount\<close> returns outputs of
  the store that belong to the address and are not locked as stake, together with the sum of their
  values (modulo two to the 64), and that sum covers the amount.\<close>

theorem coin_selection_sound:
  assumes "iteration_of ks (st_utxos s)" and "GetUTXOsForAmount ks s addr amount = Inr (sel, tot)"
  shows "set sel \<subseteq> ran (st_utxos s) \<and> (\<forall>u \<in> set sel. u_Address u = addr \<and> \<not> IsStakeOutput u)
    \<and> tot = sum_list (map u_Value sel) \<and> amount \<le> tot"
proof -
  have sel: "select_utxos addr amount (range_values ks (st_utxos s)) [] 0 = (sel, tot)"
    and "amount \<le> tot"
    using assms(2) by (auto simp: GetUTXOsForAmount_def split: prod.splits if_splits)
  with select_utxos_result [OF sel] show ?thesis
    by (auto simp: set_range_values [OF assms(1)])
qed

theorem coin_selection_sound_witness:
  "iteration_of [UTXOKey 7 1] (st_utxos sample_store)
   \<and> GetUTXOsForAmount [UTXOKey 7 1] sample_store 4 10 = Inr ([sample_utxo], 12)
   \<and> \<not> IsStakeOutput sample_utxo \<and> (10 :: u64) \<le> 12"
proof -
  have it: "iteration_of [UTXOKey 7 1] (st_utxos sample_store)"
    by (simp add: iteration_of_def sample_store_def AddUTXO_def NewUTXOStore_def sample_utxo_def)
  have g: "GetUTXOsForAmount [UTXOKey 7 1] sample_store 4 10 = Inr ([sample_utxo], 12)"
    using sample_store_get [of 7 1]
    by (simp add: GetUTXOsForAmount_def range_values_map [OF it] GetUTXO_def)
      (simp add: sample_utxo_def IsStakeOutput_def)
  show ?thesis
    using it g coin_selection_sound [OF it g] by simp
qed

end
