(* ===== verification/Staking.thy ===== *)
theory Staking
  imports UTXO_Store "HOL-Library.Multiset"
begin

text \<open>
  \<^verbatim>\<open>pkg/utxo/staking.go\<close>: stake outputs, the stake index derived from the unspent outputs, the weights
  of proposer selection, and the checks of stake and unstake transactions. The range over the
  weight map is an explicit key order; the theorems show that it does not matter.
\<close>

section \<open>Operations\<close>

definition UnstakeCooldownBlocks :: u64 where
  "UnstakeCooldownBlocks = 3"

definition IsStakeOutputTx :: "TXOutput \<Rightarrow> bool" where
  "IsStakeOutputTx out \<longleftrightarrow> length (to_Script out) > 0 \<and> to_Script out ! 0 = StakeScriptTag"

record StakeEntry =
  se_StakeTxHash :: hash
  se_Index :: u32
  se_Owner :: address
  se_Value :: u64
  se_LockedAt :: u64

definition stake_entry :: "UTXO \<Rightarrow> StakeEntry" where
  "stake_entry u = \<lparr>se_StakeTxHash = u_TxHash u, se_Index = u_Index u, se_Owner = u_Address u,
                    se_Value = u_Value u, se_LockedAt = 0\<rparr>"

fun BuildStakeIndex :: "UTXO list \<Rightarrow> StakeEntry list" where
  "BuildStakeIndex [] = []"
| "BuildStakeIndex (u # us) =
     (if IsStakeOutput u then stake_entry u # BuildStakeIndex us else BuildStakeIndex us)"

text \<open>\<^verbatim>\<open>bytesLess\<close> on byte slices.\<close>

fun bytesLess :: "bytes \<Rightarrow> bytes \<Rightarrow> bool" where
  "bytesLess (a # as) (b # bs) = (if a \<noteq> b then a < b else bytesLess as bs)"
| "bytesLess [] bs = (bs \<noteq> [])"
| "bytesLess (a # as) [] = False"

text \<open>The map of weights: \<^verbatim>\<open>m[e.Owner] += e.Value\<close> for every entry.\<close>

definition add_weight :: "(address \<rightharpoonup> u64) \<Rightarrow> StakeEntry \<Rightarrow> (address \<rightharpoonup> u64)" where
  "add_weight m e = m(se_Owner e \<mapsto> map_get 0 m (se_Owner e) + se_Value e)"

definition weight_map :: "StakeEntry list \<Rightarrow> (address \<rightharpoonup> u64)" where
  "weight_map entries = foldl add_weight Map.empty entries"

text \<open>
  \<^verbatim>\<open>sort.Slice(addrs, bytesLess)\<close>, written as an insertion sort: the keys of a map are pairwise
  different, so every sorting routine returns this list.
\<close>

fun insert_address :: "address \<Rightarrow> address list \<Rightarrow> address list" where
  "insert_address a [] = [a]"
| "insert_address a (b # bs) =
     (if bytesLess (hash_bytes b) (hash_bytes a) then b # insert_address a bs else a # b # bs)"

fun sort_addresses :: "address list \<Rightarrow> address list" where
  "sort_addresses [] = []"
| "sort_addresses (a # as) = insert_address a (sort_addresses as)"

definition StakeWeights :: "address list \<Rightarrow> StakeEntry list \<Rightarrow> address list \<times> u64 list" where
  "StakeWeights ks entries =
     (let m = weight_map entries; addrs = sort_addresses ks in
      (addrs, map (\<lambda>a. map_get 0 m a) addrs))"

datatype stake_error =
    StakeOutputCount nat
  | StakeOutputsExceedInputs u64 u64
  | UnstakeTooEarly u64 u64
  | UnstakeNoStake
  | UnstakeCreatesStake
  | UnstakeOutputsExceedInputs u64 u64

definition sum_utxos :: "UTXO list \<Rightarrow> u64" where
  "sum_utxos us = foldl (\<lambda>acc u. acc + u_Value u) 0 us"

definition ValidateStakeTx :: "Transaction \<Rightarrow> UTXO list \<Rightarrow> (stake_error, unit) result" where
  "ValidateStakeTx tx inputUTXOs =
     (let stakeOuts = length (filter IsStakeOutputTx (tx_Outputs tx)) in
      if stakeOuts \<noteq> 1 then Inl (StakeOutputCount stakeOuts)
      else let inp = sum_utxos inputUTXOs; out = TotalOutputValue tx in
        if inp < out then Inl (StakeOutputsExceedInputs out inp) else Inr ())"

text \<open>The loop over the inputs of an unstake: the number of stakes consumed, or the early return.\<close>

fun count_unstaked :: "u64 \<Rightarrow> (hash \<rightharpoonup> u64) \<Rightarrow> UTXO list \<Rightarrow> nat \<Rightarrow> (stake_error, nat) result" where
  "count_unstaked height createdAt [] n = Inr n"
| "count_unstaked height createdAt (u # us) n =
     (if IsStakeOutput u
      then let created = map_get 0 createdAt (u_TxHash u) in
        if height < created + UnstakeCooldownBlocks then Inl (UnstakeTooEarly created height)
        else count_unstaked height createdAt us (Suc n)
      else count_unstaked height createdAt us n)"

definition ValidateUnstakeTx ::
  "Transaction \<Rightarrow> UTXO list \<Rightarrow> u64 \<Rightarrow> (hash \<rightharpoonup> u64) \<Rightarrow> (stake_error, unit) result" where
  "ValidateUnstakeTx tx inputUTXOs currentHeight stakeCreatedHeight =
     (case count_unstaked currentHeight stakeCreatedHeight inputUTXOs 0 of
        Inl e \<Rightarrow> Inl e
      | Inr consumedStake \<Rightarrow>
          if consumedStake = 0 then Inl UnstakeNoStake
          else if list_ex IsStakeOutputTx (tx_Outputs tx) then Inl UnstakeCreatesStake
          else let inp = sum_utxos inputUTXOs; out = TotalOutputValue tx in
            if inp < out then Inl (UnstakeOutputsExceedInputs out inp) else Inr ())"

section \<open>Weights\<close>

lemma bytesLess_be_val:
  "length as = length bs \<Longrightarrow> bytesLess as bs \<longleftrightarrow> be_val as < be_val bs"
proof (induction as bs rule: list_induct2)
  case Nil
  then show ?case by (simp add: be_val_def)
next
  case (Cons x xs y ys)
  have split: "be_val (z # zs) = unat z * 256 ^ length zs + be_val zs" for z zs
  proof -
    have "le_val (ws @ [z]) = le_val ws + unat z * 256 ^ length ws" for ws
      by (induction ws) (simp_all add: algebra_simps)
    then show ?thesis by (simp add: be_val_def)
  qed
  have small: "be_val xs < 256 ^ length xs" "be_val ys < 256 ^ length ys"
    using be_val_bound by auto
  consider "x = y" | "unat x < unat y" | "unat y < unat x"
    by (metis linorder_neqE_nat word_unat_eq_iff)
  then show ?case
  proof cases
    case 1
    with Cons show ?thesis by (simp add: split)
  next
    case 2
    then have "unat x * 256 ^ length ys + 256 ^ length ys \<le> unat y * 256 ^ length ys"
      by (metis Suc_leI add.commute mult_Suc mult_le_mono1)
    with 2 small Cons.hyps show ?thesis by (auto simp: split word_less_nat_alt)
  next
    case 3
    then have "unat y * 256 ^ length ys + 256 ^ length ys \<le> unat x * 256 ^ length ys"
      by (metis Suc_leI add.commute mult_Suc mult_le_mono1)
    with 3 small Cons.hyps show ?thesis by (auto simp: split word_less_nat_alt)
  qed
qed

text \<open>Comparing addresses byte by byte is comparing them as numbers.\<close>

lemma bytesLess_address [simp]: "bytesLess (hash_bytes a) (hash_bytes b) \<longleftrightarrow> a < b"
proof -
  have "be_val (hash_bytes h) = unat h" for h
    using unat_bound [of h] by (simp add: hash_bytes_def be_val_be_bytes)
  then show ?thesis by (simp add: bytesLess_be_val word_less_nat_alt)
qed

lemma insert_address_insort: "insert_address a bs = insort a bs"
  by (induction bs) auto

lemma sort_addresses_sort: "sort_addresses as = sort as"
  by (induction as) (simp_all add: insert_address_insort)

definition stake_of :: "StakeEntry list \<Rightarrow> address \<Rightarrow> u64" where
  "stake_of entries a = sum_list (map se_Value (filter (\<lambda>e. se_Owner e = a) entries))"

lemma weight_map_aux:
  "map_get 0 (foldl add_weight m entries) a = map_get 0 m a + stake_of entries a
   \<and> dom (foldl add_weight m entries) = dom m \<union> se_Owner ` set entries"
proof (induction entries arbitrary: m)
  case Nil
  then show ?case by (simp add: stake_of_def)
next
  case (Cons e entries)
  from Cons [of "add_weight m e"] show ?case
    by (auto simp: add_weight_def stake_of_def add.assoc map_get_def split: option.splits)
qed

lemma weight_map_get: "map_get 0 (weight_map entries) a = stake_of entries a"
  by (simp add: weight_map_def weight_map_aux [THEN conjunct1]) (simp add: map_get_def)

lemma dom_weight_map: "dom (weight_map entries) = se_Owner ` set entries"
  using weight_map_aux [of Map.empty entries] by (simp add: weight_map_def)

lemma stake_of_mset: "mset es = mset es' \<Longrightarrow> stake_of es a = stake_of es' a"
proof -
  assume "mset es = mset es'"
  then have "mset (map se_Value (filter (\<lambda>e. se_Owner e = a) es))
      = mset (map se_Value (filter (\<lambda>e. se_Owner e = a) es'))"
    by simp
  then show ?thesis
    unfolding stake_of_def by (metis sum_mset_sum_list)
qed

lemma iteration_sort_unique:
  fixes ks ks' :: "('a::linorder) list"
  assumes "iteration_of ks m" and "iteration_of ks' m'" and "dom m = dom m'"
  shows "sort ks = sort ks'"
  using assms unfolding iteration_of_def
  by (intro sorted_distinct_set_unique) auto

lemma StakeWeights_sorted:
  assumes "iteration_of ks (weight_map entries)"
  shows "StakeWeights ks entries = (sort ks, map (stake_of entries) (sort ks))"
  by (simp add: StakeWeights_def Let_def sort_addresses_sort weight_map_get)

lemma sum_stake_of:
  "distinct as \<Longrightarrow> se_Owner ` set entries \<subseteq> set as \<Longrightarrow>
   sum_list (map (stake_of entries) as) = sum_list (map se_Value entries)"
proof (induction entries)
  case Nil
  then show ?case by (simp add: stake_of_def)
next
  case (Cons e entries)
  have one: "sum_list (map (\<lambda>a. if a = se_Owner e then se_Value e else 0) as) = se_Value e"
    using Cons.prems by (simp add: sum_list_distinct_conv_sum_set)
  have "stake_of (e # entries) = (\<lambda>a. (if a = se_Owner e then se_Value e else 0) + stake_of entries a)"
    by (auto simp: stake_of_def)
  then have "sum_list (map (stake_of (e # entries)) as)
      = sum_list (map (\<lambda>a. if a = se_Owner e then se_Value e else 0) as)
        + sum_list (map (stake_of entries) as)"
    by (simp add: sum_list_addf)
  with one Cons show ?case by simp
qed

lemma BuildStakeIndex_filter: "BuildStakeIndex us = map stake_entry (filter IsStakeOutput us)"
  by (induction us) auto

lemma mset_range_values:
  "iteration_of ks m \<Longrightarrow> iteration_of ks' m \<Longrightarrow> mset (range_values ks m) = mset (range_values ks' m)"
  by (metis (no_types) iteration_of_def mset_map range_values_map set_eq_iff_mset_eq_distinct)

section \<open>Unstaking\<close>

lemma count_unstaked_ok:
  "count_unstaked h cr us n = Inr m \<longleftrightarrow>
     m = n + length (filter IsStakeOutput us)
     \<and> (\<forall>u \<in> set us. IsStakeOutput u \<longrightarrow> map_get 0 cr (u_TxHash u) + UnstakeCooldownBlocks \<le> h)"
  by (induction us arbitrary: n) (auto simp: Let_def)

section \<open>Properties\<close>

text \<open>Stake weights are a function of the chain state alone: whatever order Go ranges over the set of
  unspent outputs and over the weight map, two nodes with the same store compute the same list of
  addresses, strictly ascending, and the same weights; each weight is the sum of that owner's live
  stake outputs, and the weights add up to the whole stake.\<close>

theorem stake_weights_deterministic:
  fixes ks ks' :: "string list" and as as' :: "address list" and s :: UTXOStore
  assumes "iteration_of ks (st_utxos s)" and "iteration_of ks' (st_utxos s)"
    and "iteration_of as (weight_map (BuildStakeIndex (GetAllUTXOsAll ks s)))"
    and "iteration_of as' (weight_map (BuildStakeIndex (GetAllUTXOsAll ks' s)))"
  shows "StakeWeights as (BuildStakeIndex (GetAllUTXOsAll ks s))
       = StakeWeights as' (BuildStakeIndex (GetAllUTXOsAll ks' s))
    \<and> sorted_wrt (<) (fst (StakeWeights as (BuildStakeIndex (GetAllUTXOsAll ks s))))
    \<and> snd (StakeWeights as (BuildStakeIndex (GetAllUTXOsAll ks s)))
        = map (\<lambda>a. sum_list (map u_Value
                 (filter (\<lambda>u. IsStakeOutput u \<and> u_Address u = a) (GetAllUTXOsAll ks s))))
            (fst (StakeWeights as (BuildStakeIndex (GetAllUTXOsAll ks s))))
    \<and> sum_list (snd (StakeWeights as (BuildStakeIndex (GetAllUTXOsAll ks s))))
        = sum_list (map u_Value (filter IsStakeOutput (GetAllUTXOsAll ks s)))"
proof -
  let ?e = "BuildStakeIndex (GetAllUTXOsAll ks s)" and ?e' = "BuildStakeIndex (GetAllUTXOsAll ks' s)"
  have m: "mset ?e = mset ?e'"
    using mset_range_values [OF assms(1,2)] by (simp add: BuildStakeIndex_filter GetAllUTXOsAll_def)
  then have "sort as = sort as'"
    using iteration_sort_unique [OF assms(3,4)] by (simp add: dom_weight_map mset_eq_setD [OF m])
  moreover have "stake_of ?e = stake_of ?e'"
    using m by (auto intro: stake_of_mset)
  moreover have "sorted_wrt (<) (sort as)"
    using assms(3) by (simp add: iteration_of_def strict_sorted_iff)
  moreover have "stake_of ?e a = sum_list (map u_Value
      (filter (\<lambda>u. IsStakeOutput u \<and> u_Address u = a) (GetAllUTXOsAll ks s)))" for a
    by (simp add: stake_of_def BuildStakeIndex_filter filter_map comp_def stake_entry_def conj_commute)
  moreover have "sum_list (map (stake_of ?e) (sort as)) = sum_list (map se_Value ?e)"
    using assms(3) by (intro sum_stake_of) (auto simp: iteration_of_def dom_weight_map)
  moreover have "map se_Value ?e = map u_Value (filter IsStakeOutput (GetAllUTXOsAll ks s))"
    by (simp add: BuildStakeIndex_filter stake_entry_def)
  ultimately show ?thesis
    by (simp add: StakeWeights_sorted [OF assms(3)] StakeWeights_sorted [OF assms(4)])
qed

definition stake_utxo :: "nat \<Rightarrow> nat \<Rightarrow> UTXO" where
  "stake_utxo a v = \<lparr>u_TxHash = of_nat a, u_Index = 0, u_Value = of_nat v,
                     u_Script = [StakeScriptTag], u_Address = of_nat a\<rparr>"

definition stake_store :: UTXOStore where
  "stake_store = AddUTXO (AddUTXO NewUTXOStore (stake_utxo 9 30)) (stake_utxo 4 12)"

lemma stake_store_utxos:
  "st_utxos stake_store = [UTXOKey 9 0 \<mapsto> stake_utxo 9 30, UTXOKey 4 0 \<mapsto> stake_utxo 4 12]"
  by (simp add: stake_store_def AddUTXO_def NewUTXOStore_def stake_utxo_def)

lemma stake_store_index:
  "GetAllUTXOsAll [UTXOKey 9 0, UTXOKey 4 0] stake_store = [stake_utxo 9 30, stake_utxo 4 12]"
  "GetAllUTXOsAll [UTXOKey 4 0, UTXOKey 9 0] stake_store = [stake_utxo 4 12, stake_utxo 9 30]"
  by (simp_all add: GetAllUTXOsAll_def range_values_def map_filter_def stake_store_utxos)

theorem stake_weights_deterministic_witness:
  "StakeWeights [9, 4] (BuildStakeIndex (GetAllUTXOsAll [UTXOKey 9 0, UTXOKey 4 0] stake_store))
   = StakeWeights [4, 9] (BuildStakeIndex (GetAllUTXOsAll [UTXOKey 4 0, UTXOKey 9 0] stake_store))"
proof -
  have it: "iteration_of [UTXOKey 9 0, UTXOKey 4 0] (st_utxos stake_store)"
    "iteration_of [UTXOKey 4 0, UTXOKey 9 0] (st_utxos stake_store)"
    by (auto simp: iteration_of_def stake_store_utxos)
  have "iteration_of [9, 4] (weight_map (BuildStakeIndex [stake_utxo 9 30, stake_utxo 4 12]))"
    "iteration_of [4, 9] (weight_map (BuildStakeIndex [stake_utxo 4 12, stake_utxo 9 30]))"
    by (auto simp: iteration_of_def dom_weight_map IsStakeOutput_def stake_utxo_def stake_entry_def)
  with it show ?thesis
    using stake_weights_deterministic [of "[UTXOKey 9 0, UTXOKey 4 0]" stake_store
        "[UTXOKey 4 0, UTXOKey 9 0]" "[9, 4]" "[4, 9]"]
    by (simp add: stake_store_index)
qed

text \<open>An unstake is accepted exactly when it consumes a stake, every stake it consumes was created at
  least the cooldown before (a stake whose creation height is not in the table counts as created at
  height zero, and the sum wraps), it creates no stake, and its outputs do not exceed its inputs.\<close>

theorem unstake_accepted_iff:
  "ValidateUnstakeTx tx us h created = Inr () \<longleftrightarrow>
     (\<exists>u \<in> set us. IsStakeOutput u)
     \<and> (\<forall>u \<in> set us. \<not> IsStakeOutput u \<or> map_get 0 created (u_TxHash u) + 3 \<le> h)
     \<and> (\<forall>out \<in> set (tx_Outputs tx). \<not> IsStakeOutputTx out)
     \<and> TotalOutputValue tx \<le> sum_list (map u_Value us)"
proof -
  have "sum_utxos us = sum_list (map u_Value us)"
    by (simp add: sum_utxos_def foldl_sum_list)
  moreover have "count_unstaked h created us 0 = Inr n \<longleftrightarrow> n = length (filter IsStakeOutput us)
     \<and> (\<forall>u \<in> set us. \<not> IsStakeOutput u \<or> map_get 0 created (u_TxHash u) + 3 \<le> h)" for n
    by (auto simp: count_unstaked_ok UnstakeCooldownBlocks_def)
  moreover have "length (filter IsStakeOutput us) = 0 \<longleftrightarrow> \<not> (\<exists>u \<in> set us. IsStakeOutput u)"
    by (auto simp: filter_empty_conv)
  ultimately show ?thesis
    by (cases "count_unstaked h created us 0")
      (auto simp: ValidateUnstakeTx_def Let_def list_ex_iff not_less)
qed

text \<open>The criterion at a concrete unstake, at and before the end of its cooldown.\<close>

definition unstake_tx :: Transaction where
  "unstake_tx = NewTransaction [sample_input] [sample_output\<lparr>to_Script := []\<rparr>]"

theorem unstake_accepted_iff_witness:
  "ValidateUnstakeTx unstake_tx [stake_utxo 4 12] 8 [4 \<mapsto> 5] = Inr ()
   \<and> ValidateUnstakeTx unstake_tx [stake_utxo 4 12] 7 [4 \<mapsto> 5] \<noteq> Inr ()"
  using unstake_accepted_iff [of unstake_tx "[stake_utxo 4 12]" 8 "[4 \<mapsto> 5]"]
    unstake_accepted_iff [of unstake_tx "[stake_utxo 4 12]" 7 "[4 \<mapsto> 5]"]
  by (simp add: stake_utxo_def IsStakeOutput_def unstake_tx_def NewTransaction_def sample_output_def
      IsStakeOutputTx_def TotalOutputValue_def map_get_def StakeScriptTag_def)

end
