(* ===== verification/Float64.thy ===== *)
theory Float64
  imports AIB_Prelude Complex_Main
begin

text \<open>
  Go's \<^verbatim>\<open>float64\<close> on non-negative values of moderate size: a value is the rational number it
  denotes, and every operation rounds its exact result to 53 significant bits, ties to even. The
  sources only convert unsigned integers and divide them, so neither overflow, nor subnormal
  numbers, nor the special values arise.
\<close>

text \<open>\<^verbatim>\<open>bits.Len64\<close>, and \<^verbatim>\<open>BitLen\<close> of \<^verbatim>\<open>math/big\<close>.\<close>

fun bit_length :: "nat \<Rightarrow> nat" where
  "bit_length n = (if n = 0 then 0 else Suc (bit_length (n div 2)))"

declare bit_length.simps [simp del]

lemma bit_length_bounds: "0 < n \<Longrightarrow> 2 ^ (bit_length n - 1) \<le> n \<and> n < 2 ^ bit_length n"
proof (induction n rule: bit_length.induct)
  case (1 n)
  show ?case
  proof (cases "n div 2 = 0")
    case True
    with 1 have "n = 1" by linarith
    then show ?thesis by (simp add: bit_length.simps)
  next
    case False
    with 1 have "2 ^ (bit_length (n div 2) - 1) \<le> n div 2 \<and> n div 2 < 2 ^ bit_length (n div 2)"
      by simp
    moreover obtain k where "bit_length (n div 2) = Suc k"
      using False by (metis bit_length.simps)
    moreover have "bit_length n = Suc (bit_length (n div 2))"
      using "1.prems" by (simp add: bit_length.simps [of n])
    ultimately show ?thesis by auto
  qed
qed

lemma bit_length_le_iff: "bit_length n \<le> k \<longleftrightarrow> n < 2 ^ k"
proof (cases "n = 0")
  case False
  then have b: "2 ^ (bit_length n - 1) \<le> n" "n < 2 ^ bit_length n"
    using bit_length_bounds by auto
  show ?thesis
  proof
    assume "bit_length n \<le> k"
    then have "(2::nat) ^ bit_length n \<le> 2 ^ k"
      by (rule power_increasing) simp
    with b(2) show "n < 2 ^ k" by (rule less_le_trans)
  next
    assume "n < 2 ^ k"
    with b(1) have "(2::nat) ^ (bit_length n - 1) < 2 ^ k" by (rule le_less_trans)
    then have "bit_length n - 1 < k" by (rule power_less_imp_less_exp [rotated]) simp
    then show "bit_length n \<le> k" by simp
  qed
qed (simp add: bit_length.simps)

definition pow2 :: "int \<Rightarrow> rat" where
  "pow2 e = (if 0 \<le> e then 2 ^ nat e else 1 / 2 ^ nat (- e))"

definition round_half_even :: "rat \<Rightarrow> int" where
  "round_half_even x =
     (let f = \<lfloor>x\<rfloor>; r = x - of_int f in
      if r < 1 / 2 then f else if 1 / 2 < r then f + 1 else if even f then f else f + 1)"

definition f64_exponent :: "rat \<Rightarrow> int" where
  "f64_exponent x =
     (let (p, q) = quotient_of x;
          e = int (bit_length (nat p)) - int (bit_length (nat q)) - 53
      in if x < pow2 (e + 53) then e else e + 1)"

definition float64 :: "rat \<Rightarrow> rat" where
  "float64 x =
     (if x \<le> 0 then 0
      else let e = f64_exponent x in pow2 e * of_int (round_half_even (x / pow2 e)))"

definition float64_of_u64 :: "u64 \<Rightarrow> rat" where
  "float64_of_u64 w = float64 (of_nat (unat w))"

definition float64_div :: "rat \<Rightarrow> rat \<Rightarrow> rat" where
  "float64_div a b = float64 (a / b)"

lemma pow2_pos [simp]: "0 < pow2 e" "pow2 e \<noteq> 0"
  by (simp_all add: pow2_def)

lemma round_half_even_of_int [simp]: "round_half_even (of_int n) = n"
  by (simp add: round_half_even_def)

lemma round_half_even_error: "\<bar>of_int (round_half_even x) - x\<bar> \<le> 1 / 2"
proof -
  have "of_int \<lfloor>x\<rfloor> \<le> x" "x < of_int \<lfloor>x\<rfloor> + 1"
    using floor_correct [of x] by simp_all
  then show ?thesis
    unfolding round_half_even_def Let_def by (simp split: if_splits)
qed

text \<open>Rounding moves a value by at most half a unit in the last place.\<close>

lemma float64_error:
  assumes "0 < x"
  shows "\<bar>float64 x - x\<bar> \<le> pow2 (f64_exponent x) / 2"
proof -
  let ?u = "pow2 (f64_exponent x)"
  have "float64 x - x = ?u * (of_int (round_half_even (x / ?u)) - x / ?u)"
    using assms by (simp add: float64_def Let_def field_simps)
  then have "\<bar>float64 x - x\<bar> = ?u * \<bar>of_int (round_half_even (x / ?u)) - x / ?u\<bar>"
    by (simp add: abs_mult less_imp_le)
  also have "\<dots> \<le> ?u * (1 / 2)"
    by (intro mult_left_mono round_half_even_error) (simp add: less_imp_le)
  finally show ?thesis by simp
qed

end
