(* ===== verification/Mempool.thy ===== *)
theory Mempool
  imports UTXO_Store Float64
begin

text \<open>
  \<^verbatim>\<open>pkg/utxo/mempool.go\<close>. Every method holds the pool's mutex, so a method is one atomic step; a
  method that may fail after it has changed the pool returns the error together with the state it
  leaves behind. The clock is an argument (nanoseconds). The range over the entries is an explicit
  order of the hashes, and \<^verbatim>\<open>sort.Slice\<close>, which leaves the order of equal elements open, is a stable
  sort of that order: every order it could return arises from some iteration order.
\<close>

section \<open>Operations\<close>

record MempoolEntry =
  me_Tx :: Transaction
  me_AddedAt :: int
  me_Fee :: u64
  me_FeeRate :: rat

record Mempool =
  mp_entries :: "hash \<rightharpoonup> MempoolEntry"
  mp_spentUTXOs :: "string \<rightharpoonup> bool"
  mp_maxSize :: int
  mp_minFee :: u64

datatype mempool_error =
    MpPanic
  | MpAlreadyInPool hash
  | MpFull int
  | MpDoubleSpend string
  | MpUTXONotFound
  | MpBadSignature nat
  | MpFeeError tx_error
  | MpFeeTooLow u64 u64

definition NewMempool :: "int \<Rightarrow> u64 \<Rightarrow> Mempool" where
  "NewMempool maxSize minFee =
     \<lparr>mp_entries = Map.empty, mp_spentUTXOs = Map.empty, mp_maxSize = maxSize, mp_minFee = minFee\<rparr>"

definition input_key :: "TXInput \<Rightarrow> string" where
  "input_key i = UTXOKey (ti_TxHash i) (ti_Index i)"

text \<open>The loop over the inputs: it marks each one as spent before it looks at the next.\<close>

fun reserve_inputs ::
  "crypto \<Rightarrow> utxo_provider \<Rightarrow> Transaction \<Rightarrow> (string \<rightharpoonup> bool) \<Rightarrow> nat \<Rightarrow> TXInput list
   \<Rightarrow> mempool_error option \<times> (string \<rightharpoonup> bool)" where
  "reserve_inputs C prov tx spent i [] = (None, spent)"
| "reserve_inputs C prov tx spent i (inp # rest) =
     (let utxoKey = input_key inp in
      if map_get False spent utxoKey then (Some (MpDoubleSpend utxoKey), spent)
      else case prov (ti_TxHash inp) (ti_Index inp) of
        None \<Rightarrow> (Some MpUTXONotFound, spent)
      | Some _ \<Rightarrow>
          (case VerifyInput C tx (int i) of
             None \<Rightarrow> (Some MpPanic, spent)
           | Some False \<Rightarrow> (Some (MpBadSignature i), spent)
           | Some True \<Rightarrow> reserve_inputs C prov tx (spent(utxoKey \<mapsto> True)) (Suc i) rest))"

definition new_entry :: "int \<Rightarrow> Transaction \<Rightarrow> u64 \<Rightarrow> MempoolEntry" where
  "new_entry now tx actualFee =
     (let txSize = (if SerializeSize tx = 0 then 1 else SerializeSize tx) in
      \<lparr>me_Tx = tx, me_AddedAt = now, me_Fee = actualFee,
       me_FeeRate = float64_div (float64_of_u64 actualFee) (float64 (of_nat txSize))\<rparr>)"

definition AddTransaction ::
  "crypto \<Rightarrow> int \<Rightarrow> utxo_provider \<Rightarrow> Mempool \<Rightarrow> Transaction \<Rightarrow> mempool_error option \<times> Mempool" where
  "AddTransaction C now prov m tx =
     (let txHash = TxHash C tx in
      if mp_entries m txHash \<noteq> None then (Some (MpAlreadyInPool txHash), m)
      else if mp_maxSize m \<le> int (map_len (mp_entries m)) then (Some (MpFull (mp_maxSize m)), m)
      else case reserve_inputs C prov tx (mp_spentUTXOs m) 0 (tx_Inputs tx) of
        (Some e, spent) \<Rightarrow> (Some e, m\<lparr>mp_spentUTXOs := spent\<rparr>)
      | (None, spent) \<Rightarrow>
          let m' = m\<lparr>mp_spentUTXOs := spent\<rparr> in
          case GetFee prov tx of
            Inl e \<Rightarrow> (Some (MpFeeError e), m')
          | Inr actualFee \<Rightarrow>
              if actualFee < mp_minFee m' then (Some (MpFeeTooLow actualFee (mp_minFee m')), m')
              else (None, m'\<lparr>mp_entries := (mp_entries m')(txHash \<mapsto> new_entry now tx actualFee)\<rparr>))"

text \<open>The loop that releases the inputs of an entry.\<close>

definition release_inputs :: "(string \<rightharpoonup> bool) \<Rightarrow> TXInput list \<Rightarrow> (string \<rightharpoonup> bool)" where
  "release_inputs spent ins = foldl (\<lambda>sp i. sp(input_key i := None)) spent ins"

definition RemoveTransaction :: "Mempool \<Rightarrow> hash \<Rightarrow> Mempool" where
  "RemoveTransaction m txHash =
     (case mp_entries m txHash of
        None \<Rightarrow> m
      | Some entry \<Rightarrow>
          m\<lparr>mp_spentUTXOs := release_inputs (mp_spentUTXOs m) (tx_Inputs (me_Tx entry)),
            mp_entries := (mp_entries m)(txHash := None)\<rparr>)"

definition GetTransaction :: "Mempool \<Rightarrow> hash \<Rightarrow> Transaction option" where
  "GetTransaction m txHash = map_option me_Tx (mp_entries m txHash)"

fun fill_block :: "int \<Rightarrow> MempoolEntry list \<Rightarrow> int \<Rightarrow> Transaction list" where
  "fill_block maxBlockSize [] totalSize = []"
| "fill_block maxBlockSize (entry # es) totalSize =
     (let txSize = int (SerializeSize (me_Tx entry)) in
      if maxBlockSize < totalSize + txSize then fill_block maxBlockSize es totalSize
      else me_Tx entry # fill_block maxBlockSize es (totalSize + txSize))"

definition GetTransactionsForBlock :: "hash list \<Rightarrow> Mempool \<Rightarrow> int \<Rightarrow> Transaction list" where
  "GetTransactionsForBlock ks m maxBlockSize =
     fill_block maxBlockSize
       (sort_key (\<lambda>e. - me_FeeRate e) (range_values ks (mp_entries m))) 0"

definition RemoveConfirmed :: "Mempool \<Rightarrow> hash list \<Rightarrow> Mempool" where
  "RemoveConfirmed m txHashes =
     foldl (\<lambda>m txHash. case mp_entries m txHash of
               None \<Rightarrow> m
             | Some entry \<Rightarrow>
                 m\<lparr>mp_spentUTXOs := release_inputs (mp_spentUTXOs m) (tx_Inputs (me_Tx entry)),
                   mp_entries := (mp_entries m)(txHash := None)\<rparr>) m txHashes"

definition MempoolSize :: "Mempool \<Rightarrow> nat" where
  "MempoolSize m = map_len (mp_entries m)"

definition PruneMempool :: "hash list \<Rightarrow> int \<Rightarrow> Mempool \<Rightarrow> int \<Rightarrow> Mempool" where
  "PruneMempool ks now m maxAge =
     (let cutoff = now - maxAge in
      foldl (\<lambda>m txHash. case mp_entries m txHash of
               None \<Rightarrow> m
             | Some entry \<Rightarrow>
                 if me_AddedAt entry < cutoff
                 then m\<lparr>mp_spentUTXOs := release_inputs (mp_spentUTXOs m) (tx_Inputs (me_Tx entry)),
                        mp_entries := (mp_entries m)(txHash := None)\<rparr>
                 else m) m ks)"

definition GetFeeRates :: "hash list \<Rightarrow> Mempool \<Rightarrow> rat list" where
  "GetFeeRates ks m = rev (sort (map me_FeeRate (range_values ks (mp_entries m))))"

definition GetSpentUTXOs :: "Mempool \<Rightarrow> (string \<rightharpoonup> bool)" where
  "GetSpentUTXOs m = mp_spentUTXOs m"

definition GetAllEntries :: "hash list \<Rightarrow> Mempool \<Rightarrow> MempoolEntry list" where
  "GetAllEntries ks m = range_values ks (mp_entries m)"

section \<open>Marks\<close>

definition spends :: "Transaction \<Rightarrow> string set" where
  "spends tx = input_key ` set (tx_Inputs tx)"

definition marked :: "Mempool \<Rightarrow> string \<Rightarrow> bool" where
  "marked m k = map_get False (mp_spentUTXOs m) k"

lemma map_get_del [simp]: "map_get z (m(k := None)) j = (if j = k then z else map_get z m j)"
  by (simp add: map_get_def)

lemma release_inputs_get:
  "map_get False (release_inputs spent ins) k \<longleftrightarrow> map_get False spent k \<and> k \<notin> input_key ` set ins"
  unfolding release_inputs_def by (induction ins arbitrary: spent) auto

text \<open>Whatever its outcome, the loop keeps the marks there were and adds only keys of the inputs.\<close>

lemma reserve_inputs_marks:
  "reserve_inputs C prov tx spent i ins = (r, spent') \<Longrightarrow>
   (\<forall>k. map_get False spent k \<longrightarrow> map_get False spent' k)
   \<and> (\<forall>k. map_get False spent' k \<longrightarrow> map_get False spent k \<or> k \<in> input_key ` set ins)"
proof (induction ins arbitrary: spent i)
  case Nil
  then show ?case by simp
next
  case (Cons inp rest)
  show ?case
  proof (cases "reserve_inputs C prov tx (spent(input_key inp \<mapsto> True)) (Suc i) rest = (r, spent')")
    case True
    from Cons.IH [OF True] show ?thesis by (auto simp del: fun_upd_apply split: if_splits)
  next
    case False
    with Cons.prems have "spent' = spent"
      by (auto simp: Let_def split: if_splits option.splits bool.splits)
    then show ?thesis by simp
  qed
qed

lemma reserve_inputs_ok:
  "reserve_inputs C prov tx spent i ins = (None, spent') \<Longrightarrow>
   distinct (map input_key ins) \<and> (\<forall>k \<in> input_key ` set ins. \<not> map_get False spent k)
   \<and> (\<forall>k. map_get False spent' k \<longleftrightarrow> map_get False spent k \<or> k \<in> input_key ` set ins)"
proof (induction ins arbitrary: spent i)
  case Nil
  then show ?case by simp
next
  case (Cons inp rest)
  have fresh: "\<not> map_get False spent (input_key inp)"
    and run: "reserve_inputs C prov tx (spent(input_key inp \<mapsto> True)) (Suc i) rest = (None, spent')"
    using Cons.prems by (auto simp: Let_def split: if_splits option.splits bool.splits)
  from Cons.IH [OF run] fresh show ?case
    by (auto simp del: fun_upd_apply split: if_splits)
qed

section \<open>The invariant of the pool\<close>

text \<open>
  Every entry stands under its transaction's hash, pays the minimum fee, spends pairwise different
  outputs, all of them marked; two entries share no output; the pool is within its size.
\<close>

definition pool_inv :: "crypto \<Rightarrow> Mempool \<Rightarrow> bool" where
  "pool_inv C m \<longleftrightarrow> finite (dom (mp_entries m))
     \<and> int (map_len (mp_entries m)) \<le> max 0 (mp_maxSize m)
     \<and> (\<forall>h e. mp_entries m h = Some e \<longrightarrow>
          TxHash C (me_Tx e) = h \<and> mp_minFee m \<le> me_Fee e
          \<and> distinct (map input_key (tx_Inputs (me_Tx e))) \<and> (\<forall>k \<in> spends (me_Tx e). marked m k))
     \<and> (\<forall>h h' e e'. mp_entries m h = Some e \<longrightarrow> mp_entries m h' = Some e' \<longrightarrow> h \<noteq> h' \<longrightarrow>
          spends (me_Tx e) \<inter> spends (me_Tx e') = {})"

lemma pool_inv_new: "pool_inv C (NewMempool maxSize minFee)"
  by (simp add: pool_inv_def NewMempool_def map_len_def)

text \<open>The three ways \<^verbatim>\<open>AddTransaction\<close> ends: untouched, only marks added, or the entry added.\<close>

lemma AddTransaction_cases:
  assumes "AddTransaction C now prov m tx = (r, m')"
  obtains (unchanged) e where "r = Some e" "m' = m"
  | (marks) e r' spent where "r = Some e" "m' = m\<lparr>mp_spentUTXOs := spent\<rparr>"
      "reserve_inputs C prov tx (mp_spentUTXOs m) 0 (tx_Inputs tx) = (r', spent)"
      "r' = None \<or> r' = Some e"
  | (added) spent fee where "r = None"
      "reserve_inputs C prov tx (mp_spentUTXOs m) 0 (tx_Inputs tx) = (None, spent)"
      "mp_entries m (TxHash C tx) = None" "int (map_len (mp_entries m)) < mp_maxSize m"
      "GetFee prov tx = Inr fee" "mp_minFee m \<le> fee"
      "m' = m\<lparr>mp_spentUTXOs := spent,
              mp_entries := (mp_entries m)(TxHash C tx \<mapsto> new_entry now tx fee)\<rparr>"
proof (cases "mp_entries m (TxHash C tx) \<noteq> None \<or> mp_maxSize m \<le> int (map_len (mp_entries m))")
  case True
  then obtain e where "r = Some e" "m' = m"
    using assms by (auto simp: AddTransaction_def Let_def split: if_splits)
  then show thesis by (rule unchanged)
next
  case free: False
  obtain r' spent where res: "reserve_inputs C prov tx (mp_spentUTXOs m) 0 (tx_Inputs tx) = (r', spent)"
    by (cases "reserve_inputs C prov tx (mp_spentUTXOs m) 0 (tx_Inputs tx)") auto
  show thesis
  proof (cases r')
    case (Some e)
    with assms free res show thesis
      by (intro marks [OF _ _ res]) (auto simp: AddTransaction_def Let_def)
  next
    case None
    consider (fail) e where "r = Some e" "m' = m\<lparr>mp_spentUTXOs := spent\<rparr>"
      | (ok) fee where "GetFee prov tx = Inr fee" "mp_minFee m \<le> fee"
      using assms free res None
      by (cases "GetFee prov tx") (auto simp: AddTransaction_def Let_def split: if_splits)
    then show thesis
    proof cases
      case fail
      then show thesis using marks [OF _ _ res] None by blast
    next
      case ok
      with assms free res None show thesis
        by (intro added [OF _ _ _ _ ok]) (auto simp: AddTransaction_def Let_def split: if_splits)
    qed
  qed
qed

lemma new_entry_simps [simp]: "me_Tx (new_entry now tx fee) = tx" "me_Fee (new_entry now tx fee) = fee"
  by (simp_all add: new_entry_def Let_def)

lemma pool_inv_marks_grow:
  assumes "pool_inv C m" and "\<forall>k. marked m k \<longrightarrow> map_get False spent k"
  shows "pool_inv C (m\<lparr>mp_spentUTXOs := spent\<rparr>)"
  using assms unfolding pool_inv_def marked_def by auto

lemma pool_inv_AddTransaction:
  assumes inv: "pool_inv C m" and add: "AddTransaction C now prov m tx = (r, m')"
  shows "pool_inv C m'"
  using add
proof (cases rule: AddTransaction_cases)
  case unchanged
  with inv show ?thesis by simp
next
  case marks
  with inv show ?thesis
    using reserve_inputs_marks [OF marks(3)] by (auto intro: pool_inv_marks_grow simp: marked_def)
next
  case (added spent fee)
  have ok: "distinct (map input_key (tx_Inputs tx))" "\<forall>k \<in> spends tx. \<not> marked m k"
    "\<forall>k. map_get False spent k \<longleftrightarrow> marked m k \<or> k \<in> spends tx"
    using reserve_inputs_ok [OF added(2)] by (auto simp: spends_def marked_def)
  have "int (map_len ((mp_entries m)(TxHash C tx \<mapsto> new_entry now tx fee))) \<le> mp_maxSize m"
    using inv added(3,4) by (simp add: pool_inv_def map_len_def card_insert_disjoint domIff)
  moreover have "spends (me_Tx e) \<inter> spends tx = {}" if "mp_entries m h = Some e" for h e
    using that inv ok(2) by (auto simp: pool_inv_def)
  ultimately show ?thesis
    using inv ok(1,3) added(6) unfolding added(7) pool_inv_def marked_def
    by (auto simp: Int_commute)
qed

lemma pool_inv_RemoveTransaction: "pool_inv C m \<Longrightarrow> pool_inv C (RemoveTransaction m h)"
proof (cases "mp_entries m h")
  case (Some entry)
  assume inv: "pool_inv C m"
  have "map_len ((mp_entries m)(h := None)) \<le> map_len (mp_entries m)"
    using inv unfolding map_len_def pool_inv_def by (intro card_mono) auto
  moreover have "k \<notin> input_key ` set (tx_Inputs (me_Tx entry))"
    if "mp_entries m h' = Some e" "h' \<noteq> h" "k \<in> spends (me_Tx e)" for h' e k
    using that inv Some unfolding pool_inv_def spends_def by blast
  ultimately show ?thesis
    using inv Some unfolding pool_inv_def RemoveTransaction_def marked_def
    by (auto simp: release_inputs_get)
qed (simp add: RemoveTransaction_def)

lemma RemoveConfirmed_fold: "RemoveConfirmed m hs = foldl RemoveTransaction m hs"
  by (simp add: RemoveConfirmed_def RemoveTransaction_def [abs_def])

definition prune_step :: "int \<Rightarrow> Mempool \<Rightarrow> hash \<Rightarrow> Mempool" where
  "prune_step cutoff m h =
     (case mp_entries m h of
        None \<Rightarrow> m
      | Some e \<Rightarrow> if me_AddedAt e < cutoff then RemoveTransaction m h else m)"

lemma PruneMempool_fold: "PruneMempool ks now m maxAge = foldl (prune_step (now - maxAge)) m ks"
proof -
  have "prune_step c = (\<lambda>m h. case mp_entries m h of
               None \<Rightarrow> m
             | Some entry \<Rightarrow>
                 if me_AddedAt entry < c
                 then m\<lparr>mp_spentUTXOs := release_inputs (mp_spentUTXOs m) (tx_Inputs (me_Tx entry)),
                        mp_entries := (mp_entries m)(h := None)\<rparr>
                 else m)" for c
    by (auto simp: prune_step_def RemoveTransaction_def fun_eq_iff split: option.splits)
  then show ?thesis by (simp add: PruneMempool_def)
qed

lemma foldl_invariant: "(\<And>s x. P s \<Longrightarrow> P (f s x)) \<Longrightarrow> P s \<Longrightarrow> P (foldl f s xs)"
  by (induction xs arbitrary: s) auto

section \<open>Histories of the pool\<close>

inductive mempool_step :: "crypto \<Rightarrow> Mempool \<Rightarrow> Mempool \<Rightarrow> bool" for C where
  add: "AddTransaction C now prov m tx = (r, m') \<Longrightarrow> mempool_step C m m'"
| remove: "mempool_step C m (RemoveTransaction m h)"
| confirm: "mempool_step C m (RemoveConfirmed m hs)"
| prune: "iteration_of ks (mp_entries m) \<Longrightarrow> mempool_step C m (PruneMempool ks now m maxAge)"

text \<open>What holds through additions and removals of one entry holds through every step.\<close>

lemma mempool_step_preserves:
  assumes "mempool_step C m m'" and "P m"
    and "\<And>m now prov tx r m'. P m \<Longrightarrow> AddTransaction C now prov m tx = (r, m') \<Longrightarrow> P m'"
    and "\<And>m h. P m \<Longrightarrow> P (RemoveTransaction m h)"
  shows "P m'"
  using assms(1)
proof cases
  case add
  with assms(2,3) show ?thesis by blast
next
  case remove
  with assms(2,4) show ?thesis by simp
next
  case confirm
  with assms(2,4) show ?thesis by (auto simp: RemoveConfirmed_fold intro: foldl_invariant)
next
  case (prune ks now maxAge)
  have "P (prune_step c m h)" if "P m" for m h c
    using that assms(4) by (simp add: prune_step_def split: option.splits)
  with prune assms(2) show ?thesis by (auto simp: PruneMempool_fold intro: foldl_invariant)
qed

lemma pool_inv_step: "mempool_step C m m' \<Longrightarrow> pool_inv C m \<Longrightarrow> pool_inv C m'"
  by (rule mempool_step_preserves) (auto intro: pool_inv_AddTransaction pool_inv_RemoveTransaction)

lemma pool_inv_reachable:
  assumes "(mempool_step C)\<^sup>*\<^sup>* (NewMempool maxSize minFee) m"
  shows "pool_inv C m"
  using assms by induction (auto intro: pool_inv_new pool_inv_step)

lemma pool_params_step: "mempool_step C m m' \<Longrightarrow> mp_maxSize m' = mp_maxSize m \<and> mp_minFee m' = mp_minFee m"
proof (rule mempool_step_preserves [where P = "\<lambda>x. mp_maxSize x = mp_maxSize m \<and> mp_minFee x = mp_minFee m"])
  fix m0 now prov tx r m1
  assume "mp_maxSize m0 = mp_maxSize m \<and> mp_minFee m0 = mp_minFee m"
    and "AddTransaction C now prov m0 tx = (r, m1)"
  then show "mp_maxSize m1 = mp_maxSize m \<and> mp_minFee m1 = mp_minFee m"
    by (elim AddTransaction_cases) auto
qed (auto simp: RemoveTransaction_def split: option.splits)

lemma pool_params_reachable:
  assumes "(mempool_step C)\<^sup>*\<^sup>* (NewMempool maxSize minFee) m"
  shows "mp_maxSize m = maxSize \<and> mp_minFee m = minFee"
  using assms by induction (auto simp: NewMempool_def dest: pool_params_step)

section \<open>Marks without an owner\<close>

lemma reserve_inputs_error:
  "reserve_inputs C prov tx spent i ins = (Some e, spent') \<Longrightarrow> e \<noteq> MpFeeTooLow a b"
proof (induction ins arbitrary: spent i)
  case (Cons inp rest)
  show ?case
  proof (cases "reserve_inputs C prov tx (spent(input_key inp \<mapsto> True)) (Suc i) rest = (Some e, spent')")
    case True
    then show ?thesis by (rule Cons.IH)
  next
    case False
    with Cons.prems show ?thesis
      by (auto simp: Let_def split: if_splits option.splits bool.splits)
  qed
qed simp

lemma AddTransaction_fee_low:
  assumes "AddTransaction C now prov m tx = (Some (MpFeeTooLow fee mn), m1)"
  obtains spent where
    "reserve_inputs C prov tx (mp_spentUTXOs m) 0 (tx_Inputs tx) = (None, spent)"
    "m1 = m\<lparr>mp_spentUTXOs := spent\<rparr>"
proof -
  obtain r spent where r: "reserve_inputs C prov tx (mp_spentUTXOs m) 0 (tx_Inputs tx) = (r, spent)"
    by (cases "reserve_inputs C prov tx (mp_spentUTXOs m) 0 (tx_Inputs tx)") auto
  have "r = None"
    using assms r by (cases r)
      (auto simp: AddTransaction_def Let_def dest: reserve_inputs_error split: if_splits)
  with assms r show thesis
    by (intro that) (auto simp: AddTransaction_def Let_def split: if_splits sum.splits)
qed

text \<open>A key that is marked although no entry of the pool spends it.\<close>

definition orphan :: "Mempool \<Rightarrow> string \<Rightarrow> bool" where
  "orphan m k \<longleftrightarrow> marked m k \<and> (\<forall>e \<in> ran (mp_entries m). k \<notin> spends (me_Tx e))"

lemma marked_blocks:
  assumes "marked m (input_key i)" and "i \<in> set (tx_Inputs tx)"
  shows "fst (AddTransaction C now prov m tx) \<noteq> None"
proof
  assume none: "fst (AddTransaction C now prov m tx) = None"
  obtain m' where "AddTransaction C now prov m tx = (None, m')"
    using none by (metis prod.collapse)
  then show False
    using assms by (cases rule: AddTransaction_cases)
      (auto simp: marked_def dest!: reserve_inputs_ok)
qed

lemma orphan_AddTransaction:
  assumes "orphan m k" and "AddTransaction C now prov m tx = (r, m')"
  shows "orphan m' k"
  using assms(2)
proof (cases rule: AddTransaction_cases)
  case unchanged
  with assms(1) show ?thesis by simp
next
  case marks
  with assms(1) show ?thesis
    using reserve_inputs_marks [OF marks(3)] by (auto simp: orphan_def marked_def)
next
  case (added spent fee)
  have "k \<notin> spends tx" and "map_get False spent k"
    using assms(1) reserve_inputs_ok [OF added(2)] by (auto simp: orphan_def marked_def spends_def)
  with assms(1) show ?thesis
    unfolding added(7) by (auto simp: orphan_def marked_def ran_def)
qed

lemma orphan_RemoveTransaction: "orphan m k \<Longrightarrow> orphan (RemoveTransaction m h) k"
  by (auto simp: orphan_def RemoveTransaction_def marked_def ran_def release_inputs_get spends_def
      split: option.splits)

lemma orphan_run: "(mempool_step C)\<^sup>*\<^sup>* m m' \<Longrightarrow> orphan m k \<Longrightarrow> orphan m' k"
proof (induction rule: rtranclp_induct)
  case (step m1 m2)
  from step.hyps(2) step.IH [OF step.prems] show ?case
    by (rule mempool_step_preserves) (auto intro: orphan_AddTransaction orphan_RemoveTransaction)
qed

section \<open>Filling a block\<close>

fun fill_entries :: "int \<Rightarrow> MempoolEntry list \<Rightarrow> int \<Rightarrow> MempoolEntry list" where
  "fill_entries cap [] acc = []"
| "fill_entries cap (e # es) acc =
     (if cap < acc + int (SerializeSize (me_Tx e)) then fill_entries cap es acc
      else e # fill_entries cap es (acc + int (SerializeSize (me_Tx e))))"

lemma fill_block_entries: "fill_block cap es acc = map me_Tx (fill_entries cap es acc)"
  by (induction es arbitrary: acc) (simp_all add: Let_def)

definition entries_size :: "MempoolEntry list \<Rightarrow> int" where
  "entries_size es = sum_list (map (\<lambda>e. int (SerializeSize (me_Tx e))) es)"

lemma entries_size_nonneg: "0 \<le> entries_size es"
  unfolding entries_size_def by (induction es) auto

lemma set_fill_entries: "set (fill_entries cap es acc) \<subseteq> set es"
  by (induction es arbitrary: acc) (auto simp: subset_iff)

lemma fill_entries_sorted: "sorted_wrt P es \<Longrightarrow> sorted_wrt P (fill_entries cap es acc)"
  using set_fill_entries by (induction es arbitrary: acc) (auto, blast)

lemma fill_entries_distinct: "distinct es \<Longrightarrow> distinct (fill_entries cap es acc)"
  using set_fill_entries by (induction es arbitrary: acc) (auto, blast)

lemma fill_entries_size: "entries_size (fill_entries cap es acc) \<le> max 0 (cap - acc)"
proof (induction es arbitrary: acc)
  case Nil
  then show ?case by (simp add: entries_size_def)
next
  case (Cons e es)
  show ?case
    using Cons.IH [of acc] Cons.IH [of "acc + int (SerializeSize (me_Tx e))"]
    by (auto simp: entries_size_def)
qed

lemma fill_entries_maximal:
  "e \<in> set es \<Longrightarrow> e \<notin> set (fill_entries cap es acc) \<Longrightarrow>
   cap < acc + entries_size (fill_entries cap es acc) + int (SerializeSize (me_Tx e))"
proof (induction es arbitrary: acc)
  case Nil
  then show ?case by simp
next
  case (Cons x es)
  let ?acc = "acc + int (SerializeSize (me_Tx x))"
  show ?case
  proof (cases "cap < ?acc")
    case skip: True
    show ?thesis
    proof (cases "e = x")
      case True
      with skip show ?thesis
        using entries_size_nonneg [of "fill_entries cap es acc"] by simp
    next
      case False
      with skip Cons show ?thesis by simp
    qed
  next
    case False
    with Cons.prems have "e \<in> set es" "e \<notin> set (fill_entries cap es ?acc)" by auto
    from Cons.IH [OF this] False show ?thesis by (simp add: entries_size_def)
  qed
qed

lemma pool_entries_distinct:
  assumes "pool_inv C m" and "iteration_of ks (mp_entries m)"
  shows "distinct (range_values ks (mp_entries m))"
proof -
  have "inj_on (\<lambda>h. the (mp_entries m h)) (set ks)"
  proof
    fix h h'
    assume "h \<in> set ks" "h' \<in> set ks" and eq: "the (mp_entries m h) = the (mp_entries m h')"
    then obtain e e' where e: "mp_entries m h = Some e" "mp_entries m h' = Some e'"
      using assms(2) by (auto simp: iteration_of_def)
    then have "TxHash C (me_Tx e) = h" "TxHash C (me_Tx e') = h'"
      using assms(1) by (auto simp: pool_inv_def)
    with e eq show "h = h'" by simp
  qed
  then show ?thesis
    using assms(2) by (simp add: range_values_map distinct_map iteration_of_def)
qed

lemma pool_no_conflict:
  assumes "pool_inv C m" and "a \<in> ran (mp_entries m)" and "b \<in> ran (mp_entries m)" and "a \<noteq> b"
  shows "spends (me_Tx a) \<inter> spends (me_Tx b) = {}"
proof -
  obtain h h' where "mp_entries m h = Some a" "mp_entries m h' = Some b"
    using assms(2,3) by (auto simp: ran_def)
  moreover from this assms(4) have "h \<noteq> h'" by auto
  ultimately show ?thesis
    using assms(1) unfolding pool_inv_def by blast
qed

section \<open>Properties\<close>

text \<open>C3. The pool never holds a double spend: in every state reachable from a new pool by any sequence of
  additions (successful or not, against any view of the unspent outputs), removals, confirmations
  and prunings, every entry stands under its own hash, pays at least the minimum fee and spends no
  output twice, two different entries spend disjoint sets of outputs, and the pool does not exceed
  its size (it is empty when that is negative).\<close>

theorem mempool_no_conflicts:
  assumes "(mempool_step C)\<^sup>*\<^sup>* (NewMempool maxSize minFee) m"
  shows "(\<forall>h e. mp_entries m h = Some e \<longrightarrow>
        TxHash C (me_Tx e) = h \<and> minFee \<le> me_Fee e \<and> distinct (map input_key (tx_Inputs (me_Tx e)))
        \<and> (\<forall>h' e'. mp_entries m h' = Some e' \<and> h' \<noteq> h \<longrightarrow> spends (me_Tx e) \<inter> spends (me_Tx e') = {}))
    \<and> int (MempoolSize m) \<le> max 0 maxSize"
proof -
  have inv: "pool_inv C m" and par: "mp_maxSize m = maxSize" "mp_minFee m = minFee"
    using assms(1) by (auto dest: pool_inv_reachable pool_params_reachable)
  then have "int (MempoolSize m) \<le> max 0 maxSize"
    by (simp add: pool_inv_def MempoolSize_def)
  with inv par show ?thesis
    unfolding pool_inv_def by blast
qed

text \<open>Two transactions that spend different outputs, under a hash that tells them apart.\<close>

definition pool_crypto :: crypto where
  "pool_crypto = sample_crypto\<lparr>sha256 := \<lambda>bs. hash_of_bytes (take 32 bs)\<rparr>"

definition second_tx :: Transaction where
  "second_tx = signed_tx\<lparr>tx_Version := 2, tx_Inputs := map (\<lambda>i. i\<lparr>ti_TxHash := 8\<rparr>) (tx_Inputs signed_tx)\<rparr>"

definition one_pool :: Mempool where
  "one_pool = \<lparr>mp_entries = [TxHash pool_crypto signed_tx \<mapsto> new_entry 0 signed_tx 7],
               mp_spentUTXOs = [UTXOKey 7 1 \<mapsto> True], mp_maxSize = 2, mp_minFee = 1\<rparr>"

definition two_pool :: Mempool where
  "two_pool = \<lparr>mp_entries = [TxHash pool_crypto signed_tx \<mapsto> new_entry 0 signed_tx 7,
                             TxHash pool_crypto second_tx \<mapsto> new_entry 0 second_tx 7],
               mp_spentUTXOs = [UTXOKey 7 1 \<mapsto> True, UTXOKey 8 1 \<mapsto> True],
               mp_maxSize = 2, mp_minFee = 1\<rparr>"

lemma pool_crypto_TxHash: "TxHash pool_crypto tx = hash_of_bytes (take 32 (Serialize tx))"
  if "32 \<le> length (Serialize tx)"
  using that by (simp add: TxHash_def sha256d_def pool_crypto_def hash_bytes_of_bytes)

lemma length_Serialize_two: "32 \<le> length (Serialize signed_tx)" "32 \<le> length (Serialize second_tx)"
  by (simp_all add: Serialize_def serialize_body_def signed_tx_def second_tx_def NewTransaction_def
      serialize_input_def)

lemma two_hashes_differ: "TxHash pool_crypto second_tx \<noteq> TxHash pool_crypto signed_tx"
proof
  assume "TxHash pool_crypto second_tx = TxHash pool_crypto signed_tx"
  then have "hash_bytes (TxHash pool_crypto second_tx) = hash_bytes (TxHash pool_crypto signed_tx)"
    by simp
  then have "take 32 (Serialize second_tx) = take 32 (Serialize signed_tx)"
    using length_Serialize_two by (simp add: pool_crypto_TxHash hash_bytes_of_bytes)
  then have "take 4 (take 32 (Serialize second_tx)) = take 4 (take 32 (Serialize signed_tx))"
    by simp
  then show False
    by (simp add: Serialize_def serialize_body_def signed_tx_def second_tx_def NewTransaction_def)
qed

lemma two_reserve:
  "reserve_inputs pool_crypto sample_provider signed_tx Map.empty 0 (tx_Inputs signed_tx)
     = (None, [UTXOKey 7 1 \<mapsto> True])"
  "reserve_inputs pool_crypto sample_provider second_tx [UTXOKey 7 1 \<mapsto> True] 0 (tx_Inputs second_tx)
     = (None, [UTXOKey 7 1 \<mapsto> True, UTXOKey 8 1 \<mapsto> True])"
  by (simp_all add: signed_tx_def second_tx_def NewTransaction_def sample_provider_def VerifyInput_def
      ed25519_Verify_def pool_crypto_def sample_crypto_def input_key_def map_get_def)

lemma two_fees:
  "GetFee sample_provider signed_tx = Inr 7" "GetFee sample_provider second_tx = Inr 7"
  by code_simp+

lemma two_adds:
  "AddTransaction pool_crypto 0 sample_provider (NewMempool 2 1) signed_tx = (None, one_pool)"
  "AddTransaction pool_crypto 0 sample_provider one_pool second_tx = (None, two_pool)"
  using two_hashes_differ
  by (simp_all add: AddTransaction_def NewMempool_def one_pool_def two_pool_def map_len_def
      two_reserve two_fees)

lemma two_pool_reachable: "(mempool_step pool_crypto)\<^sup>*\<^sup>* (NewMempool 2 1) two_pool"
  using two_adds [THEN mempool_step.add]
  by (meson rtranclp.rtrancl_into_rtrancl rtranclp.rtrancl_refl)

theorem mempool_no_conflicts_witness:
  "(mempool_step pool_crypto)\<^sup>*\<^sup>* (NewMempool 2 1) two_pool
   \<and> mp_entries two_pool (TxHash pool_crypto signed_tx) = Some (new_entry 0 signed_tx 7)
   \<and> mp_entries two_pool (TxHash pool_crypto second_tx) = Some (new_entry 0 second_tx 7)
   \<and> distinct (map input_key (tx_Inputs signed_tx)) \<and> spends signed_tx \<inter> spends second_tx = {}
   \<and> int (MempoolSize two_pool) \<le> 2"
proof -
  let ?h = "TxHash pool_crypto signed_tx" and ?k = "TxHash pool_crypto second_tx"
  have e: "mp_entries two_pool ?h = Some (new_entry 0 signed_tx 7)"
    "mp_entries two_pool ?k = Some (new_entry 0 second_tx 7)" "?k \<noteq> ?h"
    using two_hashes_differ by (simp_all add: two_pool_def)
  have all: "\<And>h e. mp_entries two_pool h = Some e \<Longrightarrow> distinct (map input_key (tx_Inputs (me_Tx e)))
        \<and> (\<forall>k f. mp_entries two_pool k = Some f \<and> k \<noteq> h \<longrightarrow> spends (me_Tx e) \<inter> spends (me_Tx f) = {})"
    and size: "int (MempoolSize two_pool) \<le> max 0 2"
    using mempool_no_conflicts [OF two_pool_reachable] by blast+
  from all [OF e(1)] e(2,3) have "distinct (map input_key (tx_Inputs (me_Tx (new_entry 0 signed_tx 7))))"
    "spends (me_Tx (new_entry 0 signed_tx 7)) \<inter> spends (me_Tx (new_entry 0 second_tx 7)) = {}"
    by blast+
  then show ?thesis
    using two_pool_reachable e(1,2) size by simp
qed

text \<open>C31. The block template: the transactions returned are entries of the pool in descending order of fee
  rate, without repetition and without conflict, their sizes add up to at most the limit, and every
  entry left out would exceed it.\<close>

theorem block_template:
  assumes "(mempool_step C)\<^sup>*\<^sup>* (NewMempool maxSize minFee) m" and "iteration_of ks (mp_entries m)"
  shows "\<exists>es. GetTransactionsForBlock ks m cap = map me_Tx es \<and> distinct es
    \<and> set es \<subseteq> ran (mp_entries m) \<and> sorted_wrt (\<lambda>a b. me_FeeRate b \<le> me_FeeRate a) es
    \<and> (\<forall>a \<in> set es. \<forall>b \<in> set es. a \<noteq> b \<longrightarrow> spends (me_Tx a) \<inter> spends (me_Tx b) = {})
    \<and> entries_size es \<le> max 0 cap
    \<and> (\<forall>e \<in> ran (mp_entries m) - set es. cap < entries_size es + int (SerializeSize (me_Tx e)))"
proof -
  let ?all = "sort_key (\<lambda>e. - me_FeeRate e) (range_values ks (mp_entries m))"
  let ?es = "fill_entries cap ?all 0"
  have inv: "pool_inv C m"
    using assms(1) by (rule pool_inv_reachable)
  have all: "set ?all = ran (mp_entries m)"
    using assms(2) by (simp add: set_range_values)
  have sub: "set ?es \<subseteq> ran (mp_entries m)"
    using set_fill_entries [of cap ?all 0] all by simp
  have "distinct ?es"
    using pool_entries_distinct [OF inv assms(2)] by (intro fill_entries_distinct) simp
  moreover have "sorted_wrt (\<lambda>a b. me_FeeRate b \<le> me_FeeRate a) ?all"
    using sorted_sort_key [of "\<lambda>e. - me_FeeRate e" "range_values ks (mp_entries m)"]
    by (simp add: sorted_wrt_map)
  then have "sorted_wrt (\<lambda>a b. me_FeeRate b \<le> me_FeeRate a) ?es"
    by (rule fill_entries_sorted)
  moreover have "entries_size ?es \<le> max 0 cap"
    using fill_entries_size [of cap ?all 0] by simp
  moreover have "cap < entries_size ?es + int (SerializeSize (me_Tx e))"
    if "e \<in> ran (mp_entries m) - set ?es" for e
    using that fill_entries_maximal [of e ?all cap 0] all by simp
  ultimately show ?thesis
    using sub inv
    by (intro exI [of _ ?es])
      (auto simp: GetTransactionsForBlock_def fill_block_entries dest: pool_no_conflict)
qed

theorem block_template_witness:
  "\<exists>es. GetTransactionsForBlock
          [TxHash pool_crypto signed_tx, TxHash pool_crypto second_tx] two_pool 300 = map me_Tx es
        \<and> distinct es \<and> set es \<subseteq> ran (mp_entries two_pool) \<and> entries_size es \<le> 300"
proof -
  have "iteration_of [TxHash pool_crypto signed_tx, TxHash pool_crypto second_tx] (mp_entries two_pool)"
    using two_hashes_differ by (auto simp: iteration_of_def two_pool_def)
  from block_template [OF two_pool_reachable this, of 300] show ?thesis by auto
qed

text \<open>A rejected transaction locks its inputs for good: when \<^verbatim>\<open>AddTransaction\<close> rejects a transaction for
  its fee, the inputs it has marked stay marked although no entry owns them, no later operation of
  the pool releases them, and every transaction that spends one of them is rejected in every later
  state, whatever the set of unspent outputs says.\<close>

theorem rejected_add_locks_inputs:
  assumes "(mempool_step C)\<^sup>*\<^sup>* (NewMempool maxSize minFee) m"
    and "AddTransaction C now prov m tx = (Some (MpFeeTooLow fee minFee), m1)"
    and "(mempool_step C)\<^sup>*\<^sup>* m1 m2"
    and "i \<in> set (tx_Inputs tx)" and "i \<in> set (tx_Inputs tx')"
  shows "fst (AddTransaction C now' prov' m2 tx') \<noteq> None"
proof -
  have inv: "pool_inv C m"
    using assms(1) by (rule pool_inv_reachable)
  obtain spent where res: "reserve_inputs C prov tx (mp_spentUTXOs m) 0 (tx_Inputs tx) = (None, spent)"
    and m1: "m1 = m\<lparr>mp_spentUTXOs := spent\<rparr>"
    using assms(2) by (rule AddTransaction_fee_low)
  have k: "input_key i \<in> input_key ` set (tx_Inputs tx)"
    using assms(4) by simp
  have "\<not> marked m (input_key i)" "map_get False spent (input_key i)"
    using reserve_inputs_ok [OF res] k by (auto simp: marked_def)
  then have "orphan m1 (input_key i)"
    using inv unfolding m1 orphan_def by (auto simp: marked_def pool_inv_def ran_def)
  then have "orphan m2 (input_key i)"
    using assms(3) orphan_run by blast
  with assms(5) show ?thesis
    by (intro marked_blocks) (auto simp: orphan_def)
qed

lemma low_fee_rejected:
  "AddTransaction pool_crypto 0 sample_provider (NewMempool 2 8) signed_tx
     = (Some (MpFeeTooLow 7 8), (NewMempool 2 8)\<lparr>mp_spentUTXOs := [UTXOKey 7 1 \<mapsto> True]\<rparr>)"
  by (simp add: AddTransaction_def NewMempool_def map_len_def two_reserve two_fees)

theorem rejected_add_locks_inputs_witness:
  "AddTransaction pool_crypto 0 sample_provider (NewMempool 2 8) signed_tx
     = (Some (MpFeeTooLow 7 8), (NewMempool 2 8)\<lparr>mp_spentUTXOs := [UTXOKey 7 1 \<mapsto> True]\<rparr>)
   \<and> fst (AddTransaction pool_crypto 1 sample_provider
            ((NewMempool 2 8)\<lparr>mp_spentUTXOs := [UTXOKey 7 1 \<mapsto> True]\<rparr>)
            (signed_tx\<lparr>tx_Outputs := []\<rparr>)) \<noteq> None"
proof -
  have i: "hd (tx_Inputs signed_tx) \<in> set (tx_Inputs signed_tx)"
    "hd (tx_Inputs signed_tx) \<in> set (tx_Inputs (signed_tx\<lparr>tx_Outputs := []\<rparr>))"
    by (simp_all add: signed_tx_def NewTransaction_def)
  show ?thesis
    using low_fee_rejected
      rejected_add_locks_inputs [OF rtranclp.rtrancl_refl low_fee_rejected rtranclp.rtrancl_refl i]
    by simp
qed

end
