(* ===== verification/Merkle.thy ===== *)
theory Merkle
  imports Crypto
begin

text \<open>
  The Merkle tree of the sources (\<^verbatim>\<open>CalculateMerkleRoot\<close> of \<^verbatim>\<open>pkg/utxo/block.go\<close>, and the same loop in
  \<^verbatim>\<open>CalculateValidatorStateRoot\<close> of \<^verbatim>\<open>pkg/utxo/consensus.go\<close>): levels are halved until one hash is left,
  and an odd level repeats its last hash. The hash of a pair is a parameter, since the two
  callers hash differently. The locale \<open>hash_node\<close> is what a pair hash promises, that two pairs with
  one hash are equal unless the underlying function collides on the strings it is applied to for
  them, and carries that promise to whole trees, whose strings are those of all their pairs.
\<close>

section \<open>The tree\<close>

definition pad_odd :: "'a list \<Rightarrow> 'a list" where
  "pad_odd hs = (if odd (length hs) then hs @ [last hs] else hs)"

fun next_level :: "('a \<Rightarrow> 'a \<Rightarrow> 'b) \<Rightarrow> 'a list \<Rightarrow> 'b list" where
  "next_level node (a # b # hs) = node a b # next_level node hs"
| "next_level node hs = []"

lemma length_next_level: "length (next_level node hs) = length hs div 2"
  by (induction node hs rule: next_level.induct) auto

lemma next_level_shorter: "1 < length hs \<Longrightarrow> length (next_level node (pad_odd hs)) < length hs"
  by (simp add: length_next_level pad_odd_def) presburger

function merkle_levels :: "(hash \<Rightarrow> hash \<Rightarrow> hash) \<Rightarrow> hash list \<Rightarrow> hash list" where
  "merkle_levels node hs =
     (if length hs > 1 then merkle_levels node (next_level node (pad_odd hs)) else hs)"
  by auto

termination
  by (relation "measure (\<lambda>(node, hs). length hs)") (simp_all add: next_level_shorter)

declare merkle_levels.simps [simp del]

definition merkle_root :: "(hash \<Rightarrow> hash \<Rightarrow> hash) \<Rightarrow> hash list \<Rightarrow> hash" where
  "merkle_root node hs = (case merkle_levels node hs of [] \<Rightarrow> 0 | h # _ \<Rightarrow> h)"

section \<open>Shape\<close>

lemma pad_odd_inject: "length xs = length ys \<Longrightarrow> pad_odd xs = pad_odd ys \<Longrightarrow> xs = ys"
  by (auto simp: pad_odd_def split: if_splits)

lemma pad_odd_even: "even (length (pad_odd xs))"
  by (simp add: pad_odd_def)

lemma merkle_levels_length: "hs \<noteq> [] \<Longrightarrow> length (merkle_levels node hs) = 1"
proof (induction node hs rule: merkle_levels.induct)
  case (1 node hs)
  show ?case
  proof (cases "length hs > 1")
    case True
    then have "next_level node (pad_odd hs) \<noteq> []"
      by (simp add: length_next_level pad_odd_def flip: length_greater_0_conv)
    with 1 True show ?thesis by (simp add: merkle_levels.simps [of node hs])
  next
    case False
    with "1.prems" have "length hs = 1"
      by (cases hs) auto
    with False show ?thesis by (simp add: merkle_levels.simps [of node hs])
  qed
qed

lemma nth_next_level:
  "even (length xs) \<Longrightarrow> i < length xs div 2 \<Longrightarrow> next_level f xs ! i = f (xs ! (2 * i)) (xs ! (2 * i + 1))"
  by (induction f xs arbitrary: i rule: next_level.induct) (auto simp: nth_Cons split: nat.splits)

lemma nth_pad_odd: "i < length xs \<Longrightarrow> pad_odd xs ! i = xs ! i"
  by (simp add: pad_odd_def nth_append)

text \<open>The node above node \<open>i\<close> of a level is made of it and its sibling, itself when it is a last node without one.\<close>

lemma nth_parent:
  assumes "i < length level" and "1 < length level"
    and "sib = (if even i then (if i + 1 < length level then level ! (i + 1) else level ! i) else level ! (i - 1))"
  shows "(if even i then f (level ! i) sib else f sib (level ! i)) = next_level f (pad_odd level) ! (i div 2)"
    and "i div 2 < length (next_level f (pad_odd level))"
proof -
  have len: "length (pad_odd level) = length level + length level mod 2"
    by (simp add: pad_odd_def) presburger
  then show bound: "i div 2 < length (next_level f (pad_odd level))"
    unfolding length_next_level using assms(1) by presburger
  have pad: "pad_odd level ! (i + 1) = (if i + 1 < length level then level ! (i + 1) else level ! i)" if "even i"
  proof (cases "i + 1 < length level")
    case False
    with assms(1) have "length level = i + 1" by simp
    with that show ?thesis
      by (simp add: pad_odd_def nth_append last_conv_nth flip: length_greater_0_conv)
  qed (simp add: nth_pad_odd)
  have "next_level f (pad_odd level) ! (i div 2) = f (pad_odd level ! (2 * (i div 2))) (pad_odd level ! (2 * (i div 2) + 1))"
    using bound by (intro nth_next_level) (simp_all add: pad_odd_even length_next_level)
  then show "(if even i then f (level ! i) sib else f sib (level ! i)) = next_level f (pad_odd level) ! (i div 2)"
    using assms pad by (cases "even i") (auto simp: nth_pad_odd elim!: oddE)
qed

lemma merkle_root_duplicate:
  "odd (length hs) \<Longrightarrow> length hs > 1 \<Longrightarrow> merkle_root node (hs @ [last hs]) = merkle_root node hs"
  by (cases "hs = []")
    (simp_all add: merkle_root_def merkle_levels.simps [of node hs]
      merkle_levels.simps [of node "hs @ [last hs]"] pad_odd_def)

section \<open>Binding\<close>

text \<open>The pairs that are hashed while a tree is built.\<close>

fun level_pairs :: "'a list \<Rightarrow> ('a \<times> 'a) list" where
  "level_pairs (a # b # hs) = (a, b) # level_pairs hs"
| "level_pairs hs = []"

function tree_pairs :: "(hash \<Rightarrow> hash \<Rightarrow> hash) \<Rightarrow> hash list \<Rightarrow> (hash \<times> hash) list" where
  "tree_pairs node hs =
     (if length hs > 1 then level_pairs (pad_odd hs) @ tree_pairs node (next_level node (pad_odd hs)) else [])"
  by auto

termination
  by (relation "measure (\<lambda>(node, hs). length hs)") (simp_all add: next_level_shorter)

declare tree_pairs.simps [simp del]

definition pair_strings :: "(hash \<Rightarrow> hash \<Rightarrow> bytes set) \<Rightarrow> (hash \<times> hash) list \<Rightarrow> bytes set" where
  "pair_strings strings ps = (\<Union>(a, b) \<in> set ps. strings a b)"

definition tree_strings ::
  "(hash \<Rightarrow> hash \<Rightarrow> hash) \<Rightarrow> (hash \<Rightarrow> hash \<Rightarrow> bytes set) \<Rightarrow> hash list \<Rightarrow> bytes set" where
  "tree_strings node strings hs = pair_strings strings (tree_pairs node hs)"

lemma pair_strings_simps [simp]:
  "pair_strings strings [] = {}"
  "pair_strings strings ((a, b) # ps) = strings a b \<union> pair_strings strings ps"
  "pair_strings strings (ps @ qs) = pair_strings strings ps \<union> pair_strings strings qs"
  by (auto simp: pair_strings_def)

lemma tree_strings_step:
  "1 < length hs \<Longrightarrow> tree_strings node strings hs
     = pair_strings strings (level_pairs (pad_odd hs)) \<union> tree_strings node strings (next_level node (pad_odd hs))"
  "\<not> 1 < length hs \<Longrightarrow> tree_strings node strings hs = {}"
  by (simp_all add: tree_strings_def tree_pairs.simps [of node hs])

locale hash_node =
  fixes node :: "hash \<Rightarrow> hash \<Rightarrow> hash" and fn :: "bytes \<Rightarrow> hash" and strings :: "hash \<Rightarrow> hash \<Rightarrow> bytes set"
  assumes node_binding:
    "inj_on fn (strings a b \<union> strings a' b') \<Longrightarrow> node a b = node a' b' \<Longrightarrow> a = a' \<and> b = b'"
begin

lemma next_level_binding:
  "inj_on fn (pair_strings strings (level_pairs xs) \<union> pair_strings strings (level_pairs ys)) \<Longrightarrow>
   next_level node xs = next_level node ys \<Longrightarrow> length xs = length ys \<Longrightarrow> even (length xs) \<Longrightarrow> xs = ys"
proof (induction xs arbitrary: ys rule: induct_list012)
  case (3 a b hs)
  from "3.prems"(3) obtain a' b' hs' where ys: "ys = a' # b' # hs'"
    by (cases ys; cases "tl ys") auto
  have "hs = hs'"
    using "3.prems"(2-4) by (intro "3.IH"(1) [OF inj_on_subset [OF "3.prems"(1)]]) (auto simp: ys)
  moreover have "a = a' \<and> b = b'"
    using "3.prems"(2) by (intro node_binding [OF inj_on_subset [OF "3.prems"(1)]]) (auto simp: ys)
  ultimately show ?case by (simp add: ys)
qed auto

lemma merkle_levels_binding:
  "inj_on fn (tree_strings node strings xs \<union> tree_strings node strings ys) \<Longrightarrow>
   merkle_levels node xs = merkle_levels node ys \<Longrightarrow> length xs = length ys \<Longrightarrow> xs = ys"
proof (induction "length xs" arbitrary: xs ys rule: less_induct)
  case less
  show ?case
  proof (cases "length xs > 1")
    case True
    let ?x = "next_level node (pad_odd xs)" and ?y = "next_level node (pad_odd ys)"
    have len: "length (pad_odd xs) = length (pad_odd ys)"
      using less.prems(3) by (simp add: pad_odd_def)
    have more: "1 < length xs" "1 < length ys"
      using True less.prems(3) by simp_all
    note strings = tree_strings_step(1) [OF more(1)] tree_strings_step(1) [OF more(2)]
    have inj: "inj_on fn (tree_strings node strings ?x \<union> tree_strings node strings ?y)"
      "inj_on fn (pair_strings strings (level_pairs (pad_odd xs)) \<union> pair_strings strings (level_pairs (pad_odd ys)))"
      unfolding strings by (rule inj_on_subset [OF less.prems(1) [unfolded strings]], blast)+
    have "merkle_levels node ?x = merkle_levels node ?y"
      using True less.prems by (simp add: merkle_levels.simps [of node xs] merkle_levels.simps [of node ys])
    moreover have "length ?x = length ?y"
      by (simp add: length_next_level len)
    moreover have "length ?x < length xs"
      using True by (rule next_level_shorter)
    ultimately have "?x = ?y"
      using less.hyps inj(1) by blast
    then have "pad_odd xs = pad_odd ys"
      using len pad_odd_even by (intro next_level_binding [OF inj(2)])
    with less.prems(3) show ?thesis
      by (rule pad_odd_inject)
  next
    case False
    with less.prems show ?thesis
      by (simp add: merkle_levels.simps [of node xs] merkle_levels.simps [of node ys])
  qed
qed

lemma merkle_root_binding:
  assumes "inj_on fn (tree_strings node strings xs \<union> tree_strings node strings ys)"
    and "merkle_root node xs = merkle_root node ys" and "length xs = length ys"
  shows "xs = ys"
proof (cases "xs = []")
  case True
  with assms show ?thesis by simp
next
  case False
  moreover from False assms(3) have "ys \<noteq> []"
    by auto
  ultimately have "length (merkle_levels node xs) = 1" "length (merkle_levels node ys) = 1"
    by (auto simp: merkle_levels_length simp del: One_nat_def)
  then have "merkle_levels node xs = merkle_levels node ys"
    using assms(2) by (auto simp: merkle_root_def length_Suc_conv)
  then show ?thesis by (rule merkle_levels_binding [OF assms(1) _ assms(3)])
qed

end

end
