(* ===== verification/Block.thy ===== *)
theory Block
  imports UTXO_Store Merkle
begin

text \<open>
  \<^verbatim>\<open>pkg/utxo/block.go\<close>: the block header and its versioned wire format, the Merkle root, the block
  hash and signature, and the checks of a block on its own and against its parent. The clock is an
  argument. A \<^verbatim>\<open>time.Time\<close> is its number of nanoseconds since year one; \<^verbatim>\<open>time.Unix\<close> adds the offset of
  the Unix epoch in 64-bit arithmetic, and \<^verbatim>\<open>Time.Sub\<close> saturates, as in the standard library.
\<close>

section \<open>Time\<close>

definition second :: int where
  "second = 1000000000"

definition time_Unix :: "u64 \<Rightarrow> int" where
  "time_Unix sec = sint (sec + 62135596800) * second"

definition time_Sub :: "int \<Rightarrow> int \<Rightarrow> int" where
  "time_Sub t u = max (- (2 ^ 63)) (min (2 ^ 63 - 1) (t - u))"

definition MaxBlockTimeDrift :: int where
  "MaxBlockTimeDrift = 5 * 60 * second"

definition MinBlockTime :: int where
  "MinBlockTime = 10 * second"

section \<open>Headers and blocks\<close>

record BlockHeader =
  bh_Version :: u32
  bh_PrevBlockHash :: hash
  bh_MerkleRoot :: hash
  bh_Timestamp :: u64
  bh_Height :: u64
  bh_Proposer :: hash
  bh_ProposerKey :: hash
  bh_Signature :: bytes
  bh_VRFProof :: bytes
  bh_VRFSeed :: hash
  bh_ValidatorStateRoot :: hash
  bh_InferencePoW :: bytes
  bh_ModelID :: bytes
  bh_EnergyClaim :: u64
  bh_Nonce :: u64
  bh_Bits :: u32

record Block =
  bl_Header :: BlockHeader
  bl_Transactions :: "Transaction list"
  bl_Hash :: hash
  bl_SignedHash :: hash

definition SerializeHeader :: "BlockHeader \<Rightarrow> bytes" where
  "SerializeHeader h =
     put_u32 (bh_Version h) @ hash_bytes (bh_PrevBlockHash h) @ hash_bytes (bh_MerkleRoot h)
     @ put_u64 (bh_Timestamp h) @ put_u64 (bh_Height h)
     @ hash_bytes (bh_Proposer h) @ hash_bytes (bh_ProposerKey h)
     @ put_bytes (bh_Signature h)
     @ put_bytes (bh_VRFProof h) @ hash_bytes (bh_VRFSeed h)
     @ hash_bytes (bh_ValidatorStateRoot h)
     @ (if bh_Version h \<ge> 2
        then put_bytes (bh_InferencePoW h) @ put_bytes (bh_ModelID h) @ put_u64 (bh_EnergyClaim h)
        else [])
     @ (if bh_Version h \<ge> 3 then put_u64 (bh_Nonce h) @ put_u32 (bh_Bits h) else [])"

definition DeserializeBlockHeader :: "bytes \<Rightarrow> BlockHeader option" where
  "DeserializeBlockHeader data =
     do { (version, r) \<leftarrow> read_u32 data;
          (prev, r) \<leftarrow> read_hash r;
          (merkle, r) \<leftarrow> read_hash r;
          (timestamp, r) \<leftarrow> read_u64 r;
          (height, r) \<leftarrow> read_u64 r;
          (proposer, r) \<leftarrow> read_hash r;
          (proposerKey, r) \<leftarrow> read_hash r;
          (signature, r) \<leftarrow> read_bytes r;
          (vrfProof, r) \<leftarrow> read_bytes r;
          (vrfSeed, r) \<leftarrow> read_hash r;
          (stateRoot, r) \<leftarrow> read_hash r;
          ((inferencePoW, modelID, energyClaim), r) \<leftarrow>
            (if version \<ge> 2
             then do { (p, r) \<leftarrow> read_bytes r; (m, r) \<leftarrow> read_bytes r; (e, r) \<leftarrow> read_u64 r;
                       Some ((p, m, e), r) }
             else Some (([], [], 0), r));
          ((nonce, bits), r) \<leftarrow>
            (if version \<ge> 3
             then do { (n, r) \<leftarrow> read_u64 r; (b, r) \<leftarrow> read_u32 r; Some ((n, b), r) }
             else Some ((0, 0), r));
          Some \<lparr>bh_Version = version, bh_PrevBlockHash = prev, bh_MerkleRoot = merkle,
                bh_Timestamp = timestamp, bh_Height = height, bh_Proposer = proposer,
                bh_ProposerKey = proposerKey, bh_Signature = signature, bh_VRFProof = vrfProof,
                bh_VRFSeed = vrfSeed, bh_ValidatorStateRoot = stateRoot,
                bh_InferencePoW = inferencePoW, bh_ModelID = modelID, bh_EnergyClaim = energyClaim,
                bh_Nonce = nonce, bh_Bits = bits\<rparr> }"

section \<open>Merkle root and hash\<close>

definition merkle_node :: "crypto \<Rightarrow> hash \<Rightarrow> hash \<Rightarrow> hash" where
  "merkle_node C a b = sha256d C (hash_bytes a @ hash_bytes b)"

definition CalculateMerkleRoot :: "crypto \<Rightarrow> Block \<Rightarrow> hash" where
  "CalculateMerkleRoot C b =
     (if length (bl_Transactions b) = 0 then 0
      else merkle_root (merkle_node C) (map (TxHash C) (bl_Transactions b)))"

definition CalculateHash :: "crypto \<Rightarrow> Block \<Rightarrow> hash" where
  "CalculateHash C b = sha256d C (SerializeHeader (bl_Header b))"

definition empty_header :: BlockHeader where
  "empty_header =
     \<lparr>bh_Version = 0, bh_PrevBlockHash = 0, bh_MerkleRoot = 0, bh_Timestamp = 0, bh_Height = 0,
      bh_Proposer = 0, bh_ProposerKey = 0, bh_Signature = [], bh_VRFProof = [], bh_VRFSeed = 0,
      bh_ValidatorStateRoot = 0, bh_InferencePoW = [], bh_ModelID = [], bh_EnergyClaim = 0,
      bh_Nonce = 0, bh_Bits = 0\<rparr>"

definition NewBlock ::
  "crypto \<Rightarrow> u64 \<Rightarrow> Transaction list \<Rightarrow> hash \<Rightarrow> u64 \<Rightarrow> hash \<Rightarrow> Block" where
  "NewBlock C nowUnix transactions prevBlockHash height proposer =
     (let block = \<lparr>bl_Header = empty_header\<lparr>bh_Version := 1, bh_PrevBlockHash := prevBlockHash,
                                 bh_Timestamp := nowUnix, bh_Height := height, bh_Proposer := proposer\<rparr>,
                   bl_Transactions = transactions, bl_Hash = 0, bl_SignedHash = 0\<rparr>;
          block = block\<lparr>bl_Header := (bl_Header block)\<lparr>bh_MerkleRoot := CalculateMerkleRoot C block\<rparr>\<rparr>
      in block\<lparr>bl_Hash := CalculateHash C block\<rparr>)"

definition CreateGenesisBlock :: "crypto \<Rightarrow> u64 \<Rightarrow> Transaction \<Rightarrow> hash \<Rightarrow> Block" where
  "CreateGenesisBlock C nowUnix coinbaseTx proposer =
     (let genesis = NewBlock C nowUnix [coinbaseTx] 0 0 proposer;
          genesis = genesis\<lparr>bl_Header := (bl_Header genesis)\<lparr>bh_Timestamp := 1704067200\<rparr>\<rparr>
      in genesis\<lparr>bl_Hash := CalculateHash C genesis\<rparr>)"

section \<open>Signatures\<close>

text \<open>\<open>None\<close> is the panic of \<^verbatim>\<open>ed25519.Sign\<close> on a private key of the wrong length.\<close>

definition SignBlock :: "crypto \<Rightarrow> Block \<Rightarrow> bytes \<Rightarrow> Block option" where
  "SignBlock C b privKey =
     (let pub = ed25519_Public privKey;
          b = (if length pub = 32
               then b\<lparr>bl_Header := (bl_Header b)\<lparr>bh_ProposerKey := hash_of_bytes pub\<rparr>\<rparr> else b);
          b = b\<lparr>bl_SignedHash := CalculateHash C b\<rparr>
      in case ed25519_Sign C privKey (hash_bytes (bl_SignedHash b)) of
           None \<Rightarrow> None
         | Some signature \<Rightarrow>
             let b = b\<lparr>bl_Header := (bl_Header b)\<lparr>bh_Signature := signature\<rparr>\<rparr>
             in Some (b\<lparr>bl_Hash := CalculateHash C b\<rparr>))"

definition VerifyBlockSignature :: "crypto \<Rightarrow> Block \<Rightarrow> bool option" where
  "VerifyBlockSignature C b =
     (if length (bh_Signature (bl_Header b)) = 0 then Some False
      else let unsignedHash = CalculateHash C (b\<lparr>bl_Header := (bl_Header b)\<lparr>bh_Signature := []\<rparr>\<rparr>)
           in ed25519_Verify C (hash_bytes (bh_ProposerKey (bl_Header b))) (hash_bytes unsignedHash)
                (bh_Signature (bl_Header b)))"

section \<open>Validation\<close>

datatype block_error =
    BlkPanic
  | BlkHashMismatch
  | BlkMerkleMismatch
  | BlkBadSignature
  | BlkTxInvalid
  | BlkNoParent
  | BlkHeightMismatch u64 u64
  | BlkPrevHashMismatch
  | BlkTimestampNotAfterParent
  | BlkTooSoon int
  | BlkDrift int
  | BlkNoCoinbase
  | BlkFirstNotCoinbase
  | BlkManyCoinbases nat
  | BlkFeeError nat tx_error
  | BlkRewardBelow u64 u64
  | BlkFeeTooLow nat u64
  | BlkTxBadSignature nat
  | BlkDoubleSpend nat hash u32

fun verify_transactions :: "crypto \<Rightarrow> Transaction list \<Rightarrow> (block_error, unit) result" where
  "verify_transactions C [] = Inr ()"
| "verify_transactions C (tx # txs) =
     (case VerifyAllInputs C tx of
        None \<Rightarrow> Inl BlkPanic
      | Some ok \<Rightarrow> if \<not> ok then Inl BlkTxInvalid else verify_transactions C txs)"

definition ValidateBlock :: "crypto \<Rightarrow> Block \<Rightarrow> (block_error, unit) result" where
  "ValidateBlock C b =
     (if bl_Hash b \<noteq> CalculateHash C b then Inl BlkHashMismatch
      else if bh_MerkleRoot (bl_Header b) \<noteq> CalculateMerkleRoot C b then Inl BlkMerkleMismatch
      else case VerifyBlockSignature C b of
        None \<Rightarrow> Inl BlkPanic
      | Some ok \<Rightarrow>
          if \<not> ok then Inl BlkBadSignature else verify_transactions C (bl_Transactions b))"

definition IsGenesis :: "Block \<Rightarrow> bool" where
  "IsGenesis b \<longleftrightarrow> bh_Height (bl_Header b) = 0 \<and> bh_PrevBlockHash (bl_Header b) = 0"

definition GetTransactionCount :: "Block \<Rightarrow> nat" where
  "GetTransactionCount b = length (bl_Transactions b)"

definition GetTransactionByHash :: "crypto \<Rightarrow> Block \<Rightarrow> hash \<Rightarrow> Transaction option" where
  "GetTransactionByHash C b h = List.find (\<lambda>tx. TxHash C tx = h) (bl_Transactions b)"

definition SerializeBlock :: "Block \<Rightarrow> bytes" where
  "SerializeBlock b =
     put_bytes (SerializeHeader (bl_Header b))
     @ put_len (bl_Transactions b)
     @ concat (map (\<lambda>tx. put_bytes (Serialize tx)) (bl_Transactions b))"

definition deserialize_tx :: "bytes \<Rightarrow> (Transaction \<times> bytes) option" where
  "deserialize_tx r =
     do { (txData, r) \<leftarrow> read_bytes r; tx \<leftarrow> DeserializeTransaction txData; Some (tx, r) }"

definition DeserializeBlock :: "crypto \<Rightarrow> bytes \<Rightarrow> Block option" where
  "DeserializeBlock C data =
     do { (headerData, r) \<leftarrow> read_bytes data;
          header \<leftarrow> DeserializeBlockHeader headerData;
          (txCount, r) \<leftarrow> read_u32 r;
          (txs, r) \<leftarrow> read_many deserialize_tx (unat txCount) r;
          let block = \<lparr>bl_Header = header, bl_Transactions = txs, bl_Hash = 0, bl_SignedHash = 0\<rparr>
          in Some (block\<lparr>bl_Hash := CalculateHash C block\<rparr>) }"

definition GetCoinbaseTransaction :: "Block \<Rightarrow> Transaction option" where
  "GetCoinbaseTransaction b =
     (if length (bl_Transactions b) > 0 then Some (bl_Transactions b ! 0) else None)"

definition GetBlockReward :: "Block \<Rightarrow> u64" where
  "GetBlockReward b =
     (case GetCoinbaseTransaction b of None \<Rightarrow> 0 | Some coinbase \<Rightarrow> TotalOutputValue coinbase)"

fun add_fees ::
  "utxo_provider \<Rightarrow> nat \<Rightarrow> Transaction list \<Rightarrow> u64 \<Rightarrow> (block_error, u64) result" where
  "add_fees prov i [] totalFees = Inr totalFees"
| "add_fees prov i (tx # txs) totalFees =
     (case GetFee prov tx of
        Inl e \<Rightarrow> Inl (BlkFeeError i e)
      | Inr fee \<Rightarrow> add_fees prov (Suc i) txs (totalFees + fee))"

definition GetTotalTransactionFees :: "utxo_provider \<Rightarrow> Block \<Rightarrow> (block_error, u64) result" where
  "GetTotalTransactionFees prov b = add_fees prov 1 (drop 1 (bl_Transactions b)) 0"

definition CalculateTotalReward :: "utxo_provider \<Rightarrow> Block \<Rightarrow> u64 \<Rightarrow> (block_error, u64) result" where
  "CalculateTotalReward prov b blockSubsidy =
     rbind (GetTotalTransactionFees prov b) (\<lambda>fees. Inr (blockSubsidy + fees))"

definition GetNonCoinbaseTransactions :: "Block \<Rightarrow> Transaction list" where
  "GetNonCoinbaseTransactions b =
     (if length (bl_Transactions b) \<le> 1 then [] else drop 1 (bl_Transactions b))"

definition ValidateCoinbaseReward :: "utxo_provider \<Rightarrow> Block \<Rightarrow> u64 \<Rightarrow> (block_error, unit) result" where
  "ValidateCoinbaseReward prov b expectedSubsidy =
     (case GetCoinbaseTransaction b of
        None \<Rightarrow> Inl BlkNoCoinbase
      | Some coinbase \<Rightarrow>
          if \<not> IsCoinbase coinbase then Inl BlkFirstNotCoinbase
          else rbind (GetTotalTransactionFees prov b) (\<lambda>totalFees.
            let expectedReward = expectedSubsidy + totalFees;
                actualReward = TotalOutputValue coinbase
            in if actualReward < expectedReward then Inl (BlkRewardBelow actualReward expectedReward)
               else Inr ()))"

definition ValidateBlockChain :: "int \<Rightarrow> Block \<Rightarrow> Block option \<Rightarrow> (block_error, unit) result" where
  "ValidateBlockChain now b parent =
     (case parent of
        None \<Rightarrow> if \<not> IsGenesis b then Inl BlkNoParent else Inr ()
      | Some p \<Rightarrow>
          if bh_Height (bl_Header b) \<noteq> bh_Height (bl_Header p) + 1
          then Inl (BlkHeightMismatch (bh_Height (bl_Header p) + 1) (bh_Height (bl_Header b)))
          else if bh_PrevBlockHash (bl_Header b) \<noteq> bl_Hash p then Inl BlkPrevHashMismatch
          else if bh_Timestamp (bl_Header b) \<le> bh_Timestamp (bl_Header p)
          then Inl BlkTimestampNotAfterParent
          else
            let blockTime = time_Unix (bh_Timestamp (bl_Header b));
                parentTime = time_Unix (bh_Timestamp (bl_Header p));
                timeDiff = time_Sub blockTime parentTime
            in if timeDiff < MinBlockTime then Inl (BlkTooSoon timeDiff)
               else if time_Sub now parentTime < 2 * MaxBlockTimeDrift
                       \<and> MaxBlockTimeDrift < time_Sub blockTime now
               then Inl (BlkDrift (time_Sub blockTime now)) else Inr ())"

section \<open>Security checks\<close>

definition CoinbaseMaturityBlocks :: u64 where
  "CoinbaseMaturityBlocks = 100"

definition MinTransactionFee :: u64 where
  "MinTransactionFee = 100"

definition coinbase_errors :: "Transaction list \<Rightarrow> block_error list" where
  "coinbase_errors txs =
     (let coinbaseCount = length (filter IsCoinbase txs) in
      (if coinbaseCount > 1 then [BlkManyCoinbases coinbaseCount] else [])
      @ (if length txs > 0 \<and> \<not> IsCoinbase (txs ! 0) then [BlkFirstNotCoinbase] else []))"

fun fee_errors :: "utxo_provider \<Rightarrow> nat \<Rightarrow> Transaction list \<Rightarrow> block_error list" where
  "fee_errors prov i [] = []"
| "fee_errors prov i (tx # txs) =
     (case GetFee prov tx of
        Inl e \<Rightarrow> BlkFeeError i e # fee_errors prov (Suc i) txs
      | Inr fee \<Rightarrow>
          (if fee < MinTransactionFee then [BlkFeeTooLow i fee] else []) @ fee_errors prov (Suc i) txs)"

text \<open>\<open>None\<close> is the panic of a signature check.\<close>

fun signature_errors :: "crypto \<Rightarrow> nat \<Rightarrow> Transaction list \<Rightarrow> block_error list option" where
  "signature_errors C i [] = Some []"
| "signature_errors C i (tx # txs) =
     (case VerifyAllInputs C tx of
        None \<Rightarrow> None
      | Some ok \<Rightarrow>
          map_option (\<lambda>es. (if \<not> ok then [BlkTxBadSignature i] else []) @ es)
            (signature_errors C (Suc i) txs))"

text \<open>The 36-byte key of an input: the hash, then the index byte by byte.\<close>

definition security_key :: "TXInput \<Rightarrow> bytes" where
  "security_key inp =
     hash_bytes (ti_TxHash inp)
     @ [ucast (ti_Index inp), ucast (drop_bit 8 (ti_Index inp)),
        ucast (drop_bit 16 (ti_Index inp)), ucast (drop_bit 24 (ti_Index inp))]"

fun duplicate_inputs ::
  "nat \<Rightarrow> TXInput list \<Rightarrow> bytes set \<Rightarrow> block_error list \<times> bytes set" where
  "duplicate_inputs i [] seen = ([], seen)"
| "duplicate_inputs i (inp # ins) seen =
     (let key = security_key inp; (es, seen') = duplicate_inputs i ins (insert key seen) in
      ((if key \<in> seen then [BlkDoubleSpend i (ti_TxHash inp) (ti_Index inp)] else []) @ es, seen'))"

fun double_spend_errors :: "nat \<Rightarrow> Transaction list \<Rightarrow> bytes set \<Rightarrow> block_error list" where
  "double_spend_errors i [] seen = []"
| "double_spend_errors i (tx # txs) seen =
     (let (es, seen') = duplicate_inputs i (tx_Inputs tx) seen in
      es @ double_spend_errors (Suc i) txs seen')"

definition ValidateBlockSecurity ::
  "crypto \<Rightarrow> utxo_provider \<Rightarrow> Block \<Rightarrow> u64 \<Rightarrow> block_error list option" where
  "ValidateBlockSecurity C prov b currentHeight =
     (let txs = bl_Transactions b; rest = drop 1 txs in
      map_option (\<lambda>sigErrs.
          coinbase_errors txs @ fee_errors prov 1 rest
          @ (if CalculateMerkleRoot C b \<noteq> bh_MerkleRoot (bl_Header b) then [BlkMerkleMismatch] else [])
          @ sigErrs @ double_spend_errors 1 rest {})
        (signature_errors C 1 rest))"

definition ValidateTransactionMinFee :: "utxo_provider \<Rightarrow> Transaction \<Rightarrow> (block_error, unit) result" where
  "ValidateTransactionMinFee prov tx =
     (if IsCoinbase tx then Inr ()
      else case GetFee prov tx of
        Inl e \<Rightarrow> Inl (BlkFeeError 0 e)
      | Inr fee \<Rightarrow> if fee < MinTransactionFee then Inl (BlkFeeTooLow 0 fee) else Inr ())"

definition IsCoinbaseSpendable :: "u64 \<Rightarrow> u64 \<Rightarrow> bool" where
  "IsCoinbaseSpendable coinbaseHeight currentHeight \<longleftrightarrow>
     (if coinbaseHeight = 0 then True else currentHeight - coinbaseHeight \<ge> CoinbaseMaturityBlocks)"

section \<open>The wire formats\<close>

text \<open>The fields a version does not write come back as zero values.\<close>

definition canonical :: "BlockHeader \<Rightarrow> BlockHeader" where
  "canonical h =
     (let h = (if bh_Version h \<ge> 2 then h
               else h\<lparr>bh_InferencePoW := [], bh_ModelID := [], bh_EnergyClaim := 0\<rparr>)
      in if bh_Version h \<ge> 3 then h else h\<lparr>bh_Nonce := 0, bh_Bits := 0\<rparr>)"

definition header_wf :: "BlockHeader \<Rightarrow> bool" where
  "header_wf h \<longleftrightarrow> length (bh_Signature h) < 2 ^ 32 \<and> length (bh_VRFProof h) < 2 ^ 32
     \<and> length (bh_InferencePoW h) < 2 ^ 32 \<and> length (bh_ModelID h) < 2 ^ 32"

lemma deserialize_header:
  "header_wf h \<Longrightarrow> DeserializeBlockHeader (SerializeHeader h @ junk) = Some (canonical h)"
  by (auto simp: DeserializeBlockHeader_def SerializeHeader_def header_wf_def canonical_def Let_def)

lemma SerializeHeader_canonical: "SerializeHeader (canonical h) = SerializeHeader h"
  by (simp add: SerializeHeader_def canonical_def Let_def)

lemma SerializeHeader_inject:
  "header_wf a \<Longrightarrow> header_wf b \<Longrightarrow> SerializeHeader a = SerializeHeader b \<longleftrightarrow> canonical a = canonical b"
  by (metis SerializeHeader_canonical append_Nil2 deserialize_header option.inject)

lemma Serialize_neq_nil [simp]: "Serialize tx \<noteq> []" "SerializeHeader h \<noteq> []"
  by (simp_all add: Serialize_def SerializeHeader_def)

text \<open>A non-empty slice is read back even when nothing follows it.\<close>

lemma read_bytes_last: "length x < 2 ^ 32 \<Longrightarrow> x \<noteq> [] \<Longrightarrow> read_bytes (put_bytes x @ r) = Some (x, r)"
  by (simp add: read_bytes_def put_bytes_def put_len_def reader_read_def)

definition block_wf :: "Block \<Rightarrow> bool" where
  "block_wf b \<longleftrightarrow> header_wf (bl_Header b) \<and> length (SerializeHeader (bl_Header b)) < 2 ^ 32
     \<and> length (bl_Transactions b) < 2 ^ 32
     \<and> (\<forall>tx \<in> set (bl_Transactions b). tx_wf tx \<and> length (Serialize tx) < 2 ^ 32)"

lemma read_many_transactions:
  "(\<forall>tx \<in> set txs. tx_wf tx \<and> length (Serialize tx) < 2 ^ 32) \<Longrightarrow>
   read_many deserialize_tx (length txs) (concat (map (\<lambda>tx. put_bytes (Serialize tx)) txs) @ r) = Some (txs, r)"
  by (induction txs) (simp_all add: deserialize_tx_def read_bytes_last deserialize_serialize)

section \<open>The Merkle root\<close>

definition node_strings :: "crypto \<Rightarrow> hash \<Rightarrow> hash \<Rightarrow> bytes set" where
  "node_strings C a b = double_strings C (hash_bytes a @ hash_bytes b)"

lemma merkle_node_binding:
  assumes "inj_on (sha256 C) (node_strings C a b \<union> node_strings C a' b')"
    and "merkle_node C a b = merkle_node C a' b'"
  shows "a = a' \<and> b = b'"
  using assms by (simp add: merkle_node_def node_strings_def sha256d_inject)

interpretation block_node: hash_node "merkle_node C" "sha256 C" "node_strings C" for C
  by unfold_locales (rule merkle_node_binding)

lemma double_hashes_inject:
  assumes "inj_on (sha256 C) (\<Union> (double_strings C ` (set xs \<union> set ys)))"
    and "map (sha256d C) xs = map (sha256d C) ys"
  shows "xs = ys"
proof -
  have "inj_on (sha256d C) (set xs \<union> set ys)"
  proof (rule inj_onI)
    fix x y
    assume "x \<in> set xs \<union> set ys" and "y \<in> set xs \<union> set ys" and eq: "sha256d C x = sha256d C y"
    then have "double_strings C x \<union> double_strings C y \<subseteq> \<Union> (double_strings C ` (set xs \<union> set ys))"
      by blast
    from sha256d_inject [OF inj_on_subset [OF assms(1) this]] eq show "x = y" by simp
  qed
  with assms(2) show ?thesis by (rule map_inj_on)
qed

lemma Serialize_map_inject:
  assumes "map Serialize xs = map Serialize ys" and "\<forall>tx \<in> set xs \<union> set ys. tx_wf tx"
  shows "xs = ys"
  using assms by (intro map_inj_on [OF assms(1)] inj_onI) (simp add: Serialize_inject)

text \<open>The strings that are hashed for the Merkle root of a list of serialized items, and for the hash of a block
  and its Merkle root.\<close>

definition root_strings :: "crypto \<Rightarrow> bytes list \<Rightarrow> bytes set" where
  "root_strings C items = (\<Union>x \<in> set items. double_strings C x)
     \<union> tree_strings (merkle_node C) (node_strings C) (map (sha256d C) items)"

definition block_strings :: "crypto \<Rightarrow> Block \<Rightarrow> bytes set" where
  "block_strings C b = double_strings C (SerializeHeader (bl_Header b))
     \<union> root_strings C (map Serialize (bl_Transactions b))"

lemma root_items_inject:
  assumes "inj_on (sha256 C) (root_strings C xs \<union> root_strings C ys)" and "length xs = length ys"
    and "merkle_root (merkle_node C) (map (sha256d C) xs) = merkle_root (merkle_node C) (map (sha256d C) ys)"
  shows "xs = ys"
proof -
  have "inj_on (sha256 C) (tree_strings (merkle_node C) (node_strings C) (map (sha256d C) xs)
      \<union> tree_strings (merkle_node C) (node_strings C) (map (sha256d C) ys))"
    by (rule inj_on_subset [OF assms(1)]) (auto simp: root_strings_def)
  then have "map (sha256d C) xs = map (sha256d C) ys"
    using assms(2,3) by (intro block_node.merkle_root_binding) simp_all
  moreover have "inj_on (sha256 C) (\<Union> (double_strings C ` (set xs \<union> set ys)))"
    by (rule inj_on_subset [OF assms(1)]) (auto simp: root_strings_def)
  ultimately show ?thesis
    by (intro double_hashes_inject)
qed

section \<open>Security checks\<close>

lemma fee_errors_none:
  "fee_errors prov i txs = [] \<longleftrightarrow> (\<forall>tx \<in> set txs. \<exists>fee. GetFee prov tx = Inr fee \<and> MinTransactionFee \<le> fee)"
  by (induction txs arbitrary: i) (auto split: sum.splits simp: not_less)

lemma signature_errors_none:
  "signature_errors C i txs = Some [] \<longleftrightarrow> (\<forall>tx \<in> set txs. VerifyAllInputs C tx = Some True)"
  by (induction txs arbitrary: i) (auto split: option.splits)

lemma security_key_u32: "security_key inp = hash_bytes (ti_TxHash inp) @ put_u32 (ti_Index inp)"
proof -
  have b: "ucast (drop_bit n w) = (of_nat (unat w div 2 ^ n) :: byte)" for n and w :: u32
  proof -
    have "unat (drop_bit n w) = unat w div 2 ^ n"
      using drop_bit_eq_div [of n "unat w"] by (simp only: unat_drop_bit_eq)
    then show ?thesis
      by (simp add: word_unat_eq_iff unat_of_nat unsigned_ucast_eq take_bit_eq_mod del: drop_bit_eq_div)
  qed
  have low: "unat (ucast w :: byte) = unat w mod 256" for w :: u32
    by (simp add: unsigned_ucast_eq take_bit_eq_mod)
  have four: "(4::nat) = Suc (Suc (Suc (Suc 0)))" by simp
  have "[ucast w, ucast (drop_bit 8 w), ucast (drop_bit 16 w), ucast (drop_bit 24 w)] = put_u32 w" for w :: u32
    using low [of w] b [of 8 w] b [of 16 w] b [of 24 w]
    by (simp add: put_u32_def four div_mult2_eq [symmetric] del: of_nat_mod)
      (simp add: word_unat_eq_iff unat_of_nat)
  then show ?thesis by (simp add: security_key_def)
qed

lemma security_key_inject: "security_key a = security_key b \<longleftrightarrow> outpoint_of a = outpoint_of b"
  by (auto simp: security_key_u32 outpoint_of_def)

lemma duplicate_inputs_result:
  "duplicate_inputs i ins seen = (es, seen') \<Longrightarrow>
   seen' = seen \<union> security_key ` set ins
   \<and> (es = [] \<longleftrightarrow> distinct (map security_key ins) \<and> security_key ` set ins \<inter> seen = {})"
proof (induction ins arbitrary: seen es)
  case Nil
  then show ?case by simp
next
  case (Cons inp ins)
  obtain es1 where d: "duplicate_inputs i ins (insert (security_key inp) seen) = (es1, seen')"
    and es: "es = (if security_key inp \<in> seen
                   then [BlkDoubleSpend i (ti_TxHash inp) (ti_Index inp)] else []) @ es1"
    using Cons.prems by (auto simp: Let_def split: prod.splits)
  from Cons.IH [OF d] show ?case
    unfolding es by auto
qed

lemma double_spend_errors_none:
  "double_spend_errors i txs seen = [] \<longleftrightarrow>
     distinct (map security_key (concat (map tx_Inputs txs)))
     \<and> security_key ` set (concat (map tx_Inputs txs)) \<inter> seen = {}"
proof (induction txs arbitrary: i seen)
  case Nil
  then show ?case by simp
next
  case (Cons tx txs)
  obtain es seen' where d: "duplicate_inputs i (tx_Inputs tx) seen = (es, seen')"
    by (cases "duplicate_inputs i (tx_Inputs tx) seen") auto
  have "double_spend_errors i (tx # txs) seen = [] \<longleftrightarrow>
      es = [] \<and> double_spend_errors (Suc i) txs seen' = []"
    using d by simp
  then show ?case
    using duplicate_inputs_result [OF d]
    unfolding Cons.IH list.map concat.simps map_append distinct_append set_append set_map image_Un
    by blast
qed

lemma map_security_key_distinct:
  "distinct (map security_key ins) \<longleftrightarrow> distinct (map outpoint_of ins)"
  by (auto simp: distinct_map inj_on_def security_key_inject)

text \<open>Coinbase maturity: once the chain is at or above the coinbase, its output is spendable exactly
  from a hundred blocks on (the genesis coinbase at once); below it the unsigned difference wraps,
  and an output from more than a hundred blocks short of two to the 64 ahead counts as mature.\<close>

lemma coinbase_maturity:
  "(coinbaseHeight \<noteq> 0 \<and> coinbaseHeight \<le> height \<longrightarrow>
      (IsCoinbaseSpendable coinbaseHeight height \<longleftrightarrow> unat coinbaseHeight + 100 \<le> unat height))
   \<and> (height < coinbaseHeight \<and> unat coinbaseHeight - unat height \<le> 2 ^ 64 - 100 \<longrightarrow>
      IsCoinbaseSpendable coinbaseHeight height)"
proof (intro conjI impI; elim conjE)
  assume "coinbaseHeight \<noteq> 0" and le: "coinbaseHeight \<le> height"
  then show "IsCoinbaseSpendable coinbaseHeight height \<longleftrightarrow> unat coinbaseHeight + 100 \<le> unat height"
    using unat_minus_le [OF le] by (auto simp: IsCoinbaseSpendable_def CoinbaseMaturityBlocks_def word_le_nat_alt)
next
  assume lt: "height < coinbaseHeight" and gap: "unat coinbaseHeight - unat height \<le> 2 ^ 64 - 100"
  have "unat (height - coinbaseHeight) = 2 ^ 64 + unat height - unat coinbaseHeight"
    using lt by (simp add: unat_sub_if' word_less_nat_alt)
  moreover have "unat height < unat coinbaseHeight"
    using lt by (simp add: word_less_nat_alt)
  ultimately have "100 \<le> unat (height - coinbaseHeight)"
    using gap unat_bound [of coinbaseHeight] by simp
  then show "IsCoinbaseSpendable coinbaseHeight height"
    by (simp add: IsCoinbaseSpendable_def CoinbaseMaturityBlocks_def word_le_nat_alt)
qed

section \<open>Properties\<close>

text \<open>C33. Blocks survive the wire: \<^verbatim>\<open>DeserializeBlock\<close> of the bytes \<^verbatim>\<open>SerializeBlock\<close> writes returns the same
  transactions and the same header, where only the fields that the header's version does not write
  come back as zero values; the cached hash is recomputed and the signed hash is dropped.\<close>

theorem block_roundtrip:
  assumes "block_wf b"
  shows "DeserializeBlock C (SerializeBlock b @ junk) =
    Some (b\<lparr>bl_Header := canonical (bl_Header b), bl_Hash := CalculateHash C b, bl_SignedHash := 0\<rparr>)"
proof -
  let ?h = "SerializeHeader (bl_Header b)"
  have wf: "length ?h < 2 ^ 32" "header_wf (bl_Header b)" "length (bl_Transactions b) < 2 ^ 32"
    "\<forall>tx \<in> set (bl_Transactions b). tx_wf tx \<and> length (Serialize tx) < 2 ^ 32"
    using assms by (auto simp: block_wf_def)
  have "DeserializeBlockHeader ?h = Some (canonical (bl_Header b))"
    using deserialize_header [OF wf(2), of "[]"] by simp
  moreover have "CalculateHash C (b\<lparr>bl_Header := canonical (bl_Header b)\<rparr>) = CalculateHash C b"
    by (simp add: CalculateHash_def SerializeHeader_canonical)
  ultimately show ?thesis
    using wf by (simp add: DeserializeBlock_def SerializeBlock_def read_bytes_last put_len_def
        read_many_transactions CalculateHash_def)
qed

definition sample_block :: Block where
  "sample_block =
     \<lparr>bl_Header = empty_header\<lparr>bh_Version := 3, bh_Signature := [1], bh_Bits := 5\<rparr>,
      bl_Transactions = [sample_tx], bl_Hash = 0, bl_SignedHash = 0\<rparr>"

lemma length_SerializeHeader_le:
  "length (SerializeHeader h) \<le> 300 + length (bh_Signature h) + length (bh_VRFProof h)
     + length (bh_InferencePoW h) + length (bh_ModelID h)"
  by (simp add: SerializeHeader_def put_bytes_def)

lemma sample_block_wf: "block_wf sample_block"
proof -
  have "length (Serialize sample_tx) < 2 ^ 32"
    by (simp add: Serialize_def serialize_body_def sample_tx_def NewTransaction_def serialize_input_def
        serialize_output_def sample_input_def sample_output_def put_bytes_def)
  moreover have "length (SerializeHeader (bl_Header sample_block)) < 2 ^ 32"
    using length_SerializeHeader_le [of "bl_Header sample_block"]
    by (simp add: sample_block_def empty_header_def)
  ultimately show ?thesis
    using sample_tx_wf by (simp add: block_wf_def header_wf_def sample_block_def empty_header_def)
qed

theorem block_roundtrip_witness:
  "block_wf sample_block \<and>
   DeserializeBlock sample_crypto (SerializeBlock sample_block @ []) =
     Some (sample_block\<lparr>bl_Header := canonical (bl_Header sample_block),
            bl_Hash := CalculateHash sample_crypto sample_block, bl_SignedHash := 0\<rparr>)"
  using sample_block_wf block_roundtrip [OF sample_block_wf] by blast

text \<open>C25. A block hash commits to the header and to the transactions: if two blocks hash alike, each
  carries the Merkle root of its own transactions, they have the same number of transactions, and
  SHA-256 does not collide on the strings that are hashed for these two blocks (the headers, the
  transactions, the pairs of the two Merkle trees and their first hashes), then their headers agree
  in every field that is written and their transactions are the same.\<close>

theorem block_hash_binding:
  assumes "block_wf a" and "block_wf b" and "CalculateHash C a = CalculateHash C b"
    and "bh_MerkleRoot (bl_Header a) = CalculateMerkleRoot C a"
    and "bh_MerkleRoot (bl_Header b) = CalculateMerkleRoot C b"
    and "length (bl_Transactions a) = length (bl_Transactions b)"
    and "inj_on (sha256 C) (block_strings C a \<union> block_strings C b)"
  shows "canonical (bl_Header a) = canonical (bl_Header b) \<and> bl_Transactions a = bl_Transactions b"
proof -
  let ?f = "\<lambda>x. map Serialize (bl_Transactions x)"
  have "inj_on (sha256 C) (double_strings C (SerializeHeader (bl_Header a)) \<union> double_strings C (SerializeHeader (bl_Header b)))"
    by (rule inj_on_subset [OF assms(7)]) (auto simp: block_strings_def)
  then have hdr: "canonical (bl_Header a) = canonical (bl_Header b)"
    using assms(1-3) by (simp add: CalculateHash_def sha256d_inject block_wf_def SerializeHeader_inject)
  have "bh_MerkleRoot h = bh_MerkleRoot (canonical h)" for h
    by (simp add: canonical_def Let_def)
  then have "CalculateMerkleRoot C a = CalculateMerkleRoot C b"
    using hdr assms(4,5) by metis
  moreover have "CalculateMerkleRoot C x = (if bl_Transactions x = [] then 0
      else merkle_root (merkle_node C) (map (sha256d C) (?f x)))" for x
    by (simp add: CalculateMerkleRoot_def TxHash_def [abs_def] comp_def)
  ultimately have root: "merkle_root (merkle_node C) (map (sha256d C) (?f a))
      = merkle_root (merkle_node C) (map (sha256d C) (?f b))"
    using assms(6) by (auto split: if_splits)
  have "?f a = ?f b"
    using assms(6) by (intro root_items_inject [OF inj_on_subset [OF assms(7)] _ root])
      (auto simp: block_strings_def)
  then have "bl_Transactions a = bl_Transactions b"
    using assms(1,2) by (rule_tac Serialize_map_inject) (auto simp: block_wf_def)
  with hdr show ?thesis by simp
qed

text \<open>A hash without collisions on the strings of one small block, and two blocks that differ only in what is not
  hashed.\<close>

definition root_block :: Block where
  "root_block = sample_block\<lparr>bl_Header := (bl_Header sample_block)\<lparr>bh_MerkleRoot := 4\<rparr>\<rparr>"

definition table_crypto :: crypto where
  "table_crypto = sample_crypto\<lparr>sha256 := \<lambda>bs.
     if bs = SerializeHeader (bl_Header root_block) then 1 else if bs = Serialize sample_tx then 2
     else if bs = hash_bytes 1 then 3 else 4\<rparr>"

lemma table_crypto_strings:
  "block_strings table_crypto root_block
     = {SerializeHeader (bl_Header root_block), hash_bytes 1, Serialize sample_tx, hash_bytes 2}"
  "CalculateMerkleRoot table_crypto root_block = 4"
  "inj_on (sha256 table_crypto) {SerializeHeader (bl_Header root_block), hash_bytes 1, Serialize sample_tx, hash_bytes 2}"
proof -
  have tx: "bl_Transactions root_block = [sample_tx]"
    by (simp add: root_block_def sample_block_def)
  have len: "length (SerializeHeader (bl_Header root_block)) > 120" "length (Serialize sample_tx) > 32"
      "length (Serialize sample_tx) < 120"
    by (simp_all add: SerializeHeader_def root_block_def sample_block_def empty_header_def Serialize_def
        serialize_body_def sample_tx_def NewTransaction_def serialize_input_def serialize_output_def
        sample_input_def sample_output_def put_bytes_def)
  then have d: "Serialize sample_tx \<noteq> SerializeHeader (bl_Header root_block)"
      "hash_bytes h \<noteq> SerializeHeader (bl_Header root_block)" "hash_bytes h \<noteq> Serialize sample_tx" for h
    by (auto dest!: arg_cong [where f = length])
  have one: "sha256 table_crypto (SerializeHeader (bl_Header root_block)) = 1"
      "sha256 table_crypto (Serialize sample_tx) = 2" "sha256 table_crypto (hash_bytes 1) = 3"
      "sha256 table_crypto (hash_bytes 2) = 4"
    using d by (simp_all add: table_crypto_def)
  have roots: "root_strings table_crypto [x] = double_strings table_crypto x" for x
    by (simp add: root_strings_def tree_strings_step)
  show "block_strings table_crypto root_block
     = {SerializeHeader (bl_Header root_block), hash_bytes 1, Serialize sample_tx, hash_bytes 2}"
    by (auto simp: block_strings_def tx roots double_strings_def one)
  show "CalculateMerkleRoot table_crypto root_block = 4"
    by (simp add: CalculateMerkleRoot_def tx merkle_root_def merkle_levels.simps TxHash_def sha256d_def one)
  show "inj_on (sha256 table_crypto) {SerializeHeader (bl_Header root_block), hash_bytes 1, Serialize sample_tx, hash_bytes 2}"
    by (simp add: inj_on_def one)
qed

theorem block_hash_binding_witness:
  "let b = root_block\<lparr>bl_SignedHash := 9\<rparr> in
   block_wf root_block \<and> CalculateHash table_crypto root_block = CalculateHash table_crypto b \<and> root_block \<noteq> b
   \<and> inj_on (sha256 table_crypto) (block_strings table_crypto root_block \<union> block_strings table_crypto b)
   \<and> canonical (bl_Header root_block) = canonical (bl_Header b) \<and> bl_Transactions root_block = bl_Transactions b"
proof -
  let ?b = "root_block\<lparr>bl_SignedHash := 9\<rparr>"
  have wf: "block_wf root_block"
    using sample_block_wf length_SerializeHeader_le [of "bl_Header root_block"]
    by (simp add: root_block_def block_wf_def header_wf_def sample_block_def empty_header_def)
  then have wf': "block_wf ?b"
    by (simp add: block_wf_def)
  have same: "CalculateHash table_crypto root_block = CalculateHash table_crypto ?b"
      "CalculateMerkleRoot table_crypto ?b = CalculateMerkleRoot table_crypto root_block"
      "block_strings table_crypto ?b = block_strings table_crypto root_block"
    by (simp_all add: CalculateHash_def CalculateMerkleRoot_def block_strings_def)
  have roots: "bh_MerkleRoot (bl_Header root_block) = CalculateMerkleRoot table_crypto root_block"
      "bh_MerkleRoot (bl_Header ?b) = CalculateMerkleRoot table_crypto ?b"
    unfolding same(2) table_crypto_strings(2) by (simp_all add: root_block_def)
  have inj: "inj_on (sha256 table_crypto) (block_strings table_crypto root_block \<union> block_strings table_crypto ?b)"
    unfolding same(3) table_crypto_strings(1) Un_absorb by (rule table_crypto_strings(3))
  have "length (bl_Transactions root_block) = length (bl_Transactions ?b)"
    by simp
  from block_hash_binding [OF wf wf' same(1) roots this inj] wf same(1) inj show ?thesis
    by (simp add: root_block_def sample_block_def)
qed

text \<open>The number of transactions is not committed to: appending a copy of the last transaction to an
  odd number (greater than one) of transactions changes neither the Merkle root nor the block
  hash, so two different blocks share one hash without any collision.\<close>

theorem merkle_duplicate_last:
  assumes "odd (length (bl_Transactions b))" and "length (bl_Transactions b) > 1"
  shows "CalculateMerkleRoot C (b\<lparr>bl_Transactions := bl_Transactions b @ [last (bl_Transactions b)]\<rparr>)
      = CalculateMerkleRoot C b
    \<and> CalculateHash C (b\<lparr>bl_Transactions := bl_Transactions b @ [last (bl_Transactions b)]\<rparr>)
      = CalculateHash C b"
proof -
  have ne: "bl_Transactions b \<noteq> []"
    using assms(2) by auto
  then have "map (TxHash C) (bl_Transactions b @ [last (bl_Transactions b)])
      = map (TxHash C) (bl_Transactions b) @ [last (map (TxHash C) (bl_Transactions b))]"
    by (simp add: last_map)
  with assms ne show ?thesis
    by (simp add: CalculateMerkleRoot_def CalculateHash_def merkle_root_duplicate)
qed

theorem merkle_duplicate_last_witness:
  "let b = sample_block\<lparr>bl_Transactions := [sample_tx, signed_tx, sample_tx]\<rparr> in
   CalculateMerkleRoot sample_crypto (b\<lparr>bl_Transactions := [sample_tx, signed_tx, sample_tx, sample_tx]\<rparr>)
     = CalculateMerkleRoot sample_crypto b"
  using merkle_duplicate_last [of "sample_block\<lparr>bl_Transactions := [sample_tx, signed_tx, sample_tx]\<rparr>"
      sample_crypto]
  by simp

text \<open>A freshly signed block verifies: with a key pair and a header that carries no signature yet,
  \<^verbatim>\<open>SignBlock\<close> succeeds, the signature verifies under the embedded key, the cached hash is the
  block's hash, and transactions and Merkle root are untouched.\<close>

theorem sign_block_verifies:
  assumes "key_pair C priv" and "bh_Signature (bl_Header b) = []"
  shows "\<exists>b'. SignBlock C b priv = Some b' \<and> VerifyBlockSignature C b' = Some True
    \<and> bl_Hash b' = CalculateHash C b' \<and> bl_Transactions b' = bl_Transactions b
    \<and> bh_MerkleRoot (bl_Header b') = bh_MerkleRoot (bl_Header b)"
proof -
  have pub: "length (ed25519_Public priv) = 32"
    using assms(1) by (simp add: key_pair_def ed25519_Public_def)
  have "SerializeHeader ((bl_Header b)\<lparr>bh_ProposerKey := k, bh_Signature := []\<rparr>)
      = SerializeHeader ((bl_Header b)\<lparr>bh_ProposerKey := k\<rparr>)" for k
    using assms(2) by (simp add: SerializeHeader_def)
  then show ?thesis
    using assms pub key_pair_verifies [OF assms(1)]
    by (simp add: SignBlock_def VerifyBlockSignature_def Let_def CalculateHash_def hash_bytes_of_bytes)
qed

theorem sign_block_verifies_witness:
  "\<exists>b'. SignBlock sample_crypto (sample_block\<lparr>bl_Header := empty_header\<rparr>) (replicate 64 1) = Some b'
     \<and> VerifyBlockSignature sample_crypto b' = Some True"
proof -
  have "key_pair sample_crypto (replicate 64 1)"
    by (simp add: sample_crypto_key_pair)
  moreover have "bh_Signature (bl_Header (sample_block\<lparr>bl_Header := empty_header\<rparr>)) = []"
    by (simp add: empty_header_def)
  ultimately show ?thesis
    using sign_block_verifies by blast
qed

text \<open>C34. The security check accepts exactly the right blocks: \<^verbatim>\<open>ValidateBlockSecurity\<close> returns no error
  if and only if at most one transaction is a coinbase and the first one is, every other
  transaction pays the minimum fee, the Merkle root is right, every signature of the others
  verifies, and no output is spent twice within the block.\<close>

theorem block_security_iff:
  "ValidateBlockSecurity C prov b height = Some [] \<longleftrightarrow>
     length (filter IsCoinbase (bl_Transactions b)) \<le> 1
     \<and> (bl_Transactions b = [] \<or> IsCoinbase (hd (bl_Transactions b)))
     \<and> list_all (\<lambda>tx. \<exists>fee. GetFee prov tx = Inr fee \<and> 100 \<le> fee) (drop 1 (bl_Transactions b))
     \<and> bh_MerkleRoot (bl_Header b) = CalculateMerkleRoot C b
     \<and> list_all (\<lambda>tx. VerifyAllInputs C tx = Some True) (drop 1 (bl_Transactions b))
     \<and> distinct (map outpoint_of (concat (map tx_Inputs (drop 1 (bl_Transactions b)))))"
proof -
  let ?rest = "drop 1 (bl_Transactions b)"
  have "coinbase_errors txs = [] \<longleftrightarrow> length (filter IsCoinbase txs) \<le> 1
      \<and> (txs = [] \<or> IsCoinbase (hd txs))" for txs
    by (cases txs) (auto simp: coinbase_errors_def Let_def)
  moreover have "fee_errors prov 1 ?rest = [] \<longleftrightarrow>
      list_all (\<lambda>tx. \<exists>fee. GetFee prov tx = Inr fee \<and> 100 \<le> fee) ?rest"
    by (simp add: fee_errors_none list_all_iff MinTransactionFee_def)
  moreover have "double_spend_errors 1 ?rest {} = [] \<longleftrightarrow>
      distinct (map outpoint_of (concat (map tx_Inputs ?rest)))"
    by (simp add: double_spend_errors_none flip: map_security_key_distinct)
  moreover have "signature_errors C 1 ?rest = Some [] \<longleftrightarrow>
      list_all (\<lambda>tx. VerifyAllInputs C tx = Some True) ?rest"
    by (simp add: signature_errors_none list_all_iff)
  ultimately show ?thesis
    unfolding ValidateBlockSecurity_def Let_def by (auto split: if_splits)
qed

text \<open>\<^verbatim>\<open>ValidateBlock\<close> rejects every block that contains a coinbase transaction as the store creates it:
  the unsigned coinbase input never verifies.\<close>

theorem validate_block_rejects_coinbase:
  assumes "CreateCoinbaseTransaction addr reward data \<in> set (bl_Transactions b)"
  shows "ValidateBlock C b \<noteq> Inr ()"
proof -
  let ?cb = "CreateCoinbaseTransaction addr reward data"
  have "VerifyAllInputs C ?cb = Some False"
    by (simp add: VerifyAllInputs_def VerifyInput_def CreateCoinbaseTransaction_def NewTransaction_def
        coinbase_input_def)
  then have "verify_transactions C txs \<noteq> Inr ()" if "?cb \<in> set txs" for txs
    using that by (induction txs) (auto split: option.splits)
  with assms show ?thesis
    by (auto simp: ValidateBlock_def split: if_splits option.splits)
qed

theorem validate_block_rejects_coinbase_witness:
  "ValidateBlock sample_crypto
     (sample_block\<lparr>bl_Transactions := [CreateCoinbaseTransaction 4 50 []]\<rparr>) \<noteq> Inr ()"
  by (rule validate_block_rejects_coinbase [of 4 50 "[]"]) simp

end
