(* ===== verification/PoW.thy ===== *)
theory PoW
  imports Block Float64
begin

unbundle bit_operations_syntax

text \<open>
  \<^verbatim>\<open>pkg/utxo/pow.go\<close>: the emission schedule, the proof of work of a header, the compact encoding of
  targets and the retargeting rule. A \<^verbatim>\<open>big.Int\<close> is a natural number (no negative one arises); the
  signed 64-bit time differences are \<open>sint\<close> of the wrapped words.
\<close>

section \<open>Parameters\<close>

definition defaultPoWEraBlocks :: u64 where
  "defaultPoWEraBlocks = 10000"

text \<open>\<^verbatim>\<open>strconv.ParseUint(v, 10, 64)\<close>.\<close>

definition ParseUint10 :: "string \<Rightarrow> u64 option" where
  "ParseUint10 v =
     (if v \<noteq> [] \<and> list_all (\<lambda>c. 48 \<le> (of_char c :: nat) \<and> (of_char c :: nat) \<le> 57) v
         \<and> undec_string v < 2 ^ 64
      then Some (of_nat (undec_string v)) else None)"

text \<open>The argument is the value of the environment variable \<^verbatim>\<open>AIB_POW_ERA_BLOCKS\<close>, empty when unset.\<close>

definition powEraBlocks :: "string \<Rightarrow> u64" where
  "powEraBlocks v =
     (if v \<noteq> [] then (case ParseUint10 v of
                         Some n \<Rightarrow> if n > 0 then n else defaultPoWEraBlocks
                       | None \<Rightarrow> defaultPoWEraBlocks)
      else defaultPoWEraBlocks)"

definition PoWBlockReward :: u64 where
  "PoWBlockReward = 74700000000"

definition PoWHalvingBlocks :: u64 where
  "PoWHalvingBlocks = 2102400"

definition PoWTargetSpacing :: int where
  "PoWTargetSpacing = 60 * second"

definition PoWRetargetWindow :: u64 where
  "PoWRetargetWindow = 64"

definition PoWGenesisBits :: u32 where
  "PoWGenesisBits = 0x207fffff"

definition TotalSupplySats :: u64 where
  "TotalSupplySats = 314159265300000000"

section \<open>Emission\<close>

text \<open>The halving loop: at most \<open>k\<close> rounds, and it stops when nothing is left.\<close>

fun halve_reward :: "nat \<Rightarrow> u64 \<Rightarrow> u64" where
  "halve_reward 0 reward = reward"
| "halve_reward (Suc k) reward = (if reward > 0 then halve_reward k (reward div 2) else reward)"

definition PoWSubsidyAtHeight :: "u64 \<Rightarrow> u64" where
  "PoWSubsidyAtHeight height =
     (if height = 0 then 0
      else let k = (height - 1) div PoWHalvingBlocks in halve_reward (unat k) PoWBlockReward)"

section \<open>Targets\<close>

datatype pow_error =
    PowZeroMantissa
  | PowExponentTooLarge
  | PowNegativeTarget
  | PowTargetNotPositive
  | PowTargetTooLarge

definition TargetFromBits :: "u32 \<Rightarrow> (pow_error, nat) result" where
  "TargetFromBits bits =
     (let mantissa = unat (bits AND 0x007fffff);
          isNegative = (bits AND 0x00800000 \<noteq> 0);
          exponent = unat (drop_bit 24 bits)
      in if mantissa = 0 then Inl PowZeroMantissa
         else if exponent > 34 then Inl PowExponentTooLarge
         else let target = (if exponent \<le> 3 then mantissa * 2 ^ (8 * (3 - exponent))
                            else mantissa * 2 ^ (8 * (exponent - 3)))
              in if isNegative then Inl PowNegativeTarget else Inr target)"

definition PoWMaxTarget :: nat where
  "PoWMaxTarget = (case TargetFromBits PoWGenesisBits of Inl _ \<Rightarrow> 0 | Inr target \<Rightarrow> target)"

definition BitsFromTarget :: "nat \<Rightarrow> (pow_error, u32) result" where
  "BitsFromTarget target =
     (if target = 0 then Inl PowTargetNotPositive
      else let nBytes = (bit_length target + 7) div 8 in
        if nBytes > 32 then Inl PowTargetTooLarge
        else let (exponent, mantissa) =
                   (if nBytes \<le> 3 then (3 :: u32, target)
                    else (of_nat nBytes, target div 2 ^ (8 * (nBytes - 3))));
                 mant = (of_nat mantissa :: u64);
                 (exponent, mant) =
                   (if mant AND 0x00800000 \<noteq> 0 then (exponent + 1, drop_bit 1 mant)
                    else (exponent, mant))
             in Inr (push_bit 24 exponent OR ucast mant))"

definition HashHeaderSHA256d :: "crypto \<Rightarrow> BlockHeader \<Rightarrow> hash" where
  "HashHeaderSHA256d C h =
     sha256d C
       (put_u32 (bh_Version h) @ hash_bytes (bh_PrevBlockHash h) @ hash_bytes (bh_MerkleRoot h)
        @ put_u64 (bh_Timestamp h) @ put_u64 (bh_Height h)
        @ hash_bytes (bh_Proposer h) @ hash_bytes (bh_ProposerKey h)
        @ hash_bytes (bh_VRFSeed h) @ hash_bytes (bh_ValidatorStateRoot h)
        @ put_u64 (bh_Nonce h) @ put_u32 (bh_Bits h))"

definition CheckProofOfWork :: "crypto \<Rightarrow> BlockHeader \<Rightarrow> bool" where
  "CheckProofOfWork C h =
     (case TargetFromBits (bh_Bits h) of
        Inl _ \<Rightarrow> False
      | Inr target \<Rightarrow>
          if target = 0 then False
          else be_val (List.rev (hash_bytes (HashHeaderSHA256d C h))) < target)"

text \<open>
  The window in milliseconds, 64 times 60 seconds: the products of \<^verbatim>\<open>float64\<close> values are exact at
  this size. The clamped span is positive, so the division of \<^verbatim>\<open>math/big\<close> is the division of
  natural numbers.
\<close>

definition target_span_ms :: int where
  "target_span_ms = int (unat PoWRetargetWindow) * PoWTargetSpacing div 1000000"

definition clamp_span :: "int \<Rightarrow> int" where
  "clamp_span actual =
     (let minSpan = target_span_ms div 4; maxSpan = target_span_ms * 4;
          actual = (if actual < minSpan then minSpan else actual)
      in if actual > maxSpan then maxSpan else actual)"

definition NextWorkRequired :: "u32 \<Rightarrow> u64 \<Rightarrow> u64 \<Rightarrow> u64 \<Rightarrow> u32" where
  "NextWorkRequired prevBits prevHeight windowStartTimestamp tipTimestamp =
     (if prevHeight < PoWRetargetWindow then prevBits
      else case TargetFromBits prevBits of
        Inl _ \<Rightarrow> PoWGenesisBits
      | Inr prevTarget \<Rightarrow>
          if prevTarget = 0 then PoWGenesisBits
          else
            let actual = sint ((tipTimestamp - windowStartTimestamp) * 1000) in
            if target_span_ms \<le> 0 then prevBits
            else let actual = clamp_span actual in
              if actual \<le> 0 then prevBits
              else
                let newTarget = prevTarget * nat actual div nat target_span_ms;
                    newTarget = (if newTarget > PoWMaxTarget then PoWMaxTarget else newTarget)
                in case BitsFromTarget newTarget of
                     Inl _ \<Rightarrow> PoWGenesisBits
                   | Inr bits \<Rightarrow>
                       (case TargetFromBits bits of
                          Inl _ \<Rightarrow> bits
                        | Inr encT \<Rightarrow> if encT > PoWMaxTarget then PoWGenesisBits else bits))"

definition SerializePoWExtra :: "bytes \<Rightarrow> u64 \<Rightarrow> u32 \<Rightarrow> bytes" where
  "SerializePoWExtra buf nonce bits = buf @ put_u64 nonce @ put_u32 bits"

section \<open>The emission schedule\<close>

lemma halve_reward_div: "unat (halve_reward k r) = unat r div 2 ^ k"
proof (induction k arbitrary: r)
  case (Suc k)
  have "unat (r div 2) = unat r div 2"
    by (simp add: unat_div)
  moreover have "\<not> 0 < r \<Longrightarrow> r = 0"
    by (simp add: word_less_nat_alt word_unat_eq_iff)
  ultimately show ?case
    using Suc [of "r div 2"] by (auto simp: div_mult2_eq)
qed simp

lemma subsidy_value:
  assumes "height \<noteq> 0"
  shows "unat (PoWSubsidyAtHeight height) = 74700000000 div 2 ^ ((unat height - 1) div 2102400)"
proof -
  have "unat (height - 1) = unat height - 1"
    using assms by (simp add: unat_minus_one)
  then have "unat ((height - 1) div PoWHalvingBlocks) = (unat height - 1) div 2102400"
    by (simp add: unat_div PoWHalvingBlocks_def)
  then show ?thesis
    using assms by (simp add: PoWSubsidyAtHeight_def halve_reward_div PoWBlockReward_def)
qed

text \<open>Everything issued by the blocks of heights one to \<open>n\<close>.\<close>

definition emission :: "nat \<Rightarrow> nat" where
  "emission n = (\<Sum>h = 1..n. unat (PoWSubsidyAtHeight (of_nat h)))"

lemma sum_blocks: "(\<Sum>i < b * m. f (i div b)) = b * (\<Sum>k < m. (f k :: nat))"
proof (induction m)
  case (Suc m)
  have "(\<Sum>i \<in> {b * m..<b * m + b}. f (i div b)) = (\<Sum>i \<in> {b * m..<b * m + b}. f m)"
    by (intro sum.cong) (auto simp: div_nat_eqI algebra_simps)
  moreover have "{..<b * Suc m} = {..<b * m} \<union> {b * m..<b * m + b}"
    by auto
  moreover have "{..<b * m} \<inter> {b * m..<b * m + b} = {}"
    by auto
  ultimately show ?case
    using Suc by (simp add: sum.union_disjoint algebra_simps)
qed simp

lemma emission_sum:
  assumes "n < 2 ^ 64"
  shows "emission n = (\<Sum>i < n. 74700000000 div 2 ^ (i div 2102400))"
proof -
  have "unat (PoWSubsidyAtHeight (of_nat (Suc i))) = 74700000000 div 2 ^ (i div 2102400)" if "i < n" for i
  proof -
    have u: "unat (of_nat (Suc i) :: u64) = Suc i"
      using that assms by (subst unat_of_nat) simp
    then have "(of_nat (Suc i) :: u64) \<noteq> 0"
      by (metis Zero_not_Suc unat_0)
    from subsidy_value [OF this] show ?thesis
      by (simp only: u diff_Suc_1)
  qed
  moreover have "emission n = (\<Sum>i < n. unat (PoWSubsidyAtHeight (of_nat (Suc i))))"
    unfolding emission_def by (rule sum.reindex_bij_witness [of _ Suc "\<lambda>h. h - 1"]) auto
  ultimately show ?thesis by simp
qed

lemma eras_end: "37 \<le> m \<Longrightarrow> (\<Sum>k < m. 74700000000 div 2 ^ k) = (\<Sum>k < 37. (74700000000 :: nat) div 2 ^ k)"
proof (induction m rule: dec_induct)
  case (step m)
  have "(2::nat) ^ 37 \<le> 2 ^ m"
    using step.hyps by (intro power_increasing) auto
  then have "(74700000000::nat) < 2 ^ m"
    by (rule less_le_trans [rotated]) simp
  with step.IH show ?case by simp
qed simp

lemma eras_total: "(\<Sum>k < 37. (74700000000 :: nat) div 2 ^ k) = 149399999985"
  by (simp add: lessThan_nat_numeral)

section \<open>Compact targets\<close>

lemma mantissa_mask: "(0x007fffff :: u32) = mask 23"
  by (simp add: mask_eq_exp_minus_1)

lemma sign_bit: "(w :: 'a::len word) AND 0x00800000 = 0 \<longleftrightarrow> \<not> bit w 23"
  using and_exp_eq_0_iff_not_bit [of w 23] by simp

text \<open>Packing an exponent below 256 and a mantissa below two to the 23 keeps both.\<close>

lemma compact_fields:
  fixes e m :: u32
  assumes "take_bit 8 e = e" and "take_bit 23 m = m"
  shows "(push_bit 24 e OR m) AND 0x007fffff = m"
    and "(push_bit 24 e OR m) AND 0x00800000 = 0"
    and "drop_bit 24 (push_bit 24 e OR m) = e"
proof -
  have bit_e: "bit e n \<Longrightarrow> n < 8" for n
    using assms(1) by (metis bit_take_bit_iff)
  have bit_m: "bit m n \<Longrightarrow> n < 23" for n
    using assms(2) by (metis bit_take_bit_iff)
  have "take_bit 23 (push_bit 24 e OR m) = take_bit 23 m"
    by (rule bit_eqI) (auto simp: bit_simps)
  then show "(push_bit 24 e OR m) AND 0x007fffff = m"
    unfolding mantissa_mask using assms(2) by (simp flip: take_bit_eq_mask)
  show "(push_bit 24 e OR m) AND 0x00800000 = 0"
    unfolding sign_bit using bit_m [of 23] by (auto simp: bit_simps)
  show "drop_bit 24 (push_bit 24 e OR m) = e"
    by (rule bit_eqI) (auto simp: bit_simps dest: bit_e bit_m)
qed

lemma decode_compact:
  assumes "3 \<le> e" and "e \<le> 34" and "0 < m" and "m < 2 ^ 23"
  shows "TargetFromBits (push_bit 24 (of_nat e) OR of_nat m) = Inr (m * 256 ^ (e - 3))"
proof -
  have um: "unat (of_nat m :: u32) = m" and ue: "unat (of_nat e :: u32) = e"
    using assms by (simp_all add: unat_of_nat)
  have te: "take_bit 8 (of_nat e :: u32) = of_nat e"
    using assms ue by (simp add: word_unat_eq_iff unsigned_take_bit_eq take_bit_nat_eq_self_iff)
  have tm: "take_bit 23 (of_nat m :: u32) = of_nat m"
    using assms um by (simp add: word_unat_eq_iff unsigned_take_bit_eq take_bit_nat_eq_self_iff)
  have "(2::nat) ^ (8 * (e - 3)) = 256 ^ (e - 3)"
    by (simp add: power_mult)
  then show ?thesis
    using assms compact_fields [OF te tm] um ue
    by (auto simp: TargetFromBits_def Let_def)
qed

definition target_bytes :: "nat \<Rightarrow> nat" where
  "target_bytes t = max 3 ((bit_length t + 7) div 8)"

text \<open>The leading three bytes of a target.\<close>

definition target_mantissa :: "nat \<Rightarrow> nat" where
  "target_mantissa t = t div 256 ^ (target_bytes t - 3)"

lemma less_next_multiple: "0 < (p::nat) \<Longrightarrow> t < t div p * p + p"
  by (metis add.commute dividend_less_div_times)

lemma target_bytes_le: "t < 2 ^ 256 \<Longrightarrow> target_bytes t \<le> 32"
  using bit_length_le_iff [of t 256] by (auto simp: target_bytes_def)

lemma target_mantissa_less: "target_mantissa t < 2 ^ 24"
proof -
  have "bit_length t \<le> 8 * target_bytes t"
    by (simp add: target_bytes_def)
  then have "t < 2 ^ (8 * target_bytes t)"
    by (simp only: bit_length_le_iff)
  also have "8 * target_bytes t = 24 + 8 * (target_bytes t - 3)"
    by (simp add: target_bytes_def)
  finally have "t < 2 ^ 24 * 256 ^ (target_bytes t - 3)"
    by (simp add: power_add power_mult)
  then show ?thesis
    unfolding target_mantissa_def by (simp add: less_mult_imp_div_less)
qed

lemma target_mantissa_pos:
  assumes "0 < t"
  shows "0 < target_mantissa t"
proof -
  have "256 ^ (target_bytes t - 3) \<le> t"
  proof (cases "(bit_length t + 7) div 8 \<le> 3")
    case True
    with assms show ?thesis by (simp add: target_bytes_def)
  next
    case False
    then have "8 * (target_bytes t - 3) \<le> bit_length t - 1"
      by (simp add: target_bytes_def)
    then have "(2::nat) ^ (8 * (target_bytes t - 3)) \<le> 2 ^ (bit_length t - 1)"
      by (intro power_increasing) auto
    also have "\<dots> \<le> t"
      using bit_length_bounds [OF assms] by simp
    finally show ?thesis by (simp add: power_mult)
  qed
  then show ?thesis
    by (simp add: target_mantissa_def div_greater_zero_iff)
qed

lemma high_bit_iff: "m < 2 ^ 24 \<Longrightarrow> (of_nat m :: u64) AND 0x00800000 \<noteq> 0 \<longleftrightarrow> 2 ^ 23 \<le> m"
proof -
  assume m: "m < 2 ^ 24"
  have "m div 2 ^ 23 = (if 2 ^ 23 \<le> m then 1 else 0)"
    using m by (auto simp: div_nat_eqI)
  then have "odd (m div 2 ^ 23) \<longleftrightarrow> 2 ^ 23 \<le> m"
    by simp
  then show ?thesis
    by (simp add: sign_bit bit_of_nat_iff bit_iff_odd [where a = m])
qed

lemma ucast_of_nat_small: "m < 2 ^ 32 \<Longrightarrow> (ucast (of_nat m :: u64) :: u32) = of_nat m"
  by (simp add: word_unat_eq_iff unsigned_ucast_eq unat_of_nat take_bit_eq_mod)

lemma drop_bit_of_nat_u64: "m < 2 ^ 64 \<Longrightarrow> drop_bit 1 (of_nat m :: u64) = of_nat (m div 2)"
proof -
  assume "m < 2 ^ 64"
  moreover have "unat (drop_bit 1 (of_nat m :: u64)) = unat (of_nat m :: u64) div 2"
    using drop_bit_eq_div [of 1 "unat (of_nat m :: u64)"] by (simp only: unat_drop_bit_eq power_one_right)
  ultimately show ?thesis
    by (simp add: word_unat_eq_iff unat_of_nat)
qed

lemma BitsFromTarget_eq:
  assumes "0 < t" and "t < 2 ^ 256"
  shows "BitsFromTarget t =
    (let e = target_bytes t; m = target_mantissa t in
     if m < 2 ^ 23 then Inr (push_bit 24 (of_nat e) OR of_nat m)
     else Inr (push_bit 24 (of_nat (e + 1)) OR of_nat (m div 2)))"
proof -
  let ?n = "(bit_length t + 7) div 8" and ?m = "target_mantissa t"
  have fields: "(if ?n \<le> 3 then (3 :: u32, t) else (of_nat ?n, t div 2 ^ (8 * (?n - 3))))
      = (of_nat (target_bytes t), ?m)"
    by (auto simp: target_bytes_def target_mantissa_def power_mult max_def)
  have "\<not> ?n > 32"
    using target_bytes_le [OF assms(2)] by (simp add: target_bytes_def)
  moreover have m24: "?m < 2 ^ 24"
    by (rule target_mantissa_less)
  moreover have "drop_bit 1 (of_nat ?m :: u64) = of_nat (?m div 2)"
    using m24 by (intro drop_bit_of_nat_u64) simp
  moreover have "(ucast (of_nat ?m :: u64) :: u32) = of_nat ?m"
    "(ucast (of_nat (?m div 2) :: u64) :: u32) = of_nat (?m div 2)"
    using m24 by (auto intro!: ucast_of_nat_small)
  ultimately show ?thesis
    using assms(1) high_bit_iff [OF m24]
    unfolding BitsFromTarget_def Let_def fields by (simp add: not_less add.commute)
qed

text \<open>What decoding an encoded target gives: the target without its low bytes when the top bit of its
  leading byte is clear, and otherwise half the mantissa at the next power of 256.\<close>

lemma decode_encode:
  assumes "0 < t" and "t < 2 ^ 256"
  shows "rbind (BitsFromTarget t) TargetFromBits =
    Inr (if target_mantissa t < 2 ^ 23 then target_mantissa t * 256 ^ (target_bytes t - 3)
         else target_mantissa t div 2 * 256 ^ (target_bytes t - 2))"
proof -
  let ?e = "target_bytes t" and ?m = "target_mantissa t"
  have e: "3 \<le> ?e" "?e \<le> 32"
    using target_bytes_le [OF assms(2)] by (auto simp: target_bytes_def)
  have m: "0 < ?m" "?m < 2 ^ 24"
    using target_mantissa_pos [OF assms(1)] target_mantissa_less by auto
  show ?thesis
  proof (cases "?m < 2 ^ 23")
    case True
    with e m show ?thesis
      by (simp add: BitsFromTarget_eq [OF assms] decode_compact)
  next
    case False
    have "TargetFromBits (push_bit 24 (of_nat (?e + 1)) OR of_nat (?m div 2))
        = Inr (?m div 2 * 256 ^ (?e + 1 - 3))"
      using e m False by (intro decode_compact) auto
    with False e show ?thesis
      by (simp add: BitsFromTarget_eq [OF assms] Let_def)
  qed
qed

lemma PoWMaxTarget_value: "PoWMaxTarget = 0x7fffff * 256 ^ 29"
proof -
  have "PoWGenesisBits = push_bit 24 (of_nat 32) OR of_nat 0x7fffff"
    by (simp add: PoWGenesisBits_def)
  moreover have "TargetFromBits (push_bit 24 (of_nat 32) OR of_nat 0x7fffff) = Inr (0x7fffff * 256 ^ (32 - 3))"
    by (rule decode_compact) simp_all
  ultimately have "TargetFromBits PoWGenesisBits = Inr (0x7fffff * 256 ^ (32 - 3))"
    by (simp only:)
  then show ?thesis
    by (simp add: PoWMaxTarget_def)
qed

lemma genesis_target: "TargetFromBits PoWGenesisBits = Inr PoWMaxTarget"
  by (cases "TargetFromBits PoWGenesisBits")
    (use PoWMaxTarget_value in \<open>auto simp: PoWMaxTarget_def\<close>)

lemma decode_encode_pos:
  assumes "0 < t" and "t < 2 ^ 256"
  obtains b u where "BitsFromTarget t = Inr b" and "TargetFromBits b = Inr u" and "0 < u"
proof -
  have m: "0 < target_mantissa t"
    using target_mantissa_pos [OF assms(1)] .
  obtain b u where "BitsFromTarget t = Inr b" "TargetFromBits b = Inr u"
    and u: "u = (if target_mantissa t < 2 ^ 23 then target_mantissa t * 256 ^ (target_bytes t - 3)
         else target_mantissa t div 2 * 256 ^ (target_bytes t - 2))"
    using decode_encode [OF assms] by (auto simp: rbind_Inr_iff)
  moreover have "0 < u"
    unfolding u using m by (auto simp: not_less)
  ultimately show thesis using that by blast
qed

section \<open>Retargeting\<close>

lemma target_span_value: "target_span_ms = 3840000"
  by (simp add: target_span_ms_def PoWRetargetWindow_def PoWTargetSpacing_def second_def)

lemma clamp_span_pos: "0 < clamp_span a"
  by (simp add: clamp_span_def Let_def target_span_value)

text \<open>The target that is encoded, before the check of the encoding.\<close>

definition new_target :: "nat \<Rightarrow> u64 \<Rightarrow> u64 \<Rightarrow> nat" where
  "new_target old start tip =
     min PoWMaxTarget (old * nat (clamp_span (sint ((tip - start) * 1000))) div nat target_span_ms)"

lemma NextWorkRequired_eq:
  assumes "64 \<le> height" and "TargetFromBits prevBits = Inr old" and "0 < old"
  shows "NextWorkRequired prevBits height start tip =
    (case BitsFromTarget (new_target old start tip) of
       Inl _ \<Rightarrow> PoWGenesisBits
     | Inr bits \<Rightarrow>
         (case TargetFromBits bits of
            Inl _ \<Rightarrow> bits
          | Inr encT \<Rightarrow> if encT > PoWMaxTarget then PoWGenesisBits else bits))"
proof -
  have "\<not> height < PoWRetargetWindow"
    using assms(1) by (simp add: PoWRetargetWindow_def not_less)
  moreover have "\<not> clamp_span a \<le> 0" for a
    using clamp_span_pos [of a] by simp
  moreover have "(if x > PoWMaxTarget then PoWMaxTarget else x) = min PoWMaxTarget x" for x
    by (simp add: min_def)
  ultimately show ?thesis
    using assms(2,3) by (simp add: NextWorkRequired_def Let_def target_span_value new_target_def)
qed

lemma NextWorkRequired_cases:
  assumes "64 \<le> height" and "NextWorkRequired prevBits height start tip \<noteq> PoWGenesisBits"
  obtains t b where "t \<le> PoWMaxTarget" and "BitsFromTarget t = Inr b"
    and "NextWorkRequired prevBits height start tip = b"
    and "\<And>u. TargetFromBits b = Inr u \<Longrightarrow> u \<le> PoWMaxTarget"
proof (cases "TargetFromBits prevBits")
  case (Inl e)
  with assms show thesis
    by (simp add: NextWorkRequired_def PoWRetargetWindow_def not_less [symmetric])
next
  case (Inr old)
  have old: "0 < old"
    using assms Inr by (intro gr0I) (simp add: NextWorkRequired_def PoWRetargetWindow_def not_less [symmetric])
  note eq = NextWorkRequired_eq [OF assms(1) Inr old, of start tip]
  obtain b where b: "BitsFromTarget (new_target old start tip) = Inr b"
    using assms(2) eq by (cases "BitsFromTarget (new_target old start tip)") auto
  show thesis
  proof (rule that [OF _ b])
    show "new_target old start tip \<le> PoWMaxTarget"
      by (simp add: new_target_def)
    show "NextWorkRequired prevBits height start tip = b"
      using assms(2) eq b by (auto split: sum.splits if_splits)
    show "u \<le> PoWMaxTarget" if "TargetFromBits b = Inr u" for u
      using assms(2) eq b that by (auto split: if_splits)
  qed
qed

section \<open>Properties\<close>

text \<open>C35. The emission is capped: the subsidies of all blocks up to any height add up to at most
  314,098,559,968,464,000 satoshi, a total reached after 37 eras, which is below the total supply of the
  code, so the supply cap is never exceeded by the schedule.\<close>

theorem emission_capped:
  assumes "n < 2 ^ 64"
  shows "emission n \<le> 314098559968464000 \<and> emission n < unat TotalSupplySats
    \<and> (37 * 2102400 \<le> n \<longrightarrow> emission n = 314098559968464000)"
proof -
  let ?f = "\<lambda>i::nat. (74700000000::nat) div 2 ^ (i div 2102400)"
  have tot: "(\<Sum>i < 2102400 * m. ?f i) = 314098559968464000" if "37 \<le> m" for m
    using sum_blocks [of "\<lambda>k. 74700000000 div 2 ^ k" 2102400 m] eras_end [OF that]
    by (simp only: eras_total)
  have "(\<Sum>i < n. ?f i) \<le> (\<Sum>i < 2102400 * (37 + n). ?f i)"
    by (intro sum_mono2) auto
  then have le: "emission n \<le> 314098559968464000"
    using tot [of "37 + n"] by (simp add: emission_sum [OF assms])
  moreover have "314098559968464000 \<le> emission n" if "37 * 2102400 \<le> n"
  proof -
    have "(\<Sum>i < 2102400 * 37. ?f i) \<le> (\<Sum>i < n. ?f i)"
      using that by (intro sum_mono2) auto
    then show ?thesis
      using tot [of 37] by (simp add: emission_sum [OF assms])
  qed
  ultimately show ?thesis
    by (auto simp: TotalSupplySats_def)
qed

theorem emission_capped_witness:
  "emission 100000000 = 314098559968464000 \<and> emission 100000000 < unat TotalSupplySats"
  using emission_capped [of 100000000] by simp

text \<open>The compact encoding rounds down when the top bit of the leading byte is clear: decoding the
  encoding of a target below two to the 256 succeeds and gives the target with everything below its
  three leading bytes cleared.\<close>

theorem compact_roundtrip:
  assumes "0 < t" and "t < 2 ^ 256" and "target_mantissa t < 2 ^ 23"
  shows "\<exists>b u. BitsFromTarget t = Inr b \<and> TargetFromBits b = Inr u
    \<and> u \<le> t \<and> t < u + 256 ^ (target_bytes t - 3)"
proof -
  let ?p = "256 ^ (target_bytes t - 3) :: nat"
  have "rbind (BitsFromTarget t) TargetFromBits = Inr (t div ?p * ?p)"
    using assms by (simp add: decode_encode target_mantissa_def)
  then obtain b where "BitsFromTarget t = Inr b" "TargetFromBits b = Inr (t div ?p * ?p)"
    by (auto simp: rbind_Inr_iff)
  moreover have "t div ?p * ?p \<le> t" "t < t div ?p * ?p + ?p"
    by (simp_all add: less_next_multiple)
  ultimately show ?thesis by blast
qed

theorem compact_roundtrip_witness:
  "\<exists>b u. BitsFromTarget 0x123456789a = Inr b \<and> TargetFromBits b = Inr u
    \<and> u \<le> 0x123456789a \<and> 0x123456789a < u + 256 ^ (target_bytes 0x123456789a - 3)"
proof (rule compact_roundtrip)
  show "target_mantissa 0x123456789a < 2 ^ 23"
    by (simp add: target_mantissa_def target_bytes_def bit_length.simps)
qed simp_all

text \<open>Otherwise it makes the target easier: when the top bit of the leading byte is set, the encoder
  halves the mantissa but raises the exponent by a whole byte, so the encoded target is more than
  127 times and at most 128 times the one that was to be encoded.\<close>

theorem compact_inflates:
  assumes "0 < t" and "t < 2 ^ 256" and "2 ^ 23 \<le> target_mantissa t"
  shows "\<exists>b u. BitsFromTarget t = Inr b \<and> TargetFromBits b = Inr u \<and> 127 * t < u \<and> u \<le> 128 * t"
proof -
  let ?m = "target_mantissa t" and ?p = "256 ^ (target_bytes t - 3) :: nat"
  have e: "target_bytes t - 2 = Suc (target_bytes t - 3)"
    by (simp add: target_bytes_def)
  then obtain b where b: "BitsFromTarget t = Inr b" "TargetFromBits b = Inr (?m div 2 * (256 * ?p))"
    using assms decode_encode [OF assms(1,2)] by (auto simp: rbind_Inr_iff)
  have low: "?m * ?p \<le> t"
    by (simp add: target_mantissa_def)
  have "t < ?m * ?p + ?p"
    by (simp add: target_mantissa_def less_next_multiple)
  then have "127 * t < (127 * ?m + 127) * ?p"
    by (simp add: algebra_simps)
  also have "\<dots> \<le> (?m div 2 * 256) * ?p"
    using assms(3) by (intro mult_right_mono) auto
  finally have "127 * t < ?m div 2 * (256 * ?p)"
    by (simp add: mult.assoc)
  moreover have "?m div 2 * (256 * ?p) \<le> 128 * t"
  proof -
    have "?m div 2 * (256 * ?p) = (?m div 2 * 2) * (128 * ?p)"
      by (simp add: algebra_simps)
    also have "\<dots> \<le> ?m * (128 * ?p)"
      by (intro mult_right_mono) auto
    also have "\<dots> \<le> 128 * t"
      using low by (simp add: algebra_simps)
    finally show ?thesis .
  qed
  ultimately show ?thesis
    using b by blast
qed

theorem compact_inflates_witness:
  "\<exists>b u. BitsFromTarget 0x800000 = Inr b \<and> TargetFromBits b = Inr u
    \<and> 127 * 0x800000 < u \<and> u \<le> 128 * 0x800000"
proof (rule compact_inflates)
  show "2 ^ 23 \<le> target_mantissa 0x800000"
    by (simp add: target_mantissa_def target_bytes_def bit_length.simps)
qed simp_all

text \<open>Retargeting always yields a usable difficulty: from the first full window on, whatever the
  previous bits and the two timestamps are, the next bits decode to a positive target that does not
  exceed the easiest target.\<close>

theorem next_work_valid:
  assumes "64 \<le> height"
  shows "\<exists>u. TargetFromBits (NextWorkRequired prevBits height start tip) = Inr u
    \<and> 0 < u \<and> u \<le> PoWMaxTarget"
proof -
  let ?r = "NextWorkRequired prevBits height start tip"
  have pos: "0 < PoWMaxTarget"
    by (simp add: PoWMaxTarget_value)
  have max: "PoWMaxTarget < 2 ^ 256"
    by (simp add: PoWMaxTarget_value)
  have good: "\<exists>u. TargetFromBits PoWGenesisBits = Inr u \<and> 0 < u \<and> u \<le> PoWMaxTarget"
    using genesis_target pos by simp
  show ?thesis
  proof (cases "?r = PoWGenesisBits")
    case True
    with good show ?thesis by simp
  next
    case False
    then obtain t b where t: "t \<le> PoWMaxTarget" "BitsFromTarget t = Inr b" and r: "?r = b"
      and cap: "\<And>u. TargetFromBits b = Inr u \<Longrightarrow> u \<le> PoWMaxTarget"
      by (rule NextWorkRequired_cases [OF assms]) blast
    have "0 < t"
      using t(2) by (auto simp: BitsFromTarget_def split: if_splits)
    moreover have "t < 2 ^ 256"
      using t(1) max by simp
    ultimately obtain u where "TargetFromBits b = Inr u" "0 < u"
      using decode_encode_pos t(2) by (metis Inr_inject)
    with cap r show ?thesis by blast
  qed
qed

theorem next_work_valid_witness:
  "\<exists>u. TargetFromBits (NextWorkRequired 0x1d00ffff 64 0 3840) = Inr u \<and> 0 < u \<and> u \<le> PoWMaxTarget"
  by (rule next_work_valid) simp

text \<open>The clamp to four times the previous target does not hold: with blocks exactly on time, the
  bits 0x1d00ffff become 0x1d7fff80, whose target is 128 times the previous one.\<close>

theorem retarget_breaks_clamp:
  "NextWorkRequired 0x1d00ffff 64 0 3840 = 0x1d7fff80
   \<and> (case (TargetFromBits 0x1d00ffff, TargetFromBits 0x1d7fff80) of
        (Inr old, Inr new) \<Rightarrow> new = 128 * old | _ \<Rightarrow> False)"
proof -
  let ?old = "0xffff * 256 ^ 26 :: nat"
  have bits: "(0x1d00ffff :: u32) = push_bit 24 (of_nat 29) OR of_nat 0xffff"
    "(0x1d7fff80 :: u32) = push_bit 24 (of_nat 29) OR of_nat 0x7fff80"
    by simp_all
  have old: "TargetFromBits 0x1d00ffff = Inr ?old"
    unfolding bits(1) by (subst decode_compact) simp_all
  have new: "TargetFromBits 0x1d7fff80 = Inr (0x7fff80 * 256 ^ 26)"
    unfolding bits(2) by (subst decode_compact) simp_all
  have tgt: "new_target ?old 0 3840 = ?old"
    by (simp add: new_target_def PoWMaxTarget_value target_span_value clamp_span_def Let_def)
  have "bit_length ?old \<le> 224" "\<not> bit_length ?old \<le> 223"
    unfolding bit_length_le_iff by simp_all
  then have e: "target_bytes ?old = 28"
    by (simp add: target_bytes_def)
  then have m: "target_mantissa ?old = 0xffff00"
    by (simp add: target_mantissa_def)
  have "0 < ?old" "?old < 2 ^ 256"
    by simp_all
  then have enc: "BitsFromTarget ?old = Inr 0x1d7fff80"
    using BitsFromTarget_eq [of ?old] by (simp only: e m Let_def) simp
  have "NextWorkRequired 0x1d00ffff 64 0 3840 = 0x1d7fff80"
    using NextWorkRequired_eq [OF _ old, of 64 0 3840] tgt enc new
    by (simp add: PoWMaxTarget_value)
  with old new show ?thesis by simp
qed

text \<open>Signing does not undo the work: a header that meets its target before \<^verbatim>\<open>SignBlock\<close>, and already
  carries the signer's public key, meets it afterwards.\<close>

theorem mined_block_stays_mined:
  assumes "CheckProofOfWork C (bl_Header b)"
    and "hash_bytes (bh_ProposerKey (bl_Header b)) = ed25519_Public priv"
    and "SignBlock C b priv = Some b'"
  shows "CheckProofOfWork C (bl_Header b')"
proof -
  have key: "hash_of_bytes (ed25519_Public priv) = bh_ProposerKey (bl_Header b)"
    using assms(2) by (metis hash_of_hash_bytes)
  have "HashHeaderSHA256d C (bl_Header b') = HashHeaderSHA256d C (bl_Header b)"
    "bh_Bits (bl_Header b') = bh_Bits (bl_Header b)"
    using assms(3) key
    by (auto simp: SignBlock_def Let_def HashHeaderSHA256d_def split: option.splits if_splits)
  with assms(1) show ?thesis
    by (auto simp: CheckProofOfWork_def split: sum.splits if_splits)
qed

theorem mined_block_stays_mined_witness:
  "\<exists>b'. SignBlock (sample_crypto\<lparr>sha256 := \<lambda>_. 0\<rparr>)
          (sample_block\<lparr>bl_Header := empty_header\<lparr>bh_Bits := PoWGenesisBits\<rparr>\<rparr>) (replicate 64 0) = Some b'
     \<and> CheckProofOfWork (sample_crypto\<lparr>sha256 := \<lambda>_. 0\<rparr>) (bl_Header b')"
proof -
  let ?C = "sample_crypto\<lparr>sha256 := \<lambda>_. 0\<rparr>" and ?priv = "replicate 64 0 :: bytes"
  let ?b = "sample_block\<lparr>bl_Header := empty_header\<lparr>bh_Bits := PoWGenesisBits\<rparr>\<rparr>"
  have "be_val (List.rev (hash_bytes 0)) = 0"
    by code_simp
  then have w: "CheckProofOfWork ?C (bl_Header ?b)"
    by (simp add: CheckProofOfWork_def genesis_target HashHeaderSHA256d_def sha256d_def
        PoWMaxTarget_value)
  have k: "hash_bytes (bh_ProposerKey (bl_Header ?b)) = ed25519_Public ?priv"
    by code_simp
  obtain b' where s: "SignBlock ?C ?b ?priv = Some b'"
    by (simp add: SignBlock_def Let_def ed25519_Sign_def)
  show ?thesis
    using s mined_block_stays_mined [OF w k s] by blast
qed

end
