(* ===== verification/Fee_Burn.thy ===== *)
theory Fee_Burn
  imports AIB_Prelude Complex_Main
begin

text \<open>
  \<^verbatim>\<open>pkg/economy/feeburn.go\<close>: how the fees of an epoch are divided between the stakers and the burn. A
  \<^verbatim>\<open>big.Int\<close> is a natural number here and a \<^verbatim>\<open>big.Rat\<close> a rational.
\<close>

record EconomyState =
  ec_EpochHeight :: u64
  ec_TxFeeSatoshi :: u64
  ec_FeeBurned :: u64
  ec_TotalStakeSat :: u64
  ec_EffectiveSupply :: u64

datatype economy_error = EcNoFees | EcInvalidState u64 u64 u64

definition PhiFixedNumerator :: nat where
  "PhiFixedNumerator = 7"

definition PhiFixedDenominator :: nat where
  "PhiFixedDenominator = 100"

definition PhiFixed :: rat where
  "PhiFixed = of_nat PhiFixedNumerator / of_nat PhiFixedDenominator"

definition secsPerYear :: nat where
  "secsPerYear = 31536000"

definition AprFrom :: "u64 \<Rightarrow> u64 \<Rightarrow> u64 \<Rightarrow> rat" where
  "AprFrom epochPayoutSatoshi stakeSatoshi epochSeconds =
     (if stakeSatoshi = 0 \<or> epochSeconds = 0 then 0
      else of_nat (unat epochPayoutSatoshi * secsPerYear div unat epochSeconds)
           / of_nat (unat stakeSatoshi))"

definition payment_cap :: "u64 \<Rightarrow> u64 \<Rightarrow> nat" where
  "payment_cap stake epochSeconds =
     (let cap = unat stake * PhiFixedNumerator * unat epochSeconds div (secsPerYear * PhiFixedDenominator)
      in if cap = 0 then 1 else cap)"

definition BurnSplit ::
  "u64 \<Rightarrow> u64 \<Rightarrow> u64 \<Rightarrow> u64 \<Rightarrow> (economy_error, u64 \<times> u64 \<times> rat) result" where
  "BurnSplit feesSatoshi stakersStake totalSupply epochSeconds =
     (if feesSatoshi = 0 then Inl EcNoFees
      else if totalSupply = 0 \<or> stakersStake = 0 \<or> epochSeconds = 0
      then Inl (EcInvalidState stakersStake totalSupply epochSeconds)
      else let capBig = payment_cap stakersStake epochSeconds; feesBig = unat feesSatoshi in
        if feesBig \<le> capBig
        then Inr (of_nat feesBig, 0, AprFrom feesSatoshi stakersStake epochSeconds)
        else Inr (of_nat capBig, of_nat (feesBig - capBig),
                  AprFrom (of_nat capBig) stakersStake epochSeconds))"

lemma floor_chain:
  assumes "0 < e" and "0 < (s::nat)" and "p * (y * 100) \<le> s * 7 * e"
  shows "(of_nat (p * y div e) :: rat) / of_nat s \<le> 7 / 100"
proof -
  have "p * y div e * 100 * e = (p * y div e * e) * 100"
    by (simp only: ac_simps)
  also have "\<dots> \<le> (p * y) * 100"
    by (intro mult_right_mono) simp_all
  also have "\<dots> \<le> s * 7 * e"
    using assms(3) by (simp only: ac_simps)
  finally have "p * y div e * 100 \<le> s * 7"
    using assms(1) by simp
  then have "(of_nat (p * y div e * 100) :: rat) \<le> of_nat (s * 7)"
    by (simp only: of_nat_le_iff)
  with assms(2) show ?thesis
    by (simp add: field_simps)
qed

lemma cap_product:
  assumes "p \<le> s * 7 * e div (y * 100)"
  shows "p * (y * 100) \<le> s * 7 * (e::nat)"
proof -
  have "p * (y * 100) \<le> s * 7 * e div (y * 100) * (y * 100)"
    using assms by (intro mult_right_mono) auto
  also have "\<dots> \<le> s * 7 * e"
    by simp
  finally show ?thesis .
qed

text \<open>The split loses nothing and respects the ceiling: whenever there are fees, stake, supply and a
  positive epoch, what is paid and what is burned add up to the fees exactly; the reported rate is
  the realized annual rate of the payment; that rate does not exceed the fixed seven percent,
  except for the one-satoshi floor; and something is burned only when paying everything would
  exceed the cap.\<close>

theorem burn_split_conserves:
  assumes "fees \<noteq> 0" and "stake \<noteq> 0" and "supply \<noteq> 0" and "epoch \<noteq> 0"
  shows "\<exists>pay burn apr. BurnSplit fees stake supply epoch = Inr (pay, burn, apr)
    \<and> unat pay + unat burn = unat fees \<and> apr = AprFrom pay stake epoch
    \<and> (apr \<le> PhiFixed \<or> pay = 1)
    \<and> (burn = 0 \<longleftrightarrow> unat fees \<le> payment_cap stake epoch)"
proof -
  let ?cap = "payment_cap stake epoch" and ?pay = "min (unat fees) (payment_cap stake epoch)"
  let ?p = "of_nat ?pay :: u64"
  have fits: "unat (of_nat n :: u64) = n" if "n \<le> unat fees" for n
    using that unat_bound [of fees] by (simp add: unat_of_nat)
  have split: "BurnSplit fees stake supply epoch
      = Inr (?p, of_nat (unat fees - ?cap), AprFrom ?p stake epoch)"
    using assms by (simp add: BurnSplit_def Let_def min_def)
  have pos: "0 < unat stake" "0 < unat epoch"
    using assms by (auto simp: word_unat_eq_iff)
  have rate: "AprFrom ?p stake epoch \<le> PhiFixed \<or> ?p = 1"
  proof (cases "unat stake * 7 * unat epoch div (secsPerYear * 100) = 0")
    case True
    then have "?cap = 1"
      by (simp add: payment_cap_def Let_def PhiFixedNumerator_def PhiFixedDenominator_def)
    moreover have "1 \<le> unat fees"
      using assms(1) by (simp add: word_unat_eq_iff Suc_le_eq)
    ultimately show ?thesis by simp
  next
    case False
    then have "?cap = unat stake * 7 * unat epoch div (secsPerYear * 100)"
      by (simp add: payment_cap_def Let_def PhiFixedNumerator_def PhiFixedDenominator_def)
    then have "?pay * (secsPerYear * 100) \<le> unat stake * 7 * unat epoch"
      by (intro cap_product) simp
    with pos have "AprFrom ?p stake epoch \<le> 7 / 100"
      using assms fits [of ?pay] floor_chain [of "unat epoch" "unat stake" ?pay secsPerYear]
      by (simp add: AprFrom_def)
    then show ?thesis
      by (simp add: PhiFixed_def PhiFixedNumerator_def PhiFixedDenominator_def)
  qed
  have "unat ?p + unat (of_nat (unat fees - ?cap) :: u64) = unat fees"
    using fits [of ?pay] fits [of "unat fees - ?cap"] by simp
  moreover have "(of_nat (unat fees - ?cap) :: u64) = 0 \<longleftrightarrow> unat fees \<le> ?cap"
    using fits [of "unat fees - ?cap"] by (auto simp: word_unat_eq_iff)
  ultimately show ?thesis
    using split rate by blast
qed

theorem burn_split_conserves_witness:
  "\<exists>pay burn apr. BurnSplit 1000 31536000 5 100 = Inr (pay, burn, apr)
    \<and> unat pay + unat burn = unat (1000 :: u64) \<and> apr = AprFrom pay 31536000 100
    \<and> (apr \<le> PhiFixed \<or> pay = 1) \<and> (burn = 0 \<longleftrightarrow> unat (1000 :: u64) \<le> payment_cap 31536000 100)"
  by (rule burn_split_conserves) simp_all

end
