(* ===== verification/Consensus.thy ===== *)
theory Consensus
  imports PoW Staking
begin

text \<open>
  \<^verbatim>\<open>pkg/utxo/consensus.go\<close>: the validator set, the stake-weighted selection of the block proposer, the
  verification of a block's proposer and the root of the validator states. Map iteration orders and
  the clock are arguments. Addresses compare as numbers (\<open>bytesLess_address\<close>), which is \<^verbatim>\<open>bytes.Compare\<close>;
  the sorts are by address, which is unique per validator, so a stable sort is every sort.
\<close>

section \<open>Data\<close>

definition TargetBlockTime :: int where
  "TargetBlockTime = 60 * second"

record PoSConfig =
  pc_EpochLength :: u64
  pc_MinStake :: u64
  pc_BlockReward :: u64
  pc_MaxValidators :: int
  pc_StakeLockPeriod :: u64
  pc_EpochDuration :: int
  pc_BaseFeePerByte :: u64
  pc_PriorityFeePerByte :: u64

definition DefaultPoSConfig :: PoSConfig where
  "DefaultPoSConfig =
     \<lparr>pc_EpochLength = 314, pc_MinStake = 100000000000, pc_BlockReward = 5000000000,
      pc_MaxValidators = 100, pc_StakeLockPeriod = 3, pc_EpochDuration = 100 * TargetBlockTime,
      pc_BaseFeePerByte = 10, pc_PriorityFeePerByte = 20\<rparr>"

record Validator =
  v_Address :: address
  v_Stake :: u64
  v_JoinedAt :: u64
  v_LastProposed :: u64
  v_TotalRewards :: u64
  v_Commission :: byte
  v_PublicKey :: bytes
  v_FromPoW :: bool
  v_StakeUTXOCnt :: u64

record StakeInfo =
  si_Delegator :: address
  si_Validator :: address
  si_Amount :: u64
  si_StakedAt :: u64
  si_UnstakeAt :: "u64 option"
  si_PendingStake :: u64

record ConsensusState =
  cn_config :: PoSConfig
  cn_validators :: "address \<rightharpoonup> Validator"
  cn_stakes :: "address \<rightharpoonup> StakeInfo"
  cn_currentEpoch :: u64
  cn_currentHeight :: u64
  cn_lastBlockTime :: int
  cn_proposerQueue :: "address list"

datatype consensus_error =
    CnStakeBelowMinimum u64
  | CnTooManyValidators
  | CnValidatorExists
  | CnNoBlocksMined
  | CnNoValidator
  | CnStakeLocked u64
  | CnNoActiveValidators
  | CnZeroStake
  | CnBadHeight u64 u64
  | CnPanic
  | CnBadProposer address address

definition new_validator :: "address \<Rightarrow> u64 \<Rightarrow> u64 \<Rightarrow> bytes \<Rightarrow> bool \<Rightarrow> Validator" where
  "new_validator addr stake joinedAt publicKey fromPoW =
     \<lparr>v_Address = addr, v_Stake = stake, v_JoinedAt = joinedAt, v_LastProposed = 0, v_TotalRewards = 0,
      v_Commission = 0, v_PublicKey = publicKey, v_FromPoW = fromPoW, v_StakeUTXOCnt = 0\<rparr>"

definition IsActive :: "PoSConfig \<Rightarrow> Validator \<Rightarrow> bool" where
  "IsActive config v \<longleftrightarrow> (if v_FromPoW v then True else v_Stake v \<ge> pc_MinStake config)"

definition NewConsensusState :: "int \<Rightarrow> PoSConfig \<Rightarrow> ConsensusState" where
  "NewConsensusState now config =
     \<lparr>cn_config = config, cn_validators = Map.empty, cn_stakes = Map.empty, cn_currentEpoch = 0,
      cn_currentHeight = 0, cn_lastBlockTime = now, cn_proposerQueue = []\<rparr>"

section \<open>The validator set\<close>

definition HasValidator :: "ConsensusState \<Rightarrow> address \<Rightarrow> bool" where
  "HasValidator cs addr \<longleftrightarrow> cn_validators cs addr \<noteq> None"

definition getActiveValidatorsLocked :: "address list \<Rightarrow> ConsensusState \<Rightarrow> Validator list" where
  "getActiveValidatorsLocked ks cs =
     filter (IsActive (cn_config cs)) (range_values ks (cn_validators cs))"

definition rebuildProposerQueue :: "address list \<Rightarrow> ConsensusState \<Rightarrow> ConsensusState" where
  "rebuildProposerQueue ks cs =
     (let validators = filter (IsActive (cn_config cs)) (range_values ks (cn_validators cs)) in
      if length validators = 0 then cs\<lparr>cn_proposerQueue := []\<rparr>
      else cs\<lparr>cn_proposerQueue := map v_Address validators\<rparr>)"

definition AddValidator ::
  "address list \<Rightarrow> ConsensusState \<Rightarrow> address \<Rightarrow> u64 \<Rightarrow> bytes \<Rightarrow> (consensus_error, ConsensusState) result" where
  "AddValidator ks cs addr stake publicKey =
     (if stake < pc_MinStake (cn_config cs) then Inl (CnStakeBelowMinimum stake)
      else if int (map_len (cn_validators cs)) \<ge> pc_MaxValidators (cn_config cs) then Inl CnTooManyValidators
      else if cn_validators cs addr \<noteq> None then Inl CnValidatorExists
      else Inr (rebuildProposerQueue ks (cs\<lparr>cn_validators := (cn_validators cs)(addr \<mapsto>
             new_validator addr stake (cn_currentHeight cs) publicKey False)\<rparr>)))"

definition AddValidatorFromPoW ::
  "ConsensusState \<Rightarrow> address \<Rightarrow> u64 \<Rightarrow> bytes \<Rightarrow> (consensus_error, ConsensusState) result" where
  "AddValidatorFromPoW cs addr blocksMined publicKey =
     (if blocksMined = 0 then Inl CnNoBlocksMined
      else if cn_validators cs addr \<noteq> None then Inr cs
      else Inr (cs\<lparr>cn_validators := (cn_validators cs)(addr \<mapsto>
             new_validator addr (blocksMined * 100000000) (cn_currentHeight cs) publicKey True)\<rparr>))"

definition RemoveValidator ::
  "address list \<Rightarrow> ConsensusState \<Rightarrow> address \<Rightarrow> (consensus_error, ConsensusState) result" where
  "RemoveValidator ks cs addr =
     (case cn_validators cs addr of
        None \<Rightarrow> Inl CnNoValidator
      | Some validator \<Rightarrow>
          let age = cn_currentHeight cs - v_JoinedAt validator in
          if age < pc_StakeLockPeriod (cn_config cs)
          then Inl (CnStakeLocked (pc_StakeLockPeriod (cn_config cs) - age))
          else Inr (rebuildProposerQueue ks
                 (cs\<lparr>cn_validators := (cn_validators cs)(addr := None)\<rparr>)))"

definition GetValidator :: "ConsensusState \<Rightarrow> address \<Rightarrow> (consensus_error, Validator) result" where
  "GetValidator cs addr = (case cn_validators cs addr of None \<Rightarrow> Inl CnNoValidator | Some v \<Rightarrow> Inr v)"

definition ResetValidators :: "ConsensusState \<Rightarrow> ConsensusState" where
  "ResetValidators cs = cs\<lparr>cn_validators := Map.empty\<rparr>"

definition AddValidatorFromStake :: "ConsensusState \<Rightarrow> address \<Rightarrow> u64 \<Rightarrow> ConsensusState" where
  "AddValidatorFromStake cs addr stake =
     (case cn_validators cs addr of
        Some v \<Rightarrow> cs\<lparr>cn_validators := (cn_validators cs)(addr \<mapsto> v\<lparr>v_Stake := stake\<rparr>)\<rparr>
      | None \<Rightarrow> cs\<lparr>cn_validators := (cn_validators cs)(addr \<mapsto>
                 new_validator addr stake (cn_currentHeight cs) [] True)\<rparr>)"

definition getTotalStakeLocked :: "address list \<Rightarrow> ConsensusState \<Rightarrow> u64" where
  "getTotalStakeLocked ks cs =
     foldl (\<lambda>tot v. tot + v_Stake v) 0 (range_values ks (cn_validators cs))"

definition GetValidatorCount :: "ConsensusState \<Rightarrow> nat" where
  "GetValidatorCount cs = map_len (cn_validators cs)"

section \<open>Proposer selection\<close>

text \<open>The loop over the cumulative stake.\<close>

fun pick_validator :: "u64 \<Rightarrow> u64 \<Rightarrow> Validator list \<Rightarrow> address option" where
  "pick_validator selected cumulative [] = None"
| "pick_validator selected cumulative (v # vs) =
     (let cumulative = cumulative + v_Stake v in
      if selected < cumulative then Some (v_Address v) else pick_validator selected cumulative vs)"

definition sorted_active :: "address list \<Rightarrow> ConsensusState \<Rightarrow> Validator list" where
  "sorted_active ks cs = sort_key v_Address (getActiveValidatorsLocked ks cs)"

definition sortition :: "crypto \<Rightarrow> bytes \<Rightarrow> u64 \<Rightarrow> u64 \<Rightarrow> nat" where
  "sortition C seed height attempt = unat (sha256 C (seed @ put_u64_be height @ put_u64_be attempt))"

definition selectProposerAttemptLocked ::
  "crypto \<Rightarrow> address list \<Rightarrow> ConsensusState \<Rightarrow> bytes \<Rightarrow> u64 \<Rightarrow> u64 \<Rightarrow> (consensus_error, address) result" where
  "selectProposerAttemptLocked C ks cs seed height attempt =
     (let validators = sorted_active ks cs in
      if length validators = 0 then Inl CnNoActiveValidators
      else let totalStake = foldl (\<lambda>tot v. tot + v_Stake v) 0 validators in
        if totalStake = 0 then Inl CnZeroStake
        else let selected = of_nat (sortition C seed height attempt mod unat totalStake) in
          case pick_validator selected 0 validators of
            Some addr \<Rightarrow> Inr addr
          | None \<Rightarrow> Inr (v_Address (last validators)))"

definition selectProposerAtHeightLocked ::
  "crypto \<Rightarrow> address list \<Rightarrow> ConsensusState \<Rightarrow> bytes \<Rightarrow> u64 \<Rightarrow> (consensus_error, address) result" where
  "selectProposerAtHeightLocked C ks cs seed height = selectProposerAttemptLocked C ks cs seed height 0"

definition selectProposerLocked ::
  "crypto \<Rightarrow> address list \<Rightarrow> ConsensusState \<Rightarrow> bytes \<Rightarrow> (consensus_error, address) result" where
  "selectProposerLocked C ks cs seed = selectProposerAtHeightLocked C ks cs seed (cn_currentHeight cs)"

definition ValidateProposer ::
  "crypto \<Rightarrow> address list \<Rightarrow> ConsensusState \<Rightarrow> address \<Rightarrow> bytes \<Rightarrow> (consensus_error, unit) result" where
  "ValidateProposer C ks cs proposer seed =
     rbind (selectProposerLocked C ks cs seed) (\<lambda>expected.
       if expected \<noteq> proposer then Inl (CnBadProposer expected proposer) else Inr ())"

definition RestoreHeight :: "ConsensusState \<Rightarrow> u64 \<Rightarrow> ConsensusState" where
  "RestoreHeight cs height =
     (if height > cn_currentHeight cs then cs\<lparr>cn_currentHeight := height\<rparr> else cs)"

definition onEpochEnd :: "address list \<Rightarrow> ConsensusState \<Rightarrow> ConsensusState" where
  "onEpochEnd ks cs = rebuildProposerQueue ks cs"

text \<open>The remainder by an epoch length of zero panics, after the state has been updated.\<close>

definition credit_proposer :: "ConsensusState \<Rightarrow> BlockHeader \<Rightarrow> ConsensusState" where
  "credit_proposer cs h =
     (case cn_validators cs (bh_Proposer h) of
        None \<Rightarrow> cs
      | Some v \<Rightarrow> cs\<lparr>cn_validators := (cn_validators cs)(bh_Proposer h \<mapsto>
          v\<lparr>v_LastProposed := bh_Height h,
            v_TotalRewards := v_TotalRewards v + pc_BlockReward (cn_config cs)\<rparr>)\<rparr>)"

definition ProcessNewBlock ::
  "address list \<Rightarrow> ConsensusState \<Rightarrow> Block \<Rightarrow> ConsensusState \<times> (consensus_error, unit) result" where
  "ProcessNewBlock ks cs block =
     (let h = bl_Header block in
      if bh_Height h \<noteq> 0 \<and> bh_Height h \<noteq> cn_currentHeight cs + 1
      then (cs, Inl (CnBadHeight (cn_currentHeight cs + 1) (bh_Height h)))
      else let cs = (if bh_Height h > 0 then credit_proposer cs h else cs);
               cs = cs\<lparr>cn_currentHeight := bh_Height h, cn_lastBlockTime := time_Unix (bh_Timestamp h)\<rparr>
           in if cn_currentHeight cs > 0
              then if pc_EpochLength (cn_config cs) = 0 then (cs, Inl CnPanic)
                   else if cn_currentHeight cs mod pc_EpochLength (cn_config cs) = 0
                   then (onEpochEnd ks (cs\<lparr>cn_currentEpoch := cn_currentEpoch cs + 1\<rparr>), Inr ())
                   else (cs, Inr ())
              else (cs, Inr ()))"

section \<open>Verification of the proposer\<close>

text \<open>The elapsed time is a signed 64-bit difference; the window is seventy seconds.\<close>

definition SlotAttemptFor :: "u64 \<Rightarrow> u64 \<Rightarrow> u64 \<Rightarrow> u64" where
  "SlotAttemptFor parentTime now height =
     (let elapsed = sint (now - parentTime) in
      if elapsed \<le> 0 then 0
      else let att = of_int (elapsed div (TargetBlockTime div second + 10)) :: u64
           in if att > 1000 then 1000 else att)"

record ProposerVerificationResult =
  pv_Valid :: bool
  pv_Bootstrap :: bool
  pv_Error :: string
  pv_ExpectedProposer :: address
  pv_Stake :: u64
  pv_TotalStake :: u64

definition no_result :: ProposerVerificationResult where
  "no_result = \<lparr>pv_Valid = False, pv_Bootstrap = False, pv_Error = [], pv_ExpectedProposer = 0,
                pv_Stake = 0, pv_TotalStake = 0\<rparr>"

text \<open>The tolerance loop over the other attempts.\<close>

fun try_attempts ::
  "crypto \<Rightarrow> address list \<Rightarrow> ConsensusState \<Rightarrow> bytes \<Rightarrow> BlockHeader \<Rightarrow> u64 \<Rightarrow> u64 list \<Rightarrow> bool" where
  "try_attempts C ks cs seed h attempt [] = False"
| "try_attempts C ks cs seed h attempt (a # as) =
     (if a = attempt then try_attempts C ks cs seed h attempt as
      else if selectProposerAttemptLocked C ks cs seed (bh_Height h) a = Inr (bh_Proposer h) then True
      else try_attempts C ks cs seed h attempt as)"

text \<open>
  \<open>hook\<close> is the callback installed by \<^verbatim>\<open>SetEmptyValidatorSetHook\<close>, which may rebuild the validator set;
  \<open>eraBlocks\<close> is the package variable \<^verbatim>\<open>PoWEraBlocks\<close>. The hook runs before the lock is taken;
  \<open>ks0\<close> and \<open>ks\<close> are the iteration orders before and after it.
\<close>

definition VerifyBlockProposer ::
  "crypto \<Rightarrow> address list \<Rightarrow> address list \<Rightarrow> (ConsensusState \<Rightarrow> ConsensusState) option \<Rightarrow> u64 \<Rightarrow> u64 \<Rightarrow> ConsensusState
   \<Rightarrow> Block \<Rightarrow> Block option \<Rightarrow> ConsensusState \<times> ProposerVerificationResult" where
  "VerifyBlockProposer C ks0 ks hook eraBlocks nowUnix cs block prevBlock =
     (let h = bl_Header block;
          seed = (case prevBlock of Some p \<Rightarrow> hash_bytes (bh_VRFSeed (bl_Header p)) | None \<Rightarrow> replicate 32 0);
          cs = (if length (getActiveValidatorsLocked ks0 cs) = 0
                then (case hook of Some f \<Rightarrow> f cs | None \<Rightarrow> cs) else cs)
      in if length (getActiveValidatorsLocked ks cs) = 0 \<and> bh_Height h = eraBlocks + 1
         then (cs, no_result\<lparr>pv_Valid := True, pv_Bootstrap := True\<rparr>)
         else
           let attempt = (case prevBlock of
                            Some p \<Rightarrow> SlotAttemptFor (bh_Timestamp (bl_Header p)) (bh_Timestamp h) (bh_Height h)
                          | None \<Rightarrow> 0)
           in case selectProposerAttemptLocked C ks cs seed (bh_Height h) attempt of
                Inl _ \<Rightarrow> (cs, no_result\<lparr>pv_Error := ''failed to select proposer''\<rparr>)
              | Inr expected \<Rightarrow>
                  if bh_Proposer h \<noteq> expected
                  then let alt = (case prevBlock of
                                    Some p \<Rightarrow> SlotAttemptFor (bh_Timestamp (bl_Header p)) nowUnix (bh_Height h)
                                  | None \<Rightarrow> 0)
                       in if try_attempts C ks cs seed h attempt [attempt + 1, alt]
                          then (cs, no_result\<lparr>pv_Valid := True, pv_ExpectedProposer := bh_Proposer h\<rparr>)
                          else (cs, no_result\<lparr>pv_ExpectedProposer := expected, pv_Error := ''proposer mismatch''\<rparr>)
                  else if length (bh_VRFProof h) > 0 \<and> length (bh_Signature h) = 0
                  then (cs, no_result\<lparr>pv_ExpectedProposer := expected, pv_Error := ''missing proposer signature''\<rparr>)
                  else case cn_validators cs (bh_Proposer h) of
                    None \<Rightarrow> (cs, no_result\<lparr>pv_ExpectedProposer := expected, pv_Error := ''not in validator set''\<rparr>)
                  | Some v \<Rightarrow>
                      if \<not> v_FromPoW v \<and> v_Stake v < pc_MinStake (cn_config cs)
                      then (cs, no_result\<lparr>pv_ExpectedProposer := expected, pv_Error := ''stake below minimum''\<rparr>)
                      else (cs, no_result\<lparr>pv_Valid := True, pv_ExpectedProposer := expected,
                                          pv_Stake := v_Stake v,
                                          pv_TotalStake := getTotalStakeLocked ks cs\<rparr>))"

section \<open>The root of the validator states\<close>

definition validator_leaf :: "crypto \<Rightarrow> address \<times> Validator \<Rightarrow> hash" where
  "validator_leaf C av =
     (let (addr, v) = av in
      sha256 C (hash_bytes addr @ put_u64_be (v_Stake v) @ put_u64_be (v_LastProposed v)
                @ v_PublicKey v))"

definition state_node :: "crypto \<Rightarrow> hash \<Rightarrow> hash \<Rightarrow> hash" where
  "state_node C a b = sha256 C (hash_bytes a @ hash_bytes b)"

definition range_pairs :: "'k list \<Rightarrow> ('k \<rightharpoonup> 'v) \<Rightarrow> ('k \<times> 'v) list" where
  "range_pairs ks m = List.map_filter (\<lambda>k. map_option (Pair k) (m k)) ks"

definition CalculateValidatorStateRoot :: "crypto \<Rightarrow> address list \<Rightarrow> ConsensusState \<Rightarrow> hash" where
  "CalculateValidatorStateRoot C ks cs =
     (if map_len (cn_validators cs) = 0 then 0
      else merkle_root (state_node C)
             (map (validator_leaf C) (sort_key fst (range_pairs ks (cn_validators cs)))))"

definition VerifyValidatorStateRoot :: "crypto \<Rightarrow> address list \<Rightarrow> ConsensusState \<Rightarrow> hash \<Rightarrow> bool" where
  "VerifyValidatorStateRoot C ks cs stateRoot \<longleftrightarrow> CalculateValidatorStateRoot C ks cs = stateRoot"

section \<open>The selection does not depend on the iteration order\<close>

definition validators_inv :: "ConsensusState \<Rightarrow> bool" where
  "validators_inv cs \<longleftrightarrow> (\<forall>a v. cn_validators cs a = Some v \<longrightarrow> v_Address v = a)"

lemma validators_inv_new: "validators_inv (NewConsensusState now config)"
  by (simp add: validators_inv_def NewConsensusState_def)

lemma rebuild_validators [simp]: "cn_validators (rebuildProposerQueue ks cs) = cn_validators cs"
  by (simp add: rebuildProposerQueue_def Let_def)

lemma validators_inv_ops:
  assumes "validators_inv cs"
  shows "AddValidator ks cs addr stake pk = Inr cs' \<Longrightarrow> validators_inv cs'"
    and "AddValidatorFromPoW cs addr n pk = Inr cs' \<Longrightarrow> validators_inv cs'"
    and "RemoveValidator ks cs addr = Inr cs' \<Longrightarrow> validators_inv cs'"
    and "validators_inv (AddValidatorFromStake cs addr stake)"
    and "validators_inv (ResetValidators cs)"
    and "validators_inv (RestoreHeight cs height)"
    and "validators_inv (fst (ProcessNewBlock ks cs block))"
  using assms
  by (auto simp: validators_inv_def AddValidator_def AddValidatorFromPoW_def RemoveValidator_def
      AddValidatorFromStake_def ResetValidators_def RestoreHeight_def ProcessNewBlock_def Let_def
      credit_proposer_def onEpochEnd_def new_validator_def split: if_splits option.splits)

lemma insort_key_map:
  "key (f x) = x \<Longrightarrow> (\<forall>y \<in> set ys. key (f y) = y) \<Longrightarrow> insort_key key (f x) (map f ys) = map f (insort x ys)"
  by (induction ys) auto

lemma sort_key_map:
  "(\<forall>x \<in> set xs. key (f x) = x) \<Longrightarrow> sort_key key (map f xs) = map f (sort xs)"
  by (induction xs) (simp_all add: insort_key_map)

text \<open>The addresses of the active validators in ascending order, and the validators themselves.\<close>

definition active_at :: "ConsensusState \<Rightarrow> address \<Rightarrow> bool" where
  "active_at cs a \<longleftrightarrow> (case cn_validators cs a of None \<Rightarrow> False | Some v \<Rightarrow> IsActive (cn_config cs) v)"

lemma sorted_active_eq:
  assumes "validators_inv cs" and "iteration_of ks (cn_validators cs)"
  shows "sorted_active ks cs = map (\<lambda>a. the (cn_validators cs a)) (sort (filter (active_at cs) ks))"
proof -
  let ?f = "\<lambda>a. the (cn_validators cs a)"
  have dom: "a \<in> set ks \<Longrightarrow> cn_validators cs a = Some (?f a)" for a
    using assms(2) by (auto simp: iteration_of_def)
  have "getActiveValidatorsLocked ks cs = map ?f (filter (\<lambda>a. IsActive (cn_config cs) (?f a)) ks)"
    by (simp add: getActiveValidatorsLocked_def range_values_map [OF assms(2)] filter_map comp_def)
  also have "filter (\<lambda>a. IsActive (cn_config cs) (?f a)) ks = filter (active_at cs) ks"
  proof (intro filter_cong refl)
    fix a
    assume "a \<in> set ks"
    then obtain v where "cn_validators cs a = Some v"
      using dom by blast
    then show "IsActive (cn_config cs) (?f a) = active_at cs a"
      by (simp add: active_at_def)
  qed
  finally show ?thesis
    using assms(1) dom unfolding sorted_active_def
    by (simp add: sort_key_map validators_inv_def)
qed

lemma sorted_active_addresses:
  assumes "validators_inv cs" and "iteration_of ks (cn_validators cs)"
  shows "map v_Address (sorted_active ks cs) = sort (filter (active_at cs) ks)"
proof -
  have "a \<in> set ks \<Longrightarrow> v_Address (the (cn_validators cs a)) = a" for a
    using assms by (auto simp: iteration_of_def validators_inv_def)
  then have "map (\<lambda>a. v_Address (the (cn_validators cs a))) (sort (filter (active_at cs) ks))
      = sort (filter (active_at cs) ks)"
    by (intro map_idI) simp
  then show ?thesis
    by (simp add: sorted_active_eq [OF assms] comp_def)
qed

lemma sorted_active_unique:
  assumes "validators_inv cs" and "iteration_of ks (cn_validators cs)" and "iteration_of ks' (cn_validators cs)"
  shows "sorted_active ks cs = sorted_active ks' cs"
proof -
  have "sort (filter (active_at cs) ks) = sort (filter (active_at cs) ks')"
    using assms(2,3) by (intro sorted_distinct_set_unique) (auto simp: iteration_of_def)
  then show ?thesis
    by (simp add: sorted_active_eq [OF assms(1,2)] sorted_active_eq [OF assms(1,3)])
qed

lemma set_sorted_active:
  assumes "validators_inv cs" and "iteration_of ks (cn_validators cs)" and "v \<in> set (sorted_active ks cs)"
  shows "cn_validators cs (v_Address v) = Some v" and "IsActive (cn_config cs) v"
  using assms by (auto simp: sorted_active_eq active_at_def validators_inv_def iteration_of_def
      split: option.splits)

section \<open>The selection is weighted by stake\<close>

fun pick_exact :: "nat \<Rightarrow> Validator list \<Rightarrow> address option" where
  "pick_exact r [] = None"
| "pick_exact r (v # vs) =
     (if r < unat (v_Stake v) then Some (v_Address v) else pick_exact (r - unat (v_Stake v)) vs)"

definition stakes_sum :: "Validator list \<Rightarrow> nat" where
  "stakes_sum vs = exact_sum (map v_Stake vs)"

lemma stakes_sum_simps [simp]: "stakes_sum [] = 0" "stakes_sum (v # vs) = unat (v_Stake v) + stakes_sum vs"
  by (simp_all add: stakes_sum_def)

lemma pick_validator_exact:
  "unat cum + stakes_sum vs < 2 ^ 64 \<Longrightarrow> unat cum \<le> r \<Longrightarrow> r < 2 ^ 64 \<Longrightarrow>
   pick_validator (of_nat r) cum vs = pick_exact (r - unat cum) vs"
proof (induction vs arbitrary: cum)
  case (Cons v vs)
  have sum: "unat (cum + v_Stake v) = unat cum + unat (v_Stake v)"
    using Cons.prems(1) by (simp add: unat_word_ariths)
  have r: "unat (of_nat r :: u64) = r"
    using Cons.prems(3) by (simp add: unat_of_nat)
  show ?case
  proof (cases "r < unat cum + unat (v_Stake v)")
    case True
    then show ?thesis
      using Cons.prems(2) sum r by (simp add: Let_def word_less_nat_alt less_diff_conv2 add.commute)
  next
    case False
    then have "pick_validator (of_nat r) (cum + v_Stake v) vs = pick_exact (r - unat (cum + v_Stake v)) vs"
      using Cons.prems sum by (intro Cons.IH) auto
    with False show ?thesis
      using Cons.prems(2) sum r by (simp add: Let_def word_less_nat_alt less_diff_conv2 add.commute)
  qed
qed simp

lemma pick_exact_some: "r < stakes_sum vs \<Longrightarrow> \<exists>v \<in> set vs. pick_exact r vs = Some (v_Address v)"
  by (induction vs arbitrary: r) auto

lemma pick_exact_card:
  assumes "distinct (map v_Address vs)" and "v \<in> set vs"
  shows "card {r. r < stakes_sum vs \<and> pick_exact r vs = Some (v_Address v)} = unat (v_Stake v)"
  using assms
proof (induction vs)
  case (Cons w vs)
  let ?s = "unat (v_Stake w)"
  let ?S = "\<lambda>us u. {r. r < stakes_sum us \<and> pick_exact r us = Some (v_Address u)}"
  have rest: "?S (w # vs) v = {r. r < ?s \<and> v_Address w = v_Address v} \<union> (\<lambda>r. r + ?s) ` ?S vs v"
  proof (intro set_eqI iffI)
    fix r
    assume "r \<in> ?S (w # vs) v"
    then show "r \<in> {r. r < ?s \<and> v_Address w = v_Address v} \<union> (\<lambda>r. r + ?s) ` ?S vs v"
      by (auto simp: image_iff split: if_splits intro!: exI [of _ "r - ?s"])
  qed (auto)
  show ?case
  proof (cases "v = w")
    case True
    have "pick_exact r vs \<noteq> Some (v_Address w)" if "r < stakes_sum vs" for r
      using pick_exact_some [OF that] Cons.prems(1) by auto
    then have empty: "?S vs v = {}"
      using True by blast
    show ?thesis
      unfolding rest empty using True by simp
  next
    case False
    with Cons.prems have "v \<in> set vs" "v_Address w \<noteq> v_Address v" by auto
    moreover from this have "card (?S vs v) = unat (v_Stake v)"
      using Cons.IH Cons.prems(1) by simp
    ultimately show ?thesis
      unfolding rest by (simp add: card_image inj_on_def)
  qed
qed simp

lemma selectProposer_result:
  assumes "stakes_sum (sorted_active ks cs) < 2 ^ 64" and "0 < stakes_sum (sorted_active ks cs)"
  shows "selectProposerAttemptLocked C ks cs seed height attempt
    = Inr (the (pick_exact (sortition C seed height attempt mod stakes_sum (sorted_active ks cs))
                 (sorted_active ks cs)))"
proof -
  let ?vs = "sorted_active ks cs" and ?T = "stakes_sum (sorted_active ks cs)"
  let ?r = "sortition C seed height attempt mod ?T"
  have tot: "unat (foldl (\<lambda>tot v. tot + v_Stake v) 0 ?vs) = ?T"
    using assms(1) by (simp add: foldl_sum_list unat_sum_list stakes_sum_def)
  have ne: "?vs \<noteq> []" "foldl (\<lambda>tot v. tot + v_Stake v) 0 ?vs \<noteq> 0"
    using assms(2) tot by auto
  have r: "?r < ?T"
    using assms(2) by simp
  from pick_exact_some [OF r] obtain a where "pick_exact ?r ?vs = Some a"
    by blast
  moreover have "pick_validator (of_nat ?r) 0 ?vs = pick_exact ?r ?vs"
    using pick_validator_exact [of 0 ?vs ?r] assms(1) r by simp
  ultimately show ?thesis
    using ne tot by (simp add: selectProposerAttemptLocked_def Let_def)
qed

lemma selectProposer_active:
  assumes "validators_inv cs" and "iteration_of ks (cn_validators cs)"
    and "selectProposerAttemptLocked C ks cs seed height attempt = Inr a"
  shows "\<exists>v. cn_validators cs a = Some v \<and> IsActive (cn_config cs) v"
proof -
  have pick: "pick_validator s c vs = Some a \<Longrightarrow> \<exists>v \<in> set vs. v_Address v = a" for s c vs
    by (induction vs arbitrary: c) (auto simp: Let_def split: if_splits)
  obtain v where "v \<in> set (sorted_active ks cs)" "v_Address v = a"
    using assms(3) pick
    by (auto simp: selectProposerAttemptLocked_def Let_def split: if_splits option.splits)
      (metis last_in_set)
  then show ?thesis
    using set_sorted_active [OF assms(1,2)] by blast
qed

section \<open>Commitment to the validator set\<close>

definition state_strings :: "crypto \<Rightarrow> hash \<Rightarrow> hash \<Rightarrow> bytes set" where
  "state_strings C a b = {hash_bytes a @ hash_bytes b}"

lemma state_node_binding:
  assumes "inj_on (sha256 C) (state_strings C a b \<union> state_strings C a' b')" and "state_node C a b = state_node C a' b'"
  shows "a = a' \<and> b = b'"
  using inj_onD [OF assms(1), of "hash_bytes a @ hash_bytes b" "hash_bytes a' @ hash_bytes b'"] assms(2)
  by (simp add: state_node_def state_strings_def)

interpretation validator_node: hash_node "state_node C" "sha256 C" "state_strings C" for C
  by unfold_locales (rule state_node_binding)

definition committed :: "Validator \<Rightarrow> u64 \<times> u64 \<times> bytes" where
  "committed v = (v_Stake v, v_LastProposed v, v_PublicKey v)"

text \<open>The string hashed for a validator, and those hashed for the state root of a list of validators.\<close>

definition leaf_string :: "address \<times> Validator \<Rightarrow> bytes" where
  "leaf_string av = hash_bytes (fst av) @ put_u64_be (v_Stake (snd av)) @ put_u64_be (v_LastProposed (snd av))
     @ v_PublicKey (snd av)"

definition state_root_strings :: "crypto \<Rightarrow> address list \<Rightarrow> ConsensusState \<Rightarrow> bytes set" where
  "state_root_strings C ks cs =
     (let pairs = map (\<lambda>k. (k, the (cn_validators cs k))) (sort ks)
      in leaf_string ` set pairs \<union> tree_strings (state_node C) (state_strings C) (map (validator_leaf C) pairs))"

lemma validator_leaf_string: "validator_leaf C av = sha256 C (leaf_string av)"
  by (simp add: validator_leaf_def leaf_string_def split_beta)

lemma leaf_string_inject:
  "leaf_string av = leaf_string bw \<longleftrightarrow> fst av = fst bw \<and> committed (snd av) = committed (snd bw)"
  by (auto simp: leaf_string_def committed_def)

lemma range_pairs_map:
  assumes "iteration_of ks m"
  shows "sort_key fst (range_pairs ks m) = map (\<lambda>k. (k, the (m k))) (sort ks)"
proof -
  have "range_pairs ks m = map (\<lambda>k. (k, the (m k))) ks"
    using assms unfolding range_pairs_def iteration_of_def
    by (auto simp: map_filter_def dom_def comp_def intro!: filter_id_conv [THEN iffD2])
  then show ?thesis
    by (simp add: sort_key_map)
qed

lemma state_root_eq:
  assumes "iteration_of ks (cn_validators cs)"
  shows "CalculateValidatorStateRoot C ks cs
    = merkle_root (state_node C) (map (\<lambda>k. validator_leaf C (k, the (cn_validators cs k))) (sort ks))"
proof (cases "ks = []")
  case True
  then show ?thesis
    using length_iteration [OF assms]
    by (simp add: CalculateValidatorStateRoot_def merkle_root_def merkle_levels.simps)
next
  case False
  then have "map_len (cn_validators cs) \<noteq> 0"
    using length_iteration [OF assms] by (metis length_0_conv)
  then show ?thesis
    by (simp add: CalculateValidatorStateRoot_def range_pairs_map [OF assms] comp_def)
qed

section \<open>Properties\<close>

text \<open>C24. Proposer selection is deterministic and exactly proportional to stake: when the active stake is
  positive and below two to the 64, there is one function on the residues below the total active
  stake, the same for every map iteration order, such that the proposer is its value at the
  sortition number modulo the total; and every active validator is the value at exactly as many
  residues as it has stake.\<close>

theorem proposer_weighted:
  assumes "validators_inv cs" and "iteration_of ks (cn_validators cs)"
    and "stakes_sum (sorted_active ks cs) < 2 ^ 64" and "0 < stakes_sum (sorted_active ks cs)"
  shows "\<exists>f :: nat \<Rightarrow> address.
    (\<forall>ks' seed height attempt. iteration_of ks' (cn_validators cs) \<longrightarrow>
       selectProposerAttemptLocked C ks' cs seed height attempt
         = Inr (f (sortition C seed height attempt mod stakes_sum (sorted_active ks cs))))
    \<and> (\<forall>a v. cn_validators cs a = Some v \<and> IsActive (cn_config cs) v \<longrightarrow>
       card {r. r < stakes_sum (sorted_active ks cs) \<and> f r = a} = unat (v_Stake v))"
proof -
  let ?vs = "sorted_active ks cs" and ?T = "stakes_sum (sorted_active ks cs)"
  let ?f = "\<lambda>r. the (pick_exact r (sorted_active ks cs))"
  have "selectProposerAttemptLocked C ks' cs seed height attempt
      = Inr (?f (sortition C seed height attempt mod ?T))"
    if "iteration_of ks' (cn_validators cs)" for ks' seed height attempt
    using selectProposer_result [of ks' cs C seed height attempt] assms(3,4)
      sorted_active_unique [OF assms(1) that assms(2)] by simp
  moreover have "card {r. r < ?T \<and> ?f r = a} = unat (v_Stake v)"
    if v: "cn_validators cs a = Some v" "IsActive (cn_config cs) v" for a v
  proof -
    have a: "v_Address v = a"
      using assms(1) v(1) by (simp add: validators_inv_def)
    have "distinct (map v_Address ?vs)"
      using assms(2) by (simp add: sorted_active_addresses [OF assms(1,2)] iteration_of_def)
    moreover have "v \<in> set ?vs"
      using v assms(2) by (auto simp: sorted_active_eq [OF assms(1,2)] active_at_def iteration_of_def
          intro!: image_eqI [of _ _ a])
    ultimately have "card {r. r < ?T \<and> pick_exact r ?vs = Some a} = unat (v_Stake v)"
      using pick_exact_card [of ?vs v] a by simp
    moreover have "{r. r < ?T \<and> ?f r = a} = {r. r < ?T \<and> pick_exact r ?vs = Some a}"
      using pick_exact_some [of _ ?vs] by fastforce
    ultimately show ?thesis by simp
  qed
  ultimately show ?thesis
    by (intro exI [of _ ?f]) blast
qed

definition two_validators :: ConsensusState where
  "two_validators =
     AddValidatorFromStake (AddValidatorFromStake (NewConsensusState 0 DefaultPoSConfig) 9 30) 4 12"

lemma two_validators_facts:
  "validators_inv two_validators" "iteration_of [9, 4] (cn_validators two_validators)"
  "map v_Stake (sorted_active [9, 4] two_validators) = [12, 30]"
proof -
  have v: "cn_validators two_validators =
      [9 \<mapsto> new_validator 9 30 0 [] True, 4 \<mapsto> new_validator 4 12 0 [] True]"
    by (simp add: two_validators_def AddValidatorFromStake_def NewConsensusState_def)
  show "validators_inv two_validators"
    unfolding two_validators_def by (intro validators_inv_ops(4) validators_inv_new)
  show "iteration_of [9, 4] (cn_validators two_validators)"
    by (auto simp: iteration_of_def v)
  show "map v_Stake (sorted_active [9, 4] two_validators) = [12, 30]"
    by (simp add: sorted_active_def getActiveValidatorsLocked_def range_values_def map_filter_def v
        IsActive_def new_validator_def)
qed

theorem proposer_weighted_witness:
  "\<exists>f :: nat \<Rightarrow> address.
     selectProposerAttemptLocked demo_crypto [9, 4] two_validators [] 1 0
       = Inr (f (sortition demo_crypto [] 1 0 mod 42))
     \<and> card {r. r < 42 \<and> f r = 9} = 30"
proof -
  have T: "stakes_sum (sorted_active [9, 4] two_validators) = 42"
    using two_validators_facts(3) by (simp add: stakes_sum_def)
  have v: "cn_validators two_validators 9 = Some (new_validator 9 30 0 [] True)"
    by (simp add: two_validators_def AddValidatorFromStake_def NewConsensusState_def)
  show ?thesis
    using proposer_weighted [OF two_validators_facts(1,2), of demo_crypto] two_validators_facts(2) v
    unfolding T by (fastforce simp: IsActive_def new_validator_def)
qed

definition attempt_at :: "Block option \<Rightarrow> u64 \<Rightarrow> BlockHeader \<Rightarrow> u64" where
  "attempt_at prev time h =
     (case prev of Some p \<Rightarrow> SlotAttemptFor (bh_Timestamp (bl_Header p)) time (bh_Height h) | None \<Rightarrow> 0)"

text \<open>Nobody outside the active validator set passes: when \<^verbatim>\<open>VerifyBlockProposer\<close> accepts a block, either
  there is no active validator and the block is the first after the proof-of-work era, or the
  proposer is an active validator that the selection returns for the attempt derived from the
  block's timestamp, for the next one, or for the one derived from the clock.\<close>

theorem verified_proposer_active:
  assumes "VerifyBlockProposer C ks0 ks hook era now cs block prev = (cs', res)" and "pv_Valid res"
    and "validators_inv cs'" and "iteration_of ks (cn_validators cs')"
  shows "pv_Bootstrap res \<and> getActiveValidatorsLocked ks cs' = [] \<and> bh_Height (bl_Header block) = era + 1
    \<or> (\<exists>v seed attempt.
        cn_validators cs' (bh_Proposer (bl_Header block)) = Some v \<and> IsActive (cn_config cs') v
        \<and> selectProposerAttemptLocked C ks cs' seed (bh_Height (bl_Header block)) attempt
            = Inr (bh_Proposer (bl_Header block))
        \<and> attempt \<in> {attempt_at prev (bh_Timestamp (bl_Header block)) (bl_Header block),
                       attempt_at prev (bh_Timestamp (bl_Header block)) (bl_Header block) + 1,
                       attempt_at prev now (bl_Header block)}
        \<and> seed = (case prev of Some p \<Rightarrow> hash_bytes (bh_VRFSeed (bl_Header p)) | None \<Rightarrow> replicate 32 0))"
proof -
  let ?h = "bl_Header block"
  let ?seed = "case prev of Some p \<Rightarrow> hash_bytes (bh_VRFSeed (bl_Header p)) | None \<Rightarrow> replicate 32 0"
  have tried: "try_attempts C ks cs' seed ?h att as \<Longrightarrow>
      \<exists>a \<in> set as. selectProposerAttemptLocked C ks cs' seed (bh_Height ?h) a = Inr (bh_Proposer ?h)"
    for seed att as
    by (induction as) (auto split: if_splits)
  consider (boot) "pv_Bootstrap res" "getActiveValidatorsLocked ks cs' = []" "bh_Height ?h = era + 1"
    | (sel) a where "selectProposerAttemptLocked C ks cs' ?seed (bh_Height ?h) a = Inr (bh_Proposer ?h)"
        "a \<in> {attempt_at prev (bh_Timestamp ?h) ?h, attempt_at prev (bh_Timestamp ?h) ?h + 1, attempt_at prev now ?h}"
    using assms(1,2) tried
    unfolding VerifyBlockProposer_def Let_def no_result_def attempt_at_def [symmetric]
    by (fastforce split: if_splits sum.splits option.splits)
  then show ?thesis
  proof cases
    case sel
    from selectProposer_active [OF assms(3,4) sel(1)] sel show ?thesis by blast
  qed simp
qed

text \<open>The validator state root commits to the validator set: two states with the same number of validators and
  the same root, under whatever iteration orders, have the same addresses, stakes, last proposed heights and public
  keys, as long as SHA-256 does not collide on the strings hashed for the two roots.\<close>

theorem state_root_binding:
  assumes "iteration_of ks (cn_validators cs)" and "iteration_of ks' (cn_validators cs')"
    and "GetValidatorCount cs = GetValidatorCount cs'"
    and "CalculateValidatorStateRoot C ks cs = CalculateValidatorStateRoot C ks' cs'"
    and "inj_on (sha256 C) (state_root_strings C ks cs \<union> state_root_strings C ks' cs')"
  shows "map_option committed (cn_validators cs a) = map_option committed (cn_validators cs' a)"
proof -
  let ?p = "\<lambda>m k. (k, the (m k))"
  let ?xs = "map (?p (cn_validators cs)) (sort ks)" and ?ys = "map (?p (cn_validators cs')) (sort ks')"
  have len: "length ks = length ks'"
    using assms(1-3) by (simp add: length_iteration GetValidatorCount_def)
  have "merkle_root (state_node C) (map (validator_leaf C) ?xs) = merkle_root (state_node C) (map (validator_leaf C) ?ys)"
    using assms(4) by (simp add: state_root_eq [OF assms(1)] state_root_eq [OF assms(2)] comp_def)
  then have "map (validator_leaf C) ?xs = map (validator_leaf C) ?ys"
    by (intro validator_node.merkle_root_binding [OF inj_on_subset [OF assms(5)]])
      (auto simp: state_root_strings_def len)
  then have hashes: "map (sha256 C) (map leaf_string ?xs) = map (sha256 C) (map leaf_string ?ys)"
    by (simp add: validator_leaf_string comp_def)
  have "map leaf_string ?xs = map leaf_string ?ys"
    by (rule map_inj_on [OF hashes], rule inj_on_subset [OF assms(5)]) (auto simp: state_root_strings_def)
  then have pairs: "list_all2 (\<lambda>k k'. k = k' \<and> committed (the (cn_validators cs k)) = committed (the (cn_validators cs' k')))
      (sort ks) (sort ks')"
    by (auto simp: leaf_string_inject list_all2_conv_all_nth map_equality_iff)
  then have same: "sort ks = sort ks'"
    by (auto simp: list_all2_conv_all_nth intro: nth_equalityI)
  then have sets: "set ks = set ks'"
    by (metis set_sort)
  show ?thesis
  proof (cases "a \<in> set ks")
    case True
    then obtain v w where vw: "cn_validators cs a = Some v" "cn_validators cs' a = Some w"
      using assms(1,2) sets unfolding iteration_of_def by blast
    from True have "a \<in> set (sort ks)" by simp
    then obtain i where "i < length (sort ks)" "sort ks ! i = a"
      unfolding in_set_conv_nth by blast
    with pairs same have "committed (the (cn_validators cs a)) = committed (the (cn_validators cs' a))"
      by (auto simp: list_all2_conv_all_nth)
    with vw show ?thesis by simp
  next
    case False
    with sets have "cn_validators cs a = None" "cn_validators cs' a = None"
      using assms(1,2) unfolding iteration_of_def by blast+
    then show ?thesis by simp
  qed
qed

theorem verified_proposer_active_witness:
  "\<exists>v. cn_validators two_validators 4 = Some v \<and> IsActive (cn_config two_validators) v"
proof -
  let ?b = "sample_block\<lparr>bl_Header := empty_header\<lparr>bh_Proposer := 4\<rparr>\<rparr>"
  let ?seed = "replicate 32 0 :: bytes"
  have vs: "sorted_active [9, 4] two_validators
      = [new_validator 4 12 0 [] True, new_validator 9 30 0 [] True]"
    "cn_validators two_validators 4 = Some (new_validator 4 12 0 [] True)"
    "length (getActiveValidatorsLocked [9, 4] two_validators) = 2"
    by (simp_all add: sorted_active_def getActiveValidatorsLocked_def range_values_def map_filter_def
        two_validators_def AddValidatorFromStake_def NewConsensusState_def IsActive_def new_validator_def)
  have s: "selectProposerAttemptLocked demo_crypto [9, 4] two_validators ?seed 0 0 = Inr 4"
    using selectProposer_result [of "[9, 4]" two_validators demo_crypto ?seed 0 0]
    by (simp add: vs(1) new_validator_def sortition_def demo_crypto_def)
  obtain res where res: "VerifyBlockProposer demo_crypto [9, 4] [9, 4] None 0 0 two_validators ?b None
      = (two_validators, res)" "pv_Valid res" "\<not> pv_Bootstrap res"
    by (simp add: VerifyBlockProposer_def Let_def vs(2,3) s empty_header_def no_result_def
        new_validator_def)
  have "bh_Proposer (bl_Header ?b) = 4"
    by simp
  with verified_proposer_active [OF res(1,2) two_validators_facts(1,2)] res(3) show ?thesis
    by auto
qed

end
