(* ===== verification/State_Channel.thy ===== *)
theory State_Channel
  imports Block
begin

text \<open>
  \<^verbatim>\<open>pkg/channel/state_channel.go\<close>: the channel manager. Every method holds the manager's mutex, so it is
  one atomic step; a method that returns an error leaves the manager as it was, so an operation
  returns the error or the new manager. The clock (nanoseconds, as in \<open>time_Unix\<close>), the random nonce,
  the signer and the \<^verbatim>\<open>MultiSigLocker\<close> the manager calls are arguments. The record \<open>HTLC\<close> of
  \<^verbatim>\<open>pkg/channel/htlc.go\<close> is declared here because a channel's state holds its HTLCs.
\<close>

section \<open>Data\<close>

record Channel =
  ch_ID :: hash
  ch_PartyA :: address
  ch_PartyB :: address
  ch_BalanceA :: u64
  ch_BalanceB :: u64
  ch_Sequence :: u64
  ch_StateHash :: hash
  ch_CreatedAt :: int
  ch_DisputeEnd :: "int option"

record SignedState =
  ss_ChannelID :: hash
  ss_Sequence :: u64
  ss_BalanceA :: u64
  ss_BalanceB :: u64
  ss_SigA :: bytes
  ss_SigB :: bytes
  ss_Timestamp :: int

datatype htlc_state = HTLCPending | HTLCCompleted | HTLCExpired

record HTLC =
  ht_ChannelID :: hash
  ht_ID :: hash
  ht_HashLock :: hash
  ht_TimeLock :: int
  ht_Amount :: u64
  ht_Sender :: address
  ht_Receiver :: address
  ht_Preimage :: bytes
  ht_State :: htlc_state
  ht_CreatedAt :: int
  ht_CompletedAt :: "int option"

datatype channel_status = StateOpen | StateClosing | StateClosed | StateInDispute

record ChannelState =
  cs_Status :: channel_status
  cs_LastUpdate :: int
  cs_PendingHTLCs :: "hash \<rightharpoonup> HTLC"
  cs_ReceivedNonce :: u64

record DisputeRecord =
  dr_ChannelID :: hash
  dr_Challenger :: address
  dr_ChallengedState :: SignedState
  dr_ChallengeStart :: int
  dr_ChallengeEnd :: int
  dr_Resolved :: bool
  dr_Winner :: address
  dr_Resolution :: string

text \<open>
  The two interfaces the manager calls: \<^verbatim>\<open>crypto.Signer\<close> (\<open>None\<close> is an error of \<^verbatim>\<open>Sign\<close>) and
  \<^verbatim>\<open>MultiSigLocker\<close>, of which the manager only uses whether a call succeeded.
\<close>

record signer =
  sg_PublicKey :: bytes
  sg_Sign :: "bytes \<Rightarrow> bytes option"

record locker =
  ml_CreateMultiSigOutput :: "address \<Rightarrow> address \<Rightarrow> u64 \<Rightarrow> UTXO option"
  ml_SpendMultiSig :: "UTXO \<Rightarrow> bytes \<Rightarrow> bytes \<Rightarrow> TXOutput list \<Rightarrow> bool"

record Manager =
  ma_channels :: "hash \<rightharpoonup> Channel"
  ma_states :: "hash \<rightharpoonup> ChannelState"
  ma_disputes :: "hash \<rightharpoonup> DisputeRecord"
  ma_signer :: "signer option"
  ma_challengePeriod :: int
  ma_minDeposit :: u64
  ma_maxChannelValue :: u64

record Config =
  cf_ChallengePeriod :: int
  cf_MinDeposit :: u64
  cf_MaxChannelValue :: u64
  cf_HasLocker :: bool

datatype channel_error =
    ErrChannelNotFound
  | ErrInvalidSignature
  | ErrInvalidSequence u64 u64
  | ErrInvalidBalance
  | ErrChannelClosed
  | ErrChannelInDispute
  | ErrInsufficientBalance
  | ErrDisputeTimeout
  | ErrInvalidState
  | ErrAlreadyExists
  | ChPanic
  | ChConfigRequired
  | ChLockerRequired
  | ChNonce
  | ChMultiSig
  | ChEvidence channel_error
  | ChNoDispute
  | ChAlreadyResolved
  | ChInvalidHonestParty
  | ChNoSigner
  | ChSignFailed
  | ChBothSigned
  | ChStatus channel_status
  | ChNoDisputeEnd
  | HtInvalid string
  | HtNotFound
  | HtNotPending htlc_state
  | HtBadPreimage
  | HtNotExpired

section \<open>Creation\<close>

definition NewManager :: "Config option \<Rightarrow> (channel_error, Manager) result" where
  "NewManager cfg =
     (case cfg of
        None \<Rightarrow> Inl ChConfigRequired
      | Some c \<Rightarrow>
          if \<not> cf_HasLocker c then Inl ChLockerRequired
          else Inr \<lparr>ma_channels = Map.empty, ma_states = Map.empty, ma_disputes = Map.empty,
                    ma_signer = None,
                    ma_challengePeriod = (if cf_ChallengePeriod c = 0 then 24 * 3600 * second
                                          else cf_ChallengePeriod c),
                    ma_minDeposit = cf_MinDeposit c, ma_maxChannelValue = cf_MaxChannelValue c\<rparr>)"

definition SetSigner :: "Manager \<Rightarrow> signer option \<Rightarrow> Manager" where
  "SetSigner m sg = m\<lparr>ma_signer := sg\<rparr>"

definition generateChannelID :: "crypto \<Rightarrow> address \<Rightarrow> address \<Rightarrow> u64 \<Rightarrow> hash" where
  "generateChannelID C partyA partyB nonce =
     sha256 C (hash_bytes partyA @ hash_bytes partyB @ put_u64_be nonce)"

definition computeStateHash :: "crypto \<Rightarrow> Channel \<Rightarrow> hash" where
  "computeStateHash C ch =
     sha256 C (hash_bytes (ch_ID ch) @ hash_bytes (ch_PartyA ch) @ hash_bytes (ch_PartyB ch)
               @ put_u64_be (ch_BalanceA ch) @ put_u64_be (ch_BalanceB ch) @ put_u64_be (ch_Sequence ch))"

text \<open>Only the lowest byte of the timestamp's Unix seconds is part of the signed bytes.\<close>

definition serializeState :: "SignedState \<Rightarrow> bytes" where
  "serializeState st =
     hash_bytes (ss_ChannelID st) @ put_u64_be (ss_Sequence st)
     @ put_u64_be (ss_BalanceA st) @ put_u64_be (ss_BalanceB st)
     @ [of_int (ss_Timestamp st div second - 62135596800)]"

definition put_channel :: "Manager \<Rightarrow> hash \<Rightarrow> Channel \<Rightarrow> ChannelState \<Rightarrow> Manager" where
  "put_channel m i ch st =
     m\<lparr>ma_channels := (ma_channels m)(i \<mapsto> ch), ma_states := (ma_states m)(i \<mapsto> st)\<rparr>"

text \<open>\<open>None\<close> for the nonce is a failure of the random source.\<close>

definition OpenChannel ::
  "crypto \<Rightarrow> locker \<Rightarrow> int \<Rightarrow> u64 option \<Rightarrow> Manager \<Rightarrow> address \<Rightarrow> address \<Rightarrow> u64 \<Rightarrow> u64
   \<Rightarrow> (channel_error, Manager \<times> Channel) result" where
  "OpenChannel C L now rnd m partyA partyB depositA depositB =
     (if depositA < ma_minDeposit m \<or> depositB < ma_minDeposit m then Inl ErrInvalidBalance
      else let totalValue = depositA + depositB in
        if totalValue > ma_maxChannelValue m then Inl ErrInvalidBalance
        else case rnd of
          None \<Rightarrow> Inl ChNonce
        | Some nonce \<Rightarrow>
            let channelID = generateChannelID C partyA partyB nonce in
            if ma_channels m channelID \<noteq> None then Inl ErrAlreadyExists
            else case ml_CreateMultiSigOutput L partyA partyB totalValue of
              None \<Rightarrow> Inl ChMultiSig
            | Some _ \<Rightarrow>
                let ch = \<lparr>ch_ID = channelID, ch_PartyA = partyA, ch_PartyB = partyB,
                          ch_BalanceA = depositA, ch_BalanceB = depositB, ch_Sequence = 0,
                          ch_StateHash = 0, ch_CreatedAt = now, ch_DisputeEnd = None\<rparr>;
                    ch = ch\<lparr>ch_StateHash := computeStateHash C ch\<rparr>;
                    st = \<lparr>cs_Status = StateOpen, cs_LastUpdate = now,
                          cs_PendingHTLCs = Map.empty, cs_ReceivedNonce = 0\<rparr>
                in Inr (put_channel m channelID ch st, ch))"

section \<open>State updates\<close>

definition verify_party :: "crypto \<Rightarrow> address \<Rightarrow> bytes \<Rightarrow> bytes \<Rightarrow> (channel_error, unit) result" where
  "verify_party C party stateData sig =
     (if length sig \<noteq> 64 then Inl ErrInvalidSignature
      else case ed25519_Verify C (hash_bytes party) stateData sig of
        None \<Rightarrow> Inl ChPanic
      | Some ok \<Rightarrow> if \<not> ok then Inl ErrInvalidSignature else Inr ())"

definition verifySignatures :: "crypto \<Rightarrow> Channel \<Rightarrow> SignedState \<Rightarrow> (channel_error, unit) result" where
  "verifySignatures C ch st =
     (let stateData = serializeState st in
      rbind (verify_party C (ch_PartyA ch) stateData (ss_SigA st))
        (\<lambda>_. verify_party C (ch_PartyB ch) stateData (ss_SigB st)))"

text \<open>
  The lookup every operation starts with. The entry of \<^verbatim>\<open>m.states\<close> is dereferenced without a check,
  so a missing one is a panic.
\<close>

definition lookup_channel :: "Manager \<Rightarrow> hash \<Rightarrow> (channel_error, Channel \<times> ChannelState) result" where
  "lookup_channel m i =
     (case ma_channels m i of
        None \<Rightarrow> Inl ErrChannelNotFound
      | Some ch \<Rightarrow> (case ma_states m i of None \<Rightarrow> Inl ChPanic | Some st \<Rightarrow> Inr (ch, st)))"

definition UpdateState ::
  "crypto \<Rightarrow> int \<Rightarrow> Manager \<Rightarrow> hash \<Rightarrow> SignedState \<Rightarrow> (channel_error, Manager \<times> SignedState) result" where
  "UpdateState C now m chID newState =
     rbind (lookup_channel m chID) (\<lambda>(channel, state).
       if cs_Status state = StateClosed then Inl ErrChannelClosed
       else if cs_Status state = StateInDispute then Inl ErrChannelInDispute
       else if ss_ChannelID newState \<noteq> chID then Inl ErrInvalidState
       else if ss_Sequence newState \<le> ch_Sequence channel
       then Inl (ErrInvalidSequence (ss_Sequence newState) (ch_Sequence channel))
       else rbind (verifySignatures C channel newState) (\<lambda>_.
         let oldTotal = ch_BalanceA channel + ch_BalanceB channel;
             newTotal = ss_BalanceA newState + ss_BalanceB newState
         in if newTotal \<noteq> oldTotal then Inl ErrInvalidBalance
            else let channel = channel\<lparr>ch_BalanceA := ss_BalanceA newState,
                                       ch_BalanceB := ss_BalanceB newState,
                                       ch_Sequence := ss_Sequence newState\<rparr>;
                     channel = channel\<lparr>ch_StateHash := computeStateHash C channel\<rparr>
                 in Inr (put_channel m chID channel (state\<lparr>cs_LastUpdate := now\<rparr>), newState)))"

definition CloseChannel ::
  "crypto \<Rightarrow> locker \<Rightarrow> Manager \<Rightarrow> hash \<Rightarrow> SignedState \<Rightarrow> (channel_error, Manager) result" where
  "CloseChannel C L m chID finalState =
     rbind (lookup_channel m chID) (\<lambda>(channel, state).
       if cs_Status state = StateClosed then Inl ErrChannelClosed
       else if ss_ChannelID finalState \<noteq> chID then Inl ErrInvalidState
       else rbind (verifySignatures C channel finalState) (\<lambda>_.
         let oldTotal = ch_BalanceA channel + ch_BalanceB channel;
             newTotal = ss_BalanceA finalState + ss_BalanceB finalState
         in if newTotal \<noteq> oldTotal then Inl ErrInvalidBalance
            else let outputs = [\<lparr>to_Value = ss_BalanceA finalState, to_Script = [], to_Address = ch_PartyA channel\<rparr>,
                                \<lparr>to_Value = ss_BalanceB finalState, to_Script = [], to_Address = ch_PartyB channel\<rparr>];
                     utxo = \<lparr>u_TxHash = ch_StateHash channel, u_Index = 0, u_Value = oldTotal,
                             u_Script = [], u_Address = ch_PartyA channel\<rparr>
                 in if \<not> ml_SpendMultiSig L utxo (ss_SigA finalState) (ss_SigB finalState) outputs
                    then Inl ChMultiSig
                    else Inr (put_channel m chID
                           (channel\<lparr>ch_BalanceA := ss_BalanceA finalState,
                                    ch_BalanceB := ss_BalanceB finalState,
                                    ch_Sequence := ss_Sequence finalState\<rparr>)
                           (state\<lparr>cs_Status := StateClosed\<rparr>))))"

section \<open>Disputes\<close>

definition getCurrentAddress :: "Manager \<Rightarrow> address" where
  "getCurrentAddress m =
     (case ma_signer m of
        None \<Rightarrow> 0
      | Some sg \<Rightarrow>
          if length (sg_PublicKey sg) \<ge> 32 then hash_of_bytes (take 32 (sg_PublicKey sg)) else 0)"

definition Dispute ::
  "crypto \<Rightarrow> int \<Rightarrow> Manager \<Rightarrow> hash \<Rightarrow> SignedState \<Rightarrow> (channel_error, Manager) result" where
  "Dispute C now m chID evidence =
     rbind (lookup_channel m chID) (\<lambda>(channel, state).
       if cs_Status state = StateClosed then Inl ErrChannelClosed
       else if cs_Status state = StateInDispute then Inl ErrChannelInDispute
       else case verifySignatures C channel evidence of
         Inl e \<Rightarrow> Inl (ChEvidence e)
       | Inr _ \<Rightarrow>
           if ss_Sequence evidence \<le> ch_Sequence channel
           then Inl (ErrInvalidSequence (ss_Sequence evidence) (ch_Sequence channel))
           else let challengeEnd = now + ma_challengePeriod m;
                    dispute = \<lparr>dr_ChannelID = chID, dr_Challenger = getCurrentAddress m,
                               dr_ChallengedState = evidence, dr_ChallengeStart = now,
                               dr_ChallengeEnd = challengeEnd, dr_Resolved = False,
                               dr_Winner = 0, dr_Resolution = []\<rparr>
                in Inr ((put_channel m chID (channel\<lparr>ch_DisputeEnd := Some challengeEnd\<rparr>)
                           (state\<lparr>cs_Status := StateInDispute\<rparr>))
                        \<lparr>ma_disputes := (ma_disputes m)(chID \<mapsto> dispute)\<rparr>))"

definition ResolveDispute :: "int \<Rightarrow> Manager \<Rightarrow> hash \<Rightarrow> address \<Rightarrow> (channel_error, Manager) result" where
  "ResolveDispute now m chID honestParty =
     (case ma_disputes m chID of
        None \<Rightarrow> Inl ChNoDispute
      | Some dispute \<Rightarrow>
          if dr_Resolved dispute then Inl ChAlreadyResolved
          else if now < dr_ChallengeEnd dispute then Inl ErrDisputeTimeout
          else rbind (lookup_channel m chID) (\<lambda>(channel, state).
            let close = (\<lambda>channel.
                  Inr ((put_channel m chID channel (state\<lparr>cs_Status := StateClosed\<rparr>))
                       \<lparr>ma_disputes := (ma_disputes m)(chID \<mapsto>
                          dispute\<lparr>dr_Resolved := True, dr_Winner := honestParty,
                                  dr_Resolution := ''Penalty applied to dishonest party''\<rparr>)\<rparr>))
            in if honestParty = ch_PartyA channel
               then close (channel\<lparr>ch_BalanceA := ch_BalanceA channel + ch_BalanceB channel,
                                   ch_BalanceB := 0\<rparr>)
               else if honestParty = ch_PartyB channel
               then close (channel\<lparr>ch_BalanceB := ch_BalanceB channel + ch_BalanceA channel,
                                   ch_BalanceA := 0\<rparr>)
               else Inl ChInvalidHonestParty))"

section \<open>Queries\<close>

definition GetChannelState :: "Manager \<Rightarrow> hash \<Rightarrow> (channel_error, Channel) result" where
  "GetChannelState m i =
     (case ma_channels m i of None \<Rightarrow> Inl ErrChannelNotFound | Some ch \<Rightarrow> Inr ch)"

definition GetChannelStatus :: "Manager \<Rightarrow> hash \<Rightarrow> (channel_error, channel_status) result" where
  "GetChannelStatus m i =
     (case ma_states m i of None \<Rightarrow> Inl ErrChannelNotFound | Some st \<Rightarrow> Inr (cs_Status st))"

definition GetDispute :: "Manager \<Rightarrow> hash \<Rightarrow> (channel_error, DisputeRecord) result" where
  "GetDispute m i = (case ma_disputes m i of None \<Rightarrow> Inl ChNoDispute | Some d \<Rightarrow> Inr d)"

definition ListChannels :: "hash list \<Rightarrow> Manager \<Rightarrow> Channel list" where
  "ListChannels ks m = range_values ks (ma_channels m)"

section \<open>Signing\<close>

definition CreateSignedState :: "int \<Rightarrow> Manager \<Rightarrow> hash \<Rightarrow> (channel_error, SignedState) result" where
  "CreateSignedState now m chID =
     (case ma_signer m of
        None \<Rightarrow> Inl ChNoSigner
      | Some sg \<Rightarrow>
          (case ma_channels m chID of
             None \<Rightarrow> Inl ErrChannelNotFound
           | Some channel \<Rightarrow>
               let state = \<lparr>ss_ChannelID = ch_ID channel, ss_Sequence = ch_Sequence channel,
                            ss_BalanceA = ch_BalanceA channel, ss_BalanceB = ch_BalanceB channel,
                            ss_SigA = [], ss_SigB = [], ss_Timestamp = now\<rparr>
               in case sg_Sign sg (serializeState state) of
                    None \<Rightarrow> Inl ChSignFailed
                  | Some sig \<Rightarrow>
                      if length (sg_PublicKey sg) \<ge> 32
                      then let ourAddr = hash_of_bytes (take 32 (sg_PublicKey sg)) in
                        if ourAddr = ch_PartyA channel then Inr (state\<lparr>ss_SigA := sig\<rparr>)
                        else if ourAddr = ch_PartyB channel then Inr (state\<lparr>ss_SigB := sig\<rparr>)
                        else Inr state
                      else Inr state))"

definition AddCounterpartySignature ::
  "crypto \<Rightarrow> Manager \<Rightarrow> SignedState \<Rightarrow> bytes \<Rightarrow> (channel_error, SignedState) result" where
  "AddCounterpartySignature C m state sig =
     (case ma_channels m (ss_ChannelID state) of
        None \<Rightarrow> Inl ErrChannelNotFound
      | Some channel \<Rightarrow>
          let stateData = serializeState state in
          if length (ss_SigA state) = 0
          then (case ed25519_Verify C (hash_bytes (ch_PartyA channel)) stateData sig of
                  None \<Rightarrow> Inl ChPanic
                | Some ok \<Rightarrow> if \<not> ok then Inl ErrInvalidSignature else Inr (state\<lparr>ss_SigA := sig\<rparr>))
          else if length (ss_SigB state) = 0
          then (case ed25519_Verify C (hash_bytes (ch_PartyB channel)) stateData sig of
                  None \<Rightarrow> Inl ChPanic
                | Some ok \<Rightarrow> if \<not> ok then Inl ErrInvalidSignature else Inr (state\<lparr>ss_SigB := sig\<rparr>))
          else Inl ChBothSigned)"

section \<open>Transfers and unilateral close\<close>

definition move_balance :: "Channel \<Rightarrow> u64 \<Rightarrow> bool \<Rightarrow> (channel_error, Channel) result" where
  "move_balance channel amount fromPartyA =
     (if fromPartyA
      then if ch_BalanceA channel < amount then Inl ErrInsufficientBalance
           else Inr (channel\<lparr>ch_BalanceA := ch_BalanceA channel - amount,
                             ch_BalanceB := ch_BalanceB channel + amount\<rparr>)
      else if ch_BalanceB channel < amount then Inl ErrInsufficientBalance
           else Inr (channel\<lparr>ch_BalanceB := ch_BalanceB channel - amount,
                             ch_BalanceA := ch_BalanceA channel + amount\<rparr>))"

definition Transfer ::
  "crypto \<Rightarrow> int \<Rightarrow> Manager \<Rightarrow> hash \<Rightarrow> u64 \<Rightarrow> bool \<Rightarrow> (channel_error, Manager \<times> SignedState) result" where
  "Transfer C now m chID amount fromPartyA =
     rbind (lookup_channel m chID) (\<lambda>(channel, state).
       if cs_Status state \<noteq> StateOpen then Inl (ChStatus (cs_Status state))
       else rbind (move_balance channel amount fromPartyA) (\<lambda>channel.
         let channel = channel\<lparr>ch_Sequence := ch_Sequence channel + 1\<rparr>;
             channel = channel\<lparr>ch_StateHash := computeStateHash C channel\<rparr>
         in Inr (put_channel m chID channel (state\<lparr>cs_LastUpdate := now\<rparr>),
                 \<lparr>ss_ChannelID = ch_ID channel, ss_Sequence = ch_Sequence channel,
                  ss_BalanceA = ch_BalanceA channel, ss_BalanceB = ch_BalanceB channel,
                  ss_SigA = [], ss_SigB = [], ss_Timestamp = now\<rparr>)))"

definition ForceClose ::
  "crypto \<Rightarrow> int \<Rightarrow> Manager \<Rightarrow> hash \<Rightarrow> SignedState \<Rightarrow> (channel_error, Manager) result" where
  "ForceClose C now m chID latestState =
     rbind (lookup_channel m chID) (\<lambda>(channel, state).
       if cs_Status state \<noteq> StateOpen then Inl (ChStatus (cs_Status state))
       else rbind (verifySignatures C channel latestState) (\<lambda>_.
         if ss_ChannelID latestState \<noteq> chID then Inl ErrInvalidState
         else Inr (put_channel m chID (channel\<lparr>ch_DisputeEnd := Some (now + ma_challengePeriod m)\<rparr>)
                     (state\<lparr>cs_Status := StateClosing\<rparr>))))"

definition FinalizeClose :: "int \<Rightarrow> Manager \<Rightarrow> hash \<Rightarrow> (channel_error, Manager) result" where
  "FinalizeClose now m chID =
     rbind (lookup_channel m chID) (\<lambda>(channel, state).
       if cs_Status state \<noteq> StateClosing then Inl (ChStatus (cs_Status state))
       else case ch_DisputeEnd channel of
         None \<Rightarrow> Inl ChNoDisputeEnd
       | Some deadline \<Rightarrow>
           if now < deadline then Inl ErrDisputeTimeout
           else Inr (put_channel m chID channel (state\<lparr>cs_Status := StateClosed\<rparr>)))"

end
