(* ===== verification/HTLC_Manager.thy ===== *)
theory HTLC_Manager
  imports State_Channel
begin

text \<open>
  \<^verbatim>\<open>pkg/channel/htlc.go\<close>: hash time-locked contracts inside the channels of the manager, routes of such
  contracts, atomic swaps built from two of them, and the separate manager of atomic swaps. The
  clock readings, random nonces and map iteration orders a method uses are arguments. A method that
  may fail after it has changed the manager returns the manager together with its result.
\<close>

section \<open>Contracts\<close>

definition generateHTLCID :: "crypto \<Rightarrow> u64 option \<Rightarrow> hash \<Rightarrow> hash \<Rightarrow> u64 \<Rightarrow> (channel_error, hash) result" where
  "generateHTLCID C rnd channelID hashLock amount =
     (case rnd of
        None \<Rightarrow> Inl ChNonce
      | Some nonce \<Rightarrow>
          Inr (sha256 C (hash_bytes channelID @ hash_bytes hashLock @ put_u64_be amount @ put_u64_be nonce)))"

text \<open>\<^verbatim>\<open>IsZero\<close> holds of the first instant of year one only.\<close>

definition NewHTLC ::
  "crypto \<Rightarrow> int \<Rightarrow> int \<Rightarrow> u64 option \<Rightarrow> hash \<Rightarrow> hash \<Rightarrow> int \<Rightarrow> u64 \<Rightarrow> address \<Rightarrow> address
   \<Rightarrow> (channel_error, HTLC) result" where
  "NewHTLC C now created rnd channelID hashLock timeLock amount sender receiver =
     (if amount = 0 then Inl (HtInvalid ''amount'')
      else if timeLock = 0 then Inl (HtInvalid ''time lock unset'')
      else if now > timeLock then Inl (HtInvalid ''time lock in the past'')
      else rbind (generateHTLCID C rnd channelID hashLock amount) (\<lambda>htlcID.
        Inr \<lparr>ht_ChannelID = channelID, ht_ID = htlcID, ht_HashLock = hashLock, ht_TimeLock = timeLock,
             ht_Amount = amount, ht_Sender = sender, ht_Receiver = receiver, ht_Preimage = [],
             ht_State = HTLCPending, ht_CreatedAt = created, ht_CompletedAt = None\<rparr>))"

definition GenerateHashLock :: "crypto \<Rightarrow> bytes \<Rightarrow> (channel_error, hash) result" where
  "GenerateHashLock C preimage =
     (if length preimage = 0 then Inl (HtInvalid ''preimage'') else Inr (sha256 C preimage))"

definition NewRandomHashLock :: "crypto \<Rightarrow> bytes option \<Rightarrow> (channel_error, hash \<times> bytes) result" where
  "NewRandomHashLock C rnd =
     (case rnd of None \<Rightarrow> Inl ChNonce | Some preimage \<Rightarrow> Inr (sha256 C preimage, preimage))"

text \<open>
  The balance less what the party has offered. The subtraction wraps, and the test \<^verbatim>\<open>available < 0\<close> on
  an unsigned integer is never true.
\<close>

definition getAvailableBalance :: "hash list \<Rightarrow> Channel \<Rightarrow> ChannelState \<Rightarrow> address \<Rightarrow> u64" where
  "getAvailableBalance hs channel state addr =
     (if addr = ch_PartyA channel
      then foldl (\<lambda>available h. if ht_Sender h = ch_PartyA channel then available - ht_Amount h else available)
             (ch_BalanceA channel) (range_values hs (cs_PendingHTLCs state))
      else if addr = ch_PartyB channel
      then foldl (\<lambda>available h. if ht_Sender h = ch_PartyB channel then available - ht_Amount h else available)
             (ch_BalanceB channel) (range_values hs (cs_PendingHTLCs state))
      else 0)"

definition lookup_open :: "Manager \<Rightarrow> hash \<Rightarrow> (channel_error, Channel \<times> ChannelState) result" where
  "lookup_open m i =
     (case ma_channels m i of
        None \<Rightarrow> Inl ErrChannelNotFound
      | Some ch \<Rightarrow>
          (case ma_states m i of None \<Rightarrow> Inl ErrChannelNotFound | Some st \<Rightarrow> Inr (ch, st)))"

definition AddHTLC :: "hash list \<Rightarrow> Manager \<Rightarrow> hash \<Rightarrow> HTLC \<Rightarrow> (channel_error, Manager) result" where
  "AddHTLC hs m channelID htlc =
     rbind (lookup_open m channelID) (\<lambda>(channel, state).
       if cs_Status state \<noteq> StateOpen then Inl (ChStatus (cs_Status state))
       else if ht_ChannelID htlc \<noteq> channelID then Inl (HtInvalid ''channel'')
       else if ht_Sender htlc \<noteq> ch_PartyA channel \<and> ht_Sender htlc \<noteq> ch_PartyB channel
       then Inl (HtInvalid ''sender'')
       else if ht_Receiver htlc \<noteq> ch_PartyA channel \<and> ht_Receiver htlc \<noteq> ch_PartyB channel
       then Inl (HtInvalid ''receiver'')
       else if ht_Sender htlc = ht_Receiver htlc then Inl (HtInvalid ''same party'')
       else if cs_PendingHTLCs state (ht_ID htlc) \<noteq> None then Inl (HtInvalid ''exists'')
       else if ht_Amount htlc > getAvailableBalance hs channel state (ht_Sender htlc)
       then Inl ErrInsufficientBalance
       else Inr (m\<lparr>ma_states := (ma_states m)(channelID \<mapsto>
              state\<lparr>cs_PendingHTLCs := (cs_PendingHTLCs state)(ht_ID htlc \<mapsto> htlc)\<rparr>)\<rparr>))"

definition GetHTLC :: "Manager \<Rightarrow> hash \<Rightarrow> hash \<Rightarrow> (channel_error, HTLC) result" where
  "GetHTLC m channelID htlcID =
     (case ma_states m channelID of
        None \<Rightarrow> Inl ErrChannelNotFound
      | Some state \<Rightarrow>
          (case cs_PendingHTLCs state htlcID of None \<Rightarrow> Inl HtNotFound | Some h \<Rightarrow> Inr h))"

definition GetHTLCs :: "hash list \<Rightarrow> Manager \<Rightarrow> hash \<Rightarrow> (channel_error, HTLC list) result" where
  "GetHTLCs hs m channelID =
     (case ma_states m channelID of
        None \<Rightarrow> Inl ErrChannelNotFound
      | Some state \<Rightarrow> Inr (range_values hs (cs_PendingHTLCs state)))"

definition settle_htlc :: "Channel \<Rightarrow> HTLC \<Rightarrow> Channel" where
  "settle_htlc channel htlc =
     (if ht_Sender htlc = ch_PartyA channel \<and> ht_Receiver htlc = ch_PartyB channel
      then channel\<lparr>ch_BalanceA := ch_BalanceA channel - ht_Amount htlc,
                   ch_BalanceB := ch_BalanceB channel + ht_Amount htlc\<rparr>
      else if ht_Sender htlc = ch_PartyB channel \<and> ht_Receiver htlc = ch_PartyA channel
      then channel\<lparr>ch_BalanceB := ch_BalanceB channel - ht_Amount htlc,
                   ch_BalanceA := ch_BalanceA channel + ht_Amount htlc\<rparr>
      else channel)"

definition CompleteHTLC ::
  "crypto \<Rightarrow> int \<Rightarrow> Manager \<Rightarrow> hash \<Rightarrow> hash \<Rightarrow> bytes \<Rightarrow> (channel_error, Manager) result" where
  "CompleteHTLC C now m channelID htlcID preimage =
     rbind (lookup_open m channelID) (\<lambda>(channel, state).
       case cs_PendingHTLCs state htlcID of
         None \<Rightarrow> Inl HtNotFound
       | Some htlc \<Rightarrow>
           if ht_State htlc \<noteq> HTLCPending then Inl (HtNotPending (ht_State htlc))
           else if sha256 C preimage \<noteq> ht_HashLock htlc then Inl HtBadPreimage
           else let channel = settle_htlc channel htlc;
                    channel = channel\<lparr>ch_Sequence := ch_Sequence channel + 1\<rparr>;
                    htlc = htlc\<lparr>ht_State := HTLCCompleted, ht_Preimage := preimage,
                                ht_CompletedAt := Some now\<rparr>;
                    channel = channel\<lparr>ch_StateHash := computeStateHash C channel\<rparr>
                in Inr (put_channel m channelID channel
                     (state\<lparr>cs_LastUpdate := now,
                            cs_PendingHTLCs := (cs_PendingHTLCs state)(htlcID \<mapsto> htlc)\<rparr>)))"

definition update_htlcs :: "Manager \<Rightarrow> hash \<Rightarrow> ChannelState \<Rightarrow> (hash \<rightharpoonup> HTLC) \<Rightarrow> Manager" where
  "update_htlcs m channelID state hts =
     m\<lparr>ma_states := (ma_states m)(channelID \<mapsto> state\<lparr>cs_PendingHTLCs := hts\<rparr>)\<rparr>"

definition ExpireHTLC :: "int \<Rightarrow> Manager \<Rightarrow> hash \<Rightarrow> hash \<Rightarrow> (channel_error, Manager) result" where
  "ExpireHTLC now m channelID htlcID =
     (case ma_states m channelID of
        None \<Rightarrow> Inl ErrChannelNotFound
      | Some state \<Rightarrow>
          (case cs_PendingHTLCs state htlcID of
             None \<Rightarrow> Inl HtNotFound
           | Some htlc \<Rightarrow>
               if ht_State htlc \<noteq> HTLCPending then Inl (HtNotPending (ht_State htlc))
               else if now < ht_TimeLock htlc then Inl HtNotExpired
               else Inr (update_htlcs m channelID state
                      ((cs_PendingHTLCs state)(htlcID \<mapsto>
                         htlc\<lparr>ht_State := HTLCExpired, ht_CompletedAt := Some now\<rparr>)))))"

definition RemoveHTLC :: "Manager \<Rightarrow> hash \<Rightarrow> hash \<Rightarrow> (channel_error, Manager) result" where
  "RemoveHTLC m channelID htlcID =
     (case ma_states m channelID of
        None \<Rightarrow> Inl ErrChannelNotFound
      | Some state \<Rightarrow>
          Inr (update_htlcs m channelID state ((cs_PendingHTLCs state)(htlcID := None))))"

definition settle_expired ::
  "int \<Rightarrow> (hash \<rightharpoonup> HTLC) \<times> HTLC list \<Rightarrow> hash \<Rightarrow> (hash \<rightharpoonup> HTLC) \<times> HTLC list" where
  "settle_expired now acc k =
     (let (hts, expired) = acc in
      case hts k of
        None \<Rightarrow> (hts, expired)
      | Some htlc \<Rightarrow>
          if ht_State htlc = HTLCPending \<and> now > ht_TimeLock htlc
          then let htlc = htlc\<lparr>ht_State := HTLCExpired, ht_CompletedAt := Some now\<rparr>
               in (hts(k \<mapsto> htlc), expired @ [htlc])
          else (hts, expired))"

definition SettleExpiredHTLCs ::
  "hash list \<Rightarrow> int \<Rightarrow> Manager \<Rightarrow> hash \<Rightarrow> (channel_error, Manager \<times> HTLC list) result" where
  "SettleExpiredHTLCs hs now m channelID =
     (case ma_states m channelID of
        None \<Rightarrow> Inl ErrChannelNotFound
      | Some state \<Rightarrow>
          let (hts, expired) = foldl (settle_expired now) (cs_PendingHTLCs state, []) hs
          in Inr (update_htlcs m channelID state hts, expired))"

definition CountHTLCs :: "Manager \<Rightarrow> hash \<Rightarrow> (channel_error, nat) result" where
  "CountHTLCs m channelID =
     (case ma_states m channelID of
        None \<Rightarrow> Inl ErrChannelNotFound
      | Some state \<Rightarrow> Inr (map_len (cs_PendingHTLCs state)))"

definition GetTotalHTLCAmount :: "hash list \<Rightarrow> Manager \<Rightarrow> hash \<Rightarrow> (channel_error, u64) result" where
  "GetTotalHTLCAmount hs m channelID =
     rbind (GetHTLCs hs m channelID) (\<lambda>htlcs. Inr (foldl (\<lambda>tot h. tot + ht_Amount h) 0 htlcs))"

definition GetHTLCsBySender ::
  "hash list \<Rightarrow> Manager \<Rightarrow> hash \<Rightarrow> address \<Rightarrow> (channel_error, HTLC list) result" where
  "GetHTLCsBySender hs m channelID sender =
     rbind (GetHTLCs hs m channelID) (\<lambda>htlcs. Inr (filter (\<lambda>h. ht_Sender h = sender) htlcs))"

definition GetHTLCsByReceiver ::
  "hash list \<Rightarrow> Manager \<Rightarrow> hash \<Rightarrow> address \<Rightarrow> (channel_error, HTLC list) result" where
  "GetHTLCsByReceiver hs m channelID receiver =
     rbind (GetHTLCs hs m channelID) (\<lambda>htlcs. Inr (filter (\<lambda>h. ht_Receiver h = receiver) htlcs))"

definition CheckHTLCExpiration :: "int \<Rightarrow> Manager \<Rightarrow> hash \<Rightarrow> hash \<Rightarrow> (channel_error, bool) result" where
  "CheckHTLCExpiration now m channelID htlcID =
     rbind (GetHTLC m channelID htlcID) (\<lambda>htlc. Inr (now > ht_TimeLock htlc))"

section \<open>Routes\<close>

text \<open>What one hop reads from outside: map orders, clock readings and a random nonce.\<close>

record hop_env =
  he_channels :: "hash list"
  he_htlcs :: "hash list"
  he_now :: int
  he_created :: int
  he_nonce :: "u64 option"
  he_check :: int

definition find_channel :: "hash list \<Rightarrow> Manager \<Rightarrow> address \<Rightarrow> address \<Rightarrow> Channel option" where
  "find_channel ks m sender receiver =
     List.find (\<lambda>ch. ch_PartyA ch = sender \<and> ch_PartyB ch = receiver
                   \<or> ch_PartyA ch = receiver \<and> ch_PartyB ch = sender)
       (range_values ks (ma_channels m))"

definition remove_all :: "Manager \<Rightarrow> HTLC list \<Rightarrow> Manager" where
  "remove_all m htlcs =
     foldl (\<lambda>m h. case RemoveHTLC m (ht_ChannelID h) (ht_ID h) of Inl _ \<Rightarrow> m | Inr m' \<Rightarrow> m') m htlcs"

fun route_hops ::
  "crypto \<Rightarrow> (nat \<Rightarrow> hop_env) \<Rightarrow> u64 \<Rightarrow> hash \<Rightarrow> int \<Rightarrow> nat \<Rightarrow> address list \<Rightarrow> int \<Rightarrow> HTLC list \<Rightarrow> Manager
   \<Rightarrow> Manager \<times> (channel_error, HTLC list) result" where
  "route_hops C env amount hashLock hopExpiry i (sender # receiver # rest) timeLock htlcs m =
     (let e = env i in
      case find_channel (he_channels e) m sender receiver of
        None \<Rightarrow> (m, Inl ErrChannelNotFound)
      | Some channel \<Rightarrow>
          (case NewHTLC C (he_now e) (he_created e) (he_nonce e) (ch_ID channel) hashLock timeLock amount
                  sender receiver of
             Inl err \<Rightarrow> (m, Inl err)
           | Inr htlc \<Rightarrow>
               (case AddHTLC (he_htlcs e) m (ch_ID channel) htlc of
                  Inl err \<Rightarrow> (m, Inl err)
                | Inr m \<Rightarrow>
                    let htlcs = htlcs @ [htlc]; timeLock = timeLock - hopExpiry in
                    if timeLock < he_check e
                    then (remove_all m htlcs, Inl (HtInvalid ''intermediate hop in the past''))
                    else route_hops C env amount hashLock hopExpiry (Suc i) (receiver # rest) timeLock
                           htlcs m)))"
| "route_hops C env amount hashLock hopExpiry i _ timeLock htlcs m = (m, Inr htlcs)"

definition RouteHTLC ::
  "crypto \<Rightarrow> (nat \<Rightarrow> hop_env) \<Rightarrow> Manager \<Rightarrow> address list \<Rightarrow> u64 \<Rightarrow> hash \<Rightarrow> int \<Rightarrow> int
   \<Rightarrow> Manager \<times> (channel_error, HTLC list) result" where
  "RouteHTLC C env m route amount hashLock finalTimeLock hopExpiry =
     (if length route < 2 then (m, Inl (HtInvalid ''route''))
      else route_hops C env amount hashLock hopExpiry 0 route finalTimeLock [] m)"

definition RoutePayment ::
  "crypto \<Rightarrow> (nat \<Rightarrow> hop_env) \<Rightarrow> int \<Rightarrow> Manager \<Rightarrow> address list \<Rightarrow> u64 \<Rightarrow> bytes \<Rightarrow> int
   \<Rightarrow> Manager \<times> (channel_error, HTLC list) result" where
  "RoutePayment C env now m route amount preimage expiry =
     RouteHTLC C env m route amount (sha256 C preimage) (now + expiry) (3600 * second)"

text \<open>\<^verbatim>\<open>ExpireHTLC\<close> with its error ignored.\<close>

definition try_expire :: "int \<Rightarrow> Manager \<Rightarrow> HTLC \<Rightarrow> Manager" where
  "try_expire now m h =
     (case ExpireHTLC now m (ht_ChannelID h) (ht_ID h) of Inl _ \<Rightarrow> m | Inr m' \<Rightarrow> m')"

text \<open>
  The contracts of a route are separate objects compared as pointers, so the failing one is skipped
  by its position.
\<close>

fun complete_route ::
  "crypto \<Rightarrow> (nat \<Rightarrow> int) \<Rightarrow> bytes \<Rightarrow> HTLC list \<Rightarrow> nat \<Rightarrow> HTLC list \<Rightarrow> Manager
   \<Rightarrow> Manager \<times> (channel_error, unit) result" where
  "complete_route C now preimage htlcs i [] m = (m, Inr ())"
| "complete_route C now preimage htlcs i (h # rest) m =
     (case CompleteHTLC C (now i) m (ht_ChannelID h) (ht_ID h) preimage of
        Inl err \<Rightarrow> (foldl (try_expire (now i)) m (take i htlcs @ drop (Suc i) htlcs), Inl err)
      | Inr m' \<Rightarrow> complete_route C now preimage htlcs (Suc i) rest m')"

definition CompleteRouteHTLC ::
  "crypto \<Rightarrow> (nat \<Rightarrow> int) \<Rightarrow> Manager \<Rightarrow> HTLC list \<Rightarrow> bytes \<Rightarrow> Manager \<times> (channel_error, unit) result" where
  "CompleteRouteHTLC C now m htlcs preimage = complete_route C now preimage htlcs 0 htlcs m"

definition ExpireRouteHTLC :: "int \<Rightarrow> Manager \<Rightarrow> HTLC list \<Rightarrow> Manager" where
  "ExpireRouteHTLC now m htlcs = foldl (try_expire now) m htlcs"

section \<open>Atomic swaps between two channels\<close>

definition find_party :: "hash list \<Rightarrow> Manager \<Rightarrow> address \<Rightarrow> Channel option" where
  "find_party ks m party =
     List.find (\<lambda>ch. ch_PartyA ch = party \<or> ch_PartyB ch = party) (range_values ks (ma_channels m))"

definition CreateAtomicSwap ::
  "crypto \<Rightarrow> hop_env \<Rightarrow> hop_env \<Rightarrow> Manager \<Rightarrow> address \<Rightarrow> address \<Rightarrow> u64 \<Rightarrow> u64 \<Rightarrow> hash \<Rightarrow> int
   \<Rightarrow> Manager \<times> (channel_error, HTLC \<times> HTLC) result" where
  "CreateAtomicSwap C ea eb m sourceParty destinationParty amountA amountB hashLock timeLock =
     (case find_party (he_channels ea) m sourceParty of
        None \<Rightarrow> (m, Inl ErrChannelNotFound)
      | Some source \<Rightarrow>
        (case find_party (he_channels eb) m destinationParty of
           None \<Rightarrow> (m, Inl ErrChannelNotFound)
         | Some dest \<Rightarrow>
           (case (NewHTLC C (he_now ea) (he_created ea) (he_nonce ea) (ch_ID source) hashLock timeLock
                    amountA sourceParty destinationParty) of
              Inl err \<Rightarrow> (m, Inl err)
            | Inr htlcA \<Rightarrow>
              (case (NewHTLC C (he_now eb) (he_created eb) (he_nonce eb) (ch_ID dest) hashLock timeLock
                       amountB destinationParty sourceParty) of
                 Inl err \<Rightarrow> (m, Inl err)
               | Inr htlcB \<Rightarrow>
                 (case AddHTLC (he_htlcs ea) m (ch_ID source) htlcA of
                    Inl err \<Rightarrow> (m, Inl err)
                  | Inr m1 \<Rightarrow>
                    (case AddHTLC (he_htlcs eb) m1 (ch_ID dest) htlcB of
                       Inl err \<Rightarrow> (remove_all m1 [htlcA], Inl err)
                     | Inr m2 \<Rightarrow> (m2, Inr (htlcA, htlcB))))))))"

definition CompleteAtomicSwap ::
  "crypto \<Rightarrow> int \<Rightarrow> Manager \<Rightarrow> HTLC \<Rightarrow> HTLC \<Rightarrow> bytes \<Rightarrow> Manager \<times> (channel_error, unit) result" where
  "CompleteAtomicSwap C now m htlcA htlcB preimage =
     (let r1 = CompleteHTLC C now m (ht_ChannelID htlcA) (ht_ID htlcA) preimage;
          m1 = (case r1 of Inl _ \<Rightarrow> m | Inr m' \<Rightarrow> m');
          r2 = CompleteHTLC C now m1 (ht_ChannelID htlcB) (ht_ID htlcB) preimage;
          m2 = (case r2 of Inl _ \<Rightarrow> m1 | Inr m' \<Rightarrow> m');
          expired = try_expire now (try_expire now m2 htlcA) htlcB
      in case r1 of
           Inl err \<Rightarrow> (expired, Inl err)
         | Inr _ \<Rightarrow> (case r2 of Inl err \<Rightarrow> (expired, Inl err) | Inr _ \<Rightarrow> (m2, Inr ())))"

definition ExpireAtomicSwap :: "int \<Rightarrow> Manager \<Rightarrow> HTLC \<Rightarrow> HTLC \<Rightarrow> Manager \<times> (channel_error, unit) result" where
  "ExpireAtomicSwap now m htlcA htlcB =
     (let r1 = ExpireHTLC now m (ht_ChannelID htlcA) (ht_ID htlcA);
          m1 = (case r1 of Inl _ \<Rightarrow> m | Inr m' \<Rightarrow> m');
          r2 = ExpireHTLC now m1 (ht_ChannelID htlcB) (ht_ID htlcB);
          m2 = (case r2 of Inl _ \<Rightarrow> m1 | Inr m' \<Rightarrow> m')
      in (m2, case r1 of
                Inl err \<Rightarrow> Inl err
              | Inr _ \<Rightarrow> (case r2 of Inl err \<Rightarrow> Inl err | Inr _ \<Rightarrow> Inr ())))"

definition GetAtomicSwapStatus :: "Manager \<Rightarrow> HTLC \<Rightarrow> HTLC \<Rightarrow> (channel_error, string) result" where
  "GetAtomicSwapStatus m htlcA htlcB =
     rbind (GetHTLC m (ht_ChannelID htlcA) (ht_ID htlcA)) (\<lambda>a.
     rbind (GetHTLC m (ht_ChannelID htlcB) (ht_ID htlcB)) (\<lambda>b.
       if ht_State a = HTLCCompleted \<and> ht_State b = HTLCCompleted then Inr ''completed''
       else if ht_State a = HTLCExpired \<and> ht_State b = HTLCExpired then Inr ''expired''
       else if ht_State a = HTLCCompleted \<or> ht_State b = HTLCCompleted then Inr ''partial''
       else Inr ''pending''))"

end
