(* ===== verification/Channel_Runs.thy ===== *)
theory Channel_Runs
  imports HTLC_Manager
begin

text \<open>
  Histories of the channel manager: one step is one method call that succeeds, with any arguments,
  clock and locker. The lemmas say what every step keeps of a channel; the properties follow by
  induction over a history.
\<close>

section \<open>Steps\<close>

inductive channel_step :: "crypto \<Rightarrow> Manager \<Rightarrow> Manager \<Rightarrow> bool" for C where
  open_channel: "OpenChannel C L now rnd m a b da db = Inr (m', ch) \<Longrightarrow> channel_step C m m'"
| update: "UpdateState C now m i st = Inr (m', st') \<Longrightarrow> channel_step C m m'"
| close: "CloseChannel C L m i st = Inr m' \<Longrightarrow> channel_step C m m'"
| dispute: "Dispute C now m i st = Inr m' \<Longrightarrow> channel_step C m m'"
| resolve: "ResolveDispute now m i p = Inr m' \<Longrightarrow> channel_step C m m'"
| transfer: "Transfer C now m i amt fromA = Inr (m', st) \<Longrightarrow> channel_step C m m'"
| force_close: "ForceClose C now m i st = Inr m' \<Longrightarrow> channel_step C m m'"
| finalize: "FinalizeClose now m i = Inr m' \<Longrightarrow> channel_step C m m'"
| set_signer: "channel_step C m (SetSigner m sg)"
| add_htlc: "AddHTLC hs m i h = Inr m' \<Longrightarrow> channel_step C m m'"
| complete_htlc: "CompleteHTLC C now m i k pre = Inr m' \<Longrightarrow> channel_step C m m'"
| expire_htlc: "ExpireHTLC now m i k = Inr m' \<Longrightarrow> channel_step C m m'"
| remove_htlc: "RemoveHTLC m i k = Inr m' \<Longrightarrow> channel_step C m m'"
| settle_htlcs: "SettleExpiredHTLCs hs now m i = Inr (m', exp) \<Longrightarrow> channel_step C m m'"

section \<open>What a step does to a channel\<close>

definition channel_total :: "Channel \<Rightarrow> u64" where
  "channel_total ch = ch_BalanceA ch + ch_BalanceB ch"

text \<open>The same channel later: identity and parties are fixed, and the (wrapping) total is.\<close>

definition same_channel :: "Channel \<Rightarrow> Channel \<Rightarrow> bool" where
  "same_channel c c' \<longleftrightarrow> ch_ID c' = ch_ID c \<and> ch_PartyA c' = ch_PartyA c \<and> ch_PartyB c' = ch_PartyB c
     \<and> channel_total c' = channel_total c"

definition continues :: "Manager \<Rightarrow> Manager \<Rightarrow> bool" where
  "continues m m' \<longleftrightarrow>
     (\<forall>i c. ma_channels m i = Some c \<longrightarrow> (\<exists>c'. ma_channels m' i = Some c' \<and> same_channel c c'))"

lemma same_channel_refl [simp]: "same_channel c c"
  by (simp add: same_channel_def)

lemma continues_refl [simp]: "continues m m"
  by (auto simp: continues_def)

lemma continues_trans: "continues a b \<Longrightarrow> continues b c \<Longrightarrow> continues a c"
  unfolding continues_def same_channel_def by metis

lemma continues_same_channels: "ma_channels m' = ma_channels m \<Longrightarrow> continues m m'"
  by (auto simp: continues_def)

lemma continues_put:
  "ma_channels m i = Some c \<Longrightarrow> same_channel c c' \<Longrightarrow> ma_channels m' = (ma_channels m)(i \<mapsto> c') \<Longrightarrow>
   continues m m'"
  by (auto simp: continues_def)

lemma lookup_channel_Inr [simp]:
  "lookup_channel m i = Inr (c, st) \<longleftrightarrow> ma_channels m i = Some c \<and> ma_states m i = Some st"
  by (auto simp: lookup_channel_def split: option.splits)

lemma lookup_open_Inr [simp]:
  "lookup_open m i = Inr (c, st) \<longleftrightarrow> ma_channels m i = Some c \<and> ma_states m i = Some st"
  by (auto simp: lookup_open_def split: option.splits)

lemma put_channel_simps [simp]:
  "ma_channels (put_channel m i c st) = (ma_channels m)(i \<mapsto> c)"
  "ma_states (put_channel m i c st) = (ma_states m)(i \<mapsto> st)"
  "ma_disputes (put_channel m i c st) = ma_disputes m"
  by (simp_all add: put_channel_def)

lemma update_htlcs_simps [simp]:
  "ma_channels (update_htlcs m i st hts) = ma_channels m"
  "ma_states (update_htlcs m i st hts) = (ma_states m)(i \<mapsto> st\<lparr>cs_PendingHTLCs := hts\<rparr>)"
  "ma_disputes (update_htlcs m i st hts) = ma_disputes m"
  by (simp_all add: update_htlcs_def)

text \<open>
  Every step either opens a channel under an unused identifier, or changes nothing but one existing
  channel, its state and its dispute. The lemmas give the change, operation by operation.
\<close>

lemma UpdateState_Inr:
  assumes "UpdateState C now m i st = Inr (m', st')"
  obtains c s where "ma_channels m i = Some c" "ma_states m i = Some s"
    "cs_Status s \<noteq> StateClosed" "cs_Status s \<noteq> StateInDispute" "ss_ChannelID st = i"
    "ch_Sequence c < ss_Sequence st" "verifySignatures C c st = Inr ()"
    "ss_BalanceA st + ss_BalanceB st = channel_total c"
    "\<exists>h. ma_channels m' = (ma_channels m)(i \<mapsto> c\<lparr>ch_BalanceA := ss_BalanceA st,
        ch_BalanceB := ss_BalanceB st, ch_Sequence := ss_Sequence st, ch_StateHash := h\<rparr>)"
    "ma_states m' = (ma_states m)(i \<mapsto> s\<lparr>cs_LastUpdate := now\<rparr>)" "ma_disputes m' = ma_disputes m"
  using assms
  by (force simp: UpdateState_def rbind_Inr_iff Let_def channel_total_def not_le split: if_splits)

lemma CloseChannel_Inr:
  assumes "CloseChannel C L m i st = Inr m'"
  obtains c s where "ma_channels m i = Some c" "ma_states m i = Some s"
    "cs_Status s \<noteq> StateClosed" "ss_ChannelID st = i" "verifySignatures C c st = Inr ()"
    "ss_BalanceA st + ss_BalanceB st = channel_total c"
    "ma_channels m' = (ma_channels m)(i \<mapsto> c\<lparr>ch_BalanceA := ss_BalanceA st,
        ch_BalanceB := ss_BalanceB st, ch_Sequence := ss_Sequence st\<rparr>)"
    "ma_states m' = (ma_states m)(i \<mapsto> s\<lparr>cs_Status := StateClosed\<rparr>)" "ma_disputes m' = ma_disputes m"
  using assms
  by (force simp: CloseChannel_def rbind_Inr_iff Let_def channel_total_def split: if_splits)

lemma Dispute_Inr:
  assumes "Dispute C now m i st = Inr m'"
  obtains c s d e where "ma_channels m i = Some c" "ma_states m i = Some s"
    "cs_Status s \<noteq> StateClosed"
    "ma_channels m' = (ma_channels m)(i \<mapsto> c\<lparr>ch_DisputeEnd := e\<rparr>)"
    "ma_states m' = (ma_states m)(i \<mapsto> s\<lparr>cs_Status := StateInDispute\<rparr>)"
    "ma_disputes m' = (ma_disputes m)(i \<mapsto> d)"
  using assms
  by (force simp: Dispute_def rbind_Inr_iff Let_def split: if_splits sum.splits)

lemma ResolveDispute_Inr:
  assumes "ResolveDispute now m i p = Inr m'"
  obtains c s d c' d' where "ma_channels m i = Some c" "ma_states m i = Some s"
    "ma_disputes m i = Some d" "\<not> dr_Resolved d" "same_channel c c'"
    "ma_channels m' = (ma_channels m)(i \<mapsto> c')"
    "ma_states m' = (ma_states m)(i \<mapsto> s\<lparr>cs_Status := StateClosed\<rparr>)"
    "ma_disputes m' = (ma_disputes m)(i \<mapsto> d')"
proof -
  obtain d c s where *: "ma_disputes m i = Some d" "\<not> dr_Resolved d" "ma_channels m i = Some c"
    "ma_states m i = Some s"
    using assms by (auto simp: ResolveDispute_def rbind_Inr_iff split: option.splits if_splits)
  let ?a = "c\<lparr>ch_BalanceA := ch_BalanceA c + ch_BalanceB c, ch_BalanceB := 0\<rparr>"
    and ?b = "c\<lparr>ch_BalanceB := ch_BalanceB c + ch_BalanceA c, ch_BalanceA := 0\<rparr>"
  have same: "same_channel c ?a" "same_channel c ?b"
    by (simp_all add: same_channel_def channel_total_def)
  consider "p = ch_PartyA c" | "p \<noteq> ch_PartyA c" "p = ch_PartyB c"
    using assms * by (auto simp: ResolveDispute_def lookup_channel_def Let_def split: if_splits)
  then show thesis
  proof cases
    case 1
    with assms * show thesis
      by (intro that [OF *(3,4,1,2) same(1)])
        (auto simp: ResolveDispute_def lookup_channel_def Let_def split: if_splits)
  next
    case 2
    with assms * show thesis
      by (intro that [OF *(3,4,1,2) same(2)])
        (auto simp: ResolveDispute_def lookup_channel_def Let_def split: if_splits)
  qed
qed

lemma Transfer_Inr:
  assumes "Transfer C now m i amt fromA = Inr (m', st)"
  obtains c s c' where "ma_channels m i = Some c" "ma_states m i = Some s"
    "cs_Status s = StateOpen" "same_channel c c'"
    "ma_channels m' = (ma_channels m)(i \<mapsto> c')"
    "ma_states m' = (ma_states m)(i \<mapsto> s\<lparr>cs_LastUpdate := now\<rparr>)" "ma_disputes m' = ma_disputes m"
proof -
  obtain c s c1 where *: "ma_channels m i = Some c" "ma_states m i = Some s" "cs_Status s = StateOpen"
    "move_balance c amt fromA = Inr c1"
    using assms by (auto simp: Transfer_def rbind_Inr_iff split: if_splits)
  then have "same_channel c (c1\<lparr>ch_Sequence := n, ch_StateHash := h\<rparr>)" for n h
    by (auto simp: move_balance_def same_channel_def channel_total_def split: if_splits)
  with assms * show thesis
    by (intro that [OF *(1-3)]) (auto simp: Transfer_def lookup_channel_def Let_def)
qed

lemma ForceClose_Inr:
  assumes "ForceClose C now m i st = Inr m'"
  obtains c s e where "ma_channels m i = Some c" "ma_states m i = Some s" "cs_Status s = StateOpen"
    "ma_channels m' = (ma_channels m)(i \<mapsto> c\<lparr>ch_DisputeEnd := e\<rparr>)"
    "ma_states m' = (ma_states m)(i \<mapsto> s\<lparr>cs_Status := StateClosing\<rparr>)" "ma_disputes m' = ma_disputes m"
  using assms by (force simp: ForceClose_def rbind_Inr_iff split: if_splits)

lemma FinalizeClose_Inr:
  assumes "FinalizeClose now m i = Inr m'"
  obtains c s where "ma_channels m i = Some c" "ma_states m i = Some s" "cs_Status s = StateClosing"
    "ma_channels m' = (ma_channels m)(i \<mapsto> c)"
    "ma_states m' = (ma_states m)(i \<mapsto> s\<lparr>cs_Status := StateClosed\<rparr>)" "ma_disputes m' = ma_disputes m"
  using assms by (force simp: FinalizeClose_def rbind_Inr_iff split: if_splits option.splits)

lemma OpenChannel_Inr:
  assumes "OpenChannel C L now rnd m a b da db = Inr (m', ch)"
  obtains i s where "ma_channels m i = None" "ma_channels m' = (ma_channels m)(i \<mapsto> ch)"
    "ma_states m' = (ma_states m)(i \<mapsto> s)" "cs_Status s = StateOpen" "ma_disputes m' = ma_disputes m"
    "ch_ID ch = i" "ch_PartyA ch = a" "ch_PartyB ch = b" "ch_BalanceA ch = da" "ch_BalanceB ch = db"
  using assms by (force simp: OpenChannel_def Let_def split: if_splits option.splits)

lemma AddHTLC_Inr:
  assumes "AddHTLC hs m i h = Inr m'"
  obtains c s where "ma_channels m i = Some c" "ma_states m i = Some s" "cs_Status s = StateOpen"
    "ma_channels m' = ma_channels m"
    "ma_states m' = (ma_states m)(i \<mapsto> s\<lparr>cs_PendingHTLCs := (cs_PendingHTLCs s)(ht_ID h \<mapsto> h)\<rparr>)"
    "ma_disputes m' = ma_disputes m"
  using assms by (force simp: AddHTLC_def rbind_Inr_iff split: if_splits)

lemma CompleteHTLC_Inr:
  assumes "CompleteHTLC C now m i k pre = Inr m'"
  obtains c s h c' h' where "ma_channels m i = Some c" "ma_states m i = Some s"
    "cs_PendingHTLCs s k = Some h" "ht_State h = HTLCPending" "same_channel c c'"
    "ma_channels m' = (ma_channels m)(i \<mapsto> c')"
    "ma_states m' = (ma_states m)(i \<mapsto>
        s\<lparr>cs_LastUpdate := now, cs_PendingHTLCs := (cs_PendingHTLCs s)(k \<mapsto> h')\<rparr>)"
    "ma_disputes m' = ma_disputes m"
proof -
  obtain c s h where *: "ma_channels m i = Some c" "ma_states m i = Some s"
    "cs_PendingHTLCs s k = Some h" "ht_State h = HTLCPending" "sha256 C pre = ht_HashLock h"
    using assms by (auto simp: CompleteHTLC_def rbind_Inr_iff split: option.splits if_splits)
  have "same_channel c ((settle_htlc c h)\<lparr>ch_Sequence := n, ch_StateHash := x\<rparr>)" for n x
    by (simp add: settle_htlc_def same_channel_def channel_total_def)
  with assms * show thesis
    by (intro that [OF *(1-4)]) (auto simp: CompleteHTLC_def lookup_open_def Let_def)
qed

lemma HTLC_table_Inr:
  "ExpireHTLC now m i k = Inr m' \<Longrightarrow> ma_channels m' = ma_channels m \<and> ma_disputes m' = ma_disputes m"
  "RemoveHTLC m i k = Inr m' \<Longrightarrow> ma_channels m' = ma_channels m \<and> ma_disputes m' = ma_disputes m"
  "SettleExpiredHTLCs hs now m i = Inr (m', e) \<Longrightarrow>
     ma_channels m' = ma_channels m \<and> ma_disputes m' = ma_disputes m"
  by (auto simp: ExpireHTLC_def RemoveHTLC_def SettleExpiredHTLCs_def Let_def
      split: option.splits if_splits prod.splits)

lemma continues_step: "channel_step C m m' \<Longrightarrow> continues m m'"
proof (induction rule: channel_step.induct)
  case open_channel
  then show ?case by (elim OpenChannel_Inr) (auto simp: continues_def)
next
  case update
  then show ?case
    by (elim UpdateState_Inr exE) (rule continues_put, assumption, auto simp: same_channel_def channel_total_def)
next
  case close
  then show ?case
    by (elim CloseChannel_Inr) (rule continues_put, assumption, auto simp: same_channel_def channel_total_def)
next
  case dispute
  then show ?case
    by (elim Dispute_Inr) (rule continues_put, assumption, auto simp: same_channel_def channel_total_def)
next
  case force_close
  then show ?case
    by (elim ForceClose_Inr) (rule continues_put, assumption, auto simp: same_channel_def channel_total_def)
next
  case finalize
  then show ?case
    by (elim FinalizeClose_Inr) (rule continues_put, assumption, auto simp: same_channel_def channel_total_def)
qed (auto elim!: ResolveDispute_Inr Transfer_Inr AddHTLC_Inr CompleteHTLC_Inr
      intro: continues_put continues_same_channels dest: HTLC_table_Inr simp: SetSigner_def)

lemma continues_run: "(channel_step C)\<^sup>*\<^sup>* m m' \<Longrightarrow> continues m m'"
  by (induction rule: rtranclp_induct) (auto intro: continues_trans continues_step)

section \<open>Settled channels\<close>

text \<open>Closed, with no dispute left to resolve and no contract left to complete.\<close>

definition no_pending :: "(hash \<rightharpoonup> HTLC) \<Rightarrow> bool" where
  "no_pending hts \<longleftrightarrow> (\<forall>k h. hts k = Some h \<longrightarrow> ht_State h \<noteq> HTLCPending)"

definition settled :: "hash \<Rightarrow> Manager \<Rightarrow> bool" where
  "settled i m \<longleftrightarrow> ma_channels m i \<noteq> None
     \<and> (\<exists>s. ma_states m i = Some s \<and> cs_Status s = StateClosed \<and> no_pending (cs_PendingHTLCs s))
     \<and> (\<forall>d. ma_disputes m i = Some d \<longrightarrow> dr_Resolved d)"

lemma settle_expired_no_pending:
  "no_pending hts \<Longrightarrow> foldl (settle_expired now) (hts, acc) hs = (hts, acc)"
  by (induction hs) (auto simp: settle_expired_def no_pending_def split: option.splits)

lemma settled_other:
  assumes "settled i m" and "j \<noteq> i"
    and "ma_channels m' = ma_channels m \<or> (\<exists>c. ma_channels m' = (ma_channels m)(j \<mapsto> c))"
    and "\<exists>s. ma_states m' = (ma_states m)(j \<mapsto> s)"
    and "ma_disputes m' = ma_disputes m \<or> (\<exists>d. ma_disputes m' = (ma_disputes m)(j \<mapsto> d))"
  shows "settled i m' \<and> ma_channels m' i = ma_channels m i"
  using assms unfolding settled_def by auto

lemma settled_status: "settled i m \<Longrightarrow> ma_states m i = Some s \<Longrightarrow> cs_Status s = StateClosed \<and> no_pending (cs_PendingHTLCs s)"
  by (auto simp: settled_def)

lemma HTLC_table_states:
  "ExpireHTLC now m i k = Inr m' \<Longrightarrow> \<exists>s h. ma_states m i = Some s \<and> cs_PendingHTLCs s k = Some h
     \<and> ht_State h = HTLCPending \<and> (\<exists>s'. ma_states m' = (ma_states m)(i \<mapsto> s'))"
  "RemoveHTLC m i k = Inr m' \<Longrightarrow> \<exists>s. ma_states m i = Some s
     \<and> ma_states m' = (ma_states m)(i \<mapsto> s\<lparr>cs_PendingHTLCs := (cs_PendingHTLCs s)(k := None)\<rparr>)"
  "SettleExpiredHTLCs hs now m i = Inr (m', e) \<Longrightarrow> \<exists>s hts. ma_states m i = Some s
     \<and> foldl (settle_expired now) (cs_PendingHTLCs s, []) hs = (hts, e)
     \<and> ma_states m' = (ma_states m)(i \<mapsto> s\<lparr>cs_PendingHTLCs := hts\<rparr>)"
  by (auto simp: ExpireHTLC_def RemoveHTLC_def SettleExpiredHTLCs_def Let_def
      split: option.splits if_splits prod.splits)

lemma settled_table:
  assumes "settled i m" and "ma_states m j = Some s" and "no_pending (cs_PendingHTLCs s) \<longrightarrow> no_pending hts"
    and "ma_channels m' = ma_channels m" and "ma_disputes m' = ma_disputes m"
    and "ma_states m' = (ma_states m)(j \<mapsto> s\<lparr>cs_PendingHTLCs := hts\<rparr>)"
  shows "settled i m' \<and> ma_channels m' i = ma_channels m i"
  using assms unfolding settled_def by auto

lemma settled_step:
  assumes "channel_step C m m'" and "settled i m"
  shows "settled i m' \<and> ma_channels m' i = ma_channels m i"
  using assms
proof (induction rule: channel_step.induct)
  case (open_channel L now rnd m a b da db m' ch)
  then obtain j s where j: "ma_channels m j = None" "ma_channels m' = (ma_channels m)(j \<mapsto> ch)"
    "ma_states m' = (ma_states m)(j \<mapsto> s)" "ma_disputes m' = ma_disputes m"
    by (elim OpenChannel_Inr) blast
  then have "j \<noteq> i" using open_channel.prems by (auto simp: settled_def)
  with j open_channel.prems show ?case by (intro settled_other) auto
next
  case (update now m j st m' st')
  then show ?case
    by (elim UpdateState_Inr exE) (rule settled_other, auto dest: settled_status)
next
  case (close L m j st m')
  then show ?case
    by (elim CloseChannel_Inr) (rule settled_other, auto dest: settled_status)
next
  case (dispute now m j st m')
  then show ?case
    by (elim Dispute_Inr) (rule settled_other, auto dest: settled_status)
next
  case (resolve now m j p m')
  then show ?case
    by (elim ResolveDispute_Inr) (rule settled_other, auto simp: settled_def)
next
  case (transfer now m j amt fromA m' st)
  then show ?case
    by (elim Transfer_Inr) (rule settled_other, auto dest: settled_status)
next
  case (force_close now m j st m')
  then show ?case
    by (elim ForceClose_Inr) (rule settled_other, auto dest: settled_status)
next
  case (finalize now m j m')
  then show ?case
    by (elim FinalizeClose_Inr) (rule settled_other, auto dest: settled_status)
next
  case (set_signer m sg)
  then show ?case by (simp add: SetSigner_def settled_def)
next
  case (add_htlc hs m j h m')
  then show ?case
    by (elim AddHTLC_Inr) (rule settled_other, auto dest: settled_status)
next
  case (complete_htlc now m j k pre m')
  then show ?case
    by (elim CompleteHTLC_Inr) (rule settled_other, auto dest!: settled_status simp: no_pending_def)
next
  case (expire_htlc now m j k m')
  from HTLC_table_states(1) [OF this(1)] obtain s h where
    e: "ma_states m j = Some s" "cs_PendingHTLCs s k = Some h" "ht_State h = HTLCPending"
       "\<exists>s'. ma_states m' = (ma_states m)(j \<mapsto> s')"
    by blast
  have "j \<noteq> i"
  proof
    assume "j = i"
    with e(1) expire_htlc.prems have "no_pending (cs_PendingHTLCs s)"
      using settled_status by blast
    with e(2,3) show False by (auto simp: no_pending_def)
  qed
  with expire_htlc e(4) HTLC_table_Inr(1) show ?case
    by (intro settled_other) auto
next
  case (remove_htlc m j k m')
  from HTLC_table_states(2) [OF this(1)] obtain s where s: "ma_states m j = Some s"
    "ma_states m' = (ma_states m)(j \<mapsto> s\<lparr>cs_PendingHTLCs := (cs_PendingHTLCs s)(k := None)\<rparr>)"
    by blast
  have "no_pending (cs_PendingHTLCs s) \<longrightarrow> no_pending ((cs_PendingHTLCs s)(k := None))"
    by (simp add: no_pending_def)
  from settled_table [OF remove_htlc.prems s(1) this] s(2) HTLC_table_Inr(2) [OF remove_htlc.hyps]
  show ?case by blast
next
  case (settle_htlcs hs now m j m' e)
  from HTLC_table_states(3) [OF this(1)] obtain s hts where s: "ma_states m j = Some s"
    "foldl (settle_expired now) (cs_PendingHTLCs s, []) hs = (hts, e)"
    "ma_states m' = (ma_states m)(j \<mapsto> s\<lparr>cs_PendingHTLCs := hts\<rparr>)"
    by blast
  have "no_pending (cs_PendingHTLCs s) \<longrightarrow> no_pending hts"
    using s(2) by (auto simp: settle_expired_no_pending)
  from settled_table [OF settle_htlcs.prems s(1) this] s(3) HTLC_table_Inr(3) [OF settle_htlcs.hyps]
  show ?case by blast
qed

lemma settled_run:
  assumes "(channel_step C)\<^sup>*\<^sup>* m m'" and "settled i m"
  shows "settled i m' \<and> ma_channels m' i = ma_channels m i"
  using assms by (induction rule: rtranclp_induct) (auto dest: settled_step)

section \<open>Properties\<close>

text \<open>C28. No history changes who owns a channel or, modulo two to the 64, how much it holds: after any
  sequence of successful calls (state updates, transfers, disputes and their resolution, closing,
  contracts), a channel that was opened is still there with its identifier and its two parties, and
  its balances add up to the two deposits.\<close>

theorem channel_conservation:
  assumes "OpenChannel C L now rnd m partyA partyB depositA depositB = Inr (m1, ch)"
    and "(channel_step C)\<^sup>*\<^sup>* m1 m2"
  shows "\<exists>ch'. ma_channels m2 (ch_ID ch) = Some ch' \<and> ch_ID ch' = ch_ID ch
    \<and> ch_PartyA ch' = partyA \<and> ch_PartyB ch' = partyB
    \<and> ch_BalanceA ch' + ch_BalanceB ch' = depositA + depositB"
proof -
  have "ma_channels m1 (ch_ID ch) = Some ch" "ch_PartyA ch = partyA" "ch_PartyB ch = partyB"
    "channel_total ch = depositA + depositB"
    using assms(1) by (auto elim!: OpenChannel_Inr simp: channel_total_def)
  moreover have "continues m1 m2"
    using assms(2) by (rule continues_run)
  ultimately show ?thesis
    unfolding continues_def same_channel_def channel_total_def by fastforce
qed

definition demo_locker :: locker where
  "demo_locker = \<lparr>ml_CreateMultiSigOutput = (\<lambda>a b v. Some sample_utxo),
                  ml_SpendMultiSig = (\<lambda>u s t outs. True)\<rparr>"

definition demo_manager :: Manager where
  "demo_manager = \<lparr>ma_channels = Map.empty, ma_states = Map.empty, ma_disputes = Map.empty,
                   ma_signer = None, ma_challengePeriod = 10, ma_minDeposit = 0,
                   ma_maxChannelValue = 1000\<rparr>"

definition demo_channel :: Channel where
  "demo_channel = \<lparr>ch_ID = 5, ch_PartyA = 1, ch_PartyB = 2, ch_BalanceA = 100, ch_BalanceB = 0,
                   ch_Sequence = 0, ch_StateHash = 5, ch_CreatedAt = 0, ch_DisputeEnd = None\<rparr>"

definition demo_open :: Manager where
  "demo_open = put_channel demo_manager 5 demo_channel
     \<lparr>cs_Status = StateOpen, cs_LastUpdate = 0, cs_PendingHTLCs = Map.empty, cs_ReceivedNonce = 0\<rparr>"

lemma demo_opens:
  "OpenChannel demo_crypto demo_locker 0 (Some 3) demo_manager 1 2 100 0 = Inr (demo_open, demo_channel)"
  by (simp add: OpenChannel_def demo_manager_def demo_locker_def demo_crypto_def generateChannelID_def
      computeStateHash_def demo_open_def demo_channel_def Let_def)

lemma demo_transfer:
  "\<exists>m' st. Transfer demo_crypto 1 demo_open 5 30 True = Inr (m', st)"
  by (simp add: Transfer_def lookup_channel_def demo_open_def demo_channel_def move_balance_def Let_def)

theorem channel_conservation_witness:
  "\<exists>m' st ch'. Transfer demo_crypto 1 demo_open 5 30 True = Inr (m', st)
     \<and> ma_channels m' 5 = Some ch' \<and> ch_PartyA ch' = 1 \<and> ch_BalanceA ch' + ch_BalanceB ch' = 100"
proof -
  obtain m' st where t: "Transfer demo_crypto 1 demo_open 5 30 True = Inr (m', st)"
    using demo_transfer by blast
  then have "(channel_step demo_crypto)\<^sup>*\<^sup>* demo_open m'"
    by (auto intro: channel_step.transfer)
  from channel_conservation [OF demo_opens this] t show ?thesis
    by (auto simp: demo_channel_def)
qed

text \<open>A superseded state can still close the channel: a state that both parties once signed and
  \<^verbatim>\<open>UpdateState\<close> once accepted closes the channel at any later time, after any number of newer updates
  and transfers, as long as the channel is not closed and the locker agrees; the balances paid out
  are those of the old state. \<^verbatim>\<open>CloseChannel\<close> does not look at the sequence number.\<close>

theorem stale_state_closes:
  assumes "UpdateState C now m i st = Inr (m1, st1)" and "(channel_step C)\<^sup>*\<^sup>* m1 m2"
    and "ma_states m2 i = Some s" and "cs_Status s \<noteq> StateClosed"
    and "\<forall>u sa sb outs. ml_SpendMultiSig L u sa sb outs"
  shows "\<exists>m3 ch. CloseChannel C L m2 i st = Inr m3 \<and> ma_channels m3 i = Some ch
    \<and> ch_BalanceA ch = ss_BalanceA st \<and> ch_BalanceB ch = ss_BalanceB st
    \<and> ch_Sequence ch = ss_Sequence st"
proof -
  obtain c s0 h where c: "ss_ChannelID st = i" "verifySignatures C c st = Inr ()"
    "ss_BalanceA st + ss_BalanceB st = channel_total c"
    "ma_channels m1 = (ma_channels m)(i \<mapsto> c\<lparr>ch_BalanceA := ss_BalanceA st,
        ch_BalanceB := ss_BalanceB st, ch_Sequence := ss_Sequence st, ch_StateHash := h\<rparr>)"
    using assms(1) by (elim UpdateState_Inr) blast
  let ?c1 = "c\<lparr>ch_BalanceA := ss_BalanceA st, ch_BalanceB := ss_BalanceB st,
      ch_Sequence := ss_Sequence st, ch_StateHash := h\<rparr>"
  have "ma_channels m1 i = Some ?c1"
    using c(4) by simp
  then obtain c2 where "ma_channels m2 i = Some c2" "same_channel ?c1 c2"
    using continues_run [OF assms(2)] unfolding continues_def by blast
  then have c2: "ma_channels m2 i = Some c2" "ch_PartyA c2 = ch_PartyA c"
    "ch_PartyB c2 = ch_PartyB c" "channel_total c2 = ss_BalanceA st + ss_BalanceB st"
    by (simp_all add: same_channel_def channel_total_def)
  then have "verifySignatures C c2 st = Inr ()"
    using c(2) by (simp add: verifySignatures_def Let_def)
  moreover have "lookup_channel m2 i = Inr (c2, s)"
    using c2(1) assms(3) by (simp add: lookup_channel_def)
  ultimately show ?thesis
    using assms(4,5) c(1) c2(4) unfolding CloseChannel_def
    by (simp add: channel_total_def Let_def del: lookup_channel_Inr)
qed

text \<open>A doubly signed state of the channel, and a transfer after it.\<close>

definition demo_state :: SignedState where
  "demo_state = \<lparr>ss_ChannelID = 5, ss_Sequence = 1, ss_BalanceA = 90, ss_BalanceB = 10,
                 ss_SigA = hash_bytes 1 @ replicate 32 0, ss_SigB = hash_bytes 2 @ replicate 32 0,
                 ss_Timestamp = 0\<rparr>"

lemma demo_state_signed: "ch_PartyA c = 1 \<Longrightarrow> ch_PartyB c = 2 \<Longrightarrow> verifySignatures demo_crypto c demo_state = Inr ()"
  by (simp add: verifySignatures_def verify_party_def demo_state_def ed25519_Verify_def demo_crypto_def
      sample_crypto_def Let_def)

definition demo_updated :: Manager where
  "demo_updated = put_channel demo_open 5
     (demo_channel\<lparr>ch_BalanceA := 90, ch_BalanceB := 10, ch_Sequence := 1\<rparr>)
     \<lparr>cs_Status = StateOpen, cs_LastUpdate = 1, cs_PendingHTLCs = Map.empty, cs_ReceivedNonce = 0\<rparr>"

lemma demo_update: "UpdateState demo_crypto 1 demo_open 5 demo_state = Inr (demo_updated, demo_state)"
proof -
  have "verifySignatures demo_crypto demo_channel demo_state = Inr ()"
    by (rule demo_state_signed) (simp_all add: demo_channel_def)
  then show ?thesis
    by (simp add: UpdateState_def lookup_channel_def demo_open_def demo_updated_def Let_def)
      (simp add: demo_state_def demo_channel_def computeStateHash_def demo_crypto_def)
qed

theorem stale_state_closes_witness:
  "\<exists>m2 x m3 ch. UpdateState demo_crypto 1 demo_open 5 demo_state = Inr (demo_updated, demo_state)
     \<and> Transfer demo_crypto 2 demo_updated 5 60 True = Inr (m2, x)
     \<and> CloseChannel demo_crypto demo_locker m2 5 demo_state = Inr m3
     \<and> ma_channels m3 5 = Some ch \<and> ch_BalanceA ch = 90"
proof -
  obtain m2 x s where t: "Transfer demo_crypto 2 demo_updated 5 60 True = Inr (m2, x)"
    and s: "ma_states m2 5 = Some s" "cs_Status s \<noteq> StateClosed"
    by (simp add: Transfer_def lookup_channel_def demo_updated_def demo_channel_def move_balance_def Let_def)
  have run: "(channel_step demo_crypto)\<^sup>*\<^sup>* demo_updated m2"
    using t by (auto intro: channel_step.transfer)
  have "\<forall>u sa sb outs. ml_SpendMultiSig demo_locker u sa sb outs"
    by (simp add: demo_locker_def)
  from stale_state_closes [OF demo_update run s this] demo_update t show ?thesis
    by (auto simp: demo_state_def)
qed

text \<open>Settled is final: once a channel is closed, its dispute (if any) is resolved and none of its
  contracts is pending, no call ever changes its record again.\<close>

theorem settled_channel_final:
  assumes "ma_channels m i = Some ch" and "ma_states m i = Some s" and "cs_Status s = StateClosed"
    and "\<forall>k h. cs_PendingHTLCs s k = Some h \<longrightarrow> ht_State h \<noteq> HTLCPending"
    and "\<forall>d. ma_disputes m i = Some d \<longrightarrow> dr_Resolved d"
    and "(channel_step C)\<^sup>*\<^sup>* m m'"
  shows "ma_channels m' i = Some ch \<and> GetChannelStatus m' i = Inr StateClosed"
proof -
  have "settled i m"
    using assms(1-5) by (simp add: settled_def no_pending_def)
  from settled_run [OF assms(6) this] assms(1) show ?thesis
    by (auto simp: settled_def GetChannelStatus_def)
qed

theorem settled_channel_final_witness:
  "let m = put_channel demo_manager 5 demo_channel
             \<lparr>cs_Status = StateClosed, cs_LastUpdate = 0, cs_PendingHTLCs = Map.empty, cs_ReceivedNonce = 0\<rparr>
   in ma_channels (SetSigner m None) 5 = Some demo_channel"
proof -
  let ?s = "\<lparr>cs_Status = StateClosed, cs_LastUpdate = 0, cs_PendingHTLCs = Map.empty, cs_ReceivedNonce = 0\<rparr>"
  let ?m = "put_channel demo_manager 5 demo_channel ?s"
  have "(channel_step demo_crypto)\<^sup>*\<^sup>* ?m (SetSigner ?m None)"
    by (auto intro: channel_step.set_signer)
  then show ?thesis
    using settled_channel_final [of ?m 5 demo_channel ?s demo_crypto]
    by (simp add: demo_manager_def)
qed

text \<open>Closing during a dispute settles nothing: if both parties close a channel whose dispute is still
  unresolved, then once the challenge period is over \<^verbatim>\<open>ResolveDispute\<close> still succeeds on the closed
  channel and moves the whole total to the party it is given, overriding the signed final state.\<close>

theorem resolve_overrides_close:
  assumes "ma_disputes m i = Some d" and "\<not> dr_Resolved d" and "CloseChannel C L m i st = Inr m1"
    and "dr_ChallengeEnd d \<le> now" and "ma_channels m i = Some ch"
  shows "\<exists>m2 ch'. ResolveDispute now m1 i (ch_PartyA ch) = Inr m2 \<and> ma_channels m2 i = Some ch'
    \<and> ch_BalanceA ch' = ss_BalanceA st + ss_BalanceB st \<and> ch_BalanceB ch' = 0"
proof -
  obtain s where "ma_states m i = Some s"
    and m1: "ma_channels m1 = (ma_channels m)(i \<mapsto> ch\<lparr>ch_BalanceA := ss_BalanceA st,
        ch_BalanceB := ss_BalanceB st, ch_Sequence := ss_Sequence st\<rparr>)"
      "ma_states m1 = (ma_states m)(i \<mapsto> s\<lparr>cs_Status := StateClosed\<rparr>)"
      "ma_disputes m1 = ma_disputes m"
    using assms(3,5) by (auto elim: CloseChannel_Inr)
  then show ?thesis
    using assms(1,2,4) by (simp add: ResolveDispute_def lookup_channel_def Let_def)
qed

definition demo_disputed :: Manager where
  "demo_disputed = demo_open\<lparr>ma_disputes := [5 \<mapsto>
     \<lparr>dr_ChannelID = 5, dr_Challenger = 0, dr_ChallengedState = demo_state, dr_ChallengeStart = 0,
      dr_ChallengeEnd = 10, dr_Resolved = False, dr_Winner = 0, dr_Resolution = []\<rparr>]\<rparr>"

theorem resolve_overrides_close_witness:
  "\<exists>m1 m2 ch'. CloseChannel demo_crypto demo_locker demo_disputed 5 demo_state = Inr m1
     \<and> ResolveDispute 20 m1 5 1 = Inr m2 \<and> ma_channels m2 5 = Some ch'
     \<and> ch_BalanceA ch' = 100 \<and> ch_BalanceB ch' = 0"
proof -
  have "verifySignatures demo_crypto demo_channel demo_state = Inr ()"
    by (rule demo_state_signed) (simp_all add: demo_channel_def)
  then obtain m1 where m1: "CloseChannel demo_crypto demo_locker demo_disputed 5 demo_state = Inr m1"
    by (simp add: CloseChannel_def lookup_channel_def demo_disputed_def demo_open_def demo_locker_def Let_def)
      (simp add: demo_state_def demo_channel_def)
  have d: "ma_disputes demo_disputed 5 = Some
     \<lparr>dr_ChannelID = 5, dr_Challenger = 0, dr_ChallengedState = demo_state, dr_ChallengeStart = 0,
      dr_ChallengeEnd = 10, dr_Resolved = False, dr_Winner = 0, dr_Resolution = []\<rparr>"
    "ma_channels demo_disputed 5 = Some demo_channel"
    by (simp_all add: demo_disputed_def demo_open_def)
  show ?thesis
    using m1 resolve_overrides_close [OF d(1) _ m1 _ d(2), of 20]
    by (simp add: demo_channel_def demo_state_def)
qed

text \<open>A pending contract from the first to the second party of \<open>demo_channel\<close>.\<close>

definition overdraft_htlc :: "hash \<Rightarrow> u64 \<Rightarrow> HTLC" where
  "overdraft_htlc i amt =
     \<lparr>ht_ChannelID = 5, ht_ID = i, ht_HashLock = 5, ht_TimeLock = 100, ht_Amount = amt, ht_Sender = 1,
      ht_Receiver = 2, ht_Preimage = [], ht_State = HTLCPending, ht_CreatedAt = 0, ht_CompletedAt = None\<rparr>"

text \<open>Contracts can overdraw a balance: in a channel where the first party holds a hundred units, it
  offers a contract of sixty, completes it, and then offers one of two to the 63, which is accepted
  because the available balance 40 minus 60 wraps; completing that one credits the other party with
  two to the 63.\<close>

theorem htlc_overdraft:
  "\<exists>m ch. rbind (AddHTLC [] demo_open 5 (overdraft_htlc 1 60)) (\<lambda>m.
          rbind (CompleteHTLC demo_crypto 1 m 5 1 []) (\<lambda>m.
          rbind (AddHTLC [1] m 5 (overdraft_htlc 2 0x8000000000000000)) (\<lambda>m.
            CompleteHTLC demo_crypto 2 m 5 2 []))) = Inr m
     \<and> ma_channels demo_open 5 = Some demo_channel
     \<and> unat (ch_BalanceA demo_channel) + unat (ch_BalanceB demo_channel) = 100
     \<and> ma_channels m 5 = Some ch \<and> unat (ch_BalanceB ch) = 2 ^ 63 + 60"
  by (simp add: AddHTLC_def CompleteHTLC_def lookup_open_def demo_open_def
      demo_channel_def overdraft_htlc_def getAvailableBalance_def range_values_def map_filter_def
      demo_crypto_def settle_htlc_def Let_def)

end
