(* ===== verification/Atomic_Swap.thy ===== *)
theory Atomic_Swap
  imports HTLC_Manager
begin

text \<open>
  The \<^verbatim>\<open>AtomicSwapManager\<close> of \<^verbatim>\<open>pkg/channel/htlc.go\<close>: swaps locked by a hash and a deadline, claimed with the
  secret or refunded after the deadline. \<^verbatim>\<open>executeSwapInChannel\<close> does nothing and always succeeds in the
  source, so claiming moves no balance. A failed claim may change the swap, so \<open>ClaimSwap\<close> returns the
  manager next to its result.
\<close>

section \<open>Swaps\<close>

datatype AtomicSwapStatus = SwapCreated | SwapClaimed | SwapRefunded | SwapExpired

definition swap_status_string :: "AtomicSwapStatus \<Rightarrow> string" where
  "swap_status_string s =
     (case s of SwapCreated \<Rightarrow> ''CREATED'' | SwapClaimed \<Rightarrow> ''CLAIMED''
      | SwapRefunded \<Rightarrow> ''REFUNDED'' | SwapExpired \<Rightarrow> ''EXPIRED'')"

record AtomicSwap =
  sw_ID :: hash
  sw_SwapID :: string
  sw_Sender :: address
  sw_Receiver :: address
  sw_HashLock :: hash
  sw_Secret :: bytes
  sw_Amount :: u64
  sw_AssetIn :: string
  sw_AssetOut :: string
  sw_Rate :: u64
  sw_TimeLock :: int
  sw_Status :: AtomicSwapStatus
  sw_ChannelID :: hash
  sw_CreatedAt :: int
  sw_ClaimedAt :: "int option"
  sw_RefundedAt :: "int option"
  sw_HTLCID :: hash
  sw_Initiator :: address
  sw_Participant :: address
  sw_IsCrossChain :: bool
  sw_ExternalTxID :: string

record AtomicSwapManager =
  am_swaps :: "hash \<rightharpoonup> AtomicSwap"
  am_swapsByChannel :: "hash \<rightharpoonup> hash list"

datatype swap_error =
    ErrSwapNotFound
  | ErrSwapAlreadyExists
  | ErrInvalidSwapState AtomicSwapStatus
  | ErrSwapExpired
  | ErrSwapNotExpired
  | ErrInvalidSecret
  | ErrInvalidAsset
  | ErrInvalidAmount
  | SwSameParty
  | SwChannelNotFound
  | SwNotParty
  | SwNoSecret
  | SwNonce

definition NewAtomicSwapManager :: AtomicSwapManager where
  "NewAtomicSwapManager = \<lparr>am_swaps = Map.empty, am_swapsByChannel = Map.empty\<rparr>"

definition generateSwapID ::
  "crypto \<Rightarrow> u64 option \<Rightarrow> hash \<Rightarrow> hash \<Rightarrow> u64 \<Rightarrow> int \<Rightarrow> (swap_error, hash) result" where
  "generateSwapID C rnd channelID hashLock amount timestamp =
     (case rnd of
        None \<Rightarrow> Inl SwNonce
      | Some nonce \<Rightarrow>
          Inr (sha256 C (hash_bytes channelID @ hash_bytes hashLock @ put_u64_be amount
                 @ put_u64_be (of_int (timestamp - 62135596800 * second)) @ put_u64_be nonce)))"

text \<open>
  \<open>rnd_secret\<close> is what the random source returns for the secret, \<open>rnd_nonce\<close> for the identifier, and
  \<open>now\<close> the clock, which the method reads several times within one call.
\<close>

definition CreateSwap ::
  "crypto \<Rightarrow> Manager \<Rightarrow> int \<Rightarrow> bytes option \<Rightarrow> u64 option \<Rightarrow> AtomicSwapManager
   \<Rightarrow> hash \<Rightarrow> address \<Rightarrow> address \<Rightarrow> u64 \<Rightarrow> string \<Rightarrow> string \<Rightarrow> int \<Rightarrow> bytes
   \<Rightarrow> (swap_error, AtomicSwapManager \<times> AtomicSwap \<times> bytes) result" where
  "CreateSwap C m now rnd_secret rnd_nonce asm channelID sender receiver amount assetIn assetOut
     timeLockDuration preimage =
     (if amount = 0 then Inl ErrInvalidAmount
      else if assetIn = [] \<or> assetOut = [] then Inl ErrInvalidAsset
      else if sender = receiver then Inl SwSameParty
      else case GetChannelState m channelID of
        Inl _ \<Rightarrow> Inl SwChannelNotFound
      | Inr channel \<Rightarrow>
          if sender \<noteq> ch_PartyA channel \<and> sender \<noteq> ch_PartyB channel then Inl SwNotParty
          else if receiver \<noteq> ch_PartyA channel \<and> receiver \<noteq> ch_PartyB channel then Inl SwNotParty
          else case (if length preimage > 0 then Some preimage else rnd_secret) of
            None \<Rightarrow> Inl SwNoSecret
          | Some secret \<Rightarrow>
              let hashLock = sha256 C secret in
              rbind (generateSwapID C rnd_nonce channelID hashLock amount now) (\<lambda>swapID.
                if am_swaps asm swapID \<noteq> None then Inl ErrSwapAlreadyExists
                else let swap = \<lparr>sw_ID = swapID,
                       sw_SwapID = ''swap-'' @ hex_string (take 8 (hash_bytes swapID)),
                       sw_Sender = sender, sw_Receiver = receiver, sw_HashLock = hashLock,
                       sw_Secret = [], sw_Amount = amount, sw_AssetIn = assetIn,
                       sw_AssetOut = assetOut, sw_Rate = 0, sw_TimeLock = now + timeLockDuration,
                       sw_Status = SwapCreated, sw_ChannelID = channelID, sw_CreatedAt = now,
                       sw_ClaimedAt = None, sw_RefundedAt = None, sw_HTLCID = 0,
                       sw_Initiator = sender, sw_Participant = receiver,
                       sw_IsCrossChain = False, sw_ExternalTxID = []\<rparr>
                     in Inr (asm\<lparr>am_swaps := (am_swaps asm)(swapID \<mapsto> swap),
                                 am_swapsByChannel := (am_swapsByChannel asm)(channelID \<mapsto>
                                   map_get [] (am_swapsByChannel asm) channelID @ [swapID])\<rparr>,
                             swap, secret)))"

definition put_swap :: "AtomicSwapManager \<Rightarrow> hash \<Rightarrow> AtomicSwap \<Rightarrow> AtomicSwapManager" where
  "put_swap asm i swap = asm\<lparr>am_swaps := (am_swaps asm)(i \<mapsto> swap)\<rparr>"

definition ClaimSwap ::
  "crypto \<Rightarrow> int \<Rightarrow> AtomicSwapManager \<Rightarrow> hash \<Rightarrow> bytes
   \<Rightarrow> AtomicSwapManager \<times> (swap_error, AtomicSwap) result" where
  "ClaimSwap C now asm swapID secret =
     (case am_swaps asm swapID of
        None \<Rightarrow> (asm, Inl ErrSwapNotFound)
      | Some swap \<Rightarrow>
          if sw_Status swap \<noteq> SwapCreated then (asm, Inl (ErrInvalidSwapState (sw_Status swap)))
          else if now > sw_TimeLock swap
          then (put_swap asm swapID (swap\<lparr>sw_Status := SwapExpired\<rparr>), Inl ErrSwapExpired)
          else if sha256 C secret \<noteq> sw_HashLock swap then (asm, Inl ErrInvalidSecret)
          else let swap = swap\<lparr>sw_Secret := secret, sw_Status := SwapClaimed, sw_ClaimedAt := Some now\<rparr>
               in (put_swap asm swapID swap, Inr swap))"

definition RefundSwap ::
  "int \<Rightarrow> AtomicSwapManager \<Rightarrow> hash \<Rightarrow> (swap_error, AtomicSwapManager \<times> AtomicSwap) result" where
  "RefundSwap now asm swapID =
     (case am_swaps asm swapID of
        None \<Rightarrow> Inl ErrSwapNotFound
      | Some swap \<Rightarrow>
          if sw_Status swap \<noteq> SwapCreated then Inl (ErrInvalidSwapState (sw_Status swap))
          else if now < sw_TimeLock swap then Inl ErrSwapNotExpired
          else let swap = swap\<lparr>sw_Status := SwapRefunded, sw_RefundedAt := Some now\<rparr>
               in Inr (put_swap asm swapID swap, swap))"

definition VerifyHash :: "crypto \<Rightarrow> AtomicSwapManager \<Rightarrow> hash \<Rightarrow> bytes \<Rightarrow> (swap_error, bool) result" where
  "VerifyHash C asm swapID secret =
     (case am_swaps asm swapID of
        None \<Rightarrow> Inl ErrSwapNotFound
      | Some swap \<Rightarrow> Inr (sha256 C secret = sw_HashLock swap))"

definition GetSwap :: "AtomicSwapManager \<Rightarrow> hash \<Rightarrow> (swap_error, AtomicSwap) result" where
  "GetSwap asm swapID =
     (case am_swaps asm swapID of None \<Rightarrow> Inl ErrSwapNotFound | Some swap \<Rightarrow> Inr swap)"

definition GetSwapsByChannel :: "AtomicSwapManager \<Rightarrow> hash \<Rightarrow> AtomicSwap list" where
  "GetSwapsByChannel asm channelID =
     (case am_swapsByChannel asm channelID of
        None \<Rightarrow> []
      | Some swapIDs \<Rightarrow> List.map_filter (am_swaps asm) swapIDs)"

definition GetPendingSwaps :: "hash list \<Rightarrow> int \<Rightarrow> AtomicSwapManager \<Rightarrow> AtomicSwap list" where
  "GetPendingSwaps ks now asm =
     filter (\<lambda>s. sw_Status s = SwapCreated \<and> now < sw_TimeLock s) (range_values ks (am_swaps asm))"

definition GetExpiredSwaps :: "hash list \<Rightarrow> int \<Rightarrow> AtomicSwapManager \<Rightarrow> AtomicSwap list" where
  "GetExpiredSwaps ks now asm =
     filter (\<lambda>s. sw_Status s = SwapCreated \<and> now > sw_TimeLock s) (range_values ks (am_swaps asm))"

section \<open>Histories\<close>

inductive swap_step :: "crypto \<Rightarrow> AtomicSwapManager \<Rightarrow> AtomicSwapManager \<Rightarrow> bool" for C where
  create: "CreateSwap C m now rs rn asm i a b amt ain aout dur pre = Inr (asm', sw, sec) \<Longrightarrow>
             swap_step C asm asm'"
| claim: "ClaimSwap C now asm i sec = (asm', r) \<Longrightarrow> swap_step C asm asm'"
| refund: "RefundSwap now asm i = Inr (asm', sw) \<Longrightarrow> swap_step C asm asm'"

lemma CreateSwap_Inr:
  assumes "CreateSwap C m now rs rn asm i a b amt ain aout dur pre = Inr (asm', sw, sec)"
  shows "am_swaps asm (sw_ID sw) = None \<and> am_swaps asm' = (am_swaps asm)(sw_ID sw \<mapsto> sw)
    \<and> sw_Status sw = SwapCreated \<and> sw_HashLock sw = sha256 C sec"
  using assms
  by (auto simp: CreateSwap_def Let_def rbind_Inr_iff split: if_splits sum.splits option.splits)

text \<open>A swap that has left the state \<open>SwapCreated\<close> never changes again.\<close>

lemma swap_final_step:
  assumes "swap_step C asm asm'" and "am_swaps asm i = Some sw" and "sw_Status sw \<noteq> SwapCreated"
  shows "am_swaps asm' i = Some sw"
  using assms
proof (induction rule: swap_step.induct)
  case create
  then show ?case by (auto dest!: CreateSwap_Inr)
next
  case claim
  then show ?case
    by (auto simp: ClaimSwap_def put_swap_def Let_def split: option.splits if_splits)
next
  case refund
  then show ?case
    by (auto simp: RefundSwap_def put_swap_def Let_def split: option.splits if_splits)
qed

lemma swap_final_run:
  "(swap_step C)\<^sup>*\<^sup>* asm asm' \<Longrightarrow> am_swaps asm i = Some sw \<Longrightarrow> sw_Status sw \<noteq> SwapCreated \<Longrightarrow>
   am_swaps asm' i = Some sw"
  by (induction rule: rtranclp_induct) (auto dest: swap_final_step)

section \<open>Properties\<close>

text \<open>A swap is claimed or refunded, never both: if a claim succeeds, the secret hashes to the lock,
  the deadline has not passed, and in every later state the swap is still claimed with that secret
  and every refund of it is refused.\<close>

theorem claim_excludes_refund:
  assumes "am_swaps asm i = Some sw" and "ClaimSwap C now asm i secret = (asm1, Inr sw1)"
    and "(swap_step C)\<^sup>*\<^sup>* asm1 asm2"
  shows "sha256 C secret = sw_HashLock sw \<and> now \<le> sw_TimeLock sw
    \<and> GetSwap asm2 i = Inr sw1 \<and> sw_Status sw1 = SwapClaimed \<and> sw_Secret sw1 = secret
    \<and> (\<forall>later. RefundSwap later asm2 i = Inl (ErrInvalidSwapState SwapClaimed))"
proof -
  have c: "sha256 C secret = sw_HashLock sw" "now \<le> sw_TimeLock sw" "sw_Status sw1 = SwapClaimed"
    "sw_Secret sw1 = secret" "am_swaps asm1 i = Some sw1"
    using assms(1,2) by (auto simp: ClaimSwap_def put_swap_def Let_def split: if_splits)
  then have "am_swaps asm2 i = Some sw1"
    using swap_final_run [OF assms(3)] by simp
  with c show ?thesis
    by (simp add: GetSwap_def RefundSwap_def)
qed

definition demo_swap :: AtomicSwap where
  "demo_swap = \<lparr>sw_ID = 3, sw_SwapID = [], sw_Sender = 1, sw_Receiver = 2, sw_HashLock = 5,
     sw_Secret = [], sw_Amount = 9, sw_AssetIn = ''AIB'', sw_AssetOut = ''BTC'', sw_Rate = 0,
     sw_TimeLock = 100, sw_Status = SwapCreated, sw_ChannelID = 5, sw_CreatedAt = 0,
     sw_ClaimedAt = None, sw_RefundedAt = None, sw_HTLCID = 0, sw_Initiator = 1,
     sw_Participant = 2, sw_IsCrossChain = False, sw_ExternalTxID = []\<rparr>"

definition demo_swaps :: AtomicSwapManager where
  "demo_swaps = put_swap NewAtomicSwapManager 3 demo_swap"

theorem claim_excludes_refund_witness:
  "\<exists>asm1 sw1. ClaimSwap demo_crypto 50 demo_swaps 3 [7] = (asm1, Inr sw1)
     \<and> RefundSwap 200 asm1 3 = Inl (ErrInvalidSwapState SwapClaimed)"
proof -
  have s: "am_swaps demo_swaps 3 = Some demo_swap"
    by (simp add: demo_swaps_def put_swap_def)
  obtain asm1 sw1 where c: "ClaimSwap demo_crypto 50 demo_swaps 3 [7] = (asm1, Inr sw1)"
    by (simp add: ClaimSwap_def s Let_def demo_swap_def demo_crypto_def)
  show ?thesis
    using c claim_excludes_refund [OF s c rtranclp.rtrancl_refl] by blast
qed

text \<open>C36. A late claim destroys the refund: when anyone tries to claim a swap after its deadline, with
  any secret, the swap becomes expired, and from then on every refund is refused for ever, although
  the deadline has passed and nothing was claimed.\<close>

theorem late_claim_blocks_refund:
  assumes "am_swaps asm i = Some sw" and "sw_Status sw = SwapCreated" and "sw_TimeLock sw < now"
    and "(swap_step C)\<^sup>*\<^sup>* (fst (ClaimSwap C now asm i secret)) asm2"
  shows "snd (ClaimSwap C now asm i secret) = Inl ErrSwapExpired
    \<and> (\<forall>later. RefundSwap later asm2 i = Inl (ErrInvalidSwapState SwapExpired))"
proof -
  let ?sw = "sw\<lparr>sw_Status := SwapExpired\<rparr>"
  have c: "ClaimSwap C now asm i secret = (put_swap asm i ?sw, Inl ErrSwapExpired)"
    using assms(1-3) by (simp add: ClaimSwap_def)
  then have "am_swaps asm2 i = Some ?sw"
    using swap_final_run [OF assms(4), of i ?sw] by (simp add: put_swap_def)
  with c show ?thesis
    by (simp add: RefundSwap_def)
qed

theorem late_claim_blocks_refund_witness:
  "snd (ClaimSwap demo_crypto 101 demo_swaps 3 []) = Inl ErrSwapExpired
   \<and> RefundSwap 200 (fst (ClaimSwap demo_crypto 101 demo_swaps 3 [])) 3 = Inl (ErrInvalidSwapState SwapExpired)
   \<and> (\<exists>r. RefundSwap 200 demo_swaps 3 = Inr r)"
proof -
  have s: "am_swaps demo_swaps 3 = Some demo_swap" "sw_Status demo_swap = SwapCreated"
    "sw_TimeLock demo_swap < 101"
    by (simp_all add: demo_swaps_def put_swap_def demo_swap_def)
  have "\<exists>r. RefundSwap 200 demo_swaps 3 = Inr r"
    by (simp add: RefundSwap_def s(1) Let_def demo_swap_def)
  with late_claim_blocks_refund [OF s rtranclp.rtrancl_refl] show ?thesis by blast
qed

end
