(* ===== verification/Address.thy ===== *)
theory Address
  imports Crypto
begin

unbundle bit_operations_syntax

text \<open>
  \<^verbatim>\<open>pkg/utxo/address.go\<close>: addresses as Bech32m strings (BIP 350). A Go \<^verbatim>\<open>int\<close> is a 64-bit word that is
  shifted right arithmetically, so the accumulator of \<^verbatim>\<open>convertBits\<close>, which is never reset, wraps as it
  does in the code. A string is the list of its bytes.
\<close>

section \<open>Regrouping bits\<close>

type_synonym goint = "64 word"

definition maxv :: "nat \<Rightarrow> goint" where
  "maxv toBits = push_bit toBits 1 - 1"

text \<open>
  The inner loop of \<^verbatim>\<open>convertBits\<close>: while there are enough bits, emit the group above the remaining
  ones. A group size of zero, which no caller passes, would not terminate in the code.
\<close>

fun emit_groups :: "goint \<Rightarrow> nat \<Rightarrow> nat \<Rightarrow> bytes \<times> nat" where
  "emit_groups acc bits toBits =
     (if toBits = 0 \<or> bits < toBits then ([], bits)
      else (let bits' = bits - toBits; (r, b) = emit_groups acc bits' toBits
            in (ucast (signed_drop_bit bits' acc AND maxv toBits) # r, b)))"

declare emit_groups.simps [simp del]

fun convert_loop :: "bytes \<Rightarrow> nat \<Rightarrow> nat \<Rightarrow> goint \<Rightarrow> nat \<Rightarrow> bytes \<times> goint \<times> nat" where
  "convert_loop [] fromBits toBits acc bits = ([], acc, bits)"
| "convert_loop (b # bs) fromBits toBits acc bits =
     (let acc' = push_bit fromBits acc OR ucast b;
          (out, bits') = emit_groups acc' (bits + fromBits) toBits;
          (rest, acc'', bits'') = convert_loop bs fromBits toBits acc' bits'
      in (out @ rest, acc'', bits''))"

definition convertBits :: "bytes \<Rightarrow> nat \<Rightarrow> nat \<Rightarrow> bool \<Rightarrow> bytes" where
  "convertBits data fromBits toBits pad =
     (let (result, acc, bits) = convert_loop data fromBits toBits 0 0
      in if pad \<and> bits > 0
         then result @ [ucast (push_bit (toBits - bits) acc AND maxv toBits)]
         else result)"

section \<open>Checksum\<close>

definition bech32mConst :: goint where
  "bech32mConst = 0x2bc830a3"

definition generators :: "goint list" where
  "generators = [0x3b6a57b2, 0x26508e6d, 0x1ea119fa, 0x3d4233dd, 0x2a1462b3]"

definition polymod_step :: "goint \<Rightarrow> byte \<Rightarrow> goint" where
  "polymod_step chk v =
     (let top = signed_drop_bit 25 chk;
          chk' = push_bit 5 (chk AND 0x1ffffff) XOR ucast v
      in foldl (\<lambda>c i. if signed_drop_bit i top AND 1 = 1 then c XOR generators ! i else c) chk' [0..<5])"

definition bech32mPolymod :: "bytes \<Rightarrow> goint" where
  "bech32mPolymod values = foldl polymod_step 1 values"

definition expandHrp :: "bytes \<Rightarrow> bytes" where
  "expandHrp hrp = map (drop_bit 5) hrp @ [0] @ map (\<lambda>c. c AND 31) hrp"

definition bech32mChecksum :: "bytes \<Rightarrow> bytes \<Rightarrow> bytes" where
  "bech32mChecksum hrp data =
     (let polymod = bech32mPolymod (expandHrp hrp @ data @ [0, 0, 0, 0, 0, 0]) XOR bech32mConst
      in map (\<lambda>i. ucast (signed_drop_bit (5 * (5 - i)) polymod AND 31)) [0..<6])"

definition verifyBech32mChecksum :: "bytes \<Rightarrow> bytes \<Rightarrow> bool" where
  "verifyBech32mChecksum hrp values \<longleftrightarrow> bech32mPolymod (expandHrp hrp @ values) = bech32mConst"

section \<open>Strings\<close>

datatype address_error =
    AdBadLength nat
  | AdBadValue byte
  | AdTooShort
  | AdMixedCase
  | AdNoSeparator
  | AdBadHRP string
  | AdDataTooShort
  | AdBadCharacter char
  | AdChecksum
  | AdConvert

definition Bech32mHRP :: string where
  "Bech32mHRP = ''aib''"

definition charset :: string where
  "charset = ''qpzry9x8gf2tvdw0s3jn54khce6mua7l''"

definition string_bytes :: "string \<Rightarrow> bytes" where
  "string_bytes s = map of_char s"

text \<open>
  \<^verbatim>\<open>strings.ToLower\<close> and \<^verbatim>\<open>strings.ToUpper\<close> map the letters of an ASCII string. On a string with other
  bytes they follow the tables of the \<^verbatim>\<open>unicode\<close> package, which are a parameter.
\<close>

record unicode =
  uc_lower :: "string \<Rightarrow> string"
  uc_upper :: "string \<Rightarrow> string"

definition is_ascii :: "string \<Rightarrow> bool" where
  "is_ascii s \<longleftrightarrow> (\<forall>c \<in> set s. of_char c < (128 :: nat))"

definition lower_char :: "char \<Rightarrow> char" where
  "lower_char c = (let n = of_char c :: nat in if 65 \<le> n \<and> n \<le> 90 then char_of (n + 32) else c)"

definition upper_char :: "char \<Rightarrow> char" where
  "upper_char c = (let n = of_char c :: nat in if 97 \<le> n \<and> n \<le> 122 then char_of (n - 32) else c)"

definition ToLower :: "unicode \<Rightarrow> string \<Rightarrow> string" where
  "ToLower U s = (if is_ascii s then map lower_char s else uc_lower U s)"

definition ToUpper :: "unicode \<Rightarrow> string \<Rightarrow> string" where
  "ToUpper U s = (if is_ascii s then map upper_char s else uc_upper U s)"

text \<open>\<^verbatim>\<open>bytes.IndexByte\<close>.\<close>

fun IndexByte :: "string \<Rightarrow> char \<Rightarrow> nat option" where
  "IndexByte [] c = None"
| "IndexByte (x # xs) c = (if x = c then Some 0 else map_option Suc (IndexByte xs c))"

fun encode_chars :: "bytes \<Rightarrow> (address_error, string) result" where
  "encode_chars [] = Inr []"
| "encode_chars (v # vs) =
     (if length charset \<le> unat v then Inl (AdBadValue v)
      else rbind (encode_chars vs) (\<lambda>s. Inr (charset ! unat v # s)))"

fun decode_chars :: "string \<Rightarrow> (address_error, bytes) result" where
  "decode_chars [] = Inr []"
| "decode_chars (c # cs) =
     (case IndexByte charset c of
        None \<Rightarrow> Inl (AdBadCharacter c)
      | Some idx \<Rightarrow> rbind (decode_chars cs) (\<lambda>vs. Inr (of_nat idx # vs)))"

text \<open>The result of \<^verbatim>\<open>convertBits\<close> is a slice made by \<^verbatim>\<open>make\<close>, so the tests against \<^verbatim>\<open>nil\<close> never fail.\<close>

definition EncodeBech32m :: "string \<Rightarrow> bytes \<Rightarrow> (address_error, string) result" where
  "EncodeBech32m hrp data =
     (if length data \<noteq> 32 then Inl (AdBadLength (length data))
      else (let converted = convertBits data 8 5 True;
                values = converted @ bech32mChecksum (string_bytes hrp) converted
            in rbind (encode_chars values) (\<lambda>s. Inr (hrp @ ''1'' @ s))))"

definition DecodeBech32m :: "unicode \<Rightarrow> string \<Rightarrow> (address_error, string \<times> bytes) result" where
  "DecodeBech32m U encoded0 =
     (if length encoded0 < 14 then Inl AdTooShort
      else if encoded0 \<noteq> ToLower U encoded0 \<and> encoded0 \<noteq> ToUpper U encoded0 then Inl AdMixedCase
      else (let encoded = ToLower U encoded0 in
        case IndexByte encoded (CHR ''1'') of
          None \<Rightarrow> Inl AdNoSeparator
        | Some sepIndex \<Rightarrow>
            (let hrp = take sepIndex encoded; dataStr = drop (sepIndex + 1) encoded in
             if hrp \<noteq> Bech32mHRP then Inl (AdBadHRP hrp)
             else if length dataStr < 6 then Inl AdDataTooShort
             else rbind (decode_chars dataStr) (\<lambda>values.
               if \<not> verifyBech32mChecksum (string_bytes hrp) values then Inl AdChecksum
               else (let decoded = convertBits (take (length values - 6) values) 5 8 False in
                     if length decoded \<noteq> 32 then Inl AdConvert
                     else Inr (hrp, decoded))))))"

definition AddressFromPublicKey :: "crypto \<Rightarrow> bytes \<Rightarrow> address" where
  "AddressFromPublicKey C pubKey = sha256 C pubKey"

definition AddressFromBytes :: "bytes \<Rightarrow> (address_error, address) result" where
  "AddressFromBytes data =
     (if length data \<noteq> 32 then Inl (AdBadLength (length data)) else Inr (hash_of_bytes data))"

definition AddressToString :: "address \<Rightarrow> (address_error, string) result" where
  "AddressToString addr = EncodeBech32m Bech32mHRP (hash_bytes addr)"

definition AddressFromString :: "unicode \<Rightarrow> string \<Rightarrow> (address_error, address) result" where
  "AddressFromString U encoded =
     rbind (DecodeBech32m U encoded) (\<lambda>(_, data). Inr (hash_of_bytes data))"

definition ValidateAddress :: "unicode \<Rightarrow> string \<Rightarrow> (address_error, unit) result" where
  "ValidateAddress U encoded =
     rbind (DecodeBech32m U encoded) (\<lambda>(_, data).
       if length data \<noteq> 32 then Inl (AdBadLength (length data)) else Inr ())"

definition AddressEqual :: "address \<Rightarrow> address \<Rightarrow> bool" where
  "AddressEqual a b \<longleftrightarrow> a = b"

definition IsZeroAddress :: "address \<Rightarrow> bool" where
  "IsZeroAddress addr \<longleftrightarrow> addr = 0"

section \<open>The bits of a regrouped sequence\<close>

text \<open>The lowest \<open>n\<close> bits of a word, the most significant one first.\<close>

definition bits_of :: "nat \<Rightarrow> 'a::len word \<Rightarrow> bool list" where
  "bits_of n w = map (bit w) (rev [0..<n])"

abbreviation bit_stream :: "nat \<Rightarrow> bytes \<Rightarrow> bool list" where
  "bit_stream n bs \<equiv> concat (map (bits_of n) bs)"

lemma length_bits_of [simp]: "length (bits_of n w) = n"
  by (simp add: bits_of_def)

lemma length_bit_stream [simp]: "length (bit_stream n bs) = n * length bs"
  by (induction bs) auto

lemma bits_of_0 [simp]: "bits_of 0 w = []"
  by (simp add: bits_of_def)

lemma bits_of_add: "bits_of (m + n) w = bits_of m (drop_bit n w) @ bits_of n w"
proof (rule nth_equalityI)
  fix i assume "i < length (bits_of (m + n) w)"
  then show "bits_of (m + n) w ! i = (bits_of m (drop_bit n w) @ bits_of n w) ! i"
    by (cases "i < m") (auto simp: bits_of_def nth_append rev_nth bit_drop_bit_eq add.commute)
qed simp

lemma bits_of_cong: "(\<And>i. i < n \<Longrightarrow> bit v i = bit w i) \<Longrightarrow> bits_of n v = bits_of n w"
  by (simp add: bits_of_def)

lemma bits_of_inject: "bits_of 8 (a :: byte) = bits_of 8 b \<longleftrightarrow> a = b"
  by (auto simp: bits_of_def bit_eq_iff)

lemma bit_maxv: "bit (maxv n) i \<longleftrightarrow> i < n \<and> i < 64"
  by (simp add: maxv_def bit_mask_iff conj_commute flip: mask_eq_decr_exp)

lemma bit_emitted:
  assumes "i < toBits" "toBits \<le> 8" "b + toBits \<le> 64"
  shows "bit (ucast (signed_drop_bit b (acc :: goint) AND maxv toBits) :: byte) i = bit acc (b + i)"
  using assms by (auto simp: bit_ucast_iff bit_and_iff bit_maxv bit_signed_drop_bit_iff)

lemma emit_groups_bits:
  "0 < toBits \<Longrightarrow> toBits \<le> 8 \<Longrightarrow> bits \<le> 64 \<Longrightarrow> emit_groups acc bits toBits = (r, b) \<Longrightarrow>
   bit_stream toBits r @ bits_of b acc = bits_of bits acc \<and> b < toBits"
proof (induction acc bits toBits arbitrary: r b rule: emit_groups.induct)
  case (1 acc bits toBits)
  show ?case
  proof (cases "bits < toBits")
    case True
    with 1 show ?thesis by (simp add: emit_groups.simps [of acc bits])
  next
    case False
    obtain r' where r': "emit_groups acc (bits - toBits) toBits = (r', b)"
      and r: "r = ucast (signed_drop_bit (bits - toBits) acc AND maxv toBits) # r'"
      using "1.prems" False by (auto simp: emit_groups.simps [of acc bits] Let_def split: prod.splits)
    have "bits_of toBits (hd r) = bits_of toBits (drop_bit (bits - toBits) acc)"
      using "1.prems" False
      by (intro bits_of_cong) (simp add: r bit_emitted bit_drop_bit_eq del: add_diff_assoc2)
    moreover have "bit_stream toBits r' @ bits_of b acc = bits_of (bits - toBits) acc \<and> b < toBits"
      using "1.prems" False r' by (intro "1.IH") (auto simp: r')
    ultimately show ?thesis
      using bits_of_add [of toBits "bits - toBits" acc] False by (simp add: r)
  qed
qed

lemma push_or_bits:
  assumes "\<forall>i \<ge> fromBits. \<not> bit (b :: byte) i" "bits + fromBits \<le> 64"
  shows "bits_of (bits + fromBits) (push_bit fromBits (acc :: goint) OR ucast b) = bits_of bits acc @ bits_of fromBits b"
proof -
  have "bits_of bits (drop_bit fromBits (push_bit fromBits acc OR ucast b)) = bits_of bits acc"
    using assms by (intro bits_of_cong) (auto simp: bit_drop_bit_eq bit_or_iff bit_push_bit_iff bit_ucast_iff)
  moreover have "bits_of fromBits (push_bit fromBits acc OR ucast b) = bits_of fromBits b"
    using assms by (intro bits_of_cong) (auto simp: bit_or_iff bit_push_bit_iff bit_ucast_iff)
  ultimately show ?thesis by (simp add: bits_of_add)
qed

lemma convert_loop_bits:
  "\<lbrakk>0 < toBits; toBits \<le> 8; fromBits \<le> 8; bits < toBits; \<forall>b \<in> set bs. \<forall>i \<ge> fromBits. \<not> bit b i;
    convert_loop bs fromBits toBits acc bits = (r, acc', bits')\<rbrakk> \<Longrightarrow>
   bit_stream toBits r @ bits_of bits' acc' = bits_of bits acc @ bit_stream fromBits bs \<and> bits' < toBits"
proof (induction bs arbitrary: acc bits r)
  case (Cons b bs)
  let ?acc = "push_bit fromBits acc OR ucast b"
  obtain out bits1 rest where out: "emit_groups ?acc (bits + fromBits) toBits = (out, bits1)"
    and rest: "convert_loop bs fromBits toBits ?acc bits1 = (rest, acc', bits')" and r: "r = out @ rest"
    using Cons.prems(6) by (auto simp: Let_def split: prod.splits)
  have e: "bit_stream toBits out @ bits_of bits1 ?acc = bits_of (bits + fromBits) ?acc \<and> bits1 < toBits"
    using Cons.prems out by (intro emit_groups_bits) auto
  have p: "bits_of (bits + fromBits) ?acc = bits_of bits acc @ bits_of fromBits b"
    using Cons.prems by (intro push_or_bits) auto
  have "bit_stream toBits rest @ bits_of bits' acc' = bits_of bits1 ?acc @ bit_stream fromBits bs \<and> bits' < toBits"
    using Cons.prems e rest by (intro Cons.IH) auto
  then show ?case
    using e p by (metis (no_types, lifting) append.assoc concat.simps(2) concat_append list.simps(9) map_append r)
qed simp

lemma bit_stream_inject:
  "bit_stream 8 xs @ l = bit_stream 8 ys @ k \<Longrightarrow> length l < 8 \<Longrightarrow> length k < 8 \<Longrightarrow> xs = ys"
proof (induction xs arbitrary: ys)
  case Nil
  have "length l = 8 * length ys + length k"
    using arg_cong [OF Nil.prems(1), of length] by simp
  with Nil.prems(2) show ?case by (cases ys) auto
next
  case (Cons x xs)
  have "8 + 8 * length xs + length l = 8 * length ys + length k"
    using arg_cong [OF Cons.prems(1), of length] by simp
  with Cons.prems(3) obtain y ys' where ys: "ys = y # ys'"
    by (cases ys) auto
  with Cons.prems(1) have "bits_of 8 x = bits_of 8 y" "bit_stream 8 xs @ l = bit_stream 8 ys' @ k"
    by (auto simp: append_eq_append_conv)
  with Cons show ?case by (simp add: ys bits_of_inject)
qed

lemma bit_replicate_pad: "bits < toBits \<Longrightarrow> toBits \<le> 8 \<Longrightarrow>
   bits_of toBits (ucast (push_bit (toBits - bits) (acc :: goint) AND maxv toBits) :: byte)
   = bits_of bits acc @ replicate (toBits - bits) False"
proof (rule nth_equalityI)
  fix i assume a: "bits < toBits" "toBits \<le> 8"
    and "i < length (bits_of toBits (ucast (push_bit (toBits - bits) acc AND maxv toBits) :: byte))"
  then show "bits_of toBits (ucast (push_bit (toBits - bits) acc AND maxv toBits) :: byte) ! i
    = (bits_of bits acc @ replicate (toBits - bits) False) ! i"
    by (cases "i < bits")
      (auto simp: bits_of_def nth_append rev_nth bit_ucast_iff bit_and_iff bit_push_bit_iff bit_maxv)
qed simp

text \<open>Padding when encoding writes zero bits, and the encoded bits are the bits of the data.\<close>

lemma convertBits_8_5:
  obtains p where "bit_stream 5 (convertBits data 8 5 True) = bit_stream 8 data @ replicate p False" "p < 5"
proof -
  obtain r acc bits where run: "convert_loop data 8 5 0 0 = (r, acc, bits)"
    by (metis prod_cases3)
  have "\<not> bit (b :: byte) i" if "i \<ge> 8" for b i
    using that bit_imp_le_length [of b i] by auto
  then have s: "bit_stream 5 r @ bits_of bits acc = bit_stream 8 data \<and> bits < 5"
    using convert_loop_bits [of 5 8 0 data 0 r acc bits] run by simp
  show thesis
  proof (cases "bits = 0")
    case True
    with s run show thesis by (intro that [of 0]) (simp_all add: convertBits_def)
  next
    case False
    with s run show thesis
      by (intro that [of "5 - bits"]) (auto simp: convertBits_def bit_replicate_pad)
  qed
qed

lemma bit_small_byte:
  assumes "unat (v :: byte) < 2 ^ n" and "n \<le> i"
  shows "\<not> bit v i"
proof -
  have "take_bit n (unat v) = unat v"
    using assms(1) by (rule take_bit_nat_eq_self)
  then have "\<not> bit (unat v) i"
    using assms(2) by (metis bit_take_bit_iff not_le)
  then show ?thesis by (simp add: bit_unsigned_iff)
qed

lemma maxv_5: "maxv 5 = 31"
  by (simp add: maxv_def)

lemma and31_take_bit: "w AND 31 = take_bit 5 (w :: goint)"
  by (simp add: take_bit_eq_mask mask_eq_exp_minus_1)

lemma and31_small: "unat (ucast (w AND 31 :: goint) :: byte) < 32"
proof -
  have "take_bit 8 (take_bit 5 (unat w)) < (2 :: nat) ^ 5"
    using take_bit_nat_less_exp [of 5 "unat w"] by simp
  then show ?thesis
    by (simp add: and31_take_bit unsigned_ucast_eq unsigned_take_bit_eq)
qed

lemma emit_groups_small: "v \<in> set (fst (emit_groups acc bits 5)) \<Longrightarrow> unat v < 32"
proof (induction acc bits "5 :: nat" rule: emit_groups.induct)
  case (1 acc bits)
  then show ?case
    using and31_small by (auto simp: emit_groups.simps [of acc bits] maxv_5 Let_def split: prod.splits if_splits)
qed

lemma convert_loop_small: "v \<in> set (fst (convert_loop bs n 5 acc bits)) \<Longrightarrow> unat v < 32"
proof (induction bs arbitrary: acc bits)
  case (Cons b bs)
  let ?acc = "push_bit n acc OR ucast b"
  from Cons.prems have "v \<in> set (fst (emit_groups ?acc (bits + n) 5))
      \<or> v \<in> set (fst (convert_loop bs n 5 ?acc (snd (emit_groups ?acc (bits + n) 5))))"
    by (auto simp: Let_def split: prod.splits)
  then show ?case
    using emit_groups_small Cons.IH by blast
qed simp

lemma convertBits_5_small: "v \<in> set (convertBits data n 5 pad) \<Longrightarrow> unat v < 32"
proof -
  obtain r acc bits where run: "convert_loop data n 5 0 0 = (r, acc, bits)"
    by (metis prod_cases3)
  assume "v \<in> set (convertBits data n 5 pad)"
  then show ?thesis
    using convert_loop_small [of v data n 0 0] and31_small
    by (auto simp: convertBits_def maxv_5 run split: if_splits)
qed

lemma convertBits_roundtrip: "convertBits (convertBits data 8 5 True) 5 8 False = data"
proof -
  let ?v = "convertBits data 8 5 True"
  obtain p where p: "bit_stream 5 ?v = bit_stream 8 data @ replicate p False" "p < 5"
    by (rule convertBits_8_5)
  obtain r acc bits where run: "convert_loop ?v 5 8 0 0 = (r, acc, bits)"
    by (metis prod_cases3)
  have "\<forall>b \<in> set ?v. \<forall>i \<ge> 5. \<not> bit b i"
    using bit_small_byte [where n = 5] convertBits_5_small by fastforce
  then have "bit_stream 8 r @ bits_of bits acc = bit_stream 5 ?v \<and> bits < 8"
    using convert_loop_bits [of 8 5 0 ?v 0 r acc bits] run by simp
  then have "r = data"
    using p by (intro bit_stream_inject [of r "bits_of bits acc" data "replicate p False"]) auto
  then show ?thesis
    using run by (simp add: convertBits_def)
qed

section \<open>The checksum is linear\<close>

text \<open>The multiple of the generator that a step adds, chosen by the five bits that leave the register.\<close>

definition mix :: "goint \<Rightarrow> goint" where
  "mix t = (if bit t 0 then generators ! 0 else 0) XOR (if bit t 1 then generators ! 1 else 0)
     XOR (if bit t 2 then generators ! 2 else 0) XOR (if bit t 3 then generators ! 3 else 0)
     XOR (if bit t 4 then generators ! 4 else 0)"

definition shift_step :: "goint \<Rightarrow> goint" where
  "shift_step chk = push_bit 5 (chk AND 0x1ffffff) XOR mix (signed_drop_bit 25 chk)"

lemma test_bit_mask: "signed_drop_bit i (t :: goint) AND 1 = 1 \<longleftrightarrow> bit (signed_drop_bit i t) 0"
  by (simp add: and_one_eq bit_0 mod_2_eq_odd)

lemma if_xor: "(if p then c XOR g else c) = c XOR (if p then g else (0 :: goint))"
  by simp

lemma polymod_step_eq: "polymod_step chk v = shift_step chk XOR ucast v"
proof -
  have bits: "bit (signed_drop_bit i t) 0 = bit t i" if "i < 5" for i and t :: goint
    using that by (simp add: bit_signed_drop_bit_iff)
  have "[0..<5] = [0, 1, 2, 3, 4 :: nat]"
    by code_simp
  then show ?thesis
    unfolding polymod_step_def shift_step_def mix_def test_bit_mask Let_def if_xor
    by (simp only: foldl.simps bits [of 0] bits [of 1] bits [of 2] bits [of 3] bits [of 4] ac_simps)
qed

lemma xor_if: "(if p \<noteq> q then g else 0) = (if p then g else 0) XOR (if q then g else (0 :: goint))"
  by auto

lemma mix_xor: "mix (a XOR b) = mix a XOR mix b"
  unfolding mix_def bit_xor_iff xor_if by (simp only: ac_simps)

lemma shift_step_xor: "shift_step (a XOR b) = shift_step a XOR shift_step b"
proof -
  have d: "signed_drop_bit 25 (a XOR b) = signed_drop_bit 25 a XOR signed_drop_bit 25 b"
    by (rule bit_eqI) (simp add: bit_signed_drop_bit_iff bit_xor_iff)
  have p: "push_bit 5 ((a XOR b) AND m) = push_bit 5 (a AND m) XOR push_bit 5 (b AND m)" for m
    by (rule bit_eqI) (auto simp: bit_push_bit_iff bit_and_iff bit_xor_iff)
  show ?thesis
    unfolding shift_step_def d p mix_xor by (simp only: xor.assoc xor.commute xor.left_commute)
qed

lemma polymod_step_xor: "polymod_step (a XOR b) (v XOR w) = polymod_step a v XOR polymod_step b w"
proof -
  have u: "(ucast (v XOR w) :: goint) = ucast v XOR ucast w"
    by (rule bit_eqI) (auto simp: bit_ucast_iff bit_xor_iff)
  show ?thesis
    unfolding polymod_step_eq shift_step_xor u by (simp only: xor.assoc xor.commute xor.left_commute)
qed

lemma polymod_xor:
  "length vs = length ws \<Longrightarrow>
   foldl polymod_step (a XOR b) (map2 (XOR) vs ws) = foldl polymod_step a vs XOR foldl polymod_step b ws"
  by (induction vs ws arbitrary: a b rule: list_induct2) (simp_all add: polymod_step_xor)

text \<open>The register holds thirty bits.\<close>

abbreviation reg30 :: "goint \<Rightarrow> bool" where
  "reg30 x \<equiv> take_bit 30 x = x"

lemma reg30_bit: "reg30 x \<Longrightarrow> 30 \<le> i \<Longrightarrow> \<not> bit x i"
  by (metis bit_take_bit_iff not_le)

lemma reg30_xor: "reg30 x \<Longrightarrow> reg30 y \<Longrightarrow> reg30 (x XOR y)"
  by (simp add: take_bit_xor)

lemma reg30_mix: "reg30 (mix t)"
  unfolding mix_def generators_def by (intro reg30_xor) simp_all

lemma bit_mask25: "bit (0x1ffffff :: goint) i \<longleftrightarrow> i < 25"
  using bit_mask_iff [of 25 i, where 'a = goint] by (auto simp: mask_eq_exp_minus_1)

lemma reg30_push: "(\<And>i. bit m i \<Longrightarrow> i < 25) \<Longrightarrow> reg30 (push_bit 5 (chk AND m))"
  by (rule bit_eqI) (fastforce simp: bit_take_bit_iff bit_push_bit_iff bit_and_iff)

lemma reg30_step: "reg30 (polymod_step chk v)"
proof -
  have "reg30 (push_bit 5 (chk AND 0x1ffffff))"
    using bit_mask25 by (intro reg30_push) blast
  moreover have "reg30 (ucast v)"
    by (rule bit_eqI) (auto simp: bit_take_bit_iff bit_ucast_iff dest: bit_imp_le_length)
  ultimately show ?thesis
    unfolding polymod_step_eq shift_step_def by (intro reg30_xor reg30_mix)
qed

lemma reg30_polymod: "reg30 chk \<Longrightarrow> reg30 (foldl polymod_step chk vs)"
  by (induction vs arbitrary: chk) (simp_all add: reg30_step)

lemma signed_drop_reg30: "reg30 x \<Longrightarrow> signed_drop_bit n x = drop_bit n x"
  by (rule bit_eqI) (auto simp: bit_signed_drop_bit_iff bit_drop_bit_eq reg30_bit)

lemma polymod_step_digit:
  assumes "reg30 x"
  shows "polymod_step (drop_bit (n + 5) x) (ucast (drop_bit n x AND 31)) = drop_bit n x"
proof -
  have r: "reg30 (drop_bit (n + 5) x)"
  proof (rule bit_eqI)
    fix i show "bit (take_bit 30 (drop_bit (n + 5) x)) i = bit (drop_bit (n + 5) x) i"
      by (cases "i < 30") (simp_all add: bit_take_bit_iff bit_drop_bit_eq reg30_bit [OF assms])
  qed
  have "drop_bit 25 (drop_bit (n + 5) x) = 0"
    by (rule bit_eqI) (simp add: bit_drop_bit_eq reg30_bit [OF assms])
  then have m: "mix (signed_drop_bit 25 (drop_bit (n + 5) x)) = 0"
    by (simp add: signed_drop_reg30 [OF r] mix_def del: drop_bit_drop_bit)
  have a: "drop_bit (n + 5) x AND 0x1ffffff = drop_bit (n + 5) x"
  proof (rule bit_eqI)
    fix i show "bit (drop_bit (n + 5) x AND 0x1ffffff) i = bit (drop_bit (n + 5) x) i"
      by (cases "i < 25") (simp_all only: bit_and_iff bit_mask25 bit_drop_bit_eq, simp_all add: reg30_bit [OF assms])
  qed
  show ?thesis
  proof (rule bit_eqI)
    fix i
    show "bit (polymod_step (drop_bit (n + 5) x) (ucast (drop_bit n x AND 31))) i = bit (drop_bit n x) i"
      unfolding polymod_step_eq shift_step_def m a and31_take_bit
      by (cases "i < 5")
        (auto simp: bit_xor_iff bit_push_bit_iff bit_and_iff bit_drop_bit_eq bit_ucast_iff bit_take_bit_iff
          reg30_bit [OF assms] not_less dest: bit_imp_le_length)
  qed
qed

lemma checksum_digits:
  assumes "reg30 x"
  shows "foldl polymod_step 0 (map (\<lambda>i. ucast (signed_drop_bit (5 * (5 - i)) x AND 31)) [0..<6]) = x"
proof -
  have "[0..<6] = [0, 1, 2, 3, 4, 5 :: nat]"
    by code_simp
  moreover have "0 = drop_bit 30 x"
    by (rule bit_eqI) (simp add: bit_drop_bit_eq reg30_bit [OF assms])
  ultimately show ?thesis
    using polymod_step_digit [OF assms, of 25] polymod_step_digit [OF assms, of 20] polymod_step_digit [OF assms, of 15]
      polymod_step_digit [OF assms, of 10] polymod_step_digit [OF assms, of 5] polymod_step_digit [OF assms, of 0]
    by (simp add: signed_drop_reg30 [OF assms])
qed

lemma verify_checksum: "verifyBech32mChecksum hrp (data @ bech32mChecksum hrp data)"
proof -
  let ?a = "foldl polymod_step 1 (expandHrp hrp @ data)"
  let ?z = "[0, 0, 0, 0, 0, 0] :: bytes"
  let ?p = "foldl polymod_step ?a ?z XOR bech32mConst"
  let ?c = "bech32mChecksum hrp data"
  have "reg30 ?p"
    by (intro reg30_xor reg30_polymod) (simp_all add: bech32mConst_def)
  then have c: "foldl polymod_step 0 ?c = ?p"
    using checksum_digits [of ?p] by (simp add: bech32mChecksum_def bech32mPolymod_def Let_def)
  have len: "length ?c = 6"
    by (simp add: bech32mChecksum_def Let_def)
  then have "map2 (XOR) ?z ?c = ?c"
    by (intro nth_equalityI) (auto simp: nth_Cons' numeral_eq_Suc)
  then have "foldl polymod_step ?a ?c = foldl polymod_step ?a ?z XOR foldl polymod_step 0 ?c"
    using polymod_xor [of ?z ?c ?a 0] len by simp
  then show ?thesis
    unfolding c by (simp add: verifyBech32mChecksum_def bech32mPolymod_def xor.assoc [symmetric])
qed

section \<open>Error detection\<close>

text \<open>The five generators are independent in their lowest five bits, so a step loses nothing.\<close>

lemma mix_low_bits:
  assumes "take_bit 5 (mix t) = 0" and "i < 5"
  shows "\<not> bit t i"
proof -
  have "take_bit 5 (mix t) = (if bit t 0 then 18 else 0) XOR (if bit t 1 then 13 else 0)
      XOR (if bit t 2 then 26 else 0) XOR (if bit t 3 then 29 else 0) XOR (if bit t 4 then 19 else 0)"
    by (simp add: mix_def generators_def take_bit_xor if_distrib [of "take_bit 5"])
  with assms(1) have "\<not> bit t 0 \<and> \<not> bit t 1 \<and> \<not> bit t 2 \<and> \<not> bit t 3 \<and> \<not> bit t 4"
    by (simp split: if_splits)
  moreover have "i = 0 \<or> i = 1 \<or> i = 2 \<or> i = 3 \<or> i = 4"
    using assms(2) by linarith
  ultimately show ?thesis by auto
qed

lemma shift_step_0_iff:
  assumes "reg30 x"
  shows "shift_step x = 0 \<longleftrightarrow> x = 0"
proof
  assume z: "shift_step x = 0"
  have "take_bit 5 (push_bit 5 y) = 0" for y :: goint
    by (rule bit_eqI) (simp add: bit_take_bit_iff bit_push_bit_iff)
  then have "take_bit 5 (mix (signed_drop_bit 25 x)) = take_bit 5 (shift_step x)"
    by (simp only: shift_step_def take_bit_xor xor.left_neutral)
  then have mix0: "take_bit 5 (mix (signed_drop_bit 25 x)) = 0"
    using z by simp
  then have top: "\<not> bit x (25 + i)" if "i < 5" for i
    using mix_low_bits [OF mix0 that] by (simp add: signed_drop_reg30 [OF assms] bit_drop_bit_eq)
  have high: "\<not> bit x i" if "25 \<le> i" for i
    using top [of "i - 25"] reg30_bit [OF assms, of i] that by (cases "i < 30") auto
  have "drop_bit 25 x = 0"
    by (rule bit_eqI) (simp add: bit_drop_bit_eq high)
  then have "mix (signed_drop_bit 25 x) = 0"
    by (simp add: signed_drop_reg30 [OF assms] mix_def)
  with z have "push_bit 5 (x AND 0x1ffffff) = 0"
    by (simp only: shift_step_def xor.right_neutral)
  then have low: "\<not> bit (push_bit 5 (x AND 0x1ffffff)) (i + 5)" for i
    by (simp only: bit_0_eq) simp
  have "\<not> bit x i" if "i < 25" for i
    using that low [of i] by (simp only: bit_push_bit_iff bit_and_iff bit_mask25) auto
  with high show "x = 0"
    by (intro bit_eqI) (simp, meson not_less)
qed (simp add: shift_step_def mix_def)

lemma polymod_zeros: "reg30 x \<Longrightarrow> foldl polymod_step x (replicate n 0) = 0 \<longleftrightarrow> x = 0"
proof (induction n arbitrary: x)
  case (Suc n)
  have "polymod_step x 0 = shift_step x"
    by (simp add: polymod_step_eq)
  with Suc reg30_step [of x 0] shift_step_0_iff [of x] show ?case by simp
qed simp

lemma map2_xor_update:
  "i < length (vs :: bytes) \<Longrightarrow>
   map2 (XOR) vs (vs[i := w]) = replicate i 0 @ [vs ! i XOR w] @ replicate (length vs - Suc i) 0"
  by (intro nth_equalityI) (auto simp: nth_append nth_list_update nth_Cons')

lemma ucast_ucast_byte: "ucast (ucast (b :: byte) :: goint) = b"
  by (rule bit_eqI) (auto simp: bit_ucast_iff dest: bit_imp_le_length)

lemma polymod_substitution:
  assumes "i < length vs" and "vs ! i \<noteq> w"
  shows "foldl polymod_step a vs \<noteq> foldl polymod_step a (vs[i := w])"
proof
  assume "foldl polymod_step a vs = foldl polymod_step a (vs[i := w])"
  then have "foldl polymod_step 0 (map2 (XOR) vs (vs[i := w])) = 0"
    using polymod_xor [of vs "vs[i := w]" a a] by simp
  then have "foldl polymod_step (polymod_step 0 (vs ! i XOR w)) (replicate (length vs - Suc i) 0) = 0"
    using polymod_zeros [of 0 i] by (simp add: map2_xor_update [OF assms(1)])
  then have "polymod_step 0 (vs ! i XOR w) = 0"
    using polymod_zeros [OF reg30_step] by blast
  then have "(ucast (vs ! i XOR w) :: goint) = 0"
    by (simp add: polymod_step_eq shift_step_def mix_def)
  then have "vs ! i XOR w = 0"
    by (metis ucast_0 ucast_ucast_byte)
  then show False
    using assms(2) by (metis xor.assoc xor.left_neutral xor.right_neutral xor_self_eq)
qed

section \<open>Characters\<close>

lemma charset_facts:
  "length charset = 32" "distinct charset"
  "\<forall>c \<in> set (''aib1'' @ charset). of_char c < (128 :: nat) \<and> lower_char c = c \<and> lower_char (upper_char c) = c
     \<and> of_char (upper_char c) < (128 :: nat) \<and> upper_char (upper_char c) = upper_char c"
  by code_simp+

lemma IndexByte_nth: "distinct xs \<Longrightarrow> n < length xs \<Longrightarrow> IndexByte xs (xs ! n) = Some n"
  by (induction xs arbitrary: n) (auto simp: nth_Cons split: nat.splits)

lemma IndexByte_Some: "IndexByte xs c = Some n \<Longrightarrow> n < length xs \<and> xs ! n = c"
  by (induction xs arbitrary: n) (auto split: if_splits)

definition char_of_value :: "byte \<Rightarrow> char" where
  "char_of_value v = charset ! unat v"

lemma encode_chars_eq: "\<forall>v \<in> set vs. unat v < 32 \<Longrightarrow> encode_chars vs = Inr (map char_of_value vs)"
  by (induction vs) (auto simp: charset_facts char_of_value_def)

lemma IndexByte_charset: "IndexByte charset c = Some (unat v) \<longleftrightarrow> c = char_of_value v \<and> unat v < 32"
  using IndexByte_nth [of charset "unat v"] IndexByte_Some [of charset c "unat v"]
  by (auto simp: charset_facts char_of_value_def)

lemma IndexByte_charset_cases:
  obtains (none) "IndexByte charset c = None" | (some) v :: byte where "IndexByte charset c = Some (unat v)"
proof (cases "IndexByte charset c")
  case (Some idx)
  then have "unat (of_nat idx :: byte) = idx"
    using IndexByte_Some [OF Some] by (simp add: charset_facts unat_of_nat)
  with Some show thesis by (metis some)
qed (rule none)

lemma decode_chars_iff:
  "decode_chars s = Inr vs \<longleftrightarrow> s = map char_of_value vs \<and> (\<forall>v \<in> set vs. unat v < 32)"
proof (induction s arbitrary: vs)
  case (Cons c s)
  show ?case
  proof (cases c rule: IndexByte_charset_cases)
    case none
    then show ?thesis
      using IndexByte_charset [of c] by (cases vs) auto
  next
    case (some v)
    then have "c = char_of_value w \<and> unat w < 32 \<longleftrightarrow> w = v" for w
      using IndexByte_charset [of c w] by (auto simp: word_unat_eq_iff)
    with some Cons.IH show ?thesis
      by (cases vs) (auto simp: rbind_Inr_iff, metis)
  qed
qed auto

lemma set_char_of_value: "\<forall>v \<in> set vs. unat v < 32 \<Longrightarrow> set (map char_of_value vs) \<subseteq> set charset"
  using charset_facts(1) by (auto simp: char_of_value_def)

definition address_string :: "bytes \<Rightarrow> string" where
  "address_string vs = ''aib1'' @ map char_of_value vs"

lemma address_string_case:
  assumes "\<forall>v \<in> set vs. unat v < 32"
  shows "ToLower U (address_string vs) = address_string vs"
    and "ToLower U (map upper_char (address_string vs)) = address_string vs"
    and "ToUpper U (map upper_char (address_string vs)) = map upper_char (address_string vs)"
proof -
  let ?s = "address_string vs"
  have "set ?s \<subseteq> set (''aib1'' @ charset)"
    using set_char_of_value [OF assms] unfolding address_string_def by auto
  then have c: "of_char c < (128 :: nat) \<and> lower_char c = c \<and> lower_char (upper_char c) = c
     \<and> of_char (upper_char c) < (128 :: nat) \<and> upper_char (upper_char c) = upper_char c" if "c \<in> set ?s" for c
    using charset_facts(3) that by blast
  then have ascii: "is_ascii ?s" "is_ascii (map upper_char ?s)"
    by (auto simp: is_ascii_def)
  have "map lower_char ?s = ?s" "map lower_char (map upper_char ?s) = ?s"
    "map upper_char (map upper_char ?s) = map upper_char ?s"
    using c by (simp_all add: map_idI)
  with ascii show "ToLower U ?s = ?s" "ToLower U (map upper_char ?s) = ?s"
    "ToUpper U (map upper_char ?s) = map upper_char ?s"
    by (simp_all only: ToLower_def ToUpper_def if_True)
qed

text \<open>What the decoder does with a string in the address alphabet, in either case.\<close>

definition decode_values :: "bytes \<Rightarrow> (address_error, string \<times> bytes) result" where
  "decode_values vs =
     (if \<not> verifyBech32mChecksum (string_bytes Bech32mHRP) vs then Inl AdChecksum
      else (let decoded = convertBits (take (length vs - 6) vs) 5 8 False in
            if length decoded \<noteq> 32 then Inl AdConvert else Inr (Bech32mHRP, decoded)))"

lemma DecodeBech32m_string:
  assumes "\<forall>v \<in> set vs. unat v < 32" and "10 \<le> length vs"
    and "encoded = address_string vs \<or> encoded = map upper_char (address_string vs)"
  shows "DecodeBech32m U encoded = decode_values vs"
proof -
  have low: "ToLower U encoded = address_string vs"
    and fixed: "encoded = ToLower U encoded \<or> encoded = ToUpper U encoded"
    using assms(3) address_string_case [OF assms(1)] by auto
  have len: "\<not> length encoded < 14"
    using assms(2,3) by (auto simp: address_string_def)
  have sep: "IndexByte (address_string vs) (CHR ''1'') = Some 3"
    and hrp: "take 3 (address_string vs) = Bech32mHRP"
    and data: "drop 4 (address_string vs) = map char_of_value vs"
    by (simp_all add: address_string_def Bech32mHRP_def)
  have "decode_chars (map char_of_value vs) = Inr vs"
    using assms(1) by (simp add: decode_chars_iff)
  then show ?thesis
    using len fixed assms(2) unfolding DecodeBech32m_def low
    by (auto simp: Let_def sep hrp data decode_values_def)
qed

lemma DecodeBech32m_Inr:
  assumes "DecodeBech32m U (''aib1'' @ d) = Inr r" and "set d \<subseteq> set charset"
  obtains vs where "''aib1'' @ d = address_string vs" "\<forall>v \<in> set vs. unat v < 32" "10 \<le> length vs"
proof -
  have "\<exists>v. c = char_of_value v \<and> unat v < 32" if "c \<in> set d" for c
  proof -
    from that assms(2) obtain n where "n < 32" "c = charset ! n"
      by (metis charset_facts(1) in_set_conv_nth subsetD)
    then show ?thesis
      by (intro exI [of _ "of_nat n"]) (simp add: char_of_value_def unat_of_nat)
  qed
  then obtain f where "\<forall>c \<in> set d. c = char_of_value (f c) \<and> unat (f c) < 32"
    by metis
  then have "d = map char_of_value (map f d) \<and> (\<forall>v \<in> set (map f d). unat v < 32)"
    by (auto simp: map_idI)
  moreover have "10 \<le> length d"
    using assms(1) by (auto simp: DecodeBech32m_def split: if_splits)
  ultimately show thesis
    by (intro that [of "map f d"]) (auto simp: address_string_def)
qed

lemma bech32mChecksum_small: "v \<in> set (bech32mChecksum hrp data) \<Longrightarrow> unat v < 32"
  using and31_small by (auto simp: bech32mChecksum_def Let_def)

lemma length_bech32mChecksum [simp]: "length (bech32mChecksum hrp data) = 6"
  by (simp add: bech32mChecksum_def Let_def)

lemma length_convertBits_32: "length data = 32 \<Longrightarrow> length (convertBits data 8 5 True) = 52"
proof -
  assume "length data = 32"
  moreover obtain p where "bit_stream 5 (convertBits data 8 5 True) = bit_stream 8 data @ replicate p False" "p < 5"
    by (rule convertBits_8_5)
  ultimately have "5 * length (convertBits data 8 5 True) = 256 + p"
    by (metis length_append length_bit_stream length_replicate numeral_times_numeral semiring_norm(11,12,13,14,15,16))
  with \<open>p < 5\<close> show ?thesis by presburger
qed

text \<open>A list of groups with the checksum appended decodes to the bytes it stands for.\<close>

lemma decode_with_checksum:
  assumes "length (convertBits vs 5 8 False) = 32"
  shows "decode_values (vs @ bech32mChecksum (string_bytes Bech32mHRP) vs) = Inr (Bech32mHRP, convertBits vs 5 8 False)"
  using assms by (simp add: decode_values_def verify_checksum Let_def)

lemma AddressToString_reads:
  obtains vs where "AddressToString a = Inr (address_string vs)" "\<forall>v \<in> set vs. unat v < 32" "length vs = 58"
    "decode_values vs = Inr (Bech32mHRP, hash_bytes a)"
proof -
  let ?v = "convertBits (hash_bytes a) 8 5 True"
  let ?w = "?v @ bech32mChecksum (string_bytes Bech32mHRP) ?v"
  have small: "\<forall>v \<in> set ?w. unat v < 32"
    using convertBits_5_small bech32mChecksum_small by auto
  have len: "length ?w = 58"
    by (simp add: length_convertBits_32)
  have "AddressToString a = Inr (address_string ?w)"
    using small by (simp add: AddressToString_def EncodeBech32m_def Let_def encode_chars_eq address_string_def Bech32mHRP_def)
  moreover have "decode_values ?w = Inr (Bech32mHRP, hash_bytes a)"
    using decode_with_checksum [of ?v] by (simp add: convertBits_roundtrip)
  ultimately show thesis
    using small len that by blast
qed

text \<open>C16. A mistyped character is always noticed: when an address string is accepted, replacing one character after
  the prefix by another one of the alphabet makes the checksum fail.\<close>

theorem address_typo_detected:
  assumes "DecodeBech32m U (''aib1'' @ d) = Inr r" and "set d \<subseteq> set charset"
    and "i < length d" and "c \<in> set charset" and "c \<noteq> d ! i"
  shows "DecodeBech32m U (''aib1'' @ d[i := c]) = Inl AdChecksum"
proof -
  obtain vs where vs: "''aib1'' @ d = address_string vs" "\<forall>v \<in> set vs. unat v < 32" "10 \<le> length vs"
    using DecodeBech32m_Inr assms(1,2) by blast
  then have d: "d = map char_of_value vs"
    by (simp add: address_string_def)
  obtain n where n: "n < 32" "c = charset ! n"
    using assms(4) by (metis charset_facts(1) in_set_conv_nth)
  let ?ws = "vs[i := of_nat n]"
  have w: "c = char_of_value (of_nat n)" "unat (of_nat n :: byte) < 32"
    using n by (simp_all add: char_of_value_def unat_of_nat)
  have typo: "''aib1'' @ d[i := c] = address_string ?ws"
    by (simp add: d w address_string_def map_update)
  have small: "\<forall>v \<in> set ?ws. unat v < 32"
    using vs(2) w(2) set_update_subset_insert by fastforce
  have "verifyBech32mChecksum (string_bytes Bech32mHRP) vs"
    using assms(1) vs by (auto simp: DecodeBech32m_string decode_values_def split: if_splits)
  moreover have "vs ! i \<noteq> of_nat n"
    using assms(3,5) w(1) d by auto
  ultimately have "\<not> verifyBech32mChecksum (string_bytes Bech32mHRP) ?ws"
    using polymod_substitution [of i vs "of_nat n" "foldl polymod_step 1 (expandHrp (string_bytes Bech32mHRP))"] assms(3) d
    by (simp add: verifyBech32mChecksum_def bech32mPolymod_def)
  then show ?thesis
    unfolding typo using small vs(3) by (simp add: DecodeBech32m_string decode_values_def)
qed

definition plain_unicode :: unicode where
  "plain_unicode = \<lparr>uc_lower = id, uc_upper = id\<rparr>"

definition checked_string :: "bytes \<Rightarrow> string" where
  "checked_string vs = map char_of_value (vs @ bech32mChecksum (string_bytes Bech32mHRP) vs)"

lemma checked_string_decodes:
  assumes "\<forall>v \<in> set vs. unat v < 32" and "length vs = 52" and "length (convertBits vs 5 8 False) = 32"
  shows "DecodeBech32m U (''aib1'' @ checked_string vs) = Inr (Bech32mHRP, convertBits vs 5 8 False)"
    and "set (checked_string vs) \<subseteq> set charset"
proof -
  let ?w = "vs @ bech32mChecksum (string_bytes Bech32mHRP) vs"
  have small: "\<forall>v \<in> set ?w. unat v < 32"
    using assms(1) bech32mChecksum_small by auto
  show "set (checked_string vs) \<subseteq> set charset"
    unfolding checked_string_def using small by (rule set_char_of_value)
  have "''aib1'' @ checked_string vs = address_string ?w"
    by (simp add: address_string_def checked_string_def)
  then show "DecodeBech32m U (''aib1'' @ checked_string vs) = Inr (Bech32mHRP, convertBits vs 5 8 False)"
    using small assms(2) DecodeBech32m_string [of ?w "address_string ?w" U] decode_with_checksum [OF assms(3)] by simp
qed

lemma zero_groups:
  "convertBits (replicate 52 0) 5 8 False = replicate 32 0"
  "convertBits (replicate 51 0 @ [1]) 5 8 False = replicate 32 0"
  by code_simp+

theorem address_typo_detected_witness:
  "DecodeBech32m plain_unicode (''aib1'' @ (checked_string (replicate 52 0))[0 := CHR ''p'']) = Inl AdChecksum"
proof (rule address_typo_detected)
  show "DecodeBech32m plain_unicode (''aib1'' @ checked_string (replicate 52 0)) = Inr (Bech32mHRP, replicate 32 0)"
    "set (checked_string (replicate 52 0)) \<subseteq> set charset"
    using checked_string_decodes [of "replicate 52 0"] by (simp_all add: zero_groups)
  show "0 < length (checked_string (replicate 52 0))"
    by (simp add: checked_string_def)
  show "CHR ''p'' \<in> set charset"
    by (simp add: charset_def)
  have "checked_string (replicate 52 0) ! 0 = CHR ''q''"
    by (simp add: checked_string_def nth_append char_of_value_def charset_def)
  then show "CHR ''p'' \<noteq> checked_string (replicate 52 0) ! 0"
    by simp
qed

text \<open>
  The four padding bits of the last group are not checked, as BIP 350 requires: a second string with a
  valid checksum stands for the zero address.
\<close>

lemma address_padding_ignored:
  "\<exists>s t. map lower_char s \<noteq> map lower_char t \<and> AddressFromString U s = Inr 0 \<and> AddressFromString U t = Inr 0"
proof -
  let ?s = "''aib1'' @ checked_string (replicate 52 0)"
  let ?t = "''aib1'' @ checked_string (replicate 51 0 @ [1])"
  have z: "hash_of_bytes (replicate 32 0) = 0"
    by code_simp
  have "AddressFromString U ?s = Inr 0" "AddressFromString U ?t = Inr 0"
    using checked_string_decodes(1) [of "replicate 52 0" U] checked_string_decodes(1) [of "replicate 51 0 @ [1]" U]
    by (simp_all add: AddressFromString_def zero_groups z del: append.simps)
  moreover have "map lower_char ?s ! 55 \<noteq> map lower_char ?t ! 55"
    by (simp add: checked_string_def nth_append char_of_value_def charset_def lower_char_def)
  ultimately show ?thesis by metis
qed

end
