(* ===== verification/Address_Display.thy ===== *)
theory Address_Display
  imports Address
begin

text \<open>
  \<^verbatim>\<open>pkg/utxo/address_display.go\<close>: the spellings of an address that are accepted from a user. A string of
  ASCII characters is trimmed and decoded here; what \<^verbatim>\<open>strings.TrimSpace\<close> does with other strings is a
  parameter, as are their letter cases.
\<close>

section \<open>Operations\<close>

definition is_space :: "char \<Rightarrow> bool" where
  "is_space c \<longleftrightarrow> (let n = of_char c :: nat in n = 9 \<or> n = 10 \<or> n = 11 \<or> n = 12 \<or> n = 13 \<or> n = 32)"

definition trim_ascii :: "string \<Rightarrow> string" where
  "trim_ascii s = rev (dropWhile is_space (rev (dropWhile is_space s)))"

record unicode_text = unicode +
  uc_trim :: "string \<Rightarrow> string"

definition TrimSpace :: "unicode_text \<Rightarrow> string \<Rightarrow> string" where
  "TrimSpace U s = (if is_ascii s then trim_ascii s else uc_trim U s)"

definition HasPrefix :: "string \<Rightarrow> string \<Rightarrow> bool" where
  "HasPrefix s p \<longleftrightarrow> take (length p) s = p"

definition fromHexChar :: "char \<Rightarrow> nat option" where
  "fromHexChar c =
     (let n = of_char c :: nat in
      if 48 \<le> n \<and> n \<le> 57 then Some (n - 48)
      else if 97 \<le> n \<and> n \<le> 102 then Some (n - 97 + 10)
      else if 65 \<le> n \<and> n \<le> 70 then Some (n - 65 + 10)
      else None)"

text \<open>\<^verbatim>\<open>hex.DecodeString\<close>.\<close>

fun hex_DecodeString :: "string \<Rightarrow> bytes option" where
  "hex_DecodeString [] = Some []"
| "hex_DecodeString [c] = None"
| "hex_DecodeString (a # b # cs) =
     do { x \<leftarrow> fromHexChar a; y \<leftarrow> fromHexChar b; bs \<leftarrow> hex_DecodeString cs; Some (of_nat (16 * x + y) # bs) }"

datatype display_error =
    DsEVMStyle
  | DsMixedCase
  | DsInvalid address_error
  | DsPrefix string
  | DsUnrecognized
  | DsLength nat

definition EncodeDisplayAddress :: "unicode_text \<Rightarrow> address \<Rightarrow> (address_error, string) result" where
  "EncodeDisplayAddress U addr =
     rbind (EncodeBech32m Bech32mHRP (hash_bytes addr)) (\<lambda>s. Inr (ToUpper (unicode.truncate U) s))"

definition MustEncodeDisplayAddress :: "unicode_text \<Rightarrow> address \<Rightarrow> string option" where
  "MustEncodeDisplayAddress U addr = (case EncodeDisplayAddress U addr of Inl e \<Rightarrow> None | Inr s \<Rightarrow> Some s)"

definition ParseAddressAny :: "unicode_text \<Rightarrow> string \<Rightarrow> (display_error, address) result" where
  "ParseAddressAny U s0 =
     (let s = TrimSpace U s0; V = unicode.truncate U; low = ToLower V s in
      if HasPrefix s ''0x'' \<or> HasPrefix s ''0X'' then Inl DsEVMStyle
      else if HasPrefix low (Bech32mHRP @ ''1'') then
        (if low \<noteq> s \<and> ToUpper V s \<noteq> s then Inl DsMixedCase
         else (case DecodeBech32m V low of
                 Inl e \<Rightarrow> Inl (DsInvalid e)
               | Inr (hrp, data) \<Rightarrow>
                   if hrp \<noteq> Bech32mHRP then Inl (DsPrefix hrp) else Inr (hash_of_bytes data)))
      else (case hex_DecodeString s of
              None \<Rightarrow> Inl DsUnrecognized
            | Some b \<Rightarrow> if length b \<noteq> 32 then Inl (DsLength (length b)) else Inr (hash_of_bytes b)))"

definition IsDisplayAddress :: "unicode_text \<Rightarrow> string \<Rightarrow> bool" where
  "IsDisplayAddress U s \<longleftrightarrow> HasPrefix (ToLower (unicode.truncate U) (TrimSpace U s)) (Bech32mHRP @ ''1'')"

section \<open>Trimming and hexadecimal digits\<close>

lemma trim_ascii_id: "\<forall>c \<in> set s. \<not> is_space c \<Longrightarrow> trim_ascii s = s"
proof -
  assume a: "\<forall>c \<in> set s. \<not> is_space c"
  have "dropWhile is_space s = s" "dropWhile is_space (rev s) = rev s"
    unfolding dropWhile_eq_self_iff using a hd_in_set [of s] hd_in_set [of "rev s"] by (simp_all, blast+)
  then show ?thesis by (simp add: trim_ascii_def)
qed

definition plain_char :: "char \<Rightarrow> bool" where
  "plain_char c \<longleftrightarrow> \<not> is_space c \<and> of_char c < (128 :: nat) \<and> lower_char c \<noteq> CHR ''i'' \<and> lower_char c \<noteq> CHR ''x''"

lemma hex_digits: "map hex_digit [0..<16] = ''0123456789abcdef''"
  by code_simp

lemma hex_digit_values: "map fromHexChar ''0123456789abcdef'' = map Some [0..<16]"
  "map (fromHexChar \<circ> upper_char) ''0123456789abcdef'' = map Some [0..<16]"
  by (simp_all add: fromHexChar_def upper_char_def upt_rec)

lemma hex_digit_plain: "\<forall>c \<in> set ''0123456789abcdef''. plain_char c \<and> plain_char (upper_char c)"
  by code_simp

lemma hex_digit_facts:
  assumes "n < 16"
  shows "fromHexChar (hex_digit n) = Some n" "fromHexChar (upper_char (hex_digit n)) = Some n"
    "plain_char (hex_digit n)" "plain_char (upper_char (hex_digit n))"
proof -
  have n: "hex_digit n = ''0123456789abcdef'' ! n" "n < length ''0123456789abcdef''"
    using assms hex_digits by (metis length_map length_upt diff_zero nth_map_upt add_0, simp)
  have "map fromHexChar ''0123456789abcdef'' ! n = Some n"
    "map (fromHexChar \<circ> upper_char) ''0123456789abcdef'' ! n = Some n"
    unfolding hex_digit_values using assms by simp_all
  then show "fromHexChar (hex_digit n) = Some n" "fromHexChar (upper_char (hex_digit n)) = Some n"
    unfolding n(1) using n(2) by (simp_all only: nth_map comp_apply)
  show "plain_char (hex_digit n)" "plain_char (upper_char (hex_digit n))"
    using hex_digit_plain nth_mem [OF n(2)] unfolding n(1) by blast+
qed

lemma byte_nibbles: "unat (b :: byte) div 16 < 16" "unat b mod 16 < 16"
  "of_nat (16 * (unat b div 16) + unat b mod 16) = b"
proof -
  show "unat b div 16 < 16"
    using unat_bound [of b] by simp
  show "of_nat (16 * (unat b div 16) + unat b mod 16) = b"
    by (simp only: mult_div_mod_eq) simp
qed simp

lemma hex_decode_string:
  "hex_DecodeString (hex_string bs) = Some bs"
  "hex_DecodeString (map upper_char (hex_string bs)) = Some bs"
proof -
  show "hex_DecodeString (hex_string bs) = Some bs"
    using hex_digit_facts byte_nibbles
    by (induction bs) (simp_all add: hex_string_def hex_byte_def del: of_nat_add of_nat_mult)
  show "hex_DecodeString (map upper_char (hex_string bs)) = Some bs"
    using hex_digit_facts byte_nibbles
    by (induction bs) (simp_all add: hex_string_def hex_byte_def del: of_nat_add of_nat_mult)
qed

lemma hex_string_plain: "c \<in> set (hex_string bs) \<Longrightarrow> plain_char c \<and> plain_char (upper_char c)"
  using byte_nibbles by (auto simp: hex_string_def hex_byte_def hex_digit_facts)

section \<open>Reading what was written\<close>

lemma letter_cases:
  "lower_char (CHR ''X'') = CHR ''x''" "lower_char (CHR ''x'') = CHR ''x''"
  "upper_char (CHR ''a'') = CHR ''A''"
  by code_simp+

lemma ParseAddressAny_hex:
  assumes plain: "\<forall>c \<in> set t. plain_char c" and dec: "hex_DecodeString t = Some (hash_bytes a)"
  shows "ParseAddressAny U t = Inr a"
proof -
  have ascii: "is_ascii t" and trim: "TrimSpace U t = t"
    using plain by (auto simp: is_ascii_def plain_char_def TrimSpace_def intro: trim_ascii_id)
  have chars: "lower_char c \<noteq> CHR ''i'' \<and> c \<noteq> CHR ''x'' \<and> c \<noteq> CHR ''X''" if "c \<in> set t" for c
    using plain that letter_cases by (auto simp: plain_char_def)
  have second: "\<not> HasPrefix u [p, q]" "\<not> HasPrefix u (p # q # r)" if "q \<notin> set u" for u p q r
    using that by (auto simp: HasPrefix_def dest!: in_set_takeD [of q] arg_cong [where f = set])
  have "\<not> HasPrefix t ''0x''" "\<not> HasPrefix t ''0X''"
    using chars by (auto intro!: second)
  moreover have "\<not> HasPrefix (map lower_char t) ''aib1''"
    using chars by (intro second) force
  ultimately show ?thesis
    using ascii dec by (simp add: ParseAddressAny_def Let_def trim ToLower_def Bech32mHRP_def)
qed

lemma address_alphabet_plain: "\<forall>c \<in> set (''aib1'' @ charset). \<not> is_space c \<and> \<not> is_space (upper_char c)"
  by code_simp

lemma ParseAddressAny_string:
  assumes "\<forall>v \<in> set vs. unat v < 32" and "length vs = 58" and "decode_values vs = Inr (Bech32mHRP, hash_bytes a)"
    and t: "t = address_string vs \<or> t = map upper_char (address_string vs)"
  shows "ParseAddressAny U t = Inr a"
proof -
  let ?V = "unicode.truncate U"
  have chars: "set (address_string vs) \<subseteq> set (''aib1'' @ charset)"
    using set_char_of_value [OF assms(1)] unfolding address_string_def by auto
  have "is_ascii t"
    using t chars charset_facts(3) unfolding is_ascii_def by (elim disjE) (auto simp only: set_map)
  moreover have "\<forall>c \<in> set t. \<not> is_space c"
    using t chars address_alphabet_plain by (elim disjE) (auto simp only: set_map)
  ultimately have trim: "TrimSpace U t = t"
    by (simp add: TrimSpace_def trim_ascii_id)
  have low: "ToLower ?V t = address_string vs" and up: "ToLower ?V t = t \<or> ToUpper ?V t = t"
    using t address_string_case [OF assms(1)] by auto
  have "DecodeBech32m ?V (address_string vs) = decode_values vs"
    using assms(1,2) by (intro DecodeBech32m_string) simp_all
  moreover have "HasPrefix (address_string vs) (Bech32mHRP @ ''1'')"
    by (simp add: HasPrefix_def address_string_def Bech32mHRP_def)
  moreover have "\<not> HasPrefix t ''0x''" "\<not> HasPrefix t ''0X''"
    using t by (auto simp: HasPrefix_def address_string_def letter_cases)
  ultimately show ?thesis
    unfolding ParseAddressAny_def Let_def trim low using up low assms(3) by auto
qed

text \<open>C17. Addresses survive every spelling the software prints: an address has a string of 62 characters that
  begins with the prefix of the chain; \<^verbatim>\<open>AddressFromString\<close> reads it back; and \<^verbatim>\<open>ParseAddressAny\<close> reads back that
  string, the upper-case form that is displayed, and the hexadecimal form in either case.\<close>

theorem address_roundtrip:
  "\<exists>s. AddressToString a = Inr s \<and> length s = 62 \<and> take 4 s = ''aib1''
     \<and> AddressFromString (unicode.truncate U) s = Inr a
     \<and> EncodeDisplayAddress U a = Inr (map upper_char s)
     \<and> ParseAddressAny U s = Inr a \<and> ParseAddressAny U (map upper_char s) = Inr a
     \<and> ParseAddressAny U (hex_string (hash_bytes a)) = Inr a
     \<and> ParseAddressAny U (map upper_char (hex_string (hash_bytes a))) = Inr a"
proof -
  obtain vs where vs: "AddressToString a = Inr (address_string vs)" "\<forall>v \<in> set vs. unat v < 32" "length vs = 58"
    "decode_values vs = Inr (Bech32mHRP, hash_bytes a)"
    by (rule AddressToString_reads)
  let ?s = "address_string vs"
  have "is_ascii ?s"
    using set_char_of_value [OF vs(2)] charset_facts(3) unfolding is_ascii_def address_string_def by auto
  then have "EncodeDisplayAddress U a = Inr (map upper_char ?s)"
    using vs(1) by (simp add: EncodeDisplayAddress_def AddressToString_def ToUpper_def)
  moreover have "AddressFromString (unicode.truncate U) ?s = Inr a"
    using vs(2-4) DecodeBech32m_string [of vs ?s "unicode.truncate U"] by (simp add: AddressFromString_def)
  moreover have "ParseAddressAny U ?s = Inr a" "ParseAddressAny U (map upper_char ?s) = Inr a"
    using ParseAddressAny_string [OF vs(2-4)] by auto
  moreover have "ParseAddressAny U (hex_string (hash_bytes a)) = Inr a"
    "ParseAddressAny U (map upper_char (hex_string (hash_bytes a))) = Inr a"
    using hex_string_plain by (auto intro!: ParseAddressAny_hex simp: hex_decode_string)
  moreover have "length ?s = 62" "take 4 ?s = ''aib1''"
    using vs(3) by (simp_all add: address_string_def)
  ultimately show ?thesis
    using vs(1) by blast
qed

end
