(* ===== verification/Merkle_Proof.thy ===== *)
theory Merkle_Proof
  imports Merkle "HOL-Library.Signed_Division"
begin

unbundle bit_operations_syntax

text \<open>
  \<^verbatim>\<open>core/crypto/merkle.go\<close>: Merkle trees over arbitrary leaves with inclusion proofs, and a sparse Merkle
  tree. The hash is the method of the interface \<^verbatim>\<open>Hasher\<close> and so a parameter; its implementations return
  32 bytes (\<open>hasher_32\<close>). A Go \<^verbatim>\<open>int\<close> index is an integer, divided with truncation.
\<close>

definition hasher_32 :: "(bytes \<Rightarrow> bytes) \<Rightarrow> bool" where
  "hasher_32 H \<longleftrightarrow> (\<forall>x. length (H x) = 32)"

section \<open>The standard tree\<close>

record StandardMerkleTree =
  smt_leaves :: "bytes list"
  smt_levels :: "bytes list list"

datatype merkle_error = MkNoLeaves | MkIndexRange | MkKeyNotFound

definition pair_hash :: "(bytes \<Rightarrow> bytes) \<Rightarrow> bytes \<Rightarrow> bytes \<Rightarrow> bytes" where
  "pair_hash H a b = H (a @ b)"

function build_levels :: "(bytes \<Rightarrow> bytes) \<Rightarrow> bytes list \<Rightarrow> bytes list list" where
  "build_levels H level =
     (if length level > 1 then level # build_levels H (next_level (pair_hash H) (pad_odd level)) else [level])"
  by auto

termination
  by (relation "measure (\<lambda>(H, level). length level)") (simp_all add: next_level_shorter)

declare build_levels.simps [simp del]

definition NewStandardMerkleTree :: "(bytes \<Rightarrow> bytes) \<Rightarrow> bytes list \<Rightarrow> (merkle_error, StandardMerkleTree) result" where
  "NewStandardMerkleTree H leaves =
     (if leaves = [] then Inl MkNoLeaves
      else Inr \<lparr>smt_leaves = leaves, smt_levels = build_levels H (map H leaves)\<rparr>)"

text \<open>\<open>None\<close> is the \<^verbatim>\<open>nil\<close> slice.\<close>

definition Root :: "StandardMerkleTree \<Rightarrow> bytes option" where
  "Root t =
     (if smt_levels t = [] then None
      else (case last (smt_levels t) of [] \<Rightarrow> None | h # _ \<Rightarrow> Some h))"

definition sibling_of :: "bytes list \<Rightarrow> nat \<Rightarrow> bytes" where
  "sibling_of level idx =
     (if even idx then (if idx + 1 < length level then level ! (idx + 1) else level ! idx) else level ! (idx - 1))"

fun proof_path :: "bytes list list \<Rightarrow> nat \<Rightarrow> bytes list" where
  "proof_path [] idx = []"
| "proof_path [level] idx = []"
| "proof_path (level # levels) idx =
     sibling_of level idx # proof_path levels (idx div 2)"

definition Proof :: "StandardMerkleTree \<Rightarrow> int \<Rightarrow> (merkle_error, bytes list) result" where
  "Proof t index =
     (if index < 0 \<or> index \<ge> int (length (smt_leaves t)) then Inl MkIndexRange
      else Inr (proof_path (smt_levels t) (nat index)))"

fun climb :: "(bytes \<Rightarrow> bytes) \<Rightarrow> bytes \<Rightarrow> bytes list \<Rightarrow> int \<Rightarrow> bytes" where
  "climb H current [] index = current"
| "climb H current (sibling # sibs) index =
     climb H (H (if index smod 2 = 0 then current @ sibling else sibling @ current)) sibs (index sdiv 2)"

definition VerifyMerkleProof :: "(bytes \<Rightarrow> bytes) \<Rightarrow> bytes \<Rightarrow> bytes \<Rightarrow> bytes list \<Rightarrow> int \<Rightarrow> bool" where
  "VerifyMerkleProof H leaf root' prf index \<longleftrightarrow> climb H (H leaf) prf index = root'"

section \<open>Proofs of inclusion\<close>

lemma nat_sdiv [simp]: "int n sdiv 2 = int (n div 2)" "int n smod 2 = 0 \<longleftrightarrow> even n"
  by (simp_all add: signed_divide_int_def signed_modulo_int_def sgn_if zdiv_int) presburger+

text \<open>One step of the climb goes from a node to its parent in the next level.\<close>

lemma parent_node:
  assumes "i < length level" and "1 < length level"
  shows "H (if even i then level ! i @ sibling_of level i else sibling_of level i @ level ! i) = next_level (pair_hash H) (pad_odd level) ! (i div 2)"
    and "i div 2 < length (next_level (pair_hash H) (pad_odd level))"
proof -
  have sib: "sibling_of level i = (if even i then (if i + 1 < length level then level ! (i + 1) else level ! i) else level ! (i - 1))"
    by (simp add: sibling_of_def)
  have "H (if even i then level ! i @ sibling_of level i else sibling_of level i @ level ! i)
      = (if even i then pair_hash H (level ! i) (sibling_of level i) else pair_hash H (sibling_of level i) (level ! i))"
    by (simp add: pair_hash_def)
  then show "H (if even i then level ! i @ sibling_of level i else sibling_of level i @ level ! i)
      = next_level (pair_hash H) (pad_odd level) ! (i div 2)"
    using nth_parent(1) [OF assms sib, of "pair_hash H"] by simp
  show "i div 2 < length (next_level (pair_hash H) (pad_odd level))" by (rule nth_parent(2) [OF assms sib])
qed

lemma build_levels_top: "level \<noteq> [] \<Longrightarrow> length (last (build_levels H level)) = 1"
proof (induction H level rule: build_levels.induct)
  case (1 H level)
  show ?case
  proof (cases "length level > 1")
    case True
    let ?next = "next_level (pair_hash H) (pad_odd level)"
    have "?next \<noteq> []"
      using True by (simp add: length_next_level pad_odd_def flip: length_greater_0_conv)
    moreover have "build_levels H ?next \<noteq> []"
      by (simp add: build_levels.simps [of H ?next])
    ultimately show ?thesis
      using 1 True by (simp add: build_levels.simps [of H level])
  next
    case False
    moreover from False have "build_levels H level = [level]"
      by (simp add: build_levels.simps [of H level])
    ultimately show ?thesis
      using "1.prems" by (cases level) auto
  qed
qed

lemma build_levels_climb:
  "i < length level \<Longrightarrow> climb H (level ! i) (proof_path (build_levels H level) i) (int i) = hd (last (build_levels H level))"
proof (induction H level arbitrary: i rule: build_levels.induct)
  case (1 H level)
  show ?case
  proof (cases "length level > 1")
    case True
    let ?next = "next_level (pair_hash H) (pad_odd level)"
    obtain l ls where ls: "build_levels H ?next = l # ls"
      by (simp add: build_levels.simps [of H ?next]) (metis list.exhaust)
    then show ?thesis
      using "1.IH" [OF True parent_node(2) [OF "1.prems" True]] parent_node(1) [OF "1.prems" True, of H] True
      by (simp add: build_levels.simps [of H level])
  next
    case False
    moreover from False have "build_levels H level = [level]"
      by (simp add: build_levels.simps [of H level])
    ultimately show ?thesis
      using "1.prems" by (cases level) auto
  qed
qed

text \<open>The strings hashed while a proof is verified.\<close>

fun climb_strings :: "(bytes \<Rightarrow> bytes) \<Rightarrow> bytes \<Rightarrow> bytes list \<Rightarrow> int \<Rightarrow> bytes list" where
  "climb_strings H current [] index = []"
| "climb_strings H current (sibling # sibs) index =
     (let x = (if index smod 2 = 0 then current @ sibling else sibling @ current)
      in x # climb_strings H (H x) sibs (index sdiv 2))"

definition verify_strings :: "(bytes \<Rightarrow> bytes) \<Rightarrow> bytes \<Rightarrow> bytes list \<Rightarrow> int \<Rightarrow> bytes set" where
  "verify_strings H leaf prf index = insert leaf (set (climb_strings H (H leaf) prf index))"

lemma climb_binding:
  assumes "hasher_32 H"
  shows "inj_on H (set (climb_strings H a ps i) \<union> set (climb_strings H b qs i)) \<Longrightarrow>
     climb H a ps i = climb H b qs i \<Longrightarrow> length ps = length qs \<Longrightarrow> length a = 32 \<Longrightarrow> length b = 32 \<Longrightarrow>
     a = b \<and> ps = qs"
proof (induction ps arbitrary: a b qs i)
  case (Cons p ps)
  then obtain q qs' where qs: "qs = q # qs'"
    by (cases qs) auto
  let ?x = "if i smod 2 = 0 then a @ p else p @ a" and ?y = "if i smod 2 = 0 then b @ q else q @ b"
  have strings: "set (climb_strings H a (p # ps) i) = insert ?x (set (climb_strings H (H ?x) ps (i sdiv 2)))"
    "set (climb_strings H b qs i) = insert ?y (set (climb_strings H (H ?y) qs' (i sdiv 2)))"
    by (simp_all add: qs Let_def)
  have "inj_on H (set (climb_strings H (H ?x) ps (i sdiv 2)) \<union> set (climb_strings H (H ?y) qs' (i sdiv 2)))"
    by (rule inj_on_subset [OF Cons.prems(1)]) (unfold strings, blast)
  then have "H ?x = H ?y \<and> ps = qs'"
    using Cons.prems(2-5) assms by (intro Cons.IH [of "H ?x" "i sdiv 2" "H ?y" qs']) (auto simp: qs hasher_32_def)
  then have hash: "H ?x = H ?y" and ps: "ps = qs'"
    by blast+
  from hash have "?x = ?y"
    by (rule inj_onD [OF Cons.prems(1)]) (unfold strings, blast+)
  with ps show ?case
    using Cons.prems(4,5) by (auto simp: qs split: if_splits)
qed simp

lemma tree_parts:
  assumes "NewStandardMerkleTree H leaves = Inr t"
  obtains r where "smt_leaves t = leaves" "smt_levels t = build_levels H (map H leaves)" "Root t = Some r"
    "r = hd (last (build_levels H (map H leaves)))" "leaves \<noteq> []"
proof -
  have t: "smt_leaves t = leaves" "smt_levels t = build_levels H (map H leaves)" "leaves \<noteq> []"
    using assms by (auto simp: NewStandardMerkleTree_def split: if_splits)
  then have "length (last (build_levels H (map H leaves))) = 1"
    by (intro build_levels_top) simp
  moreover have "build_levels H (map H leaves) \<noteq> []"
    by (simp add: build_levels.simps [of H "map H leaves"])
  ultimately have "Root t = Some (hd (last (build_levels H (map H leaves))))"
    by (auto simp: Root_def t length_Suc_conv)
  with t that show thesis by blast
qed

text \<open>C15. Inclusion proofs are complete and sound: for every leaf of a tree, \<^verbatim>\<open>Proof\<close> returns a path that
  \<^verbatim>\<open>VerifyMerkleProof\<close> accepts, and if it accepts any data at that index with a path of that length, then data and
  path are this leaf and this path, as long as the hash does not collide on the strings which the two
  verifications hash.\<close>

theorem inclusion_proof_correct:
  assumes "NewStandardMerkleTree H leaves = Inr t" and "hasher_32 H" and "i < length leaves"
  shows "\<exists>r p. Root t = Some r \<and> Proof t (int i) = Inr p \<and> VerifyMerkleProof H (leaves ! i) r p (int i)
     \<and> (\<forall>leaf q. VerifyMerkleProof H leaf r q (int i) \<and> length q = length p
         \<and> inj_on H (verify_strings H leaf q (int i) \<union> verify_strings H (leaves ! i) p (int i))
           \<longrightarrow> leaf = leaves ! i \<and> q = p)"
proof -
  obtain r where t: "smt_leaves t = leaves" "smt_levels t = build_levels H (map H leaves)" "Root t = Some r"
    and r: "r = hd (last (build_levels H (map H leaves)))"
    using tree_parts [OF assms(1)] by metis
  let ?p = "proof_path (build_levels H (map H leaves)) i"
  have ok: "climb H (H (leaves ! i)) ?p (int i) = r"
    using build_levels_climb [of i "map H leaves" H] assms(3) by (simp add: r)
  have "leaf = leaves ! i \<and> q = ?p"
    if q: "length q = length ?p" "climb H (H leaf) q (int i) = r"
      and inj: "inj_on H (verify_strings H leaf q (int i) \<union> verify_strings H (leaves ! i) ?p (int i))" for leaf q
  proof -
    have "H leaf = H (leaves ! i) \<and> q = ?p"
      using q ok assms(2)
      by (intro climb_binding [OF assms(2) inj_on_subset [OF inj]]) (auto simp: hasher_32_def verify_strings_def)
    then show ?thesis
      using inj_onD [OF inj, of leaf "leaves ! i"] by (simp add: verify_strings_def)
  qed
  with ok t assms(3) show ?thesis
    by (simp add: Proof_def VerifyMerkleProof_def) blast
qed

definition checksum_hasher :: "bytes \<Rightarrow> bytes" where
  "checksum_hasher bs = replicate 31 0 @ [sum_list bs + of_nat (length bs)]"

lemma checksum_hasher_32: "hasher_32 checksum_hasher"
  by (simp add: hasher_32_def checksum_hasher_def)

definition three_leaves :: "bytes list" where
  "three_leaves = [[1], [2], [3]]"

definition three_tree :: StandardMerkleTree where
  "three_tree = \<lparr>smt_leaves = three_leaves, smt_levels = build_levels checksum_hasher (map checksum_hasher three_leaves)\<rparr>"

lemma three_tree_new: "NewStandardMerkleTree checksum_hasher three_leaves = Inr three_tree"
  by (simp add: NewStandardMerkleTree_def three_tree_def three_leaves_def)

lemma three_tree_proof:
  "Proof three_tree 2 = Inr [replicate 31 0 @ [4], replicate 31 0 @ [69]]"
  "inj_on checksum_hasher (verify_strings checksum_hasher [3] [replicate 31 0 @ [4], replicate 31 0 @ [69]] 2)"
  by code_simp+

theorem inclusion_proof_correct_witness:
  "let H = checksum_hasher; p = [replicate 31 0 @ [4], replicate 31 0 @ [69]]; r = replicate 31 0 @ [205] in
     Root three_tree = Some r \<and> Proof three_tree 2 = Inr p \<and> VerifyMerkleProof H [3] r p 2
     \<and> inj_on H (verify_strings H [3] p 2 \<union> verify_strings H [3] p 2)
     \<and> \<not> (VerifyMerkleProof H [7] r p 2 \<and> inj_on H (verify_strings H [7] p 2 \<union> verify_strings H [3] p 2))"
proof -
  have r: "Root three_tree = Some (replicate 31 0 @ [205])"
    by code_simp
  obtain r p where rp: "Root three_tree = Some r" "Proof three_tree 2 = Inr p" "VerifyMerkleProof checksum_hasher [3] r p 2"
    and sound: "\<forall>leaf q. VerifyMerkleProof checksum_hasher leaf r q 2 \<and> length q = length p
         \<and> inj_on checksum_hasher (verify_strings checksum_hasher leaf q 2 \<union> verify_strings checksum_hasher [3] p 2)
           \<longrightarrow> leaf = [3] \<and> q = p"
    using inclusion_proof_correct [OF three_tree_new checksum_hasher_32, of 2] by (auto simp: three_leaves_def)
  with r three_tree_proof(1)
  have e: "r = replicate 31 0 @ [205]" "p = [replicate 31 0 @ [4], replicate 31 0 @ [69]]"
    by simp_all
  show ?thesis
    using rp sound [rule_format, of "[7]" p] three_tree_proof(2)
    unfolding e Let_def by auto
qed

text \<open>Leaves and inner nodes are not told apart: in a tree of at least two leaves, none of which is 64 bytes
  long, the concatenation of two leaf hashes is no leaf, but is accepted as one, with the rest of an honest path.\<close>

theorem inner_node_accepted_as_leaf:
  assumes "NewStandardMerkleTree H leaves = Inr t" and "hasher_32 H" and "1 < length leaves"
    and "\<forall>leaf \<in> set leaves. length leaf \<noteq> 64"
  shows "\<exists>r x p. Root t = Some r \<and> Proof t 0 = Inr p \<and> x \<notin> set leaves \<and> VerifyMerkleProof H x r (tl p) 0"
proof -
  obtain r where t: "smt_leaves t = leaves" "smt_levels t = build_levels H (map H leaves)" "Root t = Some r"
    and r: "r = hd (last (build_levels H (map H leaves)))" and ne: "leaves \<noteq> []"
    using tree_parts [OF assms(1)] by metis
  let ?lv = "map H leaves"
  let ?x = "?lv ! 0 @ sibling_of ?lv 0"
  obtain l ls where ls: "build_levels H (next_level (pair_hash H) (pad_odd ?lv)) = l # ls"
    using build_levels.simps [of H "next_level (pair_hash H) (pad_odd ?lv)"] by (metis list.exhaust)
  have p: "proof_path (build_levels H ?lv) 0 = sibling_of ?lv 0 # proof_path (l # ls) 0"
    using assms(3) by (simp add: build_levels.simps [of H ?lv] ls)
  have "climb H (H (leaves ! 0)) (proof_path (build_levels H ?lv) 0) 0 = r"
    using build_levels_climb [of 0 ?lv H] ne by (simp add: r)
  then have "climb H (H ?x) (proof_path (l # ls) 0) 0 = r"
    using ne nat_sdiv [of 0] by (simp add: p)
  moreover have "length ?x = 64"
    using assms(2,3) ne by (simp add: sibling_of_def hasher_32_def)
  ultimately show ?thesis
    using t p ne assms(4)
    by (intro exI [of _ r] exI [of _ ?x] exI [of _ "proof_path (build_levels H ?lv) 0"])
      (auto simp: Proof_def VerifyMerkleProof_def)
qed

theorem inner_node_accepted_as_leaf_witness:
  "\<exists>r x p. Root three_tree = Some r \<and> Proof three_tree 0 = Inr p \<and> x \<notin> set three_leaves
     \<and> VerifyMerkleProof checksum_hasher x r (tl p) 0"
  by (rule inner_node_accepted_as_leaf [OF three_tree_new checksum_hasher_32]) (simp_all add: three_leaves_def)

section \<open>The sparse tree\<close>

text \<open>
  Bit 0 of a key hash is the most significant bit of its first byte and chooses the side at the leaf
  level. \<^verbatim>\<open>computeRoot\<close> ranges over the store once per level, so the orders are a function of the level.
\<close>

record SparseMerkleTree =
  sp_root :: bytes
  sp_depth :: nat
  sp_store :: "bytes \<rightharpoonup> bytes"
  sp_defaults :: "bytes list"

definition getBit :: "bytes \<Rightarrow> nat \<Rightarrow> byte" where
  "getBit data pos =
     (if length data \<le> pos div 8 then 0 else drop_bit (7 - pos mod 8) (data ! (pos div 8)) AND 1)"

definition flipBit :: "bytes \<Rightarrow> nat \<Rightarrow> bytes" where
  "flipBit data pos =
     (if pos div 8 < length data
      then data[pos div 8 := data ! (pos div 8) XOR push_bit (7 - pos mod 8) 1] else data)"

definition matchesUpTo :: "bytes \<Rightarrow> bytes \<Rightarrow> nat \<Rightarrow> bool" where
  "matchesUpTo a b pos \<longleftrightarrow> (\<forall>i < pos. getBit a i = getBit b i)"

fun default_hashes :: "(bytes \<Rightarrow> bytes) \<Rightarrow> nat \<Rightarrow> bytes list" where
  "default_hashes H 0 = [H []]"
| "default_hashes H (Suc n) = (let ds = default_hashes H n in ds @ [H (last ds @ last ds)])"

definition NewSparseMerkleTree :: "(bytes \<Rightarrow> bytes) \<Rightarrow> int \<Rightarrow> SparseMerkleTree" where
  "NewSparseMerkleTree H depth0 =
     (let depth = (if depth0 \<le> 0 \<or> 256 < depth0 then 256 else nat depth0); defaults = default_hashes H depth
      in \<lparr>sp_root = defaults ! depth, sp_depth = depth, sp_store = Map.empty, sp_defaults = defaults\<rparr>)"

definition join_bit :: "(bytes \<Rightarrow> bytes) \<Rightarrow> byte \<Rightarrow> bytes \<Rightarrow> bytes \<Rightarrow> bytes" where
  "join_bit H b current sibling = H (if b = 0 then current @ sibling else sibling @ current)"

definition recomputeSubtree :: "(bytes \<Rightarrow> bytes) \<Rightarrow> SparseMerkleTree \<Rightarrow> bytes \<Rightarrow> bytes \<Rightarrow> nat \<Rightarrow> bytes" where
  "recomputeSubtree H t keyHash leafHash startLevel =
     foldl (\<lambda>current i. join_bit H (getBit keyHash i) current (sp_defaults t ! i)) leafHash [0..<startLevel]"

text \<open>The first stored key, in the order of the range, that the code takes for the sibling.\<close>

definition stored_sibling :: "SparseMerkleTree \<Rightarrow> bytes list \<Rightarrow> bytes \<Rightarrow> nat \<Rightarrow> bytes option" where
  "stored_sibling t order keyHash i =
     List.find (\<lambda>k. k \<noteq> keyHash \<and> matchesUpTo k keyHash i \<and> getBit k i \<noteq> getBit keyHash i) order"

definition level_sibling :: "(bytes \<Rightarrow> bytes) \<Rightarrow> SparseMerkleTree \<Rightarrow> (nat \<Rightarrow> bytes list) \<Rightarrow> bytes \<Rightarrow> nat \<Rightarrow> bytes" where
  "level_sibling H t orders keyHash i =
     (case stored_sibling t (orders i) keyHash i of
        None \<Rightarrow> sp_defaults t ! i
      | Some k \<Rightarrow> recomputeSubtree H t k (the (sp_store t k)) i)"

definition computeRoot :: "(bytes \<Rightarrow> bytes) \<Rightarrow> (nat \<Rightarrow> bytes list) \<Rightarrow> SparseMerkleTree \<Rightarrow> bytes \<Rightarrow> bytes \<Rightarrow> nat \<Rightarrow> bytes" where
  "computeRoot H orders t keyHash leafHash level =
     (if sp_depth t \<le> level then leafHash
      else foldl (\<lambda>current i. join_bit H (getBit keyHash i) current (level_sibling H t orders keyHash i))
             leafHash [0..<sp_depth t])"

definition Update :: "(bytes \<Rightarrow> bytes) \<Rightarrow> (nat \<Rightarrow> bytes list) \<Rightarrow> SparseMerkleTree \<Rightarrow> bytes \<Rightarrow> bytes \<Rightarrow> SparseMerkleTree" where
  "Update H orders t key value' =
     (let keyHash = H key; leafHash = H value'; t' = t\<lparr>sp_store := (sp_store t)(keyHash \<mapsto> leafHash)\<rparr>
      in t'\<lparr>sp_root := computeRoot H orders t' keyHash leafHash 0\<rparr>)"

definition Get :: "(bytes \<Rightarrow> bytes) \<Rightarrow> SparseMerkleTree \<Rightarrow> bytes \<Rightarrow> bytes" where
  "Get H t key = (case sp_store t (H key) of Some v \<Rightarrow> v | None \<Rightarrow> sp_defaults t ! 0)"

definition ProveInclusion :: "(bytes \<Rightarrow> bytes) \<Rightarrow> SparseMerkleTree \<Rightarrow> bytes \<Rightarrow> (merkle_error, bytes list) result" where
  "ProveInclusion H t key =
     (let keyHash = H key in
      if sp_store t keyHash = None then Inl MkKeyNotFound
      else Inr (map (\<lambda>i. case sp_store t (flipBit keyHash i) of Some v \<Rightarrow> v | None \<Rightarrow> sp_defaults t ! 0)
                  [0..<sp_depth t]))"

definition VerifyInclusion :: "(bytes \<Rightarrow> bytes) \<Rightarrow> SparseMerkleTree \<Rightarrow> bytes \<Rightarrow> bytes \<Rightarrow> bytes list \<Rightarrow> bool" where
  "VerifyInclusion H t key value' prf \<longleftrightarrow> length prf = sp_depth t \<and>
     foldl (\<lambda>current i. join_bit H (getBit (H key) i) current (prf ! i)) (H value') [0..<sp_depth t] = sp_root t"

lemma length_default_hashes [simp]: "length (default_hashes H n) = Suc n"
  by (induction n) (simp_all add: Let_def)

lemma default_hashes_0: "default_hashes H n ! 0 = H []"
  by (induction n) (simp_all add: Let_def nth_append)

lemma default_hashes_1: "default_hashes H (Suc n) ! 1 = H (H [] @ H [])"
  by (induction n) (auto simp: Let_def nth_append split: if_splits)

definition path_hash :: "(bytes \<Rightarrow> bytes) \<Rightarrow> bytes \<Rightarrow> (nat \<Rightarrow> bytes) \<Rightarrow> bytes \<Rightarrow> nat \<Rightarrow> bytes" where
  "path_hash H kh sib leaf n = foldl (\<lambda>current i. join_bit H (getBit kh i) current (sib i)) leaf [0..<n]"

lemma path_hash_Suc: "path_hash H kh sib leaf (Suc n) = join_bit H (getBit kh n) (path_hash H kh sib leaf n) (sib n)"
  by (simp add: path_hash_def)

lemma path_hash_cong: "(\<And>i. i < n \<Longrightarrow> s i = s' i) \<Longrightarrow> path_hash H kh s leaf n = path_hash H kh s' leaf n"
  unfolding path_hash_def by (intro foldl_cong) auto

lemma path_hash_32: "hasher_32 H \<Longrightarrow> length leaf = 32 \<Longrightarrow> length (path_hash H kh sib leaf n) = 32"
  by (induction n) (simp_all add: path_hash_Suc join_bit_def hasher_32_def, simp add: path_hash_def)

text \<open>The strings hashed on the way from a leaf to the root.\<close>

definition path_strings :: "(bytes \<Rightarrow> bytes) \<Rightarrow> bytes \<Rightarrow> (nat \<Rightarrow> bytes) \<Rightarrow> bytes \<Rightarrow> nat \<Rightarrow> bytes set" where
  "path_strings H kh sib leaf n =
     (\<lambda>i. let a = path_hash H kh sib leaf i in if getBit kh i = 0 then a @ sib i else sib i @ a) ` {..<n}"

lemma path_hash_binding:
  assumes "hasher_32 H" and "length leaf = 32" and "path_hash H kh s leaf n = path_hash H kh s' leaf n"
    and "inj_on H (path_strings H kh s leaf n \<union> path_strings H kh s' leaf n)" and "i < n"
  shows "s i = s' i"
  using assms(3-5)
proof (induction n)
  case (Suc n)
  let ?a = "path_hash H kh s leaf n" and ?b = "path_hash H kh s' leaf n"
  let ?x = "if getBit kh n = 0 then ?a @ s n else s n @ ?a" and ?y = "if getBit kh n = 0 then ?b @ s' n else s' n @ ?b"
  have strings: "path_strings H kh u leaf (Suc n) = insert (let a = path_hash H kh u leaf n in
      if getBit kh n = 0 then a @ u n else u n @ a) (path_strings H kh u leaf n)" for u
    by (simp add: path_strings_def lessThan_Suc)
  have "H ?x = H ?y"
    using Suc.prems(1) by (simp add: path_hash_Suc join_bit_def)
  then have "?x = ?y"
    by (rule inj_onD [OF Suc.prems(2)]) (unfold strings Let_def, blast+)
  then have "?a = ?b \<and> s n = s' n"
    using path_hash_32 [OF assms(1,2)] by (auto split: if_splits)
  moreover have "inj_on H (path_strings H kh s leaf n \<union> path_strings H kh s' leaf n)"
    by (rule inj_on_subset [OF Suc.prems(2)]) (unfold strings, blast)
  ultimately show ?case
    using Suc.IH Suc.prems(3) less_SucE by blast
qed simp

lemma flipBit_neq:
  assumes "i < 8 * length kh"
  shows "flipBit kh i \<noteq> kh"
proof
  let ?n = "7 - i mod 8"
  have "i div 8 < length kh"
    using assms by simp
  moreover assume "flipBit kh i = kh"
  then have "flipBit kh i ! (i div 8) = kh ! (i div 8)" by simp
  ultimately have "kh ! (i div 8) XOR push_bit ?n 1 = kh ! (i div 8)"
    by (simp add: flipBit_def)
  then have "bit (kh ! (i div 8) XOR push_bit ?n 1) ?n = bit (kh ! (i div 8)) ?n"
    by (rule arg_cong)
  moreover have "?n < 8" by simp
  ultimately show False
    by (simp only: bit_xor_iff bit_push_bit_iff) auto
qed

text \<open>The sparse tree rejects its own proofs: put one key into a new tree of depth two or more; the proof
  that \<^verbatim>\<open>ProveInclusion\<close> returns for it is not accepted by \<^verbatim>\<open>VerifyInclusion\<close>, as long as the hash does not collide on
  the strings hashed for the defaults of the two lowest levels and for the two paths, because the proof uses the
  default hash of a leaf at every level and the root uses the default of each level.\<close>

theorem sparse_proof_rejected:
  assumes "hasher_32 H" and "2 \<le> depth" and "depth \<le> 256" and "\<forall>i. iteration_of (orders i) [H key \<mapsto> H value']"
    and "t = Update H orders (NewSparseMerkleTree H (int depth)) key value'"
    and "inj_on H ({[], H [] @ H []} \<union> path_strings H (H key) (\<lambda>i. default_hashes H depth ! 0) (H value') depth
           \<union> path_strings H (H key) (\<lambda>i. default_hashes H depth ! i) (H value') depth)"
  shows "\<exists>p. ProveInclusion H t key = Inr p \<and> \<not> VerifyInclusion H t key value' p"
proof -
  let ?d = "default_hashes H depth"
  have t: "sp_store t = [H key \<mapsto> H value']" "sp_depth t = depth" "sp_defaults t = ?d"
    using assms(2,3) by (simp_all add: assms(5) Update_def NewSparseMerkleTree_def Let_def)
  have "stored_sibling u (orders i) (H key) i = None" for u i
    using assms(4) by (auto simp: stored_sibling_def find_None_iff iteration_of_def)
  then have "level_sibling H u orders (H key) i = sp_defaults u ! i" for u i
    by (simp add: level_sibling_def)
  then have root: "sp_root t = path_hash H (H key) (\<lambda>i. ?d ! i) (H value') depth"
    using assms(2,3) by (simp add: assms(5) Update_def NewSparseMerkleTree_def Let_def computeRoot_def path_hash_def)
  have "sp_store t (flipBit (H key) i) = None" if "i < depth" for i
    using flipBit_neq [of i "H key"] that assms(1,3) by (simp add: t hasher_32_def)
  then have pf: "ProveInclusion H t key = Inr (map (\<lambda>i. ?d ! 0) [0..<depth])"
    by (auto simp: ProveInclusion_def Let_def t)
  have "?d ! 0 = H []" "?d ! 1 = H (H [] @ H [])"
    using assms(2) default_hashes_1 [of H "depth - 1"] by (simp_all add: default_hashes_0)
  moreover have "H [] @ H [] \<noteq> []"
    using assms(1) by (auto simp: hasher_32_def simp flip: length_0_conv)
  moreover have "inj_on H {[], H [] @ H []}"
    by (rule inj_on_subset [OF assms(6)]) blast
  ultimately have differ: "?d ! 0 \<noteq> ?d ! 1"
    by (auto dest: inj_onD)
  have "\<not> VerifyInclusion H t key value' (map (\<lambda>i. ?d ! 0) [0..<depth])"
  proof
    assume "VerifyInclusion H t key value' (map (\<lambda>i. ?d ! 0) [0..<depth])"
    then have eq: "path_hash H (H key) (\<lambda>i. ?d ! 0) (H value') depth = path_hash H (H key) (\<lambda>i. ?d ! i) (H value') depth"
      using path_hash_cong [of depth "\<lambda>i. map (\<lambda>i. ?d ! 0) [0..<depth] ! i" "\<lambda>i. ?d ! 0"]
      unfolding root [symmetric] VerifyInclusion_def path_hash_def [symmetric] t by simp
    have "inj_on H (path_strings H (H key) (\<lambda>i. ?d ! 0) (H value') depth \<union> path_strings H (H key) (\<lambda>i. ?d ! i) (H value') depth)"
      by (rule inj_on_subset [OF assms(6)]) blast
    from path_hash_binding [OF assms(1) _ eq this, of 1] differ show False
      using assms(1,2) by (simp add: hasher_32_def)
  qed
  with pf show ?thesis by blast
qed

end
