(* ===== verification/Order_Book.thy ===== *)
theory Order_Book
  imports State_Channel
begin

text \<open>
  \<^verbatim>\<open>pkg/channel/orderbook.go\<close>: the order book of a trading pair and its matching engine. Orders are shared
  by pointer between the price levels and the two indexes, and matching changes them in place, so the
  book carries its order objects in a list and everything else refers to an order by its position there;
  a position is also the list element the code keeps in \<^verbatim>\<open>orders\<close>. Every call of \<^verbatim>\<open>PlaceOrder\<close> passes a new
  object. Methods hold the book's mutex and are atomic. The clock is an argument: \<open>clk n\<close> are the two
  readings made for the trade with sequence number \<open>n\<close>.
\<close>

section \<open>Orders\<close>

type_synonym OrderStatus = int
type_synonym OrderType = int
type_synonym OrderSide = int

definition OrderStatusPending :: OrderStatus where "OrderStatusPending = 0"
definition OrderStatusPartialFilled :: OrderStatus where "OrderStatusPartialFilled = 1"
definition OrderStatusFilled :: OrderStatus where "OrderStatusFilled = 2"
definition OrderStatusCancelled :: OrderStatus where "OrderStatusCancelled = 3"
definition OrderStatusExpired :: OrderStatus where "OrderStatusExpired = 4"
definition OrderTypeLimit :: OrderType where "OrderTypeLimit = 0"
definition OrderTypeMarket :: OrderType where "OrderTypeMarket = 1"
definition OrderSideBuy :: OrderSide where "OrderSideBuy = 0"
definition OrderSideSell :: OrderSide where "OrderSideSell = 1"

lemmas order_constants =
  OrderStatusPending_def OrderStatusPartialFilled_def OrderStatusFilled_def OrderStatusCancelled_def
  OrderStatusExpired_def OrderTypeLimit_def OrderTypeMarket_def OrderSideBuy_def OrderSideSell_def

definition order_status_string :: "OrderStatus \<Rightarrow> string" where
  "order_status_string s =
     (if s = OrderStatusPending then ''PENDING'' else if s = OrderStatusPartialFilled then ''PARTIAL_FILLED''
      else if s = OrderStatusFilled then ''FILLED'' else if s = OrderStatusCancelled then ''CANCELLED''
      else if s = OrderStatusExpired then ''EXPIRED'' else ''UNKNOWN'')"

definition order_type_string :: "OrderType \<Rightarrow> string" where
  "order_type_string t =
     (if t = OrderTypeLimit then ''LIMIT'' else if t = OrderTypeMarket then ''MARKET'' else ''UNKNOWN'')"

definition order_side_string :: "OrderSide \<Rightarrow> string" where
  "order_side_string s =
     (if s = OrderSideBuy then ''BUY'' else if s = OrderSideSell then ''SELL'' else ''UNKNOWN'')"

definition IsOpposite :: "OrderSide \<Rightarrow> OrderSide \<Rightarrow> bool" where
  "IsOpposite s other \<longleftrightarrow> s \<noteq> other"

record Order =
  or_ID :: u64
  or_Owner :: address
  or_TradingPair :: string
  or_Side :: OrderSide
  or_Quantity :: u64
  or_FilledQuantity :: u64
  or_Price :: u64
  or_OrderType :: OrderType
  or_Status :: OrderStatus
  or_Timestamp :: int
  or_Expiration :: "int option"

definition RemainingQuantity :: "Order \<Rightarrow> u64" where
  "RemainingQuantity o' =
     (if or_Quantity o' \<ge> or_FilledQuantity o' then or_Quantity o' - or_FilledQuantity o' else 0)"

definition IsFilled :: "Order \<Rightarrow> bool" where
  "IsFilled o' \<longleftrightarrow> or_Status o' = OrderStatusFilled \<or> or_FilledQuantity o' \<ge> or_Quantity o'"

definition IsActive :: "Order \<Rightarrow> bool" where
  "IsActive o' \<longleftrightarrow> or_Status o' = OrderStatusPending \<or> or_Status o' = OrderStatusPartialFilled"

definition order_IsExpired :: "int \<Rightarrow> Order \<Rightarrow> bool" where
  "order_IsExpired now o' \<longleftrightarrow> (case or_Expiration o' of None \<Rightarrow> False | Some e \<Rightarrow> e < now)"

definition Fill :: "Order \<Rightarrow> u64 \<Rightarrow> Order \<times> u64" where
  "Fill o' quantity =
     (let remaining = RemainingQuantity o' in
      if quantity \<ge> remaining
      then (o'\<lparr>or_FilledQuantity := or_Quantity o', or_Status := OrderStatusFilled\<rparr>, remaining)
      else (o'\<lparr>or_FilledQuantity := or_FilledQuantity o' + quantity, or_Status := OrderStatusPartialFilled\<rparr>,
            quantity))"

record Trade =
  tr_ID :: u64
  tr_TradingPair :: string
  tr_MakerOrderID :: u64
  tr_TakerOrderID :: u64
  tr_Maker :: address
  tr_Taker :: address
  tr_Side :: OrderSide
  tr_Quantity :: u64
  tr_Price :: u64
  tr_Timestamp :: int

section \<open>The book\<close>

record priceLevel =
  pl_price :: u64
  pl_orders :: "nat list"
  pl_totalQty :: u64

record OrderBook =
  ob_tradingPair :: string
  ob_bids :: "u64 \<rightharpoonup> priceLevel"
  ob_asks :: "u64 \<rightharpoonup> priceLevel"
  ob_bidPrices :: "u64 list"
  ob_askPrices :: "u64 list"
  ob_orders :: "u64 \<rightharpoonup> nat"
  ob_allOrders :: "u64 \<rightharpoonup> nat"
  ob_trades :: "Trade list"
  ob_orderIDSeq :: u64
  ob_tradeIDSeq :: u64
  ob_objs :: "Order list"

datatype order_error =
    ObNil
  | ObInvalidQuantity
  | ObInvalidSide
  | ObInvalidType
  | ObInvalidPrice
  | ObInvalidOwner
  | ObNotFound
  | ObUnauthorized
  | ObNotPending
  | ObBookNotFound

definition NewOrderBook :: "string \<Rightarrow> OrderBook" where
  "NewOrderBook tradingPair =
     \<lparr>ob_tradingPair = tradingPair, ob_bids = Map.empty, ob_asks = Map.empty, ob_bidPrices = [], ob_askPrices = [],
      ob_orders = Map.empty, ob_allOrders = Map.empty, ob_trades = [], ob_orderIDSeq = 0, ob_tradeIDSeq = 0,
      ob_objs = []\<rparr>"

text \<open>\<^verbatim>\<open>uint64(t.UnixNano())\<close>, with times counted in nanoseconds from year one.\<close>

definition unix_nano :: "int \<Rightarrow> u64" where
  "unix_nano t = word_of_int (t - 62135596800 * second)"

unbundle bit_operations_syntax

definition generateOrderID :: "int \<Rightarrow> OrderBook \<Rightarrow> OrderBook \<times> u64" where
  "generateOrderID now ob =
     (let sq = ob_orderIDSeq ob + 1 in (ob\<lparr>ob_orderIDSeq := sq\<rparr>, push_bit 16 (unix_nano now) OR sq))"

definition generateTradeID :: "int \<Rightarrow> OrderBook \<Rightarrow> OrderBook \<times> u64" where
  "generateTradeID now ob =
     (let sq = ob_tradeIDSeq ob + 1 in (ob\<lparr>ob_tradeIDSeq := sq\<rparr>, push_bit 16 (unix_nano now) OR sq))"

definition generateOrderHash :: "crypto \<Rightarrow> address \<Rightarrow> string \<Rightarrow> OrderSide \<Rightarrow> u64 \<Rightarrow> u64 \<Rightarrow> int \<Rightarrow> hash" where
  "generateOrderHash C owner tradingPair side quantity price timestamp =
     sha256 C (hash_bytes owner @ map of_char tradingPair @ [word_of_int side] @ put_u64_be quantity
       @ put_u64_be price @ put_u64_be (unix_nano timestamp))"

definition validateOrder :: "Order option \<Rightarrow> (order_error, unit) result" where
  "validateOrder ord =
     (case ord of
        None \<Rightarrow> Inl ObNil
      | Some o' \<Rightarrow>
          if or_Quantity o' = 0 then Inl ObInvalidQuantity
          else if or_Side o' \<noteq> OrderSideBuy \<and> or_Side o' \<noteq> OrderSideSell then Inl ObInvalidSide
          else if or_OrderType o' \<noteq> OrderTypeLimit \<and> or_OrderType o' \<noteq> OrderTypeMarket then Inl ObInvalidType
          else if or_OrderType o' = OrderTypeLimit \<and> or_Price o' = 0 then Inl ObInvalidPrice
          else if or_Owner o' = 0 then Inl ObInvalidOwner
          else Inr ())"

subsection \<open>Price lists\<close>

definition swap_if :: "(u64 \<Rightarrow> u64 \<Rightarrow> bool) \<Rightarrow> nat \<Rightarrow> u64 list \<Rightarrow> nat \<Rightarrow> u64 list" where
  "swap_if bad i ps j = (if bad (ps ! i) (ps ! j) then ps[i := ps ! j, j := ps ! i] else ps)"

definition sort_loops :: "(u64 \<Rightarrow> u64 \<Rightarrow> bool) \<Rightarrow> u64 list \<Rightarrow> u64 list" where
  "sort_loops bad prices =
     foldl (\<lambda>ps i. foldl (swap_if bad i) ps [i + 1..<length prices]) prices [0..<length prices - 1]"

definition sortPriceList :: "u64 list \<Rightarrow> bool \<Rightarrow> u64 list" where
  "sortPriceList prices isDescending =
     (if isDescending then sort_loops (<) prices else sort_loops (>) prices)"

fun removePriceFromList :: "u64 \<Rightarrow> u64 list \<Rightarrow> u64 list" where
  "removePriceFromList price [] = []"
| "removePriceFromList price (p # ps) = (if p = price then ps else p # removePriceFromList price ps)"

subsection \<open>Adding and removing\<close>

text \<open>The map and the price list of one side, and how they are replaced.\<close>

definition side_map :: "bool \<Rightarrow> OrderBook \<Rightarrow> u64 \<rightharpoonup> priceLevel" where
  "side_map isBid ob = (if isBid then ob_bids ob else ob_asks ob)"

definition side_prices :: "bool \<Rightarrow> OrderBook \<Rightarrow> u64 list" where
  "side_prices isBid ob = (if isBid then ob_bidPrices ob else ob_askPrices ob)"

definition set_side :: "bool \<Rightarrow> (u64 \<rightharpoonup> priceLevel) \<Rightarrow> u64 list \<Rightarrow> OrderBook \<Rightarrow> OrderBook" where
  "set_side isBid m ps ob =
     (if isBid then ob\<lparr>ob_bids := m, ob_bidPrices := ps\<rparr> else ob\<lparr>ob_asks := m, ob_askPrices := ps\<rparr>)"

definition addOrderToBook :: "OrderBook \<Rightarrow> nat \<Rightarrow> OrderBook" where
  "addOrderToBook ob ref =
     (let order = ob_objs ob ! ref;
          isBid = (or_Side order = OrderSideBuy);
          m = side_map isBid ob; ps = side_prices isBid ob;
          (level, ps') = (case m (or_Price order) of
             Some l \<Rightarrow> (l, ps)
           | None \<Rightarrow> (\<lparr>pl_price = or_Price order, pl_orders = [], pl_totalQty = 0\<rparr>,
                      sortPriceList (ps @ [or_Price order]) isBid));
          level' = level\<lparr>pl_orders := pl_orders level @ [ref],
                         pl_totalQty := pl_totalQty level + RemainingQuantity order\<rparr>
      in (set_side isBid (m(or_Price order \<mapsto> level')) ps' ob)\<lparr>ob_orders := (ob_orders ob)(or_ID order \<mapsto> ref)\<rparr>)"

text \<open>\<^verbatim>\<open>list.Remove\<close> does nothing when the element belongs to another list.\<close>

definition removeOrderFromBook :: "OrderBook \<Rightarrow> nat \<Rightarrow> nat \<Rightarrow> OrderBook" where
  "removeOrderFromBook ob ref elem =
     (let order = ob_objs ob ! ref;
          isBid = (or_Side order = OrderSideBuy);
          m = side_map isBid ob; ps = side_prices isBid ob in
      case m (or_Price order) of
        None \<Rightarrow> ob
      | Some level \<Rightarrow>
          (let level' = level\<lparr>pl_orders := remove1 elem (pl_orders level),
                              pl_totalQty := pl_totalQty level - RemainingQuantity order\<rparr>;
               ob' = (if pl_orders level' = []
                      then set_side isBid (m(or_Price order := None)) (removePriceFromList (or_Price order) ps) ob
                      else set_side isBid (m(or_Price order \<mapsto> level')) ps ob)
           in ob'\<lparr>ob_orders := (ob_orders ob)(or_ID order := None)\<rparr>))"

definition CancelOrder :: "OrderBook \<Rightarrow> u64 \<Rightarrow> address \<Rightarrow> (order_error, OrderBook) result" where
  "CancelOrder ob orderID owner =
     (case ob_allOrders ob orderID of
        None \<Rightarrow> Inl ObNotFound
      | Some ref \<Rightarrow>
          (let order = ob_objs ob ! ref in
           if or_Owner order \<noteq> owner then Inl ObUnauthorized
           else if \<not> IsActive order then Inl ObNotPending
           else (let ob' = ob\<lparr>ob_objs := (ob_objs ob)[ref := order\<lparr>or_Status := OrderStatusCancelled\<rparr>]\<rparr> in
                 case ob_orders ob' orderID of
                   None \<Rightarrow> Inr ob'
                 | Some elem \<Rightarrow> Inr (removeOrderFromBook ob' ref elem))))"

subsection \<open>Matching\<close>

text \<open>Zero stands for no price.\<close>

definition price_or_zero :: "u64 option \<Rightarrow> u64" where
  "price_or_zero r = (case r of None \<Rightarrow> 0 | Some p \<Rightarrow> p)"

definition findBestPrice :: "Order \<Rightarrow> u64 list \<Rightarrow> u64" where
  "findBestPrice order prices =
     (if prices = [] then 0
      else if or_OrderType order = OrderTypeMarket
      then (if or_Side order = OrderSideBuy then hd prices else last prices)
      else if or_Side order = OrderSideBuy
      then price_or_zero (List.find (\<lambda>p. p \<le> or_Price order) prices)
      else price_or_zero (List.find (\<lambda>p. p \<ge> or_Price order) (rev prices)))"

definition canMatch :: "Order \<Rightarrow> u64 \<Rightarrow> bool" where
  "canMatch order price \<longleftrightarrow>
     (if or_OrderType order = OrderTypeMarket then True
      else if or_Side order = OrderSideBuy then price \<le> or_Price order
      else price \<ge> or_Price order)"

definition executeTrade :: "(u64 \<Rightarrow> int \<times> int) \<Rightarrow> OrderBook \<Rightarrow> nat \<Rightarrow> nat \<Rightarrow> u64 \<Rightarrow> OrderBook \<times> Trade" where
  "executeTrade clk ob tk mk price =
     (let takerOrder = ob_objs ob ! tk; makerOrder = ob_objs ob ! mk;
          quantity = (if RemainingQuantity takerOrder > RemainingQuantity makerOrder
                      then RemainingQuantity makerOrder else RemainingQuantity takerOrder);
          (taker', takerFilled) = Fill takerOrder quantity;
          (maker', _) = Fill makerOrder quantity;
          isMaker = (or_Timestamp makerOrder < or_Timestamp takerOrder
            \<or> or_Timestamp makerOrder = or_Timestamp takerOrder \<and> or_ID makerOrder < or_ID takerOrder);
          (first, second') = (if isMaker then (makerOrder, takerOrder) else (takerOrder, makerOrder));
          (now1, now2) = clk (ob_tradeIDSeq ob + 1);
          (ob', tid) = generateTradeID now1 (ob\<lparr>ob_objs := (ob_objs ob)[tk := taker', mk := maker']\<rparr>);
          trade = \<lparr>tr_ID = tid, tr_TradingPair = ob_tradingPair ob, tr_MakerOrderID = or_ID first,
                   tr_TakerOrderID = or_ID second', tr_Maker = or_Owner first, tr_Taker = or_Owner second',
                   tr_Side = or_Side takerOrder, tr_Quantity = takerFilled, tr_Price = price, tr_Timestamp = now2\<rparr>
      in (ob'\<lparr>ob_trades := ob_trades ob' @ [trade]\<rparr>, trade))"

text \<open>
  One round of the loop of \<^verbatim>\<open>matchOrder\<close>: \<open>None\<close> when the loop ends, otherwise the book after the trade and
  the trade.
\<close>

definition match_step :: "(u64 \<Rightarrow> int \<times> int) \<Rightarrow> nat \<Rightarrow> OrderBook \<Rightarrow> (OrderBook \<times> Trade) option" where
  "match_step clk tk ob =
     (let order = ob_objs ob ! tk; isBid = (or_Side order \<noteq> OrderSideBuy) in
      if \<not> (IsActive order \<and> RemainingQuantity order > 0) then None
      else (let bestPrice = findBestPrice order (side_prices isBid ob) in
        if bestPrice = 0 then None
        else if \<not> canMatch order bestPrice then None
        else (case side_map isBid ob bestPrice of
                None \<Rightarrow> None
              | Some level \<Rightarrow>
                  (case pl_orders level of
                     [] \<Rightarrow> None
                   | mk # _ \<Rightarrow>
                       (let (ob1, trade) = executeTrade clk ob tk mk bestPrice; maker = ob_objs ob1 ! mk
                        in Some (if IsFilled maker \<or> or_Status maker = OrderStatusCancelled
                                 then removeOrderFromBook ob1 mk mk else ob1, trade))))))"

text \<open>The loop has no bound of its own; \<open>None\<close> would be a loop that never ends.\<close>

partial_function (option) matchOrder :: "(u64 \<Rightarrow> int \<times> int) \<Rightarrow> nat \<Rightarrow> OrderBook \<Rightarrow> Trade list \<Rightarrow> (OrderBook \<times> Trade list) option" where
  "matchOrder clk tk ob newTrades =
     (case match_step clk tk ob of
        None \<Rightarrow> Some (ob, newTrades)
      | Some r \<Rightarrow> matchOrder clk tk (fst r) (newTrades @ [snd r]))"

declare matchOrder.simps [code]

text \<open>
  \<^verbatim>\<open>PlaceOrder\<close>. The outer option is termination of the loop. \<open>now\<close> are the readings for the order identifier
  and for a missing timestamp.
\<close>

definition prepare_order :: "int \<times> int \<Rightarrow> OrderBook \<Rightarrow> Order \<Rightarrow> OrderBook \<times> Order" where
  "prepare_order now ob o0 =
     (let (ob1, o1) = (if or_ID o0 = 0 then (case generateOrderID (fst now) ob of (ob', i) \<Rightarrow> (ob', o0\<lparr>or_ID := i\<rparr>))
                       else (ob, o0));
          o2 = (if or_Timestamp o1 = 0 then o1\<lparr>or_Timestamp := snd now\<rparr> else o1);
          o3 = (if or_Status o2 = 0 then o2\<lparr>or_Status := OrderStatusPending\<rparr> else o2)
      in (ob1, o3\<lparr>or_TradingPair := ob_tradingPair ob\<rparr>))"

definition PlaceOrder ::
  "(u64 \<Rightarrow> int \<times> int) \<Rightarrow> int \<times> int \<Rightarrow> OrderBook \<Rightarrow> Order option
   \<Rightarrow> (order_error, OrderBook \<times> Order \<times> Trade list) result option" where
  "PlaceOrder clk now ob ord =
     (case validateOrder ord of
        Inl e \<Rightarrow> Some (Inl e)
      | Inr _ \<Rightarrow>
          (let (ob1, order) = prepare_order now ob (the ord); ref = length (ob_objs ob1) in
           case matchOrder clk ref (ob1\<lparr>ob_objs := ob_objs ob1 @ [order]\<rparr>) [] of
             None \<Rightarrow> None
           | Some (ob2, newTrades) \<Rightarrow>
               (let order' = ob_objs ob2 ! ref;
                    ob3 = (if IsActive order' \<and> RemainingQuantity order' > 0 then addOrderToBook ob2 ref else ob2)
                in Some (Inr (ob3\<lparr>ob_allOrders := (ob_allOrders ob3)(or_ID order' \<mapsto> ref)\<rparr>, order', newTrades)))))"

subsection \<open>Views\<close>

definition GetOrder :: "OrderBook \<Rightarrow> u64 \<Rightarrow> (order_error, Order) result" where
  "GetOrder ob orderID =
     (case ob_allOrders ob orderID of None \<Rightarrow> Inl ObNotFound | Some ref \<Rightarrow> Inr (ob_objs ob ! ref))"

definition GetOrdersByOwner :: "u64 list \<Rightarrow> OrderBook \<Rightarrow> address \<Rightarrow> Order list" where
  "GetOrdersByOwner ks ob owner =
     filter (\<lambda>o'. or_Owner o' = owner) (map (\<lambda>ref. ob_objs ob ! ref) (range_values ks (ob_allOrders ob)))"

text \<open>A positive limit cuts the list. A price without a level would be a nil pointer (\<open>None\<close>).\<close>

fun level_orders :: "(u64 \<rightharpoonup> priceLevel) \<Rightarrow> u64 list \<Rightarrow> nat list option" where
  "level_orders m [] = Some []"
| "level_orders m (p # ps) =
     (case m p of None \<Rightarrow> None | Some l \<Rightarrow> map_option (\<lambda>refs. pl_orders l @ refs) (level_orders m ps))"

definition side_orders :: "bool \<Rightarrow> OrderBook \<Rightarrow> int \<Rightarrow> Order list option" where
  "side_orders isBid ob limit =
     map_option (\<lambda>refs. (let os = filter IsActive (map (\<lambda>ref. ob_objs ob ! ref) refs)
                         in if limit > 0 then take (nat limit) os else os))
       (level_orders (side_map isBid ob) (side_prices isBid ob))"

definition GetBids :: "OrderBook \<Rightarrow> int \<Rightarrow> Order list option" where
  "GetBids ob limit = side_orders True ob limit"

definition GetAsks :: "OrderBook \<Rightarrow> int \<Rightarrow> Order list option" where
  "GetAsks ob limit = side_orders False ob limit"

definition GetTrades :: "OrderBook \<Rightarrow> Trade list" where
  "GetTrades ob = ob_trades ob"

text \<open>A negative number of levels makes \<^verbatim>\<open>make\<close> panic.\<close>

definition side_depth :: "bool \<Rightarrow> OrderBook \<Rightarrow> nat \<Rightarrow> (u64 \<times> u64) list" where
  "side_depth isBid ob n =
     List.map_filter (\<lambda>p. map_option (\<lambda>l. (p, pl_totalQty l)) (side_map isBid ob p)) (take n (side_prices isBid ob))"

definition GetDepth :: "OrderBook \<Rightarrow> int \<Rightarrow> ((u64 \<times> u64) list \<times> (u64 \<times> u64) list) option" where
  "GetDepth ob levels =
     (if levels < 0 then None else Some (side_depth True ob (nat levels), side_depth False ob (nat levels)))"

section \<open>The manager\<close>

type_synonym OrderBookManager = "string \<rightharpoonup> OrderBook"

definition NewOrderBookManager :: OrderBookManager where
  "NewOrderBookManager = Map.empty"

definition GetOrCreateOrderBook :: "OrderBookManager \<Rightarrow> string \<Rightarrow> OrderBookManager \<times> OrderBook" where
  "GetOrCreateOrderBook m tradingPair =
     (case m tradingPair of
        Some ob \<Rightarrow> (m, ob)
      | None \<Rightarrow> (m(tradingPair \<mapsto> NewOrderBook tradingPair), NewOrderBook tradingPair))"

definition GetOrderBook :: "OrderBookManager \<Rightarrow> string \<Rightarrow> (order_error, OrderBook) result" where
  "GetOrderBook m tradingPair = (case m tradingPair of Some ob \<Rightarrow> Inr ob | None \<Rightarrow> Inl ObBookNotFound)"

definition ListTradingPairs :: "string list \<Rightarrow> OrderBookManager \<Rightarrow> string list" where
  "ListTradingPairs ks m = filter (\<lambda>k. m k \<noteq> None) ks"

end
