(* ===== verification/Order_Matching.thy ===== *)
theory Order_Matching
  imports Order_Book "HOL-Library.Multiset"
begin

text \<open>
  Correctness of the order book. The two index loops that sort a price list are a selection sort and
  compute \<open>sort\<close>. The invariant \<open>book_ok\<close> ties levels, price lists and indexes together and is kept by
  every operation when order identifiers are not reused. The matching loop is refined by \<open>allocate\<close>, which
  distributes the incoming quantity over the queue of eligible resting orders; termination, price limits
  and conservation follow from it.
\<close>

section \<open>Sorting the price lists\<close>

fun pick :: "(u64 \<Rightarrow> u64 \<Rightarrow> bool) \<Rightarrow> u64 \<Rightarrow> u64 list \<Rightarrow> u64 \<times> u64 list" where
  "pick bad x [] = (x, [])"
| "pick bad x (y # ys) =
     (if bad x y then (case pick bad y ys of (m, r) \<Rightarrow> (m, x # r))
      else (case pick bad x ys of (m, r) \<Rightarrow> (m, y # r)))"

lemma mset_pick: "pick bad x ys = (m, r) \<Longrightarrow> add_mset m (mset r) = add_mset x (mset ys)"
  by (induction ys arbitrary: x r) (auto split: if_splits prod.splits)

lemma length_pick: "pick bad x ys = (m, r) \<Longrightarrow> length r = length ys"
  using mset_pick [of bad x ys m r] by (metis Suc_inject mset.simps(2) size_add_mset size_mset)

function selection_sort :: "(u64 \<Rightarrow> u64 \<Rightarrow> bool) \<Rightarrow> u64 list \<Rightarrow> u64 list" where
  "selection_sort bad [] = []"
| "selection_sort bad (x # xs) = (case pick bad x xs of (m, r) \<Rightarrow> m # selection_sort bad r)"
  by pat_completeness auto

termination
  by (relation "measure (length \<circ> snd)") (auto dest!: sym [of "(_, _)"] length_pick)

lemma swap_if_foldl:
  "foldl (swap_if bad (length pre)) (pre @ x # mid @ ys)
     [length pre + 1 + length mid..<length pre + 1 + length mid + length ys]
   = (case pick bad x ys of (m, r) \<Rightarrow> pre @ m # mid @ r)"
proof (induction ys arbitrary: x mid)
  case (Cons y ys)
  let ?j = "length pre + 1 + length mid"
  have range: "[?j..<?j + length (y # ys)] = ?j # [length pre + 1 + length (mid @ [z])
      ..<length pre + 1 + length (mid @ [z]) + length ys]" for z
    using upt_conv_Cons [of ?j "?j + length (y # ys)"] by simp
  have nth: "(pre @ x # mid @ y # ys) ! length pre = x" "(pre @ x # mid @ y # ys) ! ?j = y"
    by (simp_all add: nth_append)
  have swap: "(pre @ x # mid @ y # ys)[length pre := y, ?j := x] = pre @ y # (mid @ [x]) @ ys"
    by (simp add: list_update_append)
  show ?case
  proof (cases "bad x y")
    case True
    then have "swap_if bad (length pre) (pre @ x # mid @ y # ys) ?j = pre @ y # (mid @ [x]) @ ys"
      by (simp only: swap_if_def nth swap if_True)
    then show ?thesis
      using True Cons.IH [of y "mid @ [x]"] unfolding range [of x] by (simp split: prod.splits)
  next
    case False
    then have "swap_if bad (length pre) (pre @ x # mid @ y # ys) ?j = pre @ x # (mid @ [y]) @ ys"
      by (simp only: swap_if_def nth if_False append.assoc append.simps)
    then show ?thesis
      using False Cons.IH [of x "mid @ [y]"] unfolding range [of y] by (simp split: prod.splits)
  qed
qed simp

lemma sort_loops_foldl:
  "foldl (\<lambda>ps i. foldl (swap_if bad i) ps [i + 1..<length pre + length xs]) (pre @ xs)
     [length pre..<length pre + length xs - 1] = pre @ selection_sort bad xs"
proof (induction bad xs arbitrary: pre rule: selection_sort.induct)
  case (2 bad x xs)
  obtain m r where p: "pick bad x xs = (m, r)"
    by (metis surj_pair)
  have len: "length r = length xs"
    using p by (rule length_pick)
  have inner: "foldl (swap_if bad (length pre)) (pre @ x # xs) [length pre + 1..<length pre + length (x # xs)] = pre @ m # r"
    using swap_if_foldl [of bad pre x "[]" xs] by (simp add: p)
  show ?case
  proof (cases xs)
    case Nil
    then show ?thesis by simp
  next
    case (Cons y ys)
    then have "[length pre..<length pre + length (x # xs) - 1]
        = length pre # [length (pre @ [m])..<length (pre @ [m]) + length r - 1]"
      using upt_conv_Cons [of "length pre" "length pre + length xs"] by (simp add: len)
    then show ?thesis
      using 2 [OF p [symmetric], of "pre @ [m]"] inner by (simp add: p len)
  qed
qed simp

lemma sort_loops_selection: "sort_loops bad xs = selection_sort bad xs"
  using sort_loops_foldl [of bad "[]" xs] by (simp add: sort_loops_def)

lemma mset_selection_sort: "mset (selection_sort bad xs) = mset xs"
  by (induction bad xs rule: selection_sort.induct) (auto split: prod.splits dest: mset_pick)

lemma pick_least:
  assumes "transp le" and "\<And>a b. bad a b \<longleftrightarrow> \<not> le a b" and "\<And>a b. le a b \<or> le b a"
  shows "pick bad x ys = (m, r) \<Longrightarrow> le m x \<and> (\<forall>z \<in> set r. le m z)"
proof (induction ys arbitrary: x r)
  case Nil
  then show ?case using assms(3) by auto
next
  case (Cons y ys)
  show ?case
  proof (cases "bad x y")
    case True
    then obtain r' where "pick bad y ys = (m, r')" "r = x # r'"
      using Cons.prems by (auto split: prod.splits)
    moreover have "le y x"
      using True assms(2,3) by blast
    ultimately show ?thesis
      using Cons.IH transpD [OF assms(1)] by fastforce
  next
    case False
    then obtain r' where "pick bad x ys = (m, r')" "r = y # r'"
      using Cons.prems by (auto split: prod.splits)
    moreover have "le x y"
      using False assms(2) by blast
    ultimately show ?thesis
      using Cons.IH transpD [OF assms(1)] by fastforce
  qed
qed

lemma sorted_selection_sort:
  assumes "transp le" and "\<And>a b. bad a b \<longleftrightarrow> \<not> le a b" and "\<And>a b. le a b \<or> le b a"
  shows "sorted_wrt le (selection_sort bad xs)"
  using assms(2)
proof (induction bad xs rule: selection_sort.induct)
  case (2 bad x xs)
  obtain m r where p: "pick bad x xs = (m, r)"
    by (metis surj_pair)
  have "\<forall>z \<in> set (selection_sort bad r). le m z"
    using pick_least [OF assms(1) "2.prems" assms(3) p] mset_selection_sort [of bad r] by (metis mset_eq_setD)
  moreover have "sorted_wrt le (selection_sort bad r)"
    using "2.IH" [OF p [symmetric] "2.prems"] .
  ultimately show ?case by (simp add: p)
qed simp

lemma sortPriceList_asc: "sortPriceList prices False = sort prices"
proof -
  have "sorted_wrt (\<le>) (selection_sort (>) prices)"
    by (rule sorted_selection_sort) (auto simp: transp_def)
  then have "sort prices = selection_sort (>) prices"
    by (intro properties_for_sort) (simp_all add: mset_selection_sort)
  then show ?thesis
    by (simp add: sortPriceList_def sort_loops_selection)
qed

lemma sortPriceList_desc: "sortPriceList prices True = rev (sort prices)"
proof -
  have "sorted_wrt (\<ge>) (selection_sort (<) prices)"
    by (rule sorted_selection_sort) (auto simp: transp_def)
  then have "sort prices = rev (selection_sort (<) prices)"
    by (intro properties_for_sort) (simp_all add: mset_selection_sort sorted_wrt_rev)
  then show ?thesis
    by (simp add: sortPriceList_def sort_loops_selection)
qed

text \<open>C19. The two nested loops of \<^verbatim>\<open>sortPriceList\<close>, which exchange elements by index, compute the sorted list:
  ascending for asks and descending for bids.\<close>

theorem sort_price_list_sorts:
  "sortPriceList prices False = sort prices \<and> sortPriceList prices True = rev (sort prices)"
  by (simp add: sortPriceList_asc sortPriceList_desc)

section \<open>The invariant of the book\<close>

named_theorems book_simps \<open>projections of an updated book\<close>

lemma set_side_simps [book_simps]:
  "side_map b (set_side b' m ps ob) = (if b = b' then m else side_map b ob)"
  "side_prices b (set_side b' m ps ob) = (if b = b' then ps else side_prices b ob)"
  "ob_objs (set_side b' m ps ob) = ob_objs ob"
  "ob_orders (set_side b' m ps ob) = ob_orders ob"
  "ob_allOrders (set_side b' m ps ob) = ob_allOrders ob"
  "ob_trades (set_side b' m ps ob) = ob_trades ob"
  "ob_tradeIDSeq (set_side b' m ps ob) = ob_tradeIDSeq ob"
  "ob_tradingPair (set_side b' m ps ob) = ob_tradingPair ob"
  by (simp_all add: set_side_def side_map_def side_prices_def)

lemma side_update_simps [book_simps]:
  "side_map b (ob\<lparr>ob_orders := x\<rparr>) = side_map b ob" "side_prices b (ob\<lparr>ob_orders := x\<rparr>) = side_prices b ob"
  "side_map b (ob\<lparr>ob_allOrders := x\<rparr>) = side_map b ob" "side_prices b (ob\<lparr>ob_allOrders := x\<rparr>) = side_prices b ob"
  "side_map b (ob\<lparr>ob_objs := os\<rparr>) = side_map b ob" "side_prices b (ob\<lparr>ob_objs := os\<rparr>) = side_prices b ob"
  "side_map b (ob\<lparr>ob_trades := ts\<rparr>) = side_map b ob" "side_prices b (ob\<lparr>ob_trades := ts\<rparr>) = side_prices b ob"
  "side_map b (ob\<lparr>ob_tradeIDSeq := n\<rparr>) = side_map b ob" "side_prices b (ob\<lparr>ob_tradeIDSeq := n\<rparr>) = side_prices b ob"
  "side_map b (ob\<lparr>ob_orderIDSeq := n\<rparr>) = side_map b ob" "side_prices b (ob\<lparr>ob_orderIDSeq := n\<rparr>) = side_prices b ob"
  by (simp_all add: side_map_def side_prices_def)

abbreviation obj :: "OrderBook \<Rightarrow> nat \<Rightarrow> Order" where
  "obj ob r \<equiv> ob_objs ob ! r"

abbreviation is_buy :: "Order \<Rightarrow> bool" where
  "is_buy o' \<equiv> or_Side o' = OrderSideBuy"

definition open_order :: "Order \<Rightarrow> bool" where
  "open_order o' \<longleftrightarrow> IsActive o' \<and> RemainingQuantity o' > 0"

definition placed :: "OrderBook \<Rightarrow> bool \<Rightarrow> u64 \<Rightarrow> nat \<Rightarrow> bool" where
  "placed ob b p r \<longleftrightarrow> r < length (ob_objs ob) \<and> or_Price (obj ob r) = p \<and> is_buy (obj ob r) = b
     \<and> ob_orders ob (or_ID (obj ob r)) = Some r"

text \<open>The orders in \<open>X\<close> are in the book although they need not be open any more.\<close>

definition level_ok :: "nat set \<Rightarrow> OrderBook \<Rightarrow> bool \<Rightarrow> u64 \<Rightarrow> priceLevel \<Rightarrow> bool" where
  "level_ok X ob b p l \<longleftrightarrow> pl_price l = p \<and> pl_orders l \<noteq> [] \<and> distinct (pl_orders l)
     \<and> (\<forall>r \<in> set (pl_orders l). placed ob b p r \<and> (r \<notin> X \<longrightarrow> open_order (obj ob r)))"

definition prices_ok :: "bool \<Rightarrow> u64 list \<Rightarrow> u64 set \<Rightarrow> bool" where
  "prices_ok b ps D \<longleftrightarrow> distinct ps \<and> set ps = D \<and> (if b then sorted_wrt (\<ge>) ps else sorted_wrt (\<le>) ps)"

definition in_level :: "OrderBook \<Rightarrow> nat \<Rightarrow> bool" where
  "in_level ob r \<longleftrightarrow> (\<exists>l. side_map (is_buy (obj ob r)) ob (or_Price (obj ob r)) = Some l \<and> r \<in> set (pl_orders l))"

definition book_ok :: "nat set \<Rightarrow> OrderBook \<Rightarrow> bool" where
  "book_ok X ob \<longleftrightarrow>
     (\<forall>b. prices_ok b (side_prices b ob) (dom (side_map b ob))
        \<and> (\<forall>p l. side_map b ob p = Some l \<longrightarrow> level_ok X ob b p l))
     \<and> (\<forall>i r. ob_orders ob i = Some r \<longrightarrow> r < length (ob_objs ob) \<and> or_ID (obj ob r) = i \<and> in_level ob r)"

lemma book_okD:
  assumes "book_ok X ob"
  shows "prices_ok b (side_prices b ob) (dom (side_map b ob))"
    and "side_map b ob p = Some l \<Longrightarrow> level_ok X ob b p l"
    and "ob_orders ob i = Some r \<Longrightarrow> r < length (ob_objs ob) \<and> or_ID (obj ob r) = i \<and> in_level ob r"
  using assms by (simp_all add: book_ok_def)

lemma removePriceFromList_remove1: "removePriceFromList p ps = remove1 p ps"
  by (induction ps) auto

lemma prices_ok_remove: "prices_ok b ps D \<Longrightarrow> prices_ok b (remove1 p ps) (D - {p})"
proof -
  have "sorted_wrt R (remove1 p ps)" if "sorted_wrt R ps" for R
    using that by (induction ps) (auto dest: notin_set_remove1)
  moreover assume "prices_ok b ps D"
  ultimately show ?thesis
    by (simp add: prices_ok_def)
qed

lemma prices_ok_insert: "prices_ok b ps D \<Longrightarrow> p \<notin> D \<Longrightarrow> prices_ok b (sortPriceList (ps @ [p]) b) (insert p D)"
  by (cases b) (auto simp: prices_ok_def sortPriceList_asc sortPriceList_desc sorted_wrt_rev)

lemma book_ok_drop:
  assumes "book_ok (insert r X) ob" and "ob_orders ob (or_ID (obj ob r)) \<noteq> Some r \<or> open_order (obj ob r)"
  shows "book_ok X ob"
  using assms unfolding book_ok_def level_ok_def placed_def by fast

lemma book_ok_update_obj:
  assumes "book_ok X ob" and "or_ID o' = or_ID (obj ob r)" "or_Price o' = or_Price (obj ob r)" "or_Side o' = or_Side (obj ob r)"
    and "r < length (ob_objs ob)"
  shows "book_ok (insert r X) (ob\<lparr>ob_objs := (ob_objs ob)[r := o']\<rparr>)"
proof -
  let ?ob = "ob\<lparr>ob_objs := (ob_objs ob)[r := o']\<rparr>"
  have same: "or_ID (obj ?ob q) = or_ID (obj ob q)" "or_Price (obj ?ob q) = or_Price (obj ob q)"
    "or_Side (obj ?ob q) = or_Side (obj ob q)" for q
    using assms(2-5) by (auto simp: nth_list_update)
  have "obj ?ob q = obj ob q" if "q \<noteq> r" for q
    using that by simp
  then show ?thesis
    using assms(1) unfolding book_ok_def level_ok_def placed_def in_level_def same by (simp add: book_simps)
qed

text \<open>What removing an order from its level changes.\<close>

lemma removed_parts:
  assumes "side_map (is_buy (obj ob r)) ob (or_Price (obj ob r)) = Some l"
  shows "ob_objs (removeOrderFromBook ob r r) = ob_objs ob"
    and "ob_orders (removeOrderFromBook ob r r) = (ob_orders ob)(or_ID (obj ob r) := None)"
    and "ob_allOrders (removeOrderFromBook ob r r) = ob_allOrders ob"
    and "ob_trades (removeOrderFromBook ob r r) = ob_trades ob"
    and "side_map b (removeOrderFromBook ob r r) =
       (if b = is_buy (obj ob r) then (side_map b ob)(or_Price (obj ob r) :=
          if remove1 r (pl_orders l) = [] then None
          else Some (l\<lparr>pl_orders := remove1 r (pl_orders l),
                      pl_totalQty := pl_totalQty l - RemainingQuantity (obj ob r)\<rparr>))
        else side_map b ob)"
    and "side_prices b (removeOrderFromBook ob r r) =
       (if b = is_buy (obj ob r) \<and> remove1 r (pl_orders l) = []
        then remove1 (or_Price (obj ob r)) (side_prices b ob) else side_prices b ob)"
  using assms by (auto simp: removeOrderFromBook_def Let_def book_simps removePriceFromList_remove1)

lemma remove_book_ok:
  assumes ok: "book_ok {r} ob" and r: "ob_orders ob (or_ID (obj ob r)) = Some r"
  shows "book_ok {} (removeOrderFromBook ob r r)"
proof -
  let ?b = "is_buy (obj ob r)" and ?p = "or_Price (obj ob r)" and ?ob = "removeOrderFromBook ob r r"
  obtain l where l: "side_map ?b ob ?p = Some l" "r \<in> set (pl_orders l)"
    using book_okD(3) [OF ok r] by (auto simp: in_level_def)
  let ?l = "l\<lparr>pl_orders := remove1 r (pl_orders l), pl_totalQty := pl_totalQty l - RemainingQuantity (obj ob r)\<rparr>"
  have lv: "level_ok {r} ob ?b ?p l"
    using book_okD(2) [OF ok l(1)] .
  note objs = removed_parts(1) [OF l(1)] and orders = removed_parts(2) [OF l(1)]
    and maps = removed_parts(5) [OF l(1)] and prices = removed_parts(6) [OF l(1)]
  have other: "placed ?ob b p q" if "placed ob b p q" "q \<noteq> r" for b p q
    using that r by (auto simp: placed_def objs orders)
  have "level_ok {} ?ob b p k" if k: "side_map b ?ob p = Some k" for b p k
  proof (cases "b = ?b \<and> p = ?p")
    case True
    then have "k = ?l" "remove1 r (pl_orders l) \<noteq> []"
      using k by (auto simp: maps split: if_splits)
    with lv other show ?thesis
      by (auto simp: level_ok_def objs True)
  next
    case False
    then have "side_map b ob p = Some k"
      using k by (auto simp: maps split: if_splits)
    then have lk: "level_ok {r} ob b p k"
      using book_okD(2) [OF ok] by blast
    then have "r \<notin> set (pl_orders k)"
      using False by (auto simp: level_ok_def placed_def)
    with lk other show ?thesis
      by (auto simp: level_ok_def objs)
  qed
  moreover have "prices_ok b (side_prices b ?ob) (dom (side_map b ?ob))" for b
    using book_okD(1) [OF ok, of b] l(1) prices_ok_remove [of b "side_prices b ob" "dom (side_map b ob)" ?p]
    by (auto simp: prices maps insert_absorb domI)
  moreover have "q < length (ob_objs ?ob) \<and> or_ID (obj ?ob q) = i \<and> in_level ?ob q" if "ob_orders ?ob i = Some q" for i q
  proof -
    have q: "ob_orders ob i = Some q" "i \<noteq> or_ID (obj ob r)"
      using that by (auto simp: orders split: if_splits)
    then have "q < length (ob_objs ob) \<and> or_ID (obj ob q) = i \<and> in_level ob q" and "q \<noteq> r"
      using book_okD(3) [OF ok] by auto
    moreover have "remove1 r (pl_orders l) \<noteq> []" if "q \<in> set (pl_orders l)"
      using that \<open>q \<noteq> r\<close> by (metis empty_iff empty_set in_set_remove1)
    ultimately show ?thesis
      using l lv by (cases "is_buy (obj ob q) = ?b \<and> or_Price (obj ob q) = ?p") (auto simp: objs in_level_def maps level_ok_def)
  qed
  ultimately show ?thesis
    by (simp add: book_ok_def)
qed

section \<open>One trade\<close>

lemma Fill_simps [simp]:
  "or_ID (fst (Fill o' q)) = or_ID o'" "or_Price (fst (Fill o' q)) = or_Price o'"
  "or_Side (fst (Fill o' q)) = or_Side o'" "or_Owner (fst (Fill o' q)) = or_Owner o'"
  "or_OrderType (fst (Fill o' q)) = or_OrderType o'" "or_Quantity (fst (Fill o' q)) = or_Quantity o'"
  "or_Timestamp (fst (Fill o' q)) = or_Timestamp o'"
  by (simp_all add: Fill_def Let_def)

lemma RemainingQuantity_unat: "unat (RemainingQuantity o') = unat (or_Quantity o') - unat (or_FilledQuantity o')"
  by (simp add: RemainingQuantity_def unat_minus_le word_le_nat_alt)

lemma RemainingQuantity_pos: "RemainingQuantity o' > 0 \<longleftrightarrow> or_FilledQuantity o' < or_Quantity o'"
  by (simp add: word_less_nat_alt RemainingQuantity_unat)

text \<open>Filling takes the smaller of the quantity and what remains, and closes the order when nothing is left.\<close>

lemma Fill_amount: "snd (Fill o' q) = min q (RemainingQuantity o')"
  by (auto simp: Fill_def Let_def min_def)

lemma Fill_remaining:
  assumes "q \<le> RemainingQuantity o'"
  shows "RemainingQuantity (fst (Fill o' q)) = RemainingQuantity o' - q"
proof (cases "q = RemainingQuantity o'")
  case True
  then show ?thesis by (simp add: Fill_def Let_def RemainingQuantity_def)
next
  case False
  with assms have "q < RemainingQuantity o'" by simp
  moreover have "unat (or_FilledQuantity o' + q) = unat (or_FilledQuantity o') + unat q"
    using calculation RemainingQuantity_unat [of o'] unat_bound [of "or_Quantity o'"]
    by (intro unat_add_lem [THEN iffD1]) (simp add: word_less_nat_alt)
  ultimately show ?thesis
    by (simp add: word_unat_eq_iff Fill_def Let_def RemainingQuantity_unat unat_minus_le not_le)
qed

lemma Fill_remaining_pos: "q < RemainingQuantity o' \<Longrightarrow> RemainingQuantity (fst (Fill o' q)) > 0"
  using Fill_remaining [of q o'] unat_minus_le [of q "RemainingQuantity o'"] by (simp add: word_less_nat_alt word_le_nat_alt)

lemma Fill_open: "open_order (fst (Fill o' q)) \<longleftrightarrow> q < RemainingQuantity o'"
proof (cases "q < RemainingQuantity o'")
  case True
  then have "RemainingQuantity (fst (Fill o' q)) > 0"
    by (rule Fill_remaining_pos)
  with True show ?thesis
    by (auto simp: open_order_def Fill_def Let_def IsActive_def)
next
  case False
  then show ?thesis
    by (simp add: open_order_def Fill_def Let_def IsActive_def order_constants not_less)
qed

lemma Fill_filled: "IsFilled (fst (Fill o' q)) \<or> or_Status (fst (Fill o' q)) = OrderStatusCancelled \<longleftrightarrow> RemainingQuantity o' \<le> q"
proof (cases "RemainingQuantity o' \<le> q")
  case True
  then show ?thesis by (simp add: Fill_def Let_def IsFilled_def)
next
  case False
  then have "or_FilledQuantity (fst (Fill o' q)) < or_Quantity (fst (Fill o' q))"
    using Fill_remaining_pos [of q o'] by (simp only: RemainingQuantity_pos not_le)
  with False show ?thesis
    by (simp add: IsFilled_def Fill_def Let_def order_constants)
qed

section \<open>Which resting orders an order meets, and in which sequence\<close>

definition eligible :: "Order \<Rightarrow> u64 list \<Rightarrow> u64 list" where
  "eligible order prices =
     (let ps = (if is_buy order then prices else rev prices) in
      if or_OrderType order = OrderTypeMarket then ps
      else if is_buy order then filter (\<lambda>p. p \<le> or_Price order) ps
      else filter (\<lambda>p. p \<ge> or_Price order) ps)"

lemma find_hd: "price_or_zero (List.find P xs) = (case filter P xs of [] \<Rightarrow> 0 | p # _ \<Rightarrow> p)"
  by (induction xs) (simp_all add: price_or_zero_def)

lemma findBestPrice_eligible: "findBestPrice order prices = (case eligible order prices of [] \<Rightarrow> 0 | p # _ \<Rightarrow> p)"
proof (cases "prices = []")
  case False
  have "(case xs of [] \<Rightarrow> 0 | p # _ \<Rightarrow> p) = hd xs" if "xs \<noteq> []" for xs :: "u64 list"
    using that by (cases xs) auto
  with False show ?thesis
    unfolding findBestPrice_def eligible_def Let_def find_hd by (simp add: hd_rev)
qed (simp add: findBestPrice_def eligible_def Let_def)

lemma eligible_canMatch: "p \<in> set (eligible order prices) \<Longrightarrow> canMatch order p"
  by (auto simp: eligible_def Let_def canMatch_def split: if_splits)

lemma set_eligible: "set (eligible order prices) = {p \<in> set prices. canMatch order p}"
  by (auto simp: eligible_def Let_def canMatch_def)

lemma distinct_eligible: "distinct prices \<Longrightarrow> distinct (eligible order prices)"
  by (simp add: eligible_def Let_def)

lemma eligible_remove: "distinct prices \<Longrightarrow> eligible order (remove1 p prices) = remove1 p (eligible order prices)"
  by (simp add: eligible_def Let_def distinct_remove1_removeAll filter_remove1 removeAll_filter_not_eq rev_filter)
    (auto simp: conj_commute intro!: filter_cong)

definition queue :: "(u64 \<rightharpoonup> priceLevel) \<Rightarrow> u64 list \<Rightarrow> (u64 \<times> nat) list" where
  "queue m ps = concat (map (\<lambda>p. map (Pair p) (pl_orders (the (m p)))) ps)"

definition waiting :: "OrderBook \<Rightarrow> Order \<Rightarrow> (u64 \<times> nat) list" where
  "waiting ob order = (let b = (\<not> is_buy order) in queue (side_map b ob) (eligible order (side_prices b ob)))"

text \<open>The specification of matching: give to each waiting order in turn, until nothing is left to give.\<close>

fun allocate :: "(nat \<Rightarrow> u64) \<Rightarrow> (u64 \<times> nat) list \<Rightarrow> u64 \<Rightarrow> (u64 \<times> nat \<times> u64) list" where
  "allocate rest [] n = []"
| "allocate rest ((p, r) # q) n =
     (if n = 0 then [] else (let k = min n (rest r) in (p, r, k) # allocate rest q (n - k)))"

lemma allocate_cong: "(\<And>p r. (p, r) \<in> set q \<Longrightarrow> f r = g r) \<Longrightarrow> allocate f q n = allocate g q n"
proof (induction q arbitrary: n)
  case (Cons x q)
  obtain p r where "x = (p, r)" by (metis surj_pair)
  with Cons.prems [of p r] Cons.IH Cons.prems show ?case by (simp add: Let_def) blast
qed simp

lemma allocate_0 [simp]: "allocate rest q 0 = []"
  by (cases q) auto

lemma queue_cong: "(\<And>p. p \<in> set ps \<Longrightarrow> m p = m' p) \<Longrightarrow> queue m ps = queue m' ps"
  by (simp add: queue_def cong: map_cong)

section \<open>One round of the loop\<close>

definition ready :: "OrderBook \<Rightarrow> nat \<Rightarrow> bool" where
  "ready ob tk \<longleftrightarrow> book_ok {} ob \<and> tk < length (ob_objs ob) \<and> ob_orders ob (or_ID (obj ob tk)) \<noteq> Some tk
     \<and> 0 \<notin> set (eligible (obj ob tk) (side_prices (\<not> is_buy (obj ob tk)) ob))"

text \<open>The parties a trade records: the older order is called the maker, which need not be the resting one.\<close>

definition trade_names :: "Order \<Rightarrow> Order \<Rightarrow> Trade \<Rightarrow> bool" where
  "trade_names order resting t \<longleftrightarrow>
     (if or_Timestamp resting < or_Timestamp order \<or> or_Timestamp resting = or_Timestamp order \<and> or_ID resting < or_ID order
      then tr_MakerOrderID t = or_ID resting \<and> tr_Maker t = or_Owner resting
        \<and> tr_TakerOrderID t = or_ID order \<and> tr_Taker t = or_Owner order
      else tr_MakerOrderID t = or_ID order \<and> tr_Maker t = or_Owner order
        \<and> tr_TakerOrderID t = or_ID resting \<and> tr_Taker t = or_Owner resting)"

lemma executeTrade_parts:
  fixes clk ob tk mk p
  defines "q \<equiv> min (RemainingQuantity (obj ob tk)) (RemainingQuantity (obj ob mk))"
  obtains t where "executeTrade clk ob tk mk p =
      (ob\<lparr>ob_objs := (ob_objs ob)[tk := fst (Fill (obj ob tk) q), mk := fst (Fill (obj ob mk) q)],
          ob_tradeIDSeq := ob_tradeIDSeq ob + 1, ob_trades := ob_trades ob @ [t]\<rparr>, t)"
    and "tr_Price t = p" "tr_Quantity t = q" "tr_Side t = or_Side (obj ob tk)"
    "trade_names (obj ob tk) (obj ob mk) t"
proof -
  have q: "(if RemainingQuantity (obj ob mk) < RemainingQuantity (obj ob tk) then RemainingQuantity (obj ob mk)
      else RemainingQuantity (obj ob tk)) = q"
    by (auto simp: q_def min_def)
  have "snd (Fill (obj ob tk) q) = q"
    by (simp add: Fill_amount q_def)
  then show thesis
    by (intro that [of "snd (executeTrade clk ob tk mk p)"])
      (auto simp: executeTrade_def q generateTradeID_def Let_def trade_names_def split: prod.splits)
qed

lemma waiting_Cons:
  assumes ok: "book_ok {} ob" and w: "waiting ob order = (p, mk) # q"
  obtains ps l rs where "eligible order (side_prices (\<not> is_buy order) ob) = p # ps"
    "side_map (\<not> is_buy order) ob p = Some l" "pl_orders l = mk # rs"
    "q = map (Pair p) rs @ queue (side_map (\<not> is_buy order) ob) ps"
proof -
  let ?m = "side_map (\<not> is_buy order) ob" and ?e = "eligible order (side_prices (\<not> is_buy order) ob)"
  obtain p' ps where e: "?e = p' # ps"
    using w by (cases ?e) (auto simp: waiting_def queue_def Let_def)
  then have "p' \<in> dom ?m"
    using book_okD(1) [OF ok, of "\<not> is_buy order"] set_eligible [of order "side_prices (\<not> is_buy order) ob"]
    by (auto simp: prices_ok_def)
  then obtain l where l: "?m p' = Some l" by blast
  then have "pl_orders l \<noteq> []"
    using book_okD(2) [OF ok] by (auto simp: level_ok_def)
  then obtain r rs where "pl_orders l = r # rs"
    by (cases "pl_orders l") auto
  with w e l show thesis
    by (intro that [of ps l rs]) (auto simp: waiting_def queue_def Let_def)
qed

lemma waiting_Nil:
  assumes ok: "book_ok {} ob" and "waiting ob order = []"
  shows "eligible order (side_prices (\<not> is_buy order) ob) = []"
proof (rule ccontr)
  let ?m = "side_map (\<not> is_buy order) ob" and ?e = "eligible order (side_prices (\<not> is_buy order) ob)"
  assume "?e \<noteq> []"
  then obtain p ps where e: "?e = p # ps" by (cases ?e) auto
  then have "p \<in> dom ?m"
    using book_okD(1) [OF ok, of "\<not> is_buy order"] set_eligible [of order "side_prices (\<not> is_buy order) ob"]
    by (auto simp: prices_ok_def)
  then obtain l where l: "?m p = Some l" by blast
  then have "pl_orders l \<noteq> []"
    using book_okD(2) [OF ok] by (auto simp: level_ok_def)
  with assms(2) e l show False
    by (auto simp: waiting_def queue_def Let_def)
qed

lemma match_step_None:
  assumes "ready ob tk" and "\<not> open_order (obj ob tk) \<or> waiting ob (obj ob tk) = []"
  shows "match_step clk tk ob = None"
proof (cases "open_order (obj ob tk)")
  case True
  then have "eligible (obj ob tk) (side_prices (\<not> is_buy (obj ob tk)) ob) = []"
    using assms by (intro waiting_Nil) (auto simp: ready_def)
  then show ?thesis
    by (simp add: match_step_def Let_def findBestPrice_eligible)
qed (auto simp: match_step_def Let_def open_order_def)

lemma eligible_Fill [simp]: "eligible (fst (Fill o' q)) = eligible o'"
  by (rule ext) (simp add: eligible_def)

lemma book_ok_misc [simp]:
  "book_ok X (ob\<lparr>ob_tradeIDSeq := n\<rparr>) = book_ok X ob" "book_ok X (ob\<lparr>ob_trades := ts\<rparr>) = book_ok X ob"
  by (simp_all add: book_ok_def level_ok_def placed_def in_level_def book_simps)

lemma trade_book_ok:
  assumes "ready ob tk" and "mk < length (ob_objs ob)" and "tk \<noteq> mk"
  shows "book_ok {mk} (ob\<lparr>ob_objs := (ob_objs ob)[tk := fst (Fill (obj ob tk) k), mk := fst (Fill (obj ob mk) k)]\<rparr>)"
proof -
  let ?ob = "ob\<lparr>ob_objs := (ob_objs ob)[tk := fst (Fill (obj ob tk) k)]\<rparr>"
  have tk: "book_ok {} ob" "tk < length (ob_objs ob)" "ob_orders ob (or_ID (obj ob tk)) \<noteq> Some tk"
    using assms(1) by (simp_all add: ready_def)
  then have "ob_orders ?ob (or_ID (obj ?ob tk)) \<noteq> Some tk"
    by simp
  then have "book_ok {} ?ob"
    using book_ok_drop [OF book_ok_update_obj [OF tk(1) _ _ _ tk(2)]] by simp
  then have "book_ok {mk} (?ob\<lparr>ob_objs := (ob_objs ?ob)[mk := fst (Fill (obj ob mk) k)]\<rparr>)"
    by (rule book_ok_update_obj) (use assms(2,3) in simp_all)
  then show ?thesis by simp
qed

lemma match_step_Some:
  assumes rd: "ready ob tk" and op: "open_order (obj ob tk)" and w: "waiting ob (obj ob tk) = (p, mk) # q"
  defines "k \<equiv> min (RemainingQuantity (obj ob tk)) (RemainingQuantity (obj ob mk))"
  obtains ob' t where "match_step clk tk ob = Some (ob', t)" "ready ob' tk"
    "tr_Price t = p" "tr_Quantity t = k" "trade_names (obj ob tk) (obj ob mk) t" "ob_trades ob' = ob_trades ob @ [t]"
    "ob_objs ob' = (ob_objs ob)[tk := fst (Fill (obj ob tk) k), mk := fst (Fill (obj ob mk) k)]" "tk \<noteq> mk"
    "RemainingQuantity (obj ob mk) \<le> RemainingQuantity (obj ob tk) \<Longrightarrow> waiting ob' (obj ob' tk) = q"
    "ob_orders ob' \<subseteq>\<^sub>m ob_orders ob" "ob_allOrders ob' = ob_allOrders ob"
    "\<And>b. set (side_prices b ob') \<subseteq> set (side_prices b ob)"
proof -
  let ?o = "obj ob tk" and ?b = "\<not> is_buy (obj ob tk)"
  have ok: "book_ok {} ob" and tk: "tk < length (ob_objs ob)" "ob_orders ob (or_ID ?o) \<noteq> Some tk"
    and zero: "0 \<notin> set (eligible ?o (side_prices ?b ob))"
    using rd by (auto simp: ready_def)
  obtain ps l rs where e: "eligible ?o (side_prices ?b ob) = p # ps" and l: "side_map ?b ob p = Some l" "pl_orders l = mk # rs"
    and q: "q = map (Pair p) rs @ queue (side_map ?b ob) ps"
    using waiting_Cons [OF ok w] by metis
  have mk: "placed ob ?b p mk" "open_order (obj ob mk)"
    using book_okD(2) [OF ok l(1)] l(2) by (auto simp: level_ok_def)
  with tk have neq: "tk \<noteq> mk" by (auto simp: placed_def)
  have "p \<in> set (eligible ?o (side_prices ?b ob))" by (simp add: e)
  then have p: "p \<noteq> 0" "canMatch ?o p"
    using zero by (auto simp: set_eligible)
  obtain t where ex: "executeTrade clk ob tk mk p =
      (ob\<lparr>ob_objs := (ob_objs ob)[tk := fst (Fill ?o k), mk := fst (Fill (obj ob mk) k)],
          ob_tradeIDSeq := ob_tradeIDSeq ob + 1, ob_trades := ob_trades ob @ [t]\<rparr>, t)"
    and t: "tr_Price t = p" "tr_Quantity t = k" "trade_names (obj ob tk) (obj ob mk) t"
    using executeTrade_parts [of clk ob tk mk p] unfolding k_def by metis
  let ?ob1 = "ob\<lparr>ob_objs := (ob_objs ob)[tk := fst (Fill ?o k), mk := fst (Fill (obj ob mk) k)],
          ob_tradeIDSeq := ob_tradeIDSeq ob + 1, ob_trades := ob_trades ob @ [t]\<rparr>"
  let ?ob2 = "if RemainingQuantity (obj ob mk) \<le> k then removeOrderFromBook ?ob1 mk mk else ?ob1"
  have objs1: "obj ?ob1 tk = fst (Fill ?o k)" "obj ?ob1 mk = fst (Fill (obj ob mk) k)"
    using tk mk neq by (auto simp: placed_def)
  have step: "match_step clk tk ob = Some (?ob2, t)"
    using op p l objs1(2)
    by (auto simp: match_step_def Let_def open_order_def findBestPrice_eligible e ex Fill_filled split: if_splits)
  have ok1: "book_ok {mk} ?ob1"
    using trade_book_ok [OF rd _ neq, of k] mk(1) by (simp add: placed_def)
  have placed1: "is_buy (obj ?ob1 mk) = ?b" "or_Price (obj ?ob1 mk) = p" "ob_orders ?ob1 (or_ID (obj ?ob1 mk)) = Some mk"
    using mk(1) objs1(2) by (auto simp: placed_def)
  have l1: "side_map (is_buy (obj ?ob1 mk)) ?ob1 (or_Price (obj ?ob1 mk)) = Some l"
    using l placed1 by (simp add: book_simps)
  note parts = removed_parts [OF l1]
  have ok2: "book_ok {} ?ob2"
  proof (cases "RemainingQuantity (obj ob mk) \<le> k")
    case True
    then show ?thesis
      using remove_book_ok [OF ok1 placed1(3)] by simp
  next
    case False
    then have "open_order (obj ?ob1 mk)"
      by (simp only: objs1(2) Fill_open not_le)
    then have "book_ok {} ?ob1"
      using book_ok_drop [OF ok1] by blast
    with False show ?thesis by simp
  qed
  have objs2: "ob_objs ?ob2 = (ob_objs ob)[tk := fst (Fill ?o k), mk := fst (Fill (obj ob mk) k)]"
    using parts(1) by simp
  have tk2: "obj ?ob2 tk = fst (Fill ?o k)"
    using objs1(1) by (simp only: objs2) simp
  have orders2: "ob_orders ?ob2 \<subseteq>\<^sub>m ob_orders ob" and all2: "ob_allOrders ?ob2 = ob_allOrders ob"
    and trades2: "ob_trades ?ob2 = ob_trades ob @ [t]"
    using parts(2-4) by (auto simp: map_le_def)
  have prices2: "set (side_prices c ?ob2) \<subseteq> set (side_prices c ob)" for c
  proof -
    have "side_prices c ?ob2 = side_prices c ob \<or> side_prices c ?ob2 = remove1 p (side_prices c ob)"
      using parts(6) [of c] unfolding placed1(2) by (simp add: book_simps)
    then show ?thesis
      using set_remove1_subset [of p "side_prices c ob"] by auto
  qed
  have id2: "or_ID (obj ?ob2 tk) = or_ID ?o" "or_Side (obj ?ob2 tk) = or_Side ?o" "length (ob_objs ?ob2) = length (ob_objs ob)"
    by (simp_all only: tk2 Fill_simps) (simp only: objs2 length_list_update)
  have "ob_orders ?ob2 (or_ID ?o) \<noteq> Some tk"
    using tk(2) orders2 unfolding map_le_def by (metis (no_types) domI)
  moreover have "0 \<notin> set (eligible (obj ?ob2 tk) (side_prices ?b ?ob2))"
    unfolding tk2 eligible_Fill set_eligible using zero prices2 [of ?b] unfolding set_eligible by blast
  ultimately have rd2: "ready ?ob2 tk"
    unfolding ready_def id2 by (intro conjI ok2 tk(1))
  have w2: "waiting ?ob2 (obj ?ob2 tk) = q" if "RemainingQuantity (obj ob mk) \<le> RemainingQuantity ?o"
  proof -
    have k: "RemainingQuantity (obj ob mk) \<le> k"
      using that by (simp add: k_def)
    have "distinct (side_prices ?b ob)" and d: "distinct (p # ps)"
      using book_okD(1) [OF ok, of ?b] distinct_eligible [of "side_prices ?b ob" ?o] by (auto simp: prices_ok_def e)
    then have "eligible ?o (side_prices ?b ?ob2) = (if rs = [] then ps else p # ps)"
      using k parts(6) [of ?b] placed1(1,2) l(2) by (simp add: book_simps eligible_remove e)
    moreover have "queue (side_map ?b ?ob2) ps = queue (side_map ?b ob) ps"
      using d k parts(5) placed1(1,2) by (intro queue_cong) (auto simp: book_simps)
    moreover have "rs \<noteq> [] \<Longrightarrow> \<exists>l'. side_map ?b ?ob2 p = Some l' \<and> pl_orders l' = rs"
      using k parts(5) placed1(1,2) l(2) by (auto simp: book_simps)
    ultimately show ?thesis
      unfolding tk2 waiting_def Let_def by (auto simp: q queue_def)
  qed
  show thesis
    by (rule that [OF step rd2 t trades2 objs2 neq w2 orders2 all2 prices2])
qed

section \<open>The loop allocates along the queue\<close>

lemma waiting_placed:
  assumes ok: "book_ok {} ob" and "(p, r) \<in> set (waiting ob order)"
  shows "placed ob (\<not> is_buy order) p r \<and> open_order (obj ob r) \<and> canMatch order p"
proof -
  let ?b = "\<not> is_buy order"
  have p: "p \<in> set (eligible order (side_prices ?b ob))" "r \<in> set (pl_orders (the (side_map ?b ob p)))"
    using assms(2) by (auto simp: waiting_def Let_def queue_def)
  then obtain l where "side_map ?b ob p = Some l"
    using book_okD(1) [OF ok, of ?b] by (auto simp: set_eligible prices_ok_def)
  with p book_okD(2) [OF ok this] show ?thesis
    by (auto simp: level_ok_def set_eligible)
qed

lemma distinct_queue:
  assumes "distinct ps" and "\<And>p. p \<in> set ps \<Longrightarrow> distinct (pl_orders (the (m p)))"
    and "\<And>p r. p \<in> set ps \<Longrightarrow> r \<in> set (pl_orders (the (m p))) \<Longrightarrow> f r = p"
  shows "distinct (map snd (queue m ps))"
  using assms
proof (induction ps)
  case (Cons p ps)
  have "set (pl_orders (the (m p))) \<inter> set (map snd (queue m ps)) = {}"
  proof (rule equals0I)
    fix r assume "r \<in> set (pl_orders (the (m p))) \<inter> set (map snd (queue m ps))"
    then obtain p' where "r \<in> set (pl_orders (the (m p)))" "p' \<in> set ps" "r \<in> set (pl_orders (the (m p')))"
      by (auto simp: queue_def)
    then show False
      using Cons.prems(1) Cons.prems(3) [of p r] Cons.prems(3) [of p' r] by auto
  qed
  with Cons show ?case
    by (simp add: queue_def comp_def)
qed (simp add: queue_def)

lemma distinct_waiting:
  assumes ok: "book_ok {} ob"
  shows "distinct (map snd (waiting ob order))"
proof -
  let ?b = "\<not> is_buy order"
  have lv: "level_ok {} ob ?b p (the (side_map ?b ob p))" if "p \<in> set (eligible order (side_prices ?b ob))" for p
    using that book_okD(1) [OF ok, of ?b] book_okD(2) [OF ok, of ?b p] by (auto simp: set_eligible prices_ok_def)
  have "distinct (side_prices ?b ob)"
    using book_okD(1) [OF ok, of ?b] by (simp add: prices_ok_def)
  then show ?thesis
    unfolding waiting_def Let_def
    by (intro distinct_queue [where f = "\<lambda>r. or_Price (obj ob r)"] distinct_eligible)
      (use lv in \<open>auto simp: level_ok_def placed_def\<close>)
qed

definition given_to :: "nat \<Rightarrow> (u64 \<times> nat \<times> u64) list \<Rightarrow> nat" where
  "given_to r al = sum_list (map (\<lambda>(p, r', k). if r' = r then unat k else 0) al)"

definition given :: "(u64 \<times> nat \<times> u64) list \<Rightarrow> nat" where
  "given al = sum_list (map (\<lambda>(p, r, k). unat k) al)"

lemma given_simps [simp]:
  "given_to r [] = 0" "given_to r ((p, r', k) # al) = (if r' = r then unat k else 0) + given_to r al"
  "given [] = 0" "given ((p, r', k) # al) = unat k + given al"
  by (simp_all add: given_to_def given_def)

abbreviation left :: "OrderBook \<Rightarrow> nat \<Rightarrow> nat" where
  "left ob r \<equiv> unat (RemainingQuantity (obj ob r))"

definition same_terms :: "Order \<Rightarrow> Order \<Rightarrow> bool" where
  "same_terms a b \<longleftrightarrow> or_ID a = or_ID b \<and> or_Price a = or_Price b \<and> or_Side a = or_Side b
     \<and> or_OrderType a = or_OrderType b \<and> or_Owner a = or_Owner b \<and> or_Quantity a = or_Quantity b
     \<and> or_Timestamp a = or_Timestamp b"

lemma trade_names_cong:
  "same_terms a a' \<Longrightarrow> same_terms m m' \<Longrightarrow> trade_names a m t = trade_names a' m' t"
  by (simp add: trade_names_def same_terms_def)

text \<open>The trades name the orders of an allocation.\<close>

definition named :: "nat \<Rightarrow> OrderBook \<Rightarrow> (u64 \<times> nat \<times> u64) list \<Rightarrow> Trade list \<Rightarrow> bool" where
  "named tk ob al ts \<longleftrightarrow> list_all2 (\<lambda>t (p, r, k). tk < length (ob_objs ob) \<and> r < length (ob_objs ob)
     \<and> trade_names (obj ob tk) (obj ob r) t) ts al"

lemma named_earlier:
  assumes "named tk ob1 al ts" and len: "length (ob_objs ob1) = length (ob_objs ob)"
    and terms: "\<forall>r < length (ob_objs ob). same_terms (obj ob1 r) (obj ob r)"
  shows "named tk ob al ts"
proof -
  have "trade_names (obj ob tk) (obj ob r) t"
    if "tk < length (ob_objs ob)" "r < length (ob_objs ob)" "trade_names (obj ob1 tk) (obj ob1 r) t" for r t
    using that terms trade_names_cong by blast
  then show ?thesis
    unfolding named_def by (intro list_all2_mono [OF assms(1) [unfolded named_def len]]) (auto simp: split_beta)
qed

text \<open>The books before and after an allocation.\<close>

definition allocated :: "nat \<Rightarrow> OrderBook \<Rightarrow> OrderBook \<Rightarrow> (u64 \<times> nat \<times> u64) list \<Rightarrow> Trade list \<Rightarrow> bool" where
  "allocated tk ob ob' al ts \<longleftrightarrow>
     map (\<lambda>t. (tr_Price t, tr_Quantity t)) ts = map (\<lambda>(p, r, k). (p, k)) al
     \<and> named tk ob al ts \<and> ob_trades ob' = ob_trades ob @ ts \<and> length (ob_objs ob') = length (ob_objs ob)
     \<and> (\<forall>r < length (ob_objs ob). same_terms (obj ob' r) (obj ob r))
     \<and> left ob' tk + given al = left ob tk
     \<and> (\<forall>r < length (ob_objs ob). r \<noteq> tk \<longrightarrow> left ob' r + given_to r al = left ob r)
     \<and> ob_orders ob' \<subseteq>\<^sub>m ob_orders ob \<and> ob_allOrders ob' = ob_allOrders ob
     \<and> (\<forall>b. set (side_prices b ob') \<subseteq> set (side_prices b ob))"

lemma allocated_refl: "allocated tk ob ob [] []"
  by (simp add: allocated_def same_terms_def named_def)

lemma same_terms_trans: "same_terms a b \<Longrightarrow> same_terms b c \<Longrightarrow> same_terms a c"
  by (simp add: same_terms_def)

lemma allocated_step:
  assumes "allocated tk ob1 ob2 al ts" and "allocated tk ob ob1 [a] [t]"
  shows "allocated tk ob ob2 (a # al) (t # ts)"
proof -
  have "ob_orders ob2 \<subseteq>\<^sub>m ob_orders ob"
    using assms unfolding allocated_def by (meson map_le_trans)
  moreover have "same_terms (obj ob2 r) (obj ob r)" if "r < length (ob_objs ob)" for r
    using assms that unfolding allocated_def by (metis same_terms_trans)
  moreover have "named tk ob al ts"
    using assms unfolding allocated_def by (blast intro: named_earlier)
  then have "named tk ob (a # al) (t # ts)"
    using assms(2) by (simp add: allocated_def named_def)
  moreover have "set (side_prices b ob2) \<subseteq> set (side_prices b ob)" for b
    using assms unfolding allocated_def by blast
  moreover have "left ob2 r + given_to r (a # al) = left ob r" if "r < length (ob_objs ob)" "r \<noteq> tk" for r
    using assms that unfolding allocated_def by (cases a) fastforce
  moreover have "left ob2 tk + given (a # al) = left ob tk"
    using assms unfolding allocated_def by (cases a) fastforce
  ultimately show ?thesis
    using assms by (simp add: allocated_def)
qed

lemma match_step_allocated:
  assumes rd: "ready ob tk" and op: "open_order (obj ob tk)" and w: "waiting ob (obj ob tk) = (p, mk) # q"
  defines "k \<equiv> min (RemainingQuantity (obj ob tk)) (RemainingQuantity (obj ob mk))"
  obtains ob' t where "match_step clk tk ob = Some (ob', t)" "ready ob' tk" "allocated tk ob ob' [(p, mk, k)] [t]"
    "RemainingQuantity (obj ob mk) \<le> RemainingQuantity (obj ob tk) \<Longrightarrow> waiting ob' (obj ob' tk) = q"
    "RemainingQuantity (obj ob' tk) = RemainingQuantity (obj ob tk) - k"
    "open_order (obj ob' tk) \<longleftrightarrow> k < RemainingQuantity (obj ob tk)"
    "\<And>p' r. (p', r) \<in> set q \<Longrightarrow> obj ob' r = obj ob r"
proof -
  have ok: "book_ok {} ob" and tk: "tk < length (ob_objs ob)" "ob_orders ob (or_ID (obj ob tk)) \<noteq> Some tk"
    using rd by (auto simp: ready_def)
  obtain ob' t where st: "match_step clk tk ob = Some (ob', t)" "ready ob' tk"
    and t: "tr_Price t = p" "tr_Quantity t = k" "trade_names (obj ob tk) (obj ob mk) t" "ob_trades ob' = ob_trades ob @ [t]"
    and objs: "ob_objs ob' = (ob_objs ob)[tk := fst (Fill (obj ob tk) k), mk := fst (Fill (obj ob mk) k)]"
    and neq: "tk \<noteq> mk"
    and w': "RemainingQuantity (obj ob mk) \<le> RemainingQuantity (obj ob tk) \<Longrightarrow> waiting ob' (obj ob' tk) = q"
    and maps: "ob_orders ob' \<subseteq>\<^sub>m ob_orders ob" "ob_allOrders ob' = ob_allOrders ob"
      "\<And>b. set (side_prices b ob') \<subseteq> set (side_prices b ob)"
    by (rule match_step_Some [OF rd op w, of clk, folded k_def]) blast
  have mk: "placed ob (\<not> is_buy (obj ob tk)) p mk"
    using waiting_placed [OF ok, of p mk "obj ob tk"] w by simp
  have o': "obj ob' tk = fst (Fill (obj ob tk) k)" "obj ob' mk = fst (Fill (obj ob mk) k)"
    "\<And>r. r \<noteq> tk \<Longrightarrow> r \<noteq> mk \<Longrightarrow> obj ob' r = obj ob r"
    using tk mk neq by (auto simp: objs placed_def)
  have rem: "RemainingQuantity (obj ob' tk) = RemainingQuantity (obj ob tk) - k"
    "RemainingQuantity (obj ob' mk) = RemainingQuantity (obj ob mk) - k"
    by (simp_all add: o' Fill_remaining k_def)
  then have left: "left ob' tk + unat k = left ob tk" "left ob' mk + unat k = left ob mk"
    by (simp_all add: unat_minus_le k_def word_le_nat_alt [symmetric])
  have "same_terms (obj ob' r) (obj ob r)" for r
    using o' by (cases "r = tk"; cases "r = mk") (auto simp: same_terms_def)
  moreover have "left ob' r + given_to r [(p, mk, k)] = left ob r" if "r \<noteq> tk" for r
    using that left(2) o'(3) by auto
  ultimately have "allocated tk ob ob' [(p, mk, k)] [t]"
    using t maps left(1) tk(1) mk by (simp add: allocated_def named_def objs placed_def)
  moreover have "obj ob' r = obj ob r" if "(p', r) \<in> set q" for p' r
  proof -
    have "r \<noteq> mk"
      using distinct_waiting [OF ok, of "obj ob tk"] that by (force simp: w)
    moreover have "r \<noteq> tk"
      using waiting_placed [OF ok, of p' r "obj ob tk"] that tk(2) by (auto simp: w placed_def)
    ultimately show ?thesis by (intro o'(3))
  qed
  moreover have "open_order (obj ob' tk) \<longleftrightarrow> k < RemainingQuantity (obj ob tk)"
    by (simp add: o' Fill_open)
  ultimately show thesis
    using that [OF st _ w' rem(1)] by blast
qed

definition rest_of :: "OrderBook \<Rightarrow> nat \<Rightarrow> u64" where
  "rest_of ob r = RemainingQuantity (obj ob r)"

definition allocation :: "OrderBook \<Rightarrow> nat \<Rightarrow> (u64 \<times> nat \<times> u64) list" where
  "allocation ob tk =
     (if open_order (obj ob tk) then allocate (rest_of ob) (waiting ob (obj ob tk)) (rest_of ob tk) else [])"

lemma matchOrder_done: "match_step clk tk ob = None \<Longrightarrow> matchOrder clk tk ob acc = Some (ob, acc)"
  by (simp add: matchOrder.simps)

lemma matchOrder_more:
  "match_step clk tk ob = Some (ob', t) \<Longrightarrow> matchOrder clk tk ob acc = matchOrder clk tk ob' (acc @ [t])"
  by (simp add: matchOrder.simps [of clk tk ob acc])

lemma matchOrder_allocates:
  assumes "ready ob tk"
  obtains ob' ts where "matchOrder clk tk ob acc = Some (ob', acc @ ts)" "ready ob' tk"
    "allocated tk ob ob' (allocation ob tk) ts" "\<not> open_order (obj ob' tk) \<or> waiting ob' (obj ob' tk) = []"
  using assms
proof (induction "waiting ob (obj ob tk)" arbitrary: ob acc thesis)
  case Nil
  then have "match_step clk tk ob = None" "allocation ob tk = []"
    by (auto intro: match_step_None simp: allocation_def)
  with Nil show ?case
    using allocated_refl [of tk ob] by (auto dest!: matchOrder_done [where acc = acc])
next
  case (Cons x q)
  obtain p mk where x: "x = (p, mk)" by (metis surj_pair)
  show ?case
  proof (cases "open_order (obj ob tk)")
    case False
    then have "match_step clk tk ob = None" "allocation ob tk = []"
      using Cons.prems(2) by (auto intro: match_step_None simp: allocation_def)
    with False Cons.prems show ?thesis
      using allocated_refl [of tk ob] by (auto dest!: matchOrder_done [where acc = acc])
  next
    case True
    note w = Cons.hyps(2) [symmetric, unfolded x]
    define k where "k = min (RemainingQuantity (obj ob tk)) (RemainingQuantity (obj ob mk))"
    obtain ob1 t where st: "match_step clk tk ob = Some (ob1, t)" "ready ob1 tk" "allocated tk ob ob1 [(p, mk, k)] [t]"
      and w1: "RemainingQuantity (obj ob mk) \<le> RemainingQuantity (obj ob tk) \<Longrightarrow> waiting ob1 (obj ob1 tk) = q"
      and rem1: "RemainingQuantity (obj ob1 tk) = RemainingQuantity (obj ob tk) - k"
      and op1: "open_order (obj ob1 tk) \<longleftrightarrow> k < RemainingQuantity (obj ob tk)"
      and same: "\<And>p' r. (p', r) \<in> set q \<Longrightarrow> obj ob1 r = obj ob r"
      by (rule match_step_allocated [OF Cons.prems(2) True w, of clk, folded k_def]) blast
    have al: "allocation ob tk = (p, mk, k) # allocate (rest_of ob) q (rest_of ob tk - k)"
      using True by (auto simp: allocation_def w open_order_def rest_of_def k_def Let_def)
    show ?thesis
    proof (cases "RemainingQuantity (obj ob mk) \<le> RemainingQuantity (obj ob tk)")
      case True
      obtain ob2 ts where fin: "matchOrder clk tk ob1 (acc @ [t]) = Some (ob2, (acc @ [t]) @ ts)" "ready ob2 tk"
        "allocated tk ob1 ob2 (allocation ob1 tk) ts" "\<not> open_order (obj ob2 tk) \<or> waiting ob2 (obj ob2 tk) = []"
        using Cons.hyps(1) [OF w1 [OF True, symmetric] _ st(2)] by blast
      have "allocate (rest_of ob1) q n = allocate (rest_of ob) q n" for n
        by (rule allocate_cong) (simp add: rest_of_def same)
      moreover have "k = RemainingQuantity (obj ob tk)" if "\<not> open_order (obj ob1 tk)"
        using that unfolding op1 by (simp add: k_def min_def split: if_splits)
      ultimately have "allocation ob1 tk = allocate (rest_of ob) q (rest_of ob tk - k)"
        using w1 [OF True] rem1 by (auto simp: allocation_def rest_of_def)
      then show ?thesis
        using fin st Cons.prems(1) [of ob2 "t # ts"] allocated_step [OF fin(3) st(3)]
        by (simp add: al matchOrder_more)
    next
      case False
      then have "k = RemainingQuantity (obj ob tk)"
        by (auto simp: k_def min_def)
      then show ?thesis
        using st op1 Cons.prems(1) [of ob1 "[t]"] match_step_None [OF st(2), of clk]
        by (simp add: al rest_of_def matchOrder_more matchOrder_done)
    qed
  qed
qed

end
