(* ===== verification/Order_Runs.thy ===== *)
theory Order_Runs
  imports Order_Matching
begin

text \<open>
  Histories of an order book: orders placed under identifiers that were not used before, and
  cancellations. The invariant holds in every state of a history, so \<open>PlaceOrder\<close> returns there and its
  trades are the allocation of the incoming quantity along the queue of eligible resting orders.
\<close>

section \<open>Placing and cancelling keep the invariant\<close>

definition index_ok :: "OrderBook \<Rightarrow> bool" where
  "index_ok ob \<longleftrightarrow> ob_orders ob \<subseteq>\<^sub>m ob_allOrders ob
     \<and> (\<forall>i r. ob_allOrders ob i = Some r \<longrightarrow> r < length (ob_objs ob) \<and> or_ID (obj ob r) = i)"

definition good_book :: "OrderBook \<Rightarrow> bool" where
  "good_book ob \<longleftrightarrow> book_ok {} ob \<and> index_ok ob"

lemma good_book_new: "good_book (NewOrderBook pair)"
  by (simp add: good_book_def index_ok_def book_ok_def NewOrderBook_def side_map_def side_prices_def prices_ok_def)

text \<open>The level an order joins, as it is afterwards.\<close>

definition joined_level :: "OrderBook \<Rightarrow> nat \<Rightarrow> priceLevel" where
  "joined_level ob r =
     (let o' = obj ob r; l0 = (case side_map (is_buy o') ob (or_Price o') of
        None \<Rightarrow> \<lparr>pl_price = or_Price o', pl_orders = [], pl_totalQty = 0\<rparr> | Some l \<Rightarrow> l)
      in l0\<lparr>pl_orders := pl_orders l0 @ [r], pl_totalQty := pl_totalQty l0 + RemainingQuantity o'\<rparr>)"

lemma added_parts:
  "ob_objs (addOrderToBook ob r) = ob_objs ob"
  "ob_orders (addOrderToBook ob r) = (ob_orders ob)(or_ID (obj ob r) \<mapsto> r)"
  "ob_allOrders (addOrderToBook ob r) = ob_allOrders ob"
  "ob_trades (addOrderToBook ob r) = ob_trades ob"
  "side_map c (addOrderToBook ob r) =
     (if c = is_buy (obj ob r) then (side_map c ob)(or_Price (obj ob r) \<mapsto> joined_level ob r) else side_map c ob)"
  "side_prices c (addOrderToBook ob r) =
     (if c = is_buy (obj ob r) \<and> side_map c ob (or_Price (obj ob r)) = None
      then sortPriceList (side_prices c ob @ [or_Price (obj ob r)]) c else side_prices c ob)"
  by (auto simp: addOrderToBook_def joined_level_def Let_def book_simps split: option.splits)

lemma add_book_ok:
  assumes ok: "book_ok {} ob" and r: "r < length (ob_objs ob)" "open_order (obj ob r)"
    and fresh: "ob_orders ob (or_ID (obj ob r)) = None"
  shows "book_ok {} (addOrderToBook ob r)"
proof -
  let ?b = "is_buy (obj ob r)" and ?p = "or_Price (obj ob r)" and ?ob = "addOrderToBook ob r"
  have old: "placed ?ob c p q \<and> q \<noteq> r" if "placed ob c p q" for c p q
    using that fresh by (auto simp: placed_def added_parts)
  have "\<not> placed ob ?b ?p r"
    using fresh by (simp add: placed_def)
  moreover have "placed ?ob ?b ?p r"
    using r by (simp add: placed_def added_parts)
  ultimately have joined: "level_ok {} ?ob ?b ?p (joined_level ob r)"
    using r old book_okD(2) [OF ok, of ?b ?p]
    by (auto simp: level_ok_def joined_level_def Let_def added_parts(1) split: option.splits)
  have "level_ok {} ?ob c p l" if "side_map c ?ob p = Some l" for c p l
  proof (cases "c = ?b \<and> p = ?p")
    case False
    then have "side_map c ob p = Some l"
      using that by (auto simp: added_parts(5) split: if_splits)
    then show ?thesis
      using book_okD(2) [OF ok] old by (auto simp: level_ok_def added_parts(1))
  qed (use that joined in \<open>auto simp: added_parts(5)\<close>)
  moreover have "prices_ok c (side_prices c ?ob) (dom (side_map c ?ob))" for c
    using book_okD(1) [OF ok, of c] prices_ok_insert [of c "side_prices c ob" "dom (side_map c ob)" ?p]
    by (auto simp: added_parts(5,6) insert_absorb domI)
  moreover have "q < length (ob_objs ?ob) \<and> or_ID (obj ?ob q) = i \<and> in_level ?ob q" if "ob_orders ?ob i = Some q" for i q
  proof (cases "i = or_ID (obj ob r)")
    case True
    with that r show ?thesis
      by (auto simp: added_parts in_level_def joined_level_def Let_def)
  next
    case False
    then have "q < length (ob_objs ob) \<and> or_ID (obj ob q) = i \<and> in_level ob q"
      using that book_okD(3) [OF ok, of i q] by (simp add: added_parts(2))
    then show ?thesis
      by (auto simp: added_parts in_level_def joined_level_def Let_def)
  qed
  ultimately show ?thesis by (simp add: book_ok_def)
qed

lemma cancel_good:
  assumes good: "good_book ob" and run: "CancelOrder ob i owner = Inr ob'"
  shows "good_book ob'"
proof -
  have ok: "book_ok {} ob" and ix: "index_ok ob" using good by (auto simp: good_book_def)
  obtain r where r: "ob_allOrders ob i = Some r"
    using run by (auto simp: CancelOrder_def split: option.splits)
  then have rl: "r < length (ob_objs ob)" "or_ID (obj ob r) = i"
    using ix by (auto simp: index_ok_def)
  let ?ob = "ob\<lparr>ob_objs := (ob_objs ob)[r := (obj ob r)\<lparr>or_Status := OrderStatusCancelled\<rparr>]\<rparr>"
  have ok1: "book_ok {r} ?ob"
    using rl by (intro book_ok_update_obj [OF ok]) auto
  have ix1: "index_ok ?ob"
    using ix rl by (auto simp: index_ok_def nth_list_update)
  have ob': "ob' = (case ob_orders ob i of None \<Rightarrow> ?ob | Some e \<Rightarrow> removeOrderFromBook ?ob r e)"
    using run r by (auto simp: CancelOrder_def Let_def split: if_splits option.splits)
  show ?thesis
  proof (cases "ob_orders ob i")
    case None
    then have "book_ok {} ?ob"
      using rl by (intro book_ok_drop [OF ok1]) simp
    with None ix1 show ?thesis by (simp add: ob' good_book_def)
  next
    case (Some e)
    then have e: "e = r"
      using ix r by (metis index_ok_def map_le_def domI option.inject)
    have o1: "ob_orders ?ob (or_ID (obj ?ob r)) = Some r"
      using Some rl by (simp add: e)
    then obtain l where l: "side_map (is_buy (obj ?ob r)) ?ob (or_Price (obj ?ob r)) = Some l"
      using book_okD(3) [OF ok1 o1] unfolding in_level_def by blast
    have "index_ok ob'"
      using ix1 removed_parts(1-3) [OF l] Some by (auto simp: ob' e index_ok_def map_le_def)
    then show ?thesis
      using remove_book_ok [OF ok1 o1] Some by (simp add: ob' e good_book_def)
  qed
qed

section \<open>Placing an order\<close>

lemma prepare_parts:
  assumes "prepare_order now ob o0 = (ob1, order)"
  shows "side_map b ob1 = side_map b ob" "side_prices b ob1 = side_prices b ob" "ob_objs ob1 = ob_objs ob"
    "ob_orders ob1 = ob_orders ob" "ob_allOrders ob1 = ob_allOrders ob" "ob_trades ob1 = ob_trades ob"
    "or_Side order = or_Side o0" "or_Price order = or_Price o0" "or_OrderType order = or_OrderType o0"
    "or_Owner order = or_Owner o0" "or_Quantity order = or_Quantity o0" "or_FilledQuantity order = or_FilledQuantity o0"
    "or_Status order = or_Status o0"
  using assms by (auto simp: prepare_order_def generateOrderID_def Let_def book_simps order_constants split: if_splits)

lemma book_ok_cong:
  assumes "book_ok X ob" and "\<And>b. side_map b ob' = side_map b ob" "\<And>b. side_prices b ob' = side_prices b ob"
    "ob_orders ob' = ob_orders ob" "ob_objs ob' = ob_objs ob @ os"
  shows "book_ok X ob'"
proof -
  have obj: "obj ob' r = obj ob r" if "r < length (ob_objs ob)" for r
    using that assms(5) by (simp add: nth_append)
  then have "placed ob' b p r \<and> obj ob' r = obj ob r" if "placed ob b p r" for b p r
    using that by (simp add: placed_def assms(4,5))
  then have "level_ok X ob b p l \<Longrightarrow> level_ok X ob' b p l" for b p l
    by (auto simp: level_ok_def)
  moreover have "in_level ob' r \<longleftrightarrow> in_level ob r" if "r < length (ob_objs ob)" for r
    using obj [OF that] by (simp add: in_level_def assms(2))
  ultimately show ?thesis
    using assms(1) obj unfolding book_ok_def assms(2-4) by (fastforce simp: assms(5))
qed

lemma eligible_cong:
  "or_Side a = or_Side b \<Longrightarrow> or_Price a = or_Price b \<Longrightarrow> or_OrderType a = or_OrderType b \<Longrightarrow> eligible a = eligible b"
  by (rule ext) (simp add: eligible_def)

lemma sorted_eligible:
  assumes "prices_ok (\<not> is_buy order) prices D"
  shows "sorted (eligible order prices)"
  using assms by (cases "is_buy order") (auto simp: prices_ok_def eligible_def Let_def sorted_wrt_rev sorted_wrt_filter)

lemma match_blocked:
  assumes ok: "book_ok {} ob" and zero: "0 \<in> set (eligible (obj ob tk) (side_prices (\<not> is_buy (obj ob tk)) ob))"
  shows "matchOrder clk tk ob acc = Some (ob, acc)"
proof -
  let ?e = "eligible (obj ob tk) (side_prices (\<not> is_buy (obj ob tk)) ob)"
  have "sorted ?e"
    using book_okD(1) [OF ok] by (rule sorted_eligible)
  then obtain ps where "?e = 0 # ps"
    using zero by (cases ?e) auto
  then have "match_step clk tk ob = None"
    by (simp add: match_step_def Let_def findBestPrice_eligible)
  then show ?thesis by (rule matchOrder_done)
qed

text \<open>
  The allocation of an order against a book: nothing when the first eligible price is zero, which the
  code takes for no price at all.
\<close>

definition order_allocation :: "OrderBook \<Rightarrow> Order \<Rightarrow> (u64 \<times> nat \<times> u64) list" where
  "order_allocation ob order =
     (if open_order order \<and> 0 \<notin> set (eligible order (side_prices (\<not> is_buy order) ob))
      then allocate (rest_of ob) (waiting ob order) (RemainingQuantity order) else [])"

lemma matchOrder_entered:
  fixes ob1 :: OrderBook and order :: Order
  defines "tk \<equiv> length (ob_objs ob1)"
  defines "ob2 \<equiv> ob1\<lparr>ob_objs := ob_objs ob1 @ [order]\<rparr>"
  assumes ok: "book_ok {} ob1"
  obtains ob3 ts where "matchOrder clk tk ob2 [] = Some (ob3, ts)" "book_ok {} ob3"
    "allocated tk ob2 ob3 (order_allocation ob1 order) ts"
    "open_order (obj ob3 tk) \<Longrightarrow> eligible order (side_prices (\<not> is_buy order) ob3) = []
       \<or> 0 \<in> set (eligible order (side_prices (\<not> is_buy order) ob1))"
proof -
  have ok2: "book_ok {} ob2"
    by (rule book_ok_cong [OF ok]) (simp_all add: ob2_def book_simps)
  have tk: "obj ob2 tk = order" "tk < length (ob_objs ob2)" and sides: "\<And>b. side_prices b ob2 = side_prices b ob1"
    by (simp_all add: ob2_def tk_def book_simps)
  have "ob_orders ob1 (or_ID order) \<noteq> Some tk"
    using book_okD(3) [OF ok] by (auto simp: tk_def)
  then have ntk: "ob_orders ob2 (or_ID order) \<noteq> Some tk"
    by (simp add: ob2_def)
  show thesis
  proof (cases "0 \<in> set (eligible order (side_prices (\<not> is_buy order) ob1))")
    case True
    then show thesis
      using match_blocked [OF ok2, of tk clk "[]"] allocated_refl [of tk ob2] ok2
      by (intro that [of ob2 "[]"]) (simp_all add: tk sides order_allocation_def)
  next
    case False
    then have "ready ob2 tk"
      using ok2 tk ntk by (simp add: ready_def sides)
    then obtain ob3 ts where fin: "matchOrder clk tk ob2 [] = Some (ob3, [] @ ts)" "ready ob3 tk"
      "allocated tk ob2 ob3 (allocation ob2 tk) ts" "\<not> open_order (obj ob3 tk) \<or> waiting ob3 (obj ob3 tk) = []"
      by (rule matchOrder_allocates)
    have w: "waiting ob2 order = waiting ob1 order"
      by (simp add: waiting_def ob2_def book_simps)
    have "rest_of ob2 r = rest_of ob1 r" if "(p, r) \<in> set (waiting ob1 order)" for p r
      using waiting_placed [OF ok that] by (simp add: rest_of_def ob2_def placed_def nth_append)
    then have "allocate (rest_of ob2) (waiting ob1 order) n = allocate (rest_of ob1) (waiting ob1 order) n" for n
      by (rule allocate_cong)
    then have "allocation ob2 tk = order_allocation ob1 order"
      using False tk(1) by (simp add: allocation_def order_allocation_def w rest_of_def [of ob2 tk])
    moreover have "same_terms (obj ob3 tk) order"
      using fin(3) tk unfolding allocated_def by metis
    then have "eligible (obj ob3 tk) = eligible order" "is_buy (obj ob3 tk) = is_buy order"
      by (auto simp: same_terms_def intro: eligible_cong)
    ultimately show thesis
      using fin waiting_Nil [of ob3 "obj ob3 tk"] by (intro that [of ob3 ts]) (auto simp: ready_def)
  qed
qed

definition fresh_order :: "int \<times> int \<Rightarrow> OrderBook \<Rightarrow> Order \<Rightarrow> bool" where
  "fresh_order now ob o0 \<longleftrightarrow> ob_allOrders ob (or_ID (snd (prepare_order now ob o0))) = None"

lemma order_allocation_cong:
  assumes "\<And>b. side_map b ob1 = side_map b ob" "\<And>b. side_prices b ob1 = side_prices b ob" "ob_objs ob1 = ob_objs ob"
    "or_Side o1 = or_Side o0" "or_Price o1 = or_Price o0" "or_OrderType o1 = or_OrderType o0"
    "or_Quantity o1 = or_Quantity o0" "or_FilledQuantity o1 = or_FilledQuantity o0" "or_Status o1 = or_Status o0"
  shows "order_allocation ob1 o1 = order_allocation ob o0"
proof -
  have "rest_of ob1 = rest_of ob"
    by (rule ext) (simp add: rest_of_def assms(3))
  moreover have "RemainingQuantity o1 = RemainingQuantity o0" "open_order o1 = open_order o0"
    by (simp_all add: RemainingQuantity_def open_order_def IsActive_def assms(7-9))
  moreover have "eligible o1 = eligible o0"
    by (rule eligible_cong) (simp_all add: assms)
  ultimately show ?thesis
    by (simp add: order_allocation_def waiting_def assms(1,2,4))
qed

text \<open>What \<^verbatim>\<open>PlaceOrder\<close> does after matching: an order that is still open joins the book, and is indexed.\<close>

definition settled_book :: "OrderBook \<Rightarrow> nat \<Rightarrow> OrderBook" where
  "settled_book ob r =
     (let ob' = (if open_order (obj ob r) then addOrderToBook ob r else ob)
      in ob'\<lparr>ob_allOrders := (ob_allOrders ob')(or_ID (obj ob r) \<mapsto> r)\<rparr>)"

lemma settled_parts:
  "ob_objs (settled_book ob r) = ob_objs ob" "ob_trades (settled_book ob r) = ob_trades ob"
  "ob_allOrders (settled_book ob r) = (ob_allOrders ob)(or_ID (obj ob r) \<mapsto> r)"
  "ob_orders (settled_book ob r) = (if open_order (obj ob r) then (ob_orders ob)(or_ID (obj ob r) \<mapsto> r) else ob_orders ob)"
  by (simp_all add: settled_book_def Let_def added_parts)

lemma settled_prices:
  "set (side_prices b (settled_book ob r)) \<subseteq> set (side_prices b ob)
     \<union> (if b = is_buy (obj ob r) \<and> open_order (obj ob r) then {or_Price (obj ob r)} else {})"
  by (cases b) (auto simp: settled_book_def Let_def book_simps added_parts sortPriceList_asc sortPriceList_desc split: if_splits)

lemma settled_good:
  assumes ok: "book_ok {} ob" and r: "r < length (ob_objs ob)" and free: "ob_allOrders ob (or_ID (obj ob r)) = None"
    and ix: "index_ok ob"
  shows "good_book (settled_book ob r)"
proof -
  have free': "ob_orders ob (or_ID (obj ob r)) = None"
    using free ix by (metis index_ok_def map_le_def domIff)
  have "book_ok {} (if open_order (obj ob r) then addOrderToBook ob r else ob)"
    using ok r free' by (auto intro: add_book_ok)
  then have "book_ok {} (settled_book ob r)"
    by (rule book_ok_cong [where os = "[]"]) (simp_all add: settled_book_def Let_def book_simps)
  moreover have "index_ok (settled_book ob r)"
    using ix r free' by (auto simp: index_ok_def settled_parts map_le_def)
  ultimately show ?thesis by (simp add: good_book_def)
qed

lemma PlaceOrder_run:
  fixes ob :: OrderBook
  defines "r \<equiv> length (ob_objs ob)"
  assumes good: "good_book ob" and valid: "validateOrder (Some o0) = Inr ()" and fresh: "fresh_order now ob o0"
  obtains ob2 ob3 ts where "PlaceOrder clk now ob (Some o0) = Some (Inr (settled_book ob3 r, obj ob3 r, ts))"
    "good_book (settled_book ob3 r)" "allocated r ob2 ob3 (order_allocation ob o0) ts"
    "length (ob_objs ob2) = Suc r" "ob_trades ob2 = ob_trades ob" "\<And>b. side_prices b ob2 = side_prices b ob"
    "\<And>q. q < r \<Longrightarrow> obj ob2 q = obj ob q" "same_terms (obj ob2 r) (o0\<lparr>or_ID := or_ID (obj ob2 r), or_Timestamp := or_Timestamp (obj ob2 r)\<rparr>)"
    "RemainingQuantity (obj ob2 r) = RemainingQuantity o0"
    "open_order (obj ob3 r) \<Longrightarrow> eligible o0 (side_prices (\<not> is_buy o0) ob3) = []
       \<or> 0 \<in> set (eligible o0 (side_prices (\<not> is_buy o0) ob))"
proof -
  obtain ob1 o1 where pr: "prepare_order now ob o0 = (ob1, o1)"
    by (metis surj_pair)
  note parts = prepare_parts [OF pr]
  have al: "order_allocation ob1 o1 = order_allocation ob o0"
    by (rule order_allocation_cong) (simp_all add: parts)
  have el: "eligible o1 = eligible o0"
    by (rule eligible_cong) (simp_all add: parts)
  have ok: "book_ok {} ob" and ix: "index_ok ob"
    using good by (auto simp: good_book_def)
  have ok1: "book_ok {} ob1"
    by (rule book_ok_cong [OF ok, where os = "[]"]) (simp_all add: parts)
  let ?ob2 = "ob1\<lparr>ob_objs := ob_objs ob1 @ [o1]\<rparr>"
  have r: "r = length (ob_objs ob1)" by (simp add: r_def parts)
  obtain ob3 ts where fin: "matchOrder clk r ?ob2 [] = Some (ob3, ts)" "book_ok {} ob3"
    and alloc: "allocated r ?ob2 ob3 (order_allocation ob1 o1) ts"
    and stop: "open_order (obj ob3 r) \<Longrightarrow> eligible o1 (side_prices (\<not> is_buy o1) ob3) = []
       \<or> 0 \<in> set (eligible o1 (side_prices (\<not> is_buy o1) ob1))"
    using matchOrder_entered [OF ok1, of clk o1] unfolding r by blast
  have len: "length (ob_objs ob3) = Suc r" and all3: "ob_allOrders ob3 = ob_allOrders ob"
    and le: "ob_orders ob3 \<subseteq>\<^sub>m ob_orders ob" and terms: "\<And>q. q < Suc r \<Longrightarrow> same_terms (obj ob3 q) (obj ?ob2 q)"
    using alloc by (auto simp: allocated_def parts r)
  have "or_ID (obj ob3 r) = or_ID o1"
    using terms [of r] by (simp add: same_terms_def r)
  then have free: "ob_allOrders ob3 (or_ID (obj ob3 r)) = None"
    using fresh by (simp add: fresh_order_def pr all3)
  have ix3: "index_ok ob3"
    unfolding index_ok_def
  proof (intro conjI allI impI)
    show "ob_orders ob3 \<subseteq>\<^sub>m ob_allOrders ob3"
      using le ix all3 by (metis index_ok_def map_le_trans)
    fix i q assume "ob_allOrders ob3 i = Some q"
    then have q: "q < length (ob_objs ob)" "or_ID (obj ob q) = i"
      using ix all3 by (auto simp: index_ok_def)
    then show "q < length (ob_objs ob3)" "or_ID (obj ob3 q) = i"
      using terms [of q] len by (auto simp: r_def same_terms_def parts nth_append)
  qed
  have "PlaceOrder clk now ob (Some o0) = Some (Inr (settled_book ob3 r, obj ob3 r, ts))"
    using valid fin(1) by (simp add: PlaceOrder_def pr Let_def r [symmetric] settled_book_def open_order_def)
  moreover have "good_book (settled_book ob3 r)"
    using fin(2) len free ix3 by (intro settled_good) simp_all
  moreover have "same_terms (obj ?ob2 r) (o0\<lparr>or_ID := or_ID (obj ?ob2 r), or_Timestamp := or_Timestamp (obj ?ob2 r)\<rparr>)"
    "RemainingQuantity (obj ?ob2 r) = RemainingQuantity o0" "\<And>q. q < r \<Longrightarrow> obj ?ob2 q = obj ob q"
    by (simp_all add: r same_terms_def parts RemainingQuantity_def nth_append)
  ultimately show thesis
    using alloc stop
    by (intro that [of ob3 ts ?ob2]) (simp_all add: al el parts book_simps r)
qed

section \<open>Histories\<close>

inductive book_step :: "(Order \<Rightarrow> bool) \<Rightarrow> OrderBook \<Rightarrow> OrderBook \<Rightarrow> bool" for admitted where
  place: "admitted o0 \<Longrightarrow> fresh_order now ob o0 \<Longrightarrow> PlaceOrder clk now ob (Some o0) = Some (Inr (ob', order, ts)) \<Longrightarrow>
    book_step admitted ob ob'"
| cancel: "CancelOrder ob i owner = Inr ob' \<Longrightarrow> book_step admitted ob ob'"

definition book_reachable :: "(Order \<Rightarrow> bool) \<Rightarrow> OrderBook \<Rightarrow> bool" where
  "book_reachable admitted ob \<longleftrightarrow> (\<exists>pair. (book_step admitted)\<^sup>*\<^sup>* (NewOrderBook pair) ob)"

lemma PlaceOrder_valid: "PlaceOrder clk now ob (Some o0) = Some (Inr x) \<Longrightarrow> validateOrder (Some o0) = Inr ()"
  by (auto simp: PlaceOrder_def split: sum.splits)

lemma book_step_good: "book_step admitted ob ob' \<Longrightarrow> good_book ob \<Longrightarrow> good_book ob'"
proof (induction rule: book_step.induct)
  case (place o0 now ob clk ob' order ts)
  then show ?case
    using PlaceOrder_run [OF place.prems PlaceOrder_valid [OF place.hyps(3)] place.hyps(2), of clk]
    by (metis (no_types, lifting) option.inject prod.inject sum.inject(2))
qed (rule cancel_good)

lemma reachable_good: "book_reachable admitted ob \<Longrightarrow> good_book ob"
proof -
  assume "book_reachable admitted ob"
  then obtain pair where "(book_step admitted)\<^sup>*\<^sup>* (NewOrderBook pair) ob"
    by (auto simp: book_reachable_def)
  then show ?thesis
    by (induction rule: rtranclp_induct) (auto simp: good_book_new intro: book_step_good)
qed

section \<open>Sample books\<close>

definition sample_order :: "u64 \<Rightarrow> OrderSide \<Rightarrow> OrderType \<Rightarrow> u64 \<Rightarrow> u64 \<Rightarrow> Order" where
  "sample_order i side kind qty price =
     \<lparr>or_ID = i, or_Owner = of_nat (unat i), or_TradingPair = [], or_Side = side, or_Quantity = qty, or_FilledQuantity = 0,
      or_Price = price, or_OrderType = kind, or_Status = OrderStatusPending, or_Timestamp = int (unat i), or_Expiration = None\<rparr>"

definition after_order :: "OrderBook \<Rightarrow> Order \<Rightarrow> OrderBook" where
  "after_order ob o0 = (case PlaceOrder (\<lambda>n. (0, 0)) (0, 0) ob (Some o0) of Some (Inr (ob', _)) \<Rightarrow> ob' | _ \<Rightarrow> ob)"

definition two_bids :: OrderBook where
  "two_bids = after_order (after_order (NewOrderBook ''AIB/USDT'')
     (sample_order 1 OrderSideBuy OrderTypeLimit 5 10)) (sample_order 2 OrderSideBuy OrderTypeLimit 5 20)"

definition blocked_asks :: OrderBook where
  "blocked_asks = after_order (after_order (NewOrderBook ''AIB/USDT'')
     (sample_order 1 OrderSideSell OrderTypeMarket 5 0)) (sample_order 2 OrderSideSell OrderTypeLimit 5 10)"

lemma after_order_step:
  assumes "good_book ob" and "validateOrder (Some o0) = Inr ()" and "fresh_order (0, 0) ob o0" and "admitted o0"
  shows "book_step admitted ob (after_order ob o0)"
proof -
  obtain ob' order ts where run: "PlaceOrder (\<lambda>n. (0, 0)) (0, 0) ob (Some o0) = Some (Inr (ob', order, ts))"
    by (rule PlaceOrder_run [OF assms(1-3), of "\<lambda>n. (0, 0)"])
  then show ?thesis
    using assms(3,4) by (auto simp: after_order_def intro: book_step.place)
qed

lemma after_order_reachable:
  assumes "book_reachable admitted ob" and "validateOrder (Some o0) = Inr ()" and "fresh_order (0, 0) ob o0" and "admitted o0"
  shows "book_reachable admitted (after_order ob o0)"
  using after_order_step [where admitted = admitted, OF reachable_good [OF assms(1)] assms(2-4)] assms(1)
  unfolding book_reachable_def by (meson rtranclp.rtrancl_into_rtrancl)

lemma new_book_reachable: "book_reachable admitted (NewOrderBook pair)"
  by (auto simp: book_reachable_def)

lemma two_bids_reachable: "book_reachable (\<lambda>o'. or_OrderType o' = OrderTypeLimit) two_bids"
  unfolding two_bids_def
proof (intro after_order_reachable new_book_reachable)
  show "validateOrder (Some (sample_order 1 OrderSideBuy OrderTypeLimit 5 10)) = Inr ()" by code_simp
  show "validateOrder (Some (sample_order 2 OrderSideBuy OrderTypeLimit 5 20)) = Inr ()" by code_simp
  show "fresh_order (0, 0) (NewOrderBook ''AIB/USDT'') (sample_order 1 OrderSideBuy OrderTypeLimit 5 10)" by code_simp
  show "fresh_order (0, 0) (after_order (NewOrderBook ''AIB/USDT'') (sample_order 1 OrderSideBuy OrderTypeLimit 5 10))
     (sample_order 2 OrderSideBuy OrderTypeLimit 5 20)" by code_simp
qed (simp_all add: sample_order_def)

lemma blocked_asks_reachable: "book_reachable (\<lambda>o'. True) blocked_asks"
  unfolding blocked_asks_def
proof (intro after_order_reachable new_book_reachable)
  show "validateOrder (Some (sample_order 1 OrderSideSell OrderTypeMarket 5 0)) = Inr ()" by code_simp
  show "validateOrder (Some (sample_order 2 OrderSideSell OrderTypeLimit 5 10)) = Inr ()" by code_simp
  show "fresh_order (0, 0) (NewOrderBook ''AIB/USDT'') (sample_order 1 OrderSideSell OrderTypeMarket 5 0)" by code_simp
  show "fresh_order (0, 0) (after_order (NewOrderBook ''AIB/USDT'') (sample_order 1 OrderSideSell OrderTypeMarket 5 0))
     (sample_order 2 OrderSideSell OrderTypeLimit 5 10)" by code_simp
qed simp_all

section \<open>Properties\<close>

lemma map_trades_given:
  "map (\<lambda>t. (tr_Price t, tr_Quantity t)) ts = map (\<lambda>(p, r, k). (p, k)) al \<Longrightarrow>
   given al = sum_list (map (\<lambda>t. unat (tr_Quantity t)) ts)"
proof (induction ts arbitrary: al)
  case (Cons t ts)
  then show ?case by (cases al) auto
qed simp

text \<open>C8. \<^verbatim>\<open>PlaceOrder\<close> implements the specification of matching: in every book that is reachable with unused order
  identifiers, placing a valid order returns (the matching loop ends), the trades have the prices and quantities of
  the allocation along the queue of eligible resting orders, what the order has left is its quantity minus the
  trades, and every resting order has given exactly what was allocated from it.\<close>

theorem place_order_refines:
  assumes "book_reachable admitted ob" and "validateOrder (Some o0) = Inr ()" and "fresh_order now ob o0"
  shows "\<exists>ob' order ts. PlaceOrder clk now ob (Some o0) = Some (Inr (ob', order, ts))
     \<and> map (\<lambda>t. (tr_Price t, tr_Quantity t)) ts = map (\<lambda>(p, r, k). (p, k)) (order_allocation ob o0)
     \<and> unat (RemainingQuantity order) + sum_list (map (\<lambda>t. unat (tr_Quantity t)) ts) = unat (RemainingQuantity o0)
     \<and> (\<forall>r < length (ob_objs ob). unat (RemainingQuantity (ob_objs ob' ! r)) + given_to r (order_allocation ob o0)
           = unat (RemainingQuantity (ob_objs ob ! r)))
     \<and> ob_trades ob' = ob_trades ob @ ts"
proof -
  let ?r = "length (ob_objs ob)" and ?al = "order_allocation ob o0"
  obtain ob2 ob3 ts where run: "PlaceOrder clk now ob (Some o0) = Some (Inr (settled_book ob3 ?r, obj ob3 ?r, ts))"
    and al: "allocated ?r ob2 ob3 ?al ts" "length (ob_objs ob2) = Suc ?r" "ob_trades ob2 = ob_trades ob"
      "\<And>q. q < ?r \<Longrightarrow> obj ob2 q = obj ob q" "RemainingQuantity (obj ob2 ?r) = RemainingQuantity o0"
    by (rule PlaceOrder_run [OF reachable_good [OF assms(1)] assms(2,3), of clk]) blast
  then have trades: "map (\<lambda>t. (tr_Price t, tr_Quantity t)) ts = map (\<lambda>(p, r, k). (p, k)) ?al"
    and left: "left ob3 ?r + given ?al = unat (RemainingQuantity o0)"
      "\<forall>r < ?r. left ob3 r + given_to r ?al = left ob r" "ob_trades ob3 = ob_trades ob @ ts"
    by (auto simp: allocated_def)
  with map_trades_given [OF trades] run show ?thesis
    by (auto simp: settled_parts)
qed

theorem place_order_refines_witness:
  "\<exists>ob' order ts. PlaceOrder (\<lambda>n. (0, 0)) (0, 0) two_bids (Some (sample_order 3 OrderSideSell OrderTypeLimit 7 8))
        = Some (Inr (ob', order, ts))
     \<and> map (\<lambda>t. (tr_Price t, tr_Quantity t)) ts = [(10, 5), (20, 2)]"
proof -
  have "map (\<lambda>(p, r, k). (p, k)) (order_allocation two_bids (sample_order 3 OrderSideSell OrderTypeLimit 7 8)) = [(10, 5), (20, 2)]"
    by code_simp
  moreover have "validateOrder (Some (sample_order 3 OrderSideSell OrderTypeLimit 7 8)) = Inr ()"
    "fresh_order (0, 0) two_bids (sample_order 3 OrderSideSell OrderTypeLimit 7 8)"
    by code_simp+
  ultimately show ?thesis
    using place_order_refines [OF two_bids_reachable, of "sample_order 3 OrderSideSell OrderTypeLimit 7 8" "(0, 0)" "\<lambda>n. (0, 0)"]
    by auto
qed








section \<open>Limit orders never cross\<close>

definition uncrossed :: "OrderBook \<Rightarrow> bool" where
  "uncrossed ob \<longleftrightarrow> (\<forall>b \<in> set (ob_bidPrices ob). \<forall>a \<in> set (ob_askPrices ob). b < a)"

definition priced :: "OrderBook \<Rightarrow> bool" where
  "priced ob \<longleftrightarrow> (\<forall>b. 0 \<notin> set (side_prices b ob))"

lemma side_prices_cases: "side_prices True ob = ob_bidPrices ob" "side_prices False ob = ob_askPrices ob"
  by (simp_all add: side_prices_def)

lemma cancel_prices:
  assumes "CancelOrder ob i owner = Inr ob'"
  shows "set (side_prices b ob') \<subseteq> set (side_prices b ob)"
proof -
  have "set (side_prices b (removeOrderFromBook ob0 r e)) \<subseteq> set (side_prices b ob0)" for ob0 r e
    using set_remove1_subset [of _ "side_prices b ob0"]
    by (auto simp: removeOrderFromBook_def Let_def book_simps removePriceFromList_remove1 split: option.splits if_splits)
  then show ?thesis
    using assms by (fastforce simp: CancelOrder_def Let_def book_simps split: option.splits if_splits)
qed

lemma limit_step_uncrossed:
  assumes "book_step (\<lambda>o'. or_OrderType o' = OrderTypeLimit) ob ob'" and "good_book ob"
    and "uncrossed ob" and "priced ob"
  shows "uncrossed ob' \<and> priced ob'"
  using assms(1)
proof cases
  case (cancel i owner)
  show ?thesis
    using cancel_prices [OF cancel, of True] cancel_prices [OF cancel, of False] assms(3,4)
    by (auto simp: uncrossed_def priced_def side_prices_cases all_bool_eq)
next
  case (place o0 now clk order ts)
  let ?r = "length (ob_objs ob)"
  have valid: "validateOrder (Some o0) = Inr ()"
    using place(3) by (rule PlaceOrder_valid)
  obtain ob2 ob3 ts' where run: "PlaceOrder clk now ob (Some o0) = Some (Inr (settled_book ob3 ?r, obj ob3 ?r, ts'))"
    and al: "allocated ?r ob2 ob3 (order_allocation ob o0) ts'" "length (ob_objs ob2) = Suc ?r"
      "\<And>b. side_prices b ob2 = side_prices b ob" "same_terms (obj ob2 ?r) (o0\<lparr>or_ID := or_ID (obj ob2 ?r), or_Timestamp := or_Timestamp (obj ob2 ?r)\<rparr>)"
    and stop: "open_order (obj ob3 ?r) \<Longrightarrow> eligible o0 (side_prices (\<not> is_buy o0) ob3) = []
       \<or> 0 \<in> set (eligible o0 (side_prices (\<not> is_buy o0) ob))"
    by (rule PlaceOrder_run [OF assms(2) valid place(2), of clk]) blast
  have ob': "ob' = settled_book ob3 ?r"
    using place(3) run by simp
  have sub: "set (side_prices b ob3) \<subseteq> set (side_prices b ob)" for b
    using al(1,3) by (simp add: allocated_def)
  have terms: "or_Price (obj ob3 ?r) = or_Price o0" "is_buy (obj ob3 ?r) = is_buy o0"
    using al(1,2,4) by (auto simp: allocated_def same_terms_def)
  have price: "or_Price o0 \<noteq> 0"
    using valid place(1) by (auto simp: validateOrder_def split: if_splits)
  have new: "set (side_prices b ob') \<subseteq> set (side_prices b ob3) \<union> (if b = is_buy o0 \<and> open_order (obj ob3 ?r) then {or_Price o0} else {})" for b
    using settled_prices [of b ob3 ?r] unfolding ob' terms .
  have "priced ob'"
    unfolding priced_def
  proof
    fix b
    have "0 \<notin> set (side_prices b ob3)"
      using sub [of b] assms(4) by (auto simp: priced_def)
    then show "0 \<notin> set (side_prices b ob')"
      using new [of b] price by (auto split: if_splits)
  qed
  moreover have clear: "\<not> canMatch o0 p" if "open_order (obj ob3 ?r)" "p \<in> set (side_prices (\<not> is_buy o0) ob3)" for p
  proof -
    have "eligible o0 (side_prices (\<not> is_buy o0) ob3) = []"
      using stop [OF that(1)] assms(4) by (auto simp: priced_def set_eligible)
    then show ?thesis
      using that(2) set_eligible [of o0 "side_prices (\<not> is_buy o0) ob3"] by auto
  qed
  have "uncrossed ob'"
    unfolding uncrossed_def side_prices_cases [symmetric]
  proof (intro ballI)
    fix b a assume "b \<in> set (side_prices True ob')" "a \<in> set (side_prices False ob')"
    then have "b \<in> set (side_prices True ob3) \<or> b = or_Price o0 \<and> is_buy o0 \<and> open_order (obj ob3 ?r)"
      "a \<in> set (side_prices False ob3) \<or> a = or_Price o0 \<and> \<not> is_buy o0 \<and> open_order (obj ob3 ?r)"
      using new [of True] new [of False] by (auto split: if_splits)
    moreover have "or_Price o0 < p" if "is_buy o0" "open_order (obj ob3 ?r)" "p \<in> set (side_prices False ob3)" for p
      using clear [of p] that place(1) by (simp add: canMatch_def order_constants)
    moreover have "p < or_Price o0" if "\<not> is_buy o0" "open_order (obj ob3 ?r)" "p \<in> set (side_prices True ob3)" for p
      using clear [of p] that place(1) by (simp add: canMatch_def order_constants)
    moreover have "x < y" if "x \<in> set (side_prices True ob3)" "y \<in> set (side_prices False ob3)" for x y
      using that sub [of True] sub [of False] assms(3) unfolding uncrossed_def side_prices_cases by blast
    ultimately show "b < a" by blast
  qed
  ultimately show ?thesis by simp
qed

text \<open>C14. A book of limit orders is never crossed: in every state reachable by placing limit orders under unused
  identifiers and cancelling, every bid price is below every ask price.\<close>

theorem limit_book_uncrossed:
  assumes "book_reachable (\<lambda>o'. or_OrderType o' = OrderTypeLimit) ob"
  shows "\<forall>b \<in> set (ob_bidPrices ob). \<forall>a \<in> set (ob_askPrices ob). b < a"
proof -
  obtain pair where "(book_step (\<lambda>o'. or_OrderType o' = OrderTypeLimit))\<^sup>*\<^sup>* (NewOrderBook pair) ob"
    using assms by (auto simp: book_reachable_def)
  then have "good_book ob \<and> uncrossed ob \<and> priced ob"
  proof (induction rule: rtranclp_induct)
    case base
    show ?case
      using good_book_new by (simp add: uncrossed_def priced_def NewOrderBook_def side_prices_def)
  next
    case (step ob1 ob2)
    then show ?case
      using limit_step_uncrossed [OF step.hyps(2)] book_step_good [OF step.hyps(2)] by blast
  qed
  then show ?thesis by (simp add: uncrossed_def)
qed

definition two_sided :: OrderBook where
  "two_sided = after_order two_bids (sample_order 3 OrderSideSell OrderTypeLimit 5 30)"

theorem limit_book_uncrossed_witness:
  "ob_bidPrices two_sided = [20, 10] \<and> ob_askPrices two_sided = [30]
   \<and> hd (ob_bidPrices two_sided) < hd (ob_askPrices two_sided)"
proof (intro conjI)
  show prices: "ob_bidPrices two_sided = [20, 10]" "ob_askPrices two_sided = [30]"
    by code_simp+
  have "validateOrder (Some (sample_order 3 OrderSideSell OrderTypeLimit 5 30)) = Inr ()"
    "fresh_order (0, 0) two_bids (sample_order 3 OrderSideSell OrderTypeLimit 5 30)"
    by code_simp+
  then have "book_reachable (\<lambda>o'. or_OrderType o' = OrderTypeLimit) two_sided"
    unfolding two_sided_def by (rule after_order_reachable [OF two_bids_reachable]) (simp add: sample_order_def)
  then have "\<forall>b \<in> set (ob_bidPrices two_sided). \<forall>a \<in> set (ob_askPrices two_sided). b < a"
    by (rule limit_book_uncrossed)
  then show "hd (ob_bidPrices two_sided) < hd (ob_askPrices two_sided)"
    unfolding prices by simp
qed

section \<open>What the engine gets wrong\<close>

text \<open>A resting order without a price blocks its side: once a market order that could not be filled rests among
  the asks at price zero, no buy order trades, whatever other asks there are and whatever it offers, because zero is
  taken for the absence of a price.\<close>

theorem zero_price_blocks_asks:
  assumes "book_reachable admitted ob" and "0 \<in> set (ob_askPrices ob)" and "validateOrder (Some o0) = Inr ()"
    and "fresh_order now ob o0" and "or_Side o0 = OrderSideBuy"
  shows "\<exists>ob' order. PlaceOrder clk now ob (Some o0) = Some (Inr (ob', order, []))"
proof -
  obtain ob2 ob3 ts where run: "PlaceOrder clk now ob (Some o0) = Some (Inr (settled_book ob3 (length (ob_objs ob)), obj ob3 (length (ob_objs ob)), ts))"
    and al: "allocated (length (ob_objs ob)) ob2 ob3 (order_allocation ob o0) ts"
    by (rule PlaceOrder_run [OF reachable_good [OF assms(1)] assms(3,4), of clk]) blast
  have "0 \<in> set (eligible o0 (side_prices (\<not> is_buy o0) ob))"
    using assms(2,5) by (simp add: set_eligible side_prices_def canMatch_def)
  then have "order_allocation ob o0 = []"
    by (simp add: order_allocation_def)
  with al run show ?thesis
    by (simp add: allocated_def)
qed

theorem zero_price_blocks_asks_witness:
  "ob_askPrices blocked_asks = [0, 10]
   \<and> (\<exists>ob' order. PlaceOrder (\<lambda>n. (0, 0)) (0, 0) blocked_asks (Some (sample_order 3 OrderSideBuy OrderTypeLimit 5 50))
        = Some (Inr (ob', order, [])))"
proof
  show "ob_askPrices blocked_asks = [0, 10]" by code_simp
  then have "0 \<in> set (ob_askPrices blocked_asks)" by simp
  moreover have "validateOrder (Some (sample_order 3 OrderSideBuy OrderTypeLimit 5 50)) = Inr ()"
    "fresh_order (0, 0) blocked_asks (sample_order 3 OrderSideBuy OrderTypeLimit 5 50)"
    by code_simp+
  ultimately show "\<exists>ob' order. PlaceOrder (\<lambda>n. (0, 0)) (0, 0) blocked_asks (Some (sample_order 3 OrderSideBuy OrderTypeLimit 5 50))
        = Some (Inr (ob', order, []))"
    by (intro zero_price_blocks_asks [OF blocked_asks_reachable]) (simp_all add: sample_order_def)
qed

lemma order_allocation_first:
  assumes good: "good_book ob" and al: "order_allocation ob o0 = (p, r, k) # rest"
    and q: "q \<in> set (side_prices (\<not> is_buy o0) ob)" "canMatch o0 q"
  shows "p \<le> q"
proof -
  let ?e = "eligible o0 (side_prices (\<not> is_buy o0) ob)"
  have ok: "book_ok {} ob" using good by (simp add: good_book_def)
  have "sorted ?e"
    using book_okD(1) [OF ok] by (rule sorted_eligible)
  moreover obtain w where "waiting ob o0 = (p, r) # w"
    using al by (cases "waiting ob o0") (auto simp: order_allocation_def Let_def split: if_splits)
  then obtain ps where "?e = p # ps"
    using waiting_Cons [OF ok] by metis
  ultimately show ?thesis
    using q set_eligible [of o0 "side_prices (\<not> is_buy o0) ob"] by auto
qed

text \<open>A sell order gets the worst price on offer: the first trade of a sell order is at the lowest bid it may
  trade with, not at the highest as the comments of \<^verbatim>\<open>findBestPrice\<close> say.\<close>

theorem sell_takes_lowest_bid:
  assumes "book_reachable admitted ob" and "fresh_order now ob o0" and "or_Side o0 = OrderSideSell"
    and "PlaceOrder clk now ob (Some o0) = Some (Inr (ob', order, t # ts))"
  shows "\<forall>q \<in> set (ob_bidPrices ob). or_OrderType o0 = OrderTypeMarket \<or> or_Price o0 \<le> q \<longrightarrow> tr_Price t \<le> q"
proof (intro ballI impI)
  fix q assume q: "q \<in> set (ob_bidPrices ob)" "or_OrderType o0 = OrderTypeMarket \<or> or_Price o0 \<le> q"
  have good: "good_book ob" using assms(1) by (rule reachable_good)
  obtain ob2 ob3 ts' where run: "PlaceOrder clk now ob (Some o0) = Some (Inr (settled_book ob3 (length (ob_objs ob)), obj ob3 (length (ob_objs ob)), ts'))"
    and al: "allocated (length (ob_objs ob)) ob2 ob3 (order_allocation ob o0) ts'"
    by (rule PlaceOrder_run [OF good PlaceOrder_valid [OF assms(4)] assms(2), of clk]) blast
  then have "map (\<lambda>t. (tr_Price t, tr_Quantity t)) (t # ts) = map (\<lambda>(p, r, k). (p, k)) (order_allocation ob o0)"
    using assms(4) by (simp add: allocated_def)
  then obtain r k rest where "order_allocation ob o0 = (tr_Price t, r, k) # rest"
    by (cases "order_allocation ob o0") auto
  then show "tr_Price t \<le> q"
    by (rule order_allocation_first [OF good]) (use q assms(3) in \<open>auto simp: side_prices_def canMatch_def order_constants\<close>)
qed

theorem sell_takes_lowest_bid_witness:
  "(case PlaceOrder (\<lambda>n. (0, 0)) (0, 0) two_bids (Some (sample_order 3 OrderSideSell OrderTypeMarket 1 0)) of
      Some (Inr (ob', order, ts)) \<Rightarrow> ts \<noteq> [] \<and> tr_Price (hd ts) \<le> 10 \<and> tr_Price (hd ts) \<le> 20
    | _ \<Rightarrow> False)"
proof -
  let ?o = "sample_order 3 OrderSideSell OrderTypeMarket 1 0"
  let ?run = "PlaceOrder (\<lambda>n. (0, 0)) (0, 0) two_bids (Some ?o)"
  have "(case ?run of Some (Inr (ob', order, ts)) \<Rightarrow> ts \<noteq> [] | _ \<Rightarrow> False)"
    by code_simp
  then obtain ob' order t ts where run: "?run = Some (Inr (ob', order, t # ts))"
    by (auto simp: neq_Nil_conv split: option.splits sum.splits)
  have "fresh_order (0, 0) two_bids ?o"
    by code_simp
  from sell_takes_lowest_bid [OF two_bids_reachable this _ run]
  have "\<forall>q \<in> set (ob_bidPrices two_bids). tr_Price t \<le> q"
    by (simp add: sample_order_def)
  moreover have "ob_bidPrices two_bids = [20, 10]"
    by code_simp
  ultimately show ?thesis
    using run by simp
qed

end
