(* ===== verification/Multisig.thy ===== *)
theory Multisig
  imports Channel_Runs
begin

text \<open>
  \<^verbatim>\<open>pkg/utxo/multisig.go\<close>: multi-signature scripts, their parser and verifier, and the adapter that
  is the repository's own \<^verbatim>\<open>MultiSigLocker\<close>, the interface the channel manager calls. An index out of
  range is the error \<open>MsPanic\<close>; a boolean function that may panic returns an option. The last section
  composes the adapter with the channel manager.
\<close>

section \<open>Scripts\<close>

type_synonym ScriptOp = byte
type_synonym ScriptType = byte

definition OP_DATA :: ScriptOp where "OP_DATA = 0x00"
definition OP_DUP :: ScriptOp where "OP_DUP = 0x76"
definition OP_CHECKSIG :: ScriptOp where "OP_CHECKSIG = 0xac"
definition OP_CHECKMULTISIG :: ScriptOp where "OP_CHECKMULTISIG = 0xae"
definition OP_CHECKSIGVERIFY :: ScriptOp where "OP_CHECKSIGVERIFY = 0xaf"
definition OP_SWAP :: ScriptOp where "OP_SWAP = 0x7c"
definition OP_DROP :: ScriptOp where "OP_DROP = 0x75"
definition OP_1 :: ScriptOp where "OP_1 = 0x51"
definition OP_2 :: ScriptOp where "OP_2 = 0x52"
definition OP_3 :: ScriptOp where "OP_3 = 0x53"

definition ScriptTypeP2PKH :: ScriptType where "ScriptTypeP2PKH = 1"
definition ScriptTypeMulti2 :: ScriptType where "ScriptTypeMulti2 = 2"
definition ScriptTypeMulti3 :: ScriptType where "ScriptTypeMulti3 = 3"

lemmas op_defs = OP_DATA_def OP_DUP_def OP_CHECKSIG_def OP_CHECKMULTISIG_def OP_CHECKSIGVERIFY_def
  OP_SWAP_def OP_DROP_def OP_1_def OP_2_def OP_3_def

record MultiSigScript =
  ms_RequiredSigs :: byte
  ms_PublicKeys :: "bytes list"

record MultiSigStore =
  mst_utxos :: "string \<rightharpoonup> UTXO"
  mst_scripts :: "string \<rightharpoonup> MultiSigScript"

datatype multisig_error =
    MsPanic
  | MsTooShort
  | MsRequiredSigs
  | MsKeyLength
  | MsTotal
  | MsOpcode
  | MsScriptNotFound

definition NewMultiSigStore :: MultiSigStore where
  "NewMultiSigStore = \<lparr>mst_utxos = Map.empty, mst_scripts = Map.empty\<rparr>"

definition CreateP2PKHScript :: "hash \<Rightarrow> bytes" where
  "CreateP2PKHScript pubKeyHash = [OP_DUP] @ hash_bytes pubKeyHash @ [OP_CHECKSIG]"

definition CreateMultiSig2Script :: "bytes \<Rightarrow> bytes \<Rightarrow> bytes" where
  "CreateMultiSig2Script pubKeyA pubKeyB =
     [OP_2] @ [of_nat (length pubKeyA)] @ pubKeyA @ [of_nat (length pubKeyB)] @ pubKeyB
     @ [OP_2] @ [OP_CHECKMULTISIG]"

text \<open>The loop over the public keys; it returns the offset it stops at.\<close>

function parse_keys :: "bytes \<Rightarrow> nat \<Rightarrow> bytes list \<Rightarrow> (multisig_error, nat \<times> bytes list) result" where
  "parse_keys script offset publicKeys =
     (if offset < length script - 2 \<and> script ! offset > OP_DROP
      then (let pubKeyLen = unat (script ! offset) in
            if offset + 1 + pubKeyLen > length script then Inl MsKeyLength
            else parse_keys script (offset + 1 + pubKeyLen)
                   (publicKeys @ [take pubKeyLen (drop (offset + 1) script)]))
      else Inr (offset, publicKeys))"
  by auto

termination
  by (relation "measure (\<lambda>(script, offset, _). length script - offset)") auto

declare parse_keys.simps [simp del]

definition ParseMultiSigScript :: "bytes \<Rightarrow> (multisig_error, MultiSigScript) result" where
  "ParseMultiSigScript script =
     (if length script < 5 then Inl MsTooShort
      else if script ! 0 \<noteq> OP_2 \<and> script ! 0 \<noteq> OP_3 then Inl MsRequiredSigs
      else (let requiredSigs = script ! 0 in
        rbind (parse_keys script 1 []) (\<lambda>(offset, publicKeys).
          if offset \<ge> length script then Inl MsPanic
          else if script ! offset \<noteq> requiredSigs then Inl MsTotal
          else if offset + 1 \<ge> length script then Inl MsPanic
          else if script ! (offset + 1) \<noteq> OP_CHECKMULTISIG then Inl MsOpcode
          else Inr \<lparr>ms_RequiredSigs = requiredSigs, ms_PublicKeys = publicKeys\<rparr>)))"

text \<open>One signature check of \<^verbatim>\<open>VerifyMultiSig\<close>, which counts the valid ones.\<close>

definition count_valid :: "crypto \<Rightarrow> bytes \<Rightarrow> bytes \<Rightarrow> bytes \<Rightarrow> nat \<Rightarrow> nat option" where
  "count_valid C pubKey data sig validCount =
     (if sig \<noteq> [] \<and> pubKey \<noteq> []
      then map_option (\<lambda>ok. if ok then validCount + 1 else validCount) (ed25519_Verify C pubKey data sig)
      else Some validCount)"

definition VerifyMultiSig ::
  "crypto \<Rightarrow> bytes \<Rightarrow> hash \<Rightarrow> bytes \<Rightarrow> bytes \<Rightarrow> bytes \<Rightarrow> bytes \<Rightarrow> bool option" where
  "VerifyMultiSig C script txHash sig1 pubKey1 sig2 pubKey2 =
     (case ParseMultiSigScript script of
        Inl e \<Rightarrow> if e = MsPanic then None else Some False
      | Inr ms \<Rightarrow>
          if ms_RequiredSigs ms \<noteq> 2 \<or> length (ms_PublicKeys ms) \<noteq> 2 then Some False
          else (let data = hash_bytes txHash in
            Option.bind (count_valid C pubKey1 data sig1 0) (\<lambda>n1.
            Option.bind (count_valid C pubKey2 data sig2 n1) (\<lambda>n2.
            if n2 < 2
            then Option.bind (count_valid C pubKey2 data sig1 n2) (\<lambda>n3.
                 map_option (\<lambda>n4. n4 \<ge> 2) (count_valid C pubKey1 data sig2 n3))
            else Some True))))"

definition IsMultiSigScript :: "bytes \<Rightarrow> bool" where
  "IsMultiSigScript script \<longleftrightarrow>
     length script \<ge> 3 \<and> (script ! 0 = OP_2 \<or> script ! 0 = OP_3) \<and> last script = OP_CHECKMULTISIG"

definition GetScriptType :: "bytes \<Rightarrow> ScriptType option" where
  "GetScriptType script =
     (if IsMultiSigScript script
      then (case ParseMultiSigScript script of
              Inl e \<Rightarrow> if e = MsPanic then None else Some ScriptTypeP2PKH
            | Inr ms \<Rightarrow>
                if ms_RequiredSigs ms = 2 \<and> length (ms_PublicKeys ms) = 2 then Some ScriptTypeMulti2
                else if ms_RequiredSigs ms = 2 \<and> length (ms_PublicKeys ms) = 3 then Some ScriptTypeMulti3
                else Some ScriptTypeP2PKH)
      else Some ScriptTypeP2PKH)"

section \<open>The adapter\<close>

record MultiSigStoreAdapter =
  ad_utxoStore :: UTXOStore
  ad_multiSig :: MultiSigStore

definition NewMultiSigStoreAdapter :: "UTXOStore \<Rightarrow> MultiSigStoreAdapter" where
  "NewMultiSigStoreAdapter s = \<lparr>ad_utxoStore = s, ad_multiSig = NewMultiSigStore\<rparr>"

definition temp_hash :: "crypto \<Rightarrow> hash" where
  "temp_hash C = sha256 C (map of_char ''temp'')"

definition CreateMultiSigOutput ::
  "crypto \<Rightarrow> MultiSigStoreAdapter \<Rightarrow> address \<Rightarrow> address \<Rightarrow> u64 \<Rightarrow> MultiSigStoreAdapter \<times> UTXO" where
  "CreateMultiSigOutput C a partyA partyB amount =
     (let tempHash = temp_hash C;
          script = CreateMultiSig2Script (hash_bytes partyA) (hash_bytes partyB);
          utxo = \<lparr>u_TxHash = tempHash, u_Index = 0, u_Value = amount, u_Script = script, u_Address = partyA\<rparr>;
          key = UTXOKey tempHash 0;
          ms = (ad_multiSig a)\<lparr>mst_scripts := (mst_scripts (ad_multiSig a))(key \<mapsto>
                  \<lparr>ms_RequiredSigs = 2, ms_PublicKeys = [hash_bytes partyA, hash_bytes partyB]\<rparr>)\<rparr>
      in (a\<lparr>ad_multiSig := ms\<rparr>, utxo))"

definition SpendMultiSig ::
  "crypto \<Rightarrow> MultiSigStoreAdapter \<Rightarrow> UTXO \<Rightarrow> bytes \<Rightarrow> bytes \<Rightarrow> TXOutput list
   \<Rightarrow> (multisig_error, MultiSigStoreAdapter) result" where
  "SpendMultiSig C a utxo sigA sigB outputs =
     (let key = UTXOKey (u_TxHash utxo) (u_Index utxo) in
      case mst_scripts (ad_multiSig a) key of
        None \<Rightarrow> Inl MsScriptNotFound
      | Some ms \<Rightarrow>
          if ms_RequiredSigs ms \<noteq> 2 then Inl MsRequiredSigs
          else (let txHash = sha256 C (map of_char ''tx'')
                in Inr \<lparr>ad_utxoStore = add_outputs (ad_utxoStore a) txHash 0 outputs,
                        ad_multiSig = \<lparr>mst_utxos = (mst_utxos (ad_multiSig a))(key := None),
                                       mst_scripts = (mst_scripts (ad_multiSig a))(key := None)\<rparr>\<rparr>))"

text \<open>The loop of the adapter's verification: the second key is checked against the second signature.\<close>

fun count_keys :: "crypto \<Rightarrow> bytes \<Rightarrow> bytes \<Rightarrow> bytes \<Rightarrow> nat \<Rightarrow> bytes list \<Rightarrow> nat \<Rightarrow> nat option" where
  "count_keys C data sigA sigB i [] validCount = Some validCount"
| "count_keys C data sigA sigB i (pubKey # keys) validCount =
     (let sig = (if i = 1 then sigB else sigA) in
      if sig \<noteq> []
      then (case ed25519_Verify C pubKey data sig of
              None \<Rightarrow> None
            | Some ok \<Rightarrow> count_keys C data sigA sigB (Suc i) keys (if ok then validCount + 1 else validCount))
      else count_keys C data sigA sigB (Suc i) keys validCount)"

definition adapter_VerifyMultiSig :: "crypto \<Rightarrow> MultiSigStoreAdapter \<Rightarrow> UTXO \<Rightarrow> bytes \<Rightarrow> bytes \<Rightarrow> bool option" where
  "adapter_VerifyMultiSig C a utxo sigA sigB =
     (case mst_scripts (ad_multiSig a) (UTXOKey (u_TxHash utxo) (u_Index utxo)) of
        None \<Rightarrow> Some False
      | Some ms \<Rightarrow>
          if length (ms_PublicKeys ms) \<noteq> 2 then Some False
          else map_option (\<lambda>n. n \<ge> 2)
                 (count_keys C (hash_bytes (u_TxHash utxo)) sigA sigB 0 (ms_PublicKeys ms) 0))"

section \<open>Transactions and combined signatures\<close>

definition CreateMultiSigTransaction ::
  "UTXO \<Rightarrow> bytes \<Rightarrow> bytes \<Rightarrow> bytes \<Rightarrow> bytes \<Rightarrow> TXOutput list \<Rightarrow> Transaction" where
  "CreateMultiSigTransaction inputUTXO sigA pubKeyA sigB pubKeyB outputs =
     (let input = \<lparr>ti_TxHash = u_TxHash inputUTXO, ti_Index = u_Index inputUTXO,
                   ti_Signature = sigA @ sigB @ pubKeyA @ pubKeyB, ti_PublicKey = pubKeyA\<rparr>;
          tx = NewTransaction [input] outputs
      in tx\<lparr>tx_Inputs := (tx_Inputs tx)[0 := (tx_Inputs tx ! 0)\<lparr>ti_Signature := sigA @ sigB\<rparr>]\<rparr>)"

definition VerifySignature :: "crypto \<Rightarrow> bytes \<Rightarrow> bytes \<Rightarrow> bytes \<Rightarrow> bool option" where
  "VerifySignature C pubKey data sig = ed25519_Verify C pubKey data sig"

definition CombineSignatures :: "bytes list \<Rightarrow> bytes" where
  "CombineSignatures signatures = foldl (\<lambda>result sig. result @ sig) [] signatures"

text \<open>
  The loop of \<^verbatim>\<open>SplitCombinedSignatures\<close> leaves at the first signature that is not complete; the
  entries it has not filled stay \<^verbatim>\<open>nil\<close> (\<open>None\<close>). The memory limit of \<^verbatim>\<open>make\<close> is not modelled.
\<close>

fun split_loop :: "bytes \<Rightarrow> nat \<Rightarrow> nat list \<Rightarrow> bytes option list \<Rightarrow> bytes option list" where
  "split_loop combined sigLen [] signatures = signatures"
| "split_loop combined sigLen (i # is) signatures =
     (let start = i * sigLen in
      if start + sigLen > length combined then signatures
      else split_loop combined sigLen is (signatures[i := Some (take sigLen (drop start combined))]))"

definition SplitCombinedSignatures :: "bytes \<Rightarrow> int \<Rightarrow> bytes option list" where
  "SplitCombinedSignatures combined count =
     (if count \<le> 0 then []
      else split_loop combined 64 [0..<nat count] (replicate (nat count) None))"

section \<open>What scripts can be spent\<close>

lemma count_valid_cases: "count_valid C pk d s n \<in> {None, Some n, Some (n + 1)}"
  by (auto simp: count_valid_def ed25519_Verify_def)

lemma parsed_required:
  "ParseMultiSigScript script = Inr ms \<Longrightarrow> ms_RequiredSigs ms = OP_2 \<or> ms_RequiredSigs ms = OP_3"
  by (auto simp: ParseMultiSigScript_def Let_def rbind_Inr_iff split: if_splits)

text \<open>Script verification accepts nothing: whatever the script, the hash, the keys and the signatures are,
  \<^verbatim>\<open>VerifyMultiSig\<close> never returns true and \<^verbatim>\<open>GetScriptType\<close> never reports a multi-signature script, because the
  parser keeps the opcode (0x52 or 0x53) as the number of required signatures and both compare it with 2.\<close>

theorem multisig_never_verifies:
  "VerifyMultiSig C script txHash sig1 pubKey1 sig2 pubKey2 \<noteq> Some True
   \<and> GetScriptType script \<noteq> Some ScriptTypeMulti2 \<and> GetScriptType script \<noteq> Some ScriptTypeMulti3"
proof -
  have "ms_RequiredSigs ms \<noteq> 2" if "ParseMultiSigScript script = Inr ms" for ms
    using parsed_required [OF that] by (auto simp: op_defs)
  then show ?thesis
    by (auto simp: VerifyMultiSig_def GetScriptType_def ScriptTypeP2PKH_def ScriptTypeMulti2_def
        ScriptTypeMulti3_def split: sum.splits)
qed

text \<open>The parser does not read what the constructor writes: for keys of 32 bytes, the length byte counts as an
  opcode, the loop over the keys ends at once, and parsing fails; the constructor's own output is classified as a
  payment to a key hash.\<close>

theorem own_script_rejected:
  assumes "length pubKeyA = 32"
  shows "ParseMultiSigScript (CreateMultiSig2Script pubKeyA pubKeyB) = Inl MsTotal
    \<and> IsMultiSigScript (CreateMultiSig2Script pubKeyA pubKeyB)
    \<and> GetScriptType (CreateMultiSig2Script pubKeyA pubKeyB) = Some ScriptTypeP2PKH"
proof -
  let ?s = "CreateMultiSig2Script pubKeyA pubKeyB"
  have s: "?s ! 0 = 0x52" "?s ! 1 = 32" "length ?s = 37 + length pubKeyB"
    using assms by (simp_all add: CreateMultiSig2Script_def op_defs)
  then have "parse_keys ?s 1 [] = Inr (1, [])"
    by (subst parse_keys.simps) (simp add: op_defs)
  then have parse: "ParseMultiSigScript ?s = Inl MsTotal"
    using s by (simp add: ParseMultiSigScript_def op_defs)
  moreover have "IsMultiSigScript ?s"
    using s by (simp add: IsMultiSigScript_def op_defs) (simp add: CreateMultiSig2Script_def op_defs)
  ultimately show ?thesis
    by (simp add: GetScriptType_def)
qed

theorem own_script_rejected_witness:
  "ParseMultiSigScript (CreateMultiSig2Script (replicate 32 1) (replicate 32 2)) = Inl MsTotal"
  using own_script_rejected [of "replicate 32 1" "replicate 32 2"] by simp

text \<open>A script whose announced key ends at its last byte makes the parser index past the end.\<close>

lemma parser_panics:
  "ParseMultiSigScript ([0x52, 0x77] @ replicate 118 0 @ [0xae]) = Inl MsPanic"
proof -
  let ?s = "[0x52, 0x77] @ replicate 118 0 @ [0xae] :: bytes"
  have "parse_keys ?s 1 [] = Inr (121, [replicate 118 0 @ [0xae]])"
    by (subst parse_keys.simps) (subst parse_keys.simps, simp add: op_defs)
  then show ?thesis
    by (simp add: ParseMultiSigScript_def op_defs)
qed

section \<open>Combined signatures\<close>

lemma CombineSignatures_concat: "CombineSignatures sigs = concat sigs"
proof -
  have "foldl (\<lambda>r s. r @ s) z sigs = z @ concat sigs" for z :: bytes
    by (induction sigs arbitrary: z) simp_all
  then show ?thesis by (simp add: CombineSignatures_def)
qed

lemma length_concat_64: "\<forall>s \<in> set sigs. length s = 64 \<Longrightarrow> length (concat sigs) = 64 * length sigs"
  by (induction sigs) auto

lemma split_loop_concat:
  "\<forall>s \<in> set sigs. length s = 64 \<Longrightarrow>
   split_loop (concat (don @ sigs)) 64 [length don..<length don + length sigs]
     (map Some don @ replicate (length sigs) None) = map Some (don @ sigs)"
  if "\<forall>s \<in> set don. length s = 64" for don :: "bytes list"
  using that
proof (induction sigs arbitrary: don)
  case (Cons s sigs)
  have len: "length (concat (don @ s # sigs)) = 64 * (length don + Suc (length sigs))"
    using length_concat_64 [of "don @ s # sigs"] Cons.prems by auto
  have "drop (length don * 64) (concat (don @ s # sigs)) = s @ concat sigs"
    using length_concat_64 [OF Cons.prems(2)] by (simp add: mult.commute)
  then have "take 64 (drop (length don * 64) (concat (don @ s # sigs))) = s"
    using Cons.prems(1) by simp
  moreover have "split_loop (concat ((don @ [s]) @ sigs)) 64 [length (don @ [s])..<length (don @ [s]) + length sigs]
      (map Some (don @ [s]) @ replicate (length sigs) None) = map Some ((don @ [s]) @ sigs)"
    using Cons.prems by (intro Cons.IH) auto
  moreover have "[length don..<length don + length (s # sigs)]
      = length don # [Suc (length don)..<Suc (length don) + length sigs]"
    using upt_conv_Cons [of "length don" "length don + length (s # sigs)"] by simp
  moreover have "(map Some don @ replicate (length (s # sigs)) None)[length don := Some s]
      = map Some (don @ [s]) @ replicate (length sigs) None"
    by (simp add: list_update_append)
  ultimately show ?case
    using len by (simp add: Let_def algebra_simps)
qed simp

text \<open>Splitting undoes combining: any list of 64-byte signatures is recovered from its concatenation; with a
  larger count the missing entries are \<^verbatim>\<open>nil\<close>.\<close>

theorem split_combine:
  assumes "\<forall>s \<in> set sigs. length s = 64"
  shows "SplitCombinedSignatures (CombineSignatures sigs) (int (length sigs)) = map Some sigs"
  using split_loop_concat [of "[]", OF _ assms]
  by (auto simp: SplitCombinedSignatures_def CombineSignatures_concat)

section \<open>The adapter's life\<close>

inductive adapter_step :: "crypto \<Rightarrow> MultiSigStoreAdapter \<Rightarrow> MultiSigStoreAdapter \<Rightarrow> bool" for C where
  create: "CreateMultiSigOutput C a p q v = (a', u) \<Longrightarrow> adapter_step C a a'"
| spend: "SpendMultiSig C a u s t outs = Inr a' \<Longrightarrow> adapter_step C a a'"

definition adapter_inv :: "crypto \<Rightarrow> MultiSigStoreAdapter \<Rightarrow> bool" where
  "adapter_inv C a \<longleftrightarrow>
     (\<forall>k ms. mst_scripts (ad_multiSig a) k = Some ms \<longrightarrow>
        k = UTXOKey (temp_hash C) 0 \<and> ms_RequiredSigs ms = 2
        \<and> (\<exists>p q. ms_PublicKeys ms = [hash_bytes p, hash_bytes q]))"

lemma adapter_inv_step: "adapter_step C a a' \<Longrightarrow> adapter_inv C a \<Longrightarrow> adapter_inv C a'"
proof (induction rule: adapter_step.induct)
  case create
  then show ?case by (auto simp: adapter_inv_def CreateMultiSigOutput_def Let_def split: if_splits)
next
  case (spend a u s t outs a')
  then have "mst_scripts (ad_multiSig a') \<subseteq>\<^sub>m mst_scripts (ad_multiSig a)"
    by (auto simp: SpendMultiSig_def Let_def map_le_def split: option.splits if_splits)
  then show ?case
    using spend.prems by (metis (no_types, lifting) adapter_inv_def domI map_le_def)
qed

lemma adapter_inv_run:
  assumes "(adapter_step C)\<^sup>*\<^sup>* (NewMultiSigStoreAdapter s) a"
  shows "adapter_inv C a"
  using assms
  by (induction rule: rtranclp_induct)
    (auto simp: adapter_inv_step, simp add: adapter_inv_def NewMultiSigStoreAdapter_def NewMultiSigStore_def)

lemma adapter_script:
  assumes "adapter_inv C a" and "mst_scripts (ad_multiSig a) (UTXOKey h i) = Some ms"
  obtains p q where "h = temp_hash C" "i = 0" "ms_RequiredSigs ms = 2" "ms_PublicKeys ms = [hash_bytes p, hash_bytes q]"
  using assms unfolding adapter_inv_def by (metis UTXOKey_inject)

text \<open>The adapter's own check is exact: for an output it created, in any later state in which the output is still
  registered, \<^verbatim>\<open>VerifyMultiSig\<close> of the adapter returns (it does not panic) and is true exactly when the first signature
  verifies under the first registered key and the second under the second.\<close>

theorem adapter_verify_iff:
  assumes "(adapter_step C)\<^sup>*\<^sup>* (NewMultiSigStoreAdapter s) a"
    and "mst_scripts (ad_multiSig a) (UTXOKey (u_TxHash u) (u_Index u)) = Some ms"
  shows "\<exists>p q. ms_PublicKeys ms = [hash_bytes p, hash_bytes q] \<and>
     adapter_VerifyMultiSig C a u sigA sigB =
       Some (ed25519_Verify C (hash_bytes p) (hash_bytes (u_TxHash u)) sigA = Some True
           \<and> ed25519_Verify C (hash_bytes q) (hash_bytes (u_TxHash u)) sigB = Some True)"
proof -
  obtain p q where "ms_PublicKeys ms = [hash_bytes p, hash_bytes q]"
    using adapter_script [OF adapter_inv_run [OF assms(1)] assms(2)] by blast
  then show ?thesis
    using assms(2) by (auto simp: adapter_VerifyMultiSig_def Let_def ed25519_Verify_def)
qed

definition demo_adapter :: MultiSigStoreAdapter where
  "demo_adapter = fst (CreateMultiSigOutput demo_crypto (NewMultiSigStoreAdapter NewUTXOStore) 1 2 100)"

definition demo_multisig :: UTXO where
  "demo_multisig = snd (CreateMultiSigOutput demo_crypto (NewMultiSigStoreAdapter NewUTXOStore) 1 2 100)"

lemma demo_adapter_reachable: "(adapter_step demo_crypto)\<^sup>*\<^sup>* (NewMultiSigStoreAdapter NewUTXOStore) demo_adapter"
  unfolding demo_adapter_def by (intro r_into_rtranclp adapter_step.create) (rule prod.collapse [symmetric])

lemma demo_adapter_script:
  "mst_scripts (ad_multiSig demo_adapter) (UTXOKey (u_TxHash demo_multisig) (u_Index demo_multisig))
     = Some \<lparr>ms_RequiredSigs = 2, ms_PublicKeys = [hash_bytes 1, hash_bytes 2]\<rparr>"
  by (simp add: demo_adapter_def demo_multisig_def CreateMultiSigOutput_def Let_def)

theorem adapter_verify_iff_witness:
  "adapter_VerifyMultiSig demo_crypto demo_adapter demo_multisig
     (hash_bytes 1 @ replicate 32 0) (hash_bytes 2 @ replicate 32 0) = Some True"
  using adapter_verify_iff [OF demo_adapter_reachable demo_adapter_script,
      of "hash_bytes 1 @ replicate 32 0" "hash_bytes 2 @ replicate 32 0"]
  by (auto simp: ed25519_Verify_def demo_crypto_def sample_crypto_def)

text \<open>Spending needs no signature and conserves nothing: an output the adapter has registered can be spent with
  any two byte strings as signatures and into any outputs, whatever their value; all of these are added to the store.\<close>

theorem spend_without_signatures:
  assumes "CreateMultiSigOutput C a partyA partyB amount = (a1, u)"
  shows "\<exists>a2. SpendMultiSig C a1 u sigA sigB outputs = Inr a2
    \<and> ad_utxoStore a2 = add_outputs (ad_utxoStore a) (sha256 C (map of_char ''tx'')) 0 outputs
    \<and> SpendMultiSig C a2 u sigA sigB outputs = Inl MsScriptNotFound"
  using assms by (auto simp: CreateMultiSigOutput_def SpendMultiSig_def Let_def)

theorem spend_without_signatures_witness:
  "\<exists>a2. SpendMultiSig demo_crypto demo_adapter demo_multisig [] [] [\<lparr>to_Value = 1000000, to_Script = [], to_Address = 9\<rparr>] = Inr a2
    \<and> GetBalance (ad_utxoStore a2) 9 = 1000000"
proof -
  have "CreateMultiSigOutput demo_crypto (NewMultiSigStoreAdapter NewUTXOStore) 1 2 100 = (demo_adapter, demo_multisig)"
    by (simp add: demo_adapter_def demo_multisig_def)
  from spend_without_signatures [OF this, of "[]" "[]" "[\<lparr>to_Value = 1000000, to_Script = [], to_Address = 9\<rparr>]"]
  show ?thesis
    by (auto simp: GetBalance_def NewMultiSigStoreAdapter_def NewUTXOStore_def AddUTXO_def output_utxo_def map_get_def)
qed

section \<open>The adapter as the locker of the channel manager\<close>

definition adapter_locker :: "crypto \<Rightarrow> MultiSigStoreAdapter \<Rightarrow> locker" where
  "adapter_locker C a =
     \<lparr>ml_CreateMultiSigOutput = (\<lambda>p q v. Some (snd (CreateMultiSigOutput C a p q v))),
      ml_SpendMultiSig = (\<lambda>u s t outs. \<exists>a'. SpendMultiSig C a u s t outs = Inr a')\<rparr>"

text \<open>Every channel's state hash is the hash of 120 bytes.\<close>

definition hashed_state :: "crypto \<Rightarrow> Channel \<Rightarrow> bool" where
  "hashed_state C ch \<longleftrightarrow> (\<exists>ch'. ch_StateHash ch = computeStateHash C ch')"

definition hashed_states :: "crypto \<Rightarrow> Manager \<Rightarrow> bool" where
  "hashed_states C m \<longleftrightarrow> (\<forall>ch \<in> ran (ma_channels m). hashed_state C ch)"

lemma hashed_stateI: "ch_StateHash ch = computeStateHash C ch' \<Longrightarrow> hashed_state C ch"
  by (auto simp: hashed_state_def)

lemma hashed_computeStateHash [simp]: "hashed_state C (ch\<lparr>ch_StateHash := computeStateHash C ch'\<rparr>)"
  by (simp add: hashed_stateI)

lemma hashed_unchanged [simp]:
  "hashed_state C (ch\<lparr>ch_BalanceA := x\<rparr>) = hashed_state C ch"
  "hashed_state C (ch\<lparr>ch_BalanceB := x\<rparr>) = hashed_state C ch"
  "hashed_state C (ch\<lparr>ch_Sequence := n\<rparr>) = hashed_state C ch"
  "hashed_state C (ch\<lparr>ch_DisputeEnd := e\<rparr>) = hashed_state C ch"
  by (simp_all add: hashed_state_def)

lemma hashed_put:
  "hashed_states C m \<Longrightarrow> hashed_state C ch \<Longrightarrow> ma_channels m' = (ma_channels m)(i \<mapsto> ch) \<Longrightarrow> hashed_states C m'"
  by (auto simp: hashed_states_def ran_def split: if_splits)

lemma hashed_lookup: "hashed_states C m \<Longrightarrow> ma_channels m i = Some ch \<Longrightarrow> hashed_state C ch"
  by (auto simp: hashed_states_def ran_def)

lemma hashed_UpdateState: "UpdateState C now m i st = Inr (m', st') \<Longrightarrow> hashed_states C m \<Longrightarrow> hashed_states C m'"
  by (auto simp: UpdateState_def rbind_Inr_iff Let_def split: if_splits
      intro!: hashed_put [of C m "_\<lparr>ch_StateHash := computeStateHash C _\<rparr>"])

lemma hashed_Transfer: "Transfer C now m i amt fromA = Inr (m', st) \<Longrightarrow> hashed_states C m \<Longrightarrow> hashed_states C m'"
  by (auto simp: Transfer_def rbind_Inr_iff Let_def split: if_splits
      intro!: hashed_put [of C m "_\<lparr>ch_StateHash := computeStateHash C _\<rparr>"])

lemma hashed_CompleteHTLC: "CompleteHTLC C now m i k pre = Inr m' \<Longrightarrow> hashed_states C m \<Longrightarrow> hashed_states C m'"
  by (auto simp: CompleteHTLC_def rbind_Inr_iff Let_def split: if_splits option.splits
      intro!: hashed_put [of C m "_\<lparr>ch_StateHash := computeStateHash C _\<rparr>"])

lemma hashed_OpenChannel: "OpenChannel C L now rnd m a b da db = Inr (m', ch) \<Longrightarrow> hashed_states C m \<Longrightarrow> hashed_states C m'"
  by (auto simp: OpenChannel_def Let_def split: if_splits option.splits elim!: hashed_put intro: hashed_stateI)

lemma hashed_ResolveDispute:
  assumes "ResolveDispute now m i p = Inr m'" and "hashed_states C m"
  shows "hashed_states C m'"
proof -
  obtain c where c: "ma_channels m i = Some c"
    "ma_channels m' = (ma_channels m)(i \<mapsto> c\<lparr>ch_BalanceA := ch_BalanceA c + ch_BalanceB c, ch_BalanceB := 0\<rparr>)
     \<or> ma_channels m' = (ma_channels m)(i \<mapsto> c\<lparr>ch_BalanceB := ch_BalanceB c + ch_BalanceA c, ch_BalanceA := 0\<rparr>)"
    using assms(1)
    by (auto simp: ResolveDispute_def rbind_Inr_iff Let_def split: option.splits if_splits)
  then show ?thesis
    using hashed_lookup [OF assms(2) c(1)] by (elim disjE) (auto elim!: hashed_put [OF assms(2), rotated])
qed

lemma hashed_step: "channel_step C m m' \<Longrightarrow> hashed_states C m \<Longrightarrow> hashed_states C m'"
proof (induction rule: channel_step.induct)
  case close
  then show ?case by (elim CloseChannel_Inr) (rule hashed_put, assumption, auto dest: hashed_lookup)
next
  case dispute
  then show ?case by (elim Dispute_Inr) (rule hashed_put, assumption, auto dest: hashed_lookup)
next
  case force_close
  then show ?case by (elim ForceClose_Inr) (rule hashed_put, assumption, auto dest: hashed_lookup)
next
  case finalize
  then show ?case by (elim FinalizeClose_Inr) (rule hashed_put, assumption, auto dest: hashed_lookup)
next
  case add_htlc
  then show ?case by (elim AddHTLC_Inr) (simp add: hashed_states_def)
next
  case set_signer
  then show ?case by (simp add: SetSigner_def hashed_states_def)
qed (auto simp: hashed_states_def dest: HTLC_table_Inr
      dest!: hashed_UpdateState hashed_Transfer hashed_CompleteHTLC hashed_OpenChannel hashed_ResolveDispute)

lemma hashed_run:
  "(channel_step C)\<^sup>*\<^sup>* m m' \<Longrightarrow> hashed_states C m \<Longrightarrow> hashed_states C m'"
  by (induction rule: rtranclp_induct) (auto intro: hashed_step)

text \<open>With the adapter as its locker the channel manager can never close a channel: the adapter registers every
  output under the hash of the string "temp", while \<^verbatim>\<open>CloseChannel\<close> spends the output named by the channel's
  state hash. A close succeeds only on a channel whose own state hash, made of the 120 bytes of its state, happens to be
  the SHA-256 hash of that string.\<close>

theorem close_needs_collision:
  assumes "ma_channels m0 = Map.empty" and "(channel_step C)\<^sup>*\<^sup>* m0 m"
    and "(adapter_step C)\<^sup>*\<^sup>* (NewMultiSigStoreAdapter s) a"
    and "CloseChannel C (adapter_locker C a) m i st = Inr m'"
  shows "\<exists>ch ch'. ma_channels m i = Some ch \<and> ch_StateHash ch = computeStateHash C ch'
    \<and> ch_StateHash ch = sha256 C (map of_char ''temp'')"
proof -
  have "hashed_states C m"
    using hashed_run [OF assms(2)] assms(1) by (simp add: hashed_states_def)
  moreover obtain ch where ch: "ma_channels m i = Some ch"
    and "\<exists>u s t outs. u_TxHash u = ch_StateHash ch \<and> ml_SpendMultiSig (adapter_locker C a) u s t outs"
    using assms(4) by (force simp: CloseChannel_def rbind_Inr_iff Let_def split: if_splits)
  then obtain k ms where "mst_scripts (ad_multiSig a) (UTXOKey (ch_StateHash ch) k) = Some ms"
    by (auto simp: adapter_locker_def SpendMultiSig_def Let_def split: option.splits)
  then have "ch_StateHash ch = temp_hash C"
    using adapter_script [OF adapter_inv_run [OF assms(3)]] by blast
  ultimately obtain ch' where "ch_StateHash ch = computeStateHash C ch'" "ch_StateHash ch = temp_hash C"
    using hashed_lookup [OF _ ch, of C] unfolding hashed_state_def by blast
  with ch show ?thesis
    unfolding temp_hash_def by blast
qed

theorem close_needs_collision_witness:
  "\<exists>m'. CloseChannel demo_crypto (adapter_locker demo_crypto demo_adapter) demo_open 5 demo_state = Inr m'
     \<and> (\<exists>ch. ma_channels demo_open 5 = Some ch \<and> ch_StateHash ch = sha256 demo_crypto (map of_char ''temp''))"
proof -
  have "ml_SpendMultiSig (adapter_locker demo_crypto demo_adapter)
      \<lparr>u_TxHash = 5, u_Index = 0, u_Value = 100, u_Script = [], u_Address = 1\<rparr> x y outs" for x y outs
    by (simp add: adapter_locker_def SpendMultiSig_def demo_adapter_def CreateMultiSigOutput_def temp_hash_def
        demo_crypto_def Let_def)
  then obtain m' where run: "CloseChannel demo_crypto (adapter_locker demo_crypto demo_adapter) demo_open 5 demo_state = Inr m'"
    using demo_state_signed [of demo_channel]
    by (auto simp: CloseChannel_def lookup_channel_def demo_open_def demo_channel_def demo_state_def Let_def)
  have "(channel_step demo_crypto)\<^sup>*\<^sup>* demo_manager demo_open"
    using demo_opens by (auto intro: channel_step.open_channel)
  from close_needs_collision [OF _ this demo_adapter_reachable run] run show ?thesis
    by (auto simp: demo_manager_def)
qed

end
