(* ===== verification/Dispute_Resolver.thy ===== *)
theory Dispute_Resolver
  imports Channel_Runs Float64
begin

text \<open>
  \<^verbatim>\<open>pkg/channel/dispute.go\<close>: the resolver of disputes on top of the channel manager, and the detector
  of conflicting states. The resolver holds a pointer to the manager, so its operations take and
  return the manager's state next to its own. Every reading of the clock is an argument. The fields
  of the resolver that no operation reads (the task queue, the block checker, the bounds of the
  challenge period, the recipient of penalties) are left out; the penalty multiplier is a
  non-negative number as in \<open>Float64\<close>.
\<close>

section \<open>Data\<close>

record Evidence =
  ev_ChannelID :: hash
  ev_Sequence :: u64
  ev_BalanceA :: u64
  ev_BalanceB :: u64
  ev_SigA :: bytes
  ev_SigB :: bytes
  ev_Timestamp :: int
  ev_Submitter :: address
  ev_BlockNumber :: u64

record DisputeResult =
  re_Success :: bool
  re_Winner :: address
  re_NewBalance :: "u64 \<times> u64"
  re_Reason :: string

record DisputeConfig =
  dc_ChallengePeriod :: int
  dc_EvidenceExpiry :: int
  dc_FraudPenaltyMultiplier :: rat

record DisputeResolver =
  rs_evidenceStore :: "hash \<rightharpoonup> Evidence list"
  rs_challengePeriod :: int
  rs_evidenceExpiry :: int
  rs_fraudPenaltyMultiplier :: rat

record DisputeStatus =
  du_ChannelID :: hash
  du_Active :: bool
  du_Challenger :: address
  du_ChallengedSeq :: u64
  du_ChallengeStart :: int
  du_ChallengeEnd :: int
  du_TimeRemaining :: int
  du_EvidenceCount :: nat
  du_Resolved :: bool
  du_Winner :: address

datatype dispute_error =
    DsPanic
  | DsChannelMismatch
  | DsZeroSequence
  | DsUnsigned
  | DsChannel channel_error
  | DsBadSigA
  | DsBadSigB
  | DsInProgress
  | DsInitiate channel_error
  | DsNoDispute
  | DsAlreadyResolved
  | DsTimeout
  | DsOldSequence u64 u64
  | DsNotEnded int
  | DsResolve channel_error
  | DsFraudOrder
  | DsNoEvidence

text \<open>The channel manager's errors as errors of the resolver.\<close>

definition wrap :: "('e \<Rightarrow> 'f) \<Rightarrow> ('e, 'a) result \<Rightarrow> ('f, 'a) result" where
  "wrap f r = (case r of Inl e \<Rightarrow> Inl (f e) | Inr x \<Rightarrow> Inr x)"

lemma wrap_Inr [simp]: "wrap f r = Inr x \<longleftrightarrow> r = Inr x" "wrap f (Inr y) = Inr y" "wrap f (Inl e) = Inl (f e)"
  by (auto simp: wrap_def split: sum.splits)

definition hour :: int where
  "hour = 3600 * second"

definition DefaultDisputeConfig :: DisputeConfig where
  "DefaultDisputeConfig =
     \<lparr>dc_ChallengePeriod = 24 * hour, dc_EvidenceExpiry = 30 * 24 * hour, dc_FraudPenaltyMultiplier = 1\<rparr>"

definition NewDisputeResolverWithConfig :: "DisputeConfig option \<Rightarrow> DisputeResolver" where
  "NewDisputeResolverWithConfig cfg =
     (let c = (case cfg of None \<Rightarrow> DefaultDisputeConfig | Some c \<Rightarrow> c)
      in \<lparr>rs_evidenceStore = Map.empty, rs_challengePeriod = dc_ChallengePeriod c,
          rs_evidenceExpiry = dc_EvidenceExpiry c, rs_fraudPenaltyMultiplier = dc_FraudPenaltyMultiplier c\<rparr>)"

definition NewDisputeResolver :: DisputeResolver where
  "NewDisputeResolver = NewDisputeResolverWithConfig (Some DefaultDisputeConfig)"

section \<open>Evidence\<close>

definition serializeEvidence :: "Evidence \<Rightarrow> bytes" where
  "serializeEvidence e =
     hash_bytes (ev_ChannelID e) @ put_u64_be (ev_Sequence e) @ put_u64_be (ev_BalanceA e)
     @ put_u64_be (ev_BalanceB e) @ [of_int (ev_Timestamp e div second - 62135596800)]"

definition check_sig :: "crypto \<Rightarrow> address \<Rightarrow> bytes \<Rightarrow> bytes \<Rightarrow> dispute_error \<Rightarrow> (dispute_error, unit) result" where
  "check_sig C party data sig err =
     (if length sig = 0 then Inr ()
      else case ed25519_Verify C (hash_bytes party) data sig of
        None \<Rightarrow> Inl DsPanic
      | Some ok \<Rightarrow> if ok then Inr () else Inl err)"

definition validateEvidence :: "crypto \<Rightarrow> Manager \<Rightarrow> hash \<Rightarrow> Evidence \<Rightarrow> (dispute_error, unit) result" where
  "validateEvidence C m channelID evidence =
     (if ev_ChannelID evidence \<noteq> channelID then Inl DsChannelMismatch
      else if ev_Sequence evidence = 0 then Inl DsZeroSequence
      else if ev_SigA evidence = [] \<and> ev_SigB evidence = [] then Inl DsUnsigned
      else rbind (wrap DsChannel (GetChannelState m channelID)) (\<lambda>channel.
        let stateData = serializeEvidence evidence in
        rbind (check_sig C (ch_PartyA channel) stateData (ev_SigA evidence) DsBadSigA) (\<lambda>_.
        check_sig C (ch_PartyB channel) stateData (ev_SigB evidence) DsBadSigB)))"

definition evidence_of :: "DisputeResolver \<Rightarrow> hash \<Rightarrow> Evidence list" where
  "evidence_of r i = map_get [] (rs_evidenceStore r) i"

definition add_evidence :: "DisputeResolver \<Rightarrow> hash \<Rightarrow> Evidence \<Rightarrow> DisputeResolver" where
  "add_evidence r i e = r\<lparr>rs_evidenceStore := (rs_evidenceStore r)(i \<mapsto> evidence_of r i @ [e])\<rparr>"

section \<open>The course of a dispute\<close>

text \<open>When a dispute is in progress, \<^verbatim>\<open>InitiateDispute\<close> returns its record next to the error.\<close>

definition InitiateDispute ::
  "crypto \<Rightarrow> int \<Rightarrow> Manager \<Rightarrow> DisputeResolver \<Rightarrow> hash \<Rightarrow> Evidence
   \<Rightarrow> (dispute_error, Manager \<times> DisputeResolver \<times> DisputeRecord) result" where
  "InitiateDispute C now m r channelID evidence =
     rbind (validateEvidence C m channelID evidence) (\<lambda>_.
       if (case GetDispute m channelID of Inl _ \<Rightarrow> False | Inr d \<Rightarrow> \<not> dr_Resolved d) then Inl DsInProgress
       else (let signedState = \<lparr>ss_ChannelID = channelID, ss_Sequence = ev_Sequence evidence,
                   ss_BalanceA = ev_BalanceA evidence, ss_BalanceB = ev_BalanceB evidence,
                   ss_SigA = ev_SigA evidence, ss_SigB = ev_SigB evidence, ss_Timestamp = ev_Timestamp evidence\<rparr> in
         rbind (wrap DsChannel (GetChannelState m channelID)) (\<lambda>channel.
         rbind (wrap DsInitiate (Dispute C now m (ch_ID channel) signedState)) (\<lambda>m'.
         rbind (wrap DsChannel (GetDispute m' channelID)) (\<lambda>dispute.
         Inr (m', add_evidence r channelID evidence, dispute))))))"

definition RespondToDispute ::
  "crypto \<Rightarrow> int \<Rightarrow> Manager \<Rightarrow> DisputeResolver \<Rightarrow> hash \<Rightarrow> Evidence \<Rightarrow> (dispute_error, DisputeResolver) result" where
  "RespondToDispute C now m r channelID response =
     rbind (validateEvidence C m channelID response) (\<lambda>_.
       case GetDispute m channelID of
         Inl _ \<Rightarrow> Inl DsNoDispute
       | Inr dispute \<Rightarrow>
           if dr_Resolved dispute then Inl DsAlreadyResolved
           else if dr_ChallengeEnd dispute < now then Inl DsTimeout
           else if ev_Sequence response \<le> ss_Sequence (dr_ChallengedState dispute)
           then Inl (DsOldSequence (ev_Sequence response) (ss_Sequence (dr_ChallengedState dispute)))
           else Inr (add_evidence r channelID response))"

text \<open>The loop that finds the first evidence with the highest sequence number.\<close>

definition highest_evidence :: "Evidence list \<Rightarrow> Evidence option" where
  "highest_evidence es =
     foldl (\<lambda>best ev. case best of
              None \<Rightarrow> Some ev
            | Some b \<Rightarrow> if ev_Sequence ev > ev_Sequence b then Some ev else Some b) None es"

text \<open>
  \<^verbatim>\<open>FinalizeDispute\<close> writes the balances of the highest evidence into the copy that \<^verbatim>\<open>GetChannelState\<close>
  returned, so these assignments have no effect and only the existence of the channel matters. It reads
  the clock (\<open>now\<close>), and \<^verbatim>\<open>ResolveDispute\<close> reads it again (\<open>now'\<close>).
\<close>

definition FinalizeDispute ::
  "int \<Rightarrow> int \<Rightarrow> Manager \<Rightarrow> DisputeResolver \<Rightarrow> hash \<Rightarrow> (dispute_error, Manager \<times> DisputeResult) result" where
  "FinalizeDispute now now' m r channelID =
     (case GetDispute m channelID of
        Inl _ \<Rightarrow> Inl DsNoDispute
      | Inr dispute \<Rightarrow>
          if dr_Resolved dispute
          then Inr (m, \<lparr>re_Success = True, re_Winner = dr_Winner dispute, re_NewBalance = (0, 0),
                        re_Reason = dr_Resolution dispute\<rparr>)
          else if now < dr_ChallengeEnd dispute then Inl (DsNotEnded (time_Sub (dr_ChallengeEnd dispute) now))
          else (let highest = highest_evidence (evidence_of r channelID) in
            case (case highest of None \<Rightarrow> None
                  | Some ev \<Rightarrow> if ev_Sequence ev > ss_Sequence (dr_ChallengedState dispute) then Some ev else None) of
              Some ev \<Rightarrow>
                rbind (wrap DsChannel (GetChannelState m channelID)) (\<lambda>_.
                rbind (wrap DsResolve (ResolveDispute now' m channelID (ev_Submitter ev))) (\<lambda>m'.
                Inr (m', \<lparr>re_Success = True, re_Winner = ev_Submitter ev,
                          re_NewBalance = (ev_BalanceA ev, ev_BalanceB ev),
                          re_Reason = ''Higher sequence evidence accepted''\<rparr>)))
            | None \<Rightarrow>
                rbind (wrap DsResolve (ResolveDispute now' m channelID (dr_Challenger dispute))) (\<lambda>m'.
                Inr (m', \<lparr>re_Success = True, re_Winner = dr_Challenger dispute, re_NewBalance = (0, 0),
                          re_Reason = ''Challenge successful - no counter-evidence''\<rparr>))))"

definition SubmitFraudProof ::
  "crypto \<Rightarrow> int \<Rightarrow> Manager \<Rightarrow> hash \<Rightarrow> Evidence \<Rightarrow> Evidence \<Rightarrow> (dispute_error, Manager \<times> DisputeResult) result" where
  "SubmitFraudProof C now m channelID invalidState validState =
     (if ev_Sequence invalidState \<ge> ev_Sequence validState then Inl DsFraudOrder
      else if ev_ChannelID invalidState \<noteq> channelID \<or> ev_ChannelID validState \<noteq> channelID then Inl DsChannelMismatch
      else rbind (validateEvidence C m channelID validState) (\<lambda>_.
        rbind (wrap DsChannel (GetChannelState m channelID)) (\<lambda>channel.
        let honestParty = (if ev_SigA validState \<noteq> [] then ch_PartyA channel
                           else if ev_SigB validState \<noteq> [] then ch_PartyB channel else 0) in
        rbind (wrap DsResolve (ResolveDispute now m channelID honestParty)) (\<lambda>m'.
        Inr (m', \<lparr>re_Success = True, re_Winner = honestParty,
                  re_NewBalance = (ev_BalanceA validState, ev_BalanceB validState),
                  re_Reason = ''Fraud proof accepted - penalty applied to dishonest party''\<rparr>)))))"

section \<open>Queries and maintenance\<close>

definition CheckDisputeStatus :: "int \<Rightarrow> Manager \<Rightarrow> DisputeResolver \<Rightarrow> hash \<Rightarrow> (dispute_error, DisputeStatus) result" where
  "CheckDisputeStatus now m r channelID =
     rbind (wrap DsChannel (GetDispute m channelID)) (\<lambda>dispute.
       let remaining = time_Sub (dr_ChallengeEnd dispute) now
       in Inr \<lparr>du_ChannelID = channelID, du_Active = (\<not> dr_Resolved dispute),
               du_Challenger = dr_Challenger dispute,
               du_ChallengedSeq = ss_Sequence (dr_ChallengedState dispute),
               du_ChallengeStart = dr_ChallengeStart dispute, du_ChallengeEnd = dr_ChallengeEnd dispute,
               du_TimeRemaining = (if \<not> dr_Resolved dispute \<and> remaining < 0 then 0 else remaining),
               du_EvidenceCount = length (evidence_of r channelID),
               du_Resolved = dr_Resolved dispute, du_Winner = dr_Winner dispute\<rparr>)"

definition GetEvidence :: "DisputeResolver \<Rightarrow> hash \<Rightarrow> (dispute_error, Evidence list) result" where
  "GetEvidence r channelID =
     (case rs_evidenceStore r channelID of None \<Rightarrow> Inl DsNoEvidence | Some es \<Rightarrow> Inr es)"

definition CleanOldEvidence :: "int \<Rightarrow> hash list \<Rightarrow> DisputeResolver \<Rightarrow> DisputeResolver \<times> nat" where
  "CleanOldEvidence now ks r =
     (let cutoff = now - rs_evidenceExpiry r in
      foldl (\<lambda>(r, cleaned) k.
               case rs_evidenceStore r k of
                 None \<Rightarrow> (r, cleaned)
               | Some es \<Rightarrow>
                   (r\<lparr>rs_evidenceStore := (rs_evidenceStore r)(k \<mapsto> filter (\<lambda>e. cutoff < ev_Timestamp e) es)\<rparr>,
                    cleaned + length (filter (\<lambda>e. \<not> cutoff < ev_Timestamp e) es)))
        (r, 0) ks)"

definition resolver_GetDispute :: "Manager \<Rightarrow> hash \<Rightarrow> (channel_error, DisputeRecord) result" where
  "resolver_GetDispute m channelID = GetDispute m channelID"

definition ChallengePeriodRemaining :: "int \<Rightarrow> Manager \<Rightarrow> hash \<Rightarrow> (dispute_error, int) result" where
  "ChallengePeriodRemaining now m channelID =
     rbind (wrap DsChannel (GetDispute m channelID)) (\<lambda>dispute.
       if dr_Resolved dispute then Inl DsAlreadyResolved
       else (let remaining = time_Sub (dr_ChallengeEnd dispute) now
             in Inr (if remaining < 0 then 0 else remaining)))"

definition IsChannelInDispute :: "int \<Rightarrow> Manager \<Rightarrow> DisputeResolver \<Rightarrow> hash \<Rightarrow> (dispute_error, bool) result" where
  "IsChannelInDispute now m r channelID =
     rbind (CheckDisputeStatus now m r channelID) (\<lambda>status. Inr (du_Active status))"

text \<open>The conversion back to \<^verbatim>\<open>uint64\<close> is defined only below \<open>2 ^ 64\<close> (\<open>None\<close> otherwise).\<close>

definition CalculatePenalty :: "DisputeResolver \<Rightarrow> u64 \<Rightarrow> u64 option" where
  "CalculatePenalty r fraudAmount =
     (let x = float64 (float64_of_u64 fraudAmount * rs_fraudPenaltyMultiplier r)
      in if x < 2 ^ 64 then Some (of_int \<lfloor>x\<rfloor>) else None)"

definition SetPenaltyMultiplier :: "DisputeResolver \<Rightarrow> rat \<Rightarrow> DisputeResolver" where
  "SetPenaltyMultiplier r multiplier =
     (if multiplier < 1 then r\<lparr>rs_fraudPenaltyMultiplier := 1\<rparr> else r\<lparr>rs_fraudPenaltyMultiplier := multiplier\<rparr>)"

definition SignChallengeResponse :: "crypto \<Rightarrow> int \<Rightarrow> hash \<Rightarrow> u64 \<Rightarrow> u64 \<Rightarrow> u64 \<Rightarrow> bytes \<Rightarrow> bytes option" where
  "SignChallengeResponse C now channelID balanceA balanceB sq privateKey =
     ed25519_Sign C privateKey (serializeEvidence
       \<lparr>ev_ChannelID = channelID, ev_Sequence = sq, ev_BalanceA = balanceA, ev_BalanceB = balanceB,
        ev_SigA = [], ev_SigB = [], ev_Timestamp = now, ev_Submitter = 0, ev_BlockNumber = 0\<rparr>)"

definition VerifyChallengeResponse :: "crypto \<Rightarrow> Evidence \<Rightarrow> bytes \<Rightarrow> bytes \<Rightarrow> bool option" where
  "VerifyChallengeResponse C evidence publicKey signature = ed25519_Verify C publicKey (serializeEvidence evidence) signature"

definition ComputeChannelStateHash :: "crypto \<Rightarrow> Channel \<Rightarrow> hash" where
  "ComputeChannelStateHash C ch = computeStateHash C ch"

section \<open>Fraud detection\<close>

record FraudAlert =
  fa_ChannelID :: hash
  fa_AlertType :: string
  fa_Sequence :: u64
  fa_ReportedBy :: address
  fa_Timestamp :: int
  fa_Description :: string

text \<open>The channel of alerts has a buffer of 100; a send into a full buffer blocks (\<open>None\<close>).\<close>

record FraudDetection =
  fd_knownStates :: "hash \<rightharpoonup> (u64 \<rightharpoonup> hash)"
  fd_alertChan :: "FraudAlert list"

definition NewFraudDetection :: FraudDetection where
  "NewFraudDetection = \<lparr>fd_knownStates = Map.empty, fd_alertChan = []\<rparr>"

definition GetKnownStates :: "FraudDetection \<Rightarrow> hash \<Rightarrow> (u64 \<rightharpoonup> hash)" where
  "GetKnownStates fd channelID = map_get Map.empty (fd_knownStates fd) channelID"

definition MonitorChannel :: "FraudDetection \<Rightarrow> hash \<Rightarrow> FraudDetection" where
  "MonitorChannel fd channelID =
     (if fd_knownStates fd channelID = None
      then fd\<lparr>fd_knownStates := (fd_knownStates fd)(channelID \<mapsto> Map.empty)\<rparr> else fd)"

definition RecordState :: "FraudDetection \<Rightarrow> hash \<Rightarrow> u64 \<Rightarrow> hash \<Rightarrow> FraudDetection" where
  "RecordState fd channelID sq stateHash =
     fd\<lparr>fd_knownStates := (fd_knownStates fd)(channelID \<mapsto> (GetKnownStates fd channelID)(sq \<mapsto> stateHash))\<rparr>"

definition channel_CheckForDoubleSpend :: "int \<Rightarrow> FraudDetection \<Rightarrow> hash \<Rightarrow> u64 \<Rightarrow> hash \<Rightarrow> FraudAlert option" where
  "channel_CheckForDoubleSpend now fd channelID sq stateHash =
     (case GetKnownStates fd channelID sq of
        None \<Rightarrow> None
      | Some existingHash \<Rightarrow>
          if existingHash \<noteq> stateHash
          then Some \<lparr>fa_ChannelID = channelID, fa_AlertType = ''double_spend'', fa_Sequence = sq, fa_ReportedBy = 0,
                     fa_Timestamp = now,
                     fa_Description = ''double spend detected: sequence '' @ dec_string (unat sq)
                       @ '' has conflicting state hashes''\<rparr>
          else None)"

definition StopMonitoring :: "FraudDetection \<Rightarrow> hash \<Rightarrow> FraudDetection" where
  "StopMonitoring fd channelID = fd\<lparr>fd_knownStates := (fd_knownStates fd)(channelID := None)\<rparr>"

definition ReportFraud :: "FraudDetection \<Rightarrow> FraudAlert \<Rightarrow> FraudDetection option" where
  "ReportFraud fd alert =
     (if length (fd_alertChan fd) < 100 then Some (fd\<lparr>fd_alertChan := fd_alertChan fd @ [alert]\<rparr>) else None)"

definition GetAlertChannel :: "FraudDetection \<Rightarrow> FraudAlert list" where
  "GetAlertChannel fd = fd_alertChan fd"

end
