(* ===== verification/Dispute_Runs.thy ===== *)
theory Dispute_Runs
  imports Dispute_Resolver
begin

text \<open>
  How a dispute ends: the choice of the highest evidence, what a resolution does to the balances, and
  what one party alone, or anybody who can hand in evidence, can make of it.
\<close>

section \<open>Evidence and resolution\<close>

lemma highest_evidence_Nil [simp]: "highest_evidence [] = None"
  by (simp add: highest_evidence_def)

lemma highest_evidence_snoc [simp]:
  "highest_evidence (es @ [e]) = (case highest_evidence es of
     None \<Rightarrow> Some e | Some b \<Rightarrow> if ev_Sequence e > ev_Sequence b then Some e else Some b)"
  by (simp add: highest_evidence_def)

lemma highest_evidence_max:
  "highest_evidence es = Some e \<Longrightarrow> e \<in> set es \<and> (\<forall>x \<in> set es. ev_Sequence x \<le> ev_Sequence e)"
proof (induction es arbitrary: e rule: rev_induct)
  case (snoc x es)
  show ?case
  proof (cases "highest_evidence es")
    case None
    then have "es = []"
      by (cases es rule: rev_cases) (auto split: option.splits if_splits)
    with snoc.prems show ?thesis by (simp add: highest_evidence_def)
  next
    case (Some b)
    with snoc show ?thesis by (fastforce split: if_splits)
  qed
qed simp

lemma highest_new:
  "\<forall>x \<in> set es. ev_Sequence x < ev_Sequence e \<Longrightarrow> highest_evidence (es @ [e]) = Some e"
  by (auto split: option.splits dest: highest_evidence_max)

lemma GetDispute_Inr [simp]: "GetDispute m i = Inr d \<longleftrightarrow> ma_disputes m i = Some d"
  by (auto simp: GetDispute_def split: option.splits)

lemma GetChannelState_Inr [simp]: "GetChannelState m i = Inr ch \<longleftrightarrow> ma_channels m i = Some ch"
  by (auto simp: GetChannelState_def split: option.splits)

lemma evidence_of_add [simp]: "evidence_of (add_evidence r i e) i = evidence_of r i @ [e]"
  by (simp add: add_evidence_def evidence_of_def map_get_def)

text \<open>The whole of a channel for one of its parties.\<close>

definition takes_all :: "address \<Rightarrow> Channel \<Rightarrow> Channel \<Rightarrow> bool" where
  "takes_all p ch ch' \<longleftrightarrow>
     (if p = ch_PartyA ch
      then ch_BalanceA ch' = ch_BalanceA ch + ch_BalanceB ch \<and> ch_BalanceB ch' = 0
      else p = ch_PartyB ch \<and> ch_BalanceB ch' = ch_BalanceB ch + ch_BalanceA ch \<and> ch_BalanceA ch' = 0)"

definition closed_for :: "Manager \<Rightarrow> hash \<Rightarrow> address \<Rightarrow> Channel \<Rightarrow> bool" where
  "closed_for m i p ch \<longleftrightarrow> GetChannelStatus m i = Inr StateClosed
     \<and> (\<exists>ch'. ma_channels m i = Some ch' \<and> takes_all p ch ch')
     \<and> (\<exists>d. ma_disputes m i = Some d \<and> dr_Resolved d \<and> dr_Winner d = p)"

lemma ResolveDispute_iff:
  assumes "ma_disputes m i = Some d" "\<not> dr_Resolved d" "ma_channels m i = Some ch" "ma_states m i = Some s"
  shows "(\<exists>m'. ResolveDispute now m i p = Inr m') \<longleftrightarrow>
    dr_ChallengeEnd d \<le> now \<and> (p = ch_PartyA ch \<or> p = ch_PartyB ch)"
  using assms by (auto simp: ResolveDispute_def lookup_channel_def Let_def)

lemma ResolveDispute_ready:
  assumes "ResolveDispute now m i p = Inr m'"
  obtains d ch s where "ma_disputes m i = Some d" "\<not> dr_Resolved d" "ma_channels m i = Some ch" "ma_states m i = Some s"
  using assms by (auto simp: ResolveDispute_def rbind_Inr_iff split: option.splits if_splits)

lemma ResolveDispute_closed_for:
  assumes run: "ResolveDispute now m i p = Inr m'" and ch: "ma_channels m i = Some ch"
  shows "closed_for m' i p ch"
proof -
  obtain d s where *: "ma_disputes m i = Some d" "\<not> dr_Resolved d" "ma_states m i = Some s"
    using run by (rule ResolveDispute_ready)
  then have "dr_ChallengeEnd d \<le> now" "p = ch_PartyA ch \<or> p = ch_PartyB ch"
    using ResolveDispute_iff [OF *(1,2) ch *(3), of now p] run by auto
  then show ?thesis
    using run * ch
    by (cases "p = ch_PartyA ch")
      (auto simp: ResolveDispute_def lookup_channel_def Let_def closed_for_def takes_all_def GetChannelStatus_def)
qed

lemma ResolveDispute_stranger:
  assumes "ma_channels m i = Some ch" "p \<noteq> ch_PartyA ch" "p \<noteq> ch_PartyB ch"
  shows "ResolveDispute now m i p \<noteq> Inr m'"
proof
  assume run: "ResolveDispute now m i p = Inr m'"
  then obtain d s where "ma_disputes m i = Some d" "\<not> dr_Resolved d" "ma_states m i = Some s"
    by (rule ResolveDispute_ready)
  then show False
    using ResolveDispute_iff [of m i d ch s now p] run assms by auto
qed

section \<open>Finalizing\<close>

text \<open>The address \<^verbatim>\<open>FinalizeDispute\<close> hands to the manager.\<close>

definition finalize_winner :: "DisputeResolver \<Rightarrow> hash \<Rightarrow> DisputeRecord \<Rightarrow> address" where
  "finalize_winner r i d =
     (case highest_evidence (evidence_of r i) of
        None \<Rightarrow> dr_Challenger d
      | Some ev \<Rightarrow> if ss_Sequence (dr_ChallengedState d) < ev_Sequence ev then ev_Submitter ev else dr_Challenger d)"

lemma finalize_winner_new:
  assumes "\<forall>x \<in> set (evidence_of r i). ev_Sequence x < ev_Sequence e"
    and "ss_Sequence (dr_ChallengedState d) < ev_Sequence e"
  shows "finalize_winner (add_evidence r i e) i d = ev_Submitter e"
  using assms(2) highest_new [OF assms(1)] by (simp add: finalize_winner_def del: highest_evidence_snoc)

lemma FinalizeDispute_open:
  assumes "ma_disputes m i = Some d" "\<not> dr_Resolved d" "ma_channels m i = Some ch"
  shows "FinalizeDispute now now' m r i = Inr (m', res) \<longleftrightarrow>
    dr_ChallengeEnd d \<le> now \<and> ResolveDispute now' m i (finalize_winner r i d) = Inr m'
    \<and> re_Success res \<and> re_Winner res = finalize_winner r i d
    \<and> res = (case highest_evidence (evidence_of r i) of
         Some ev \<Rightarrow> if ss_Sequence (dr_ChallengedState d) < ev_Sequence ev
           then \<lparr>re_Success = True, re_Winner = ev_Submitter ev, re_NewBalance = (ev_BalanceA ev, ev_BalanceB ev),
                 re_Reason = ''Higher sequence evidence accepted''\<rparr>
           else \<lparr>re_Success = True, re_Winner = dr_Challenger d, re_NewBalance = (0, 0),
                 re_Reason = ''Challenge successful - no counter-evidence''\<rparr>
       | None \<Rightarrow> \<lparr>re_Success = True, re_Winner = dr_Challenger d, re_NewBalance = (0, 0),
                 re_Reason = ''Challenge successful - no counter-evidence''\<rparr>)"
  using assms
  by (cases "highest_evidence (evidence_of r i)")
    (auto simp: FinalizeDispute_def finalize_winner_def rbind_Inr_iff GetDispute_def GetChannelState_def)

lemma highest_evidence_None [simp]: "highest_evidence es = None \<longleftrightarrow> es = []"
  by (cases es rule: rev_cases) (auto split: option.splits if_splits)

text \<open>The best evidence is the first of those with the greatest sequence number.\<close>

definition first_best :: "Evidence list \<Rightarrow> Evidence \<Rightarrow> bool" where
  "first_best es e \<longleftrightarrow> (\<exists>before after. es = before @ e # after
     \<and> (\<forall>x \<in> set before. ev_Sequence x < ev_Sequence e) \<and> (\<forall>x \<in> set after. ev_Sequence x \<le> ev_Sequence e))"

lemma highest_evidence_first_best: "highest_evidence es = Some e \<Longrightarrow> first_best es e"
proof (induction es arbitrary: e rule: rev_induct)
  case (snoc x es)
  show ?case
  proof (cases "highest_evidence es = Some e")
    case True
    with snoc.prems have x: "ev_Sequence x \<le> ev_Sequence e"
      by (auto split: if_splits)
    obtain before after where "es = before @ e # after" "\<forall>y \<in> set before. ev_Sequence y < ev_Sequence e"
      "\<forall>y \<in> set after. ev_Sequence y \<le> ev_Sequence e"
      using snoc.IH [OF True] unfolding first_best_def by blast
    with x have "es @ [x] = before @ e # (after @ [x]) \<and> (\<forall>y \<in> set before. ev_Sequence y < ev_Sequence e)
        \<and> (\<forall>y \<in> set (after @ [x]). ev_Sequence y \<le> ev_Sequence e)"
      by simp
    then show ?thesis
      unfolding first_best_def by blast
  next
    case False
    with snoc.prems have x: "x = e" and b: "case highest_evidence es of None \<Rightarrow> True | Some b \<Rightarrow> ev_Sequence b < ev_Sequence e"
      by (auto split: option.splits if_splits)
    have "\<forall>y \<in> set es. ev_Sequence y < ev_Sequence e"
      using b highest_evidence_max [of es] by (auto split: option.splits intro: le_less_trans)
    then show ?thesis
      unfolding first_best_def x by (intro exI [of _ es] exI [of _ "[]"]) simp
  qed
qed simp

text \<open>C37. A dispute that is finalized gives everything to one party. The deadline has passed, the channel is closed and
  the dispute resolved for the winner, who holds the whole channel total while the other party holds nothing. If
  some evidence is newer than the challenged state, the winner is whoever submitted the first of the evidence with
  the greatest sequence number, and the result reports the balances of that evidence, which are not the balances
  the channel is closed with; otherwise the challenger wins, and the result reports balances of zero.\<close>

theorem finalize_takes_all:
  assumes "FinalizeDispute now now' m r i = Inr (m', res)" and "ma_disputes m i = Some d" and "\<not> dr_Resolved d"
    and "ma_channels m i = Some ch"
  shows "dr_ChallengeEnd d \<le> now \<and> closed_for m' i (re_Winner res) ch
    \<and> (if \<exists>e \<in> set (evidence_of r i). ss_Sequence (dr_ChallengedState d) < ev_Sequence e
       then \<exists>before e after. evidence_of r i = before @ e # after
         \<and> (\<forall>x \<in> set before. ev_Sequence x < ev_Sequence e) \<and> (\<forall>x \<in> set after. ev_Sequence x \<le> ev_Sequence e)
         \<and> re_Winner res = ev_Submitter e \<and> re_NewBalance res = (ev_BalanceA e, ev_BalanceB e)
       else re_Winner res = dr_Challenger d \<and> re_NewBalance res = (0, 0))"
proof -
  let ?es = "evidence_of r i" and ?n = "ss_Sequence (dr_ChallengedState d)"
  have *: "dr_ChallengeEnd d \<le> now" "re_Winner res = finalize_winner r i d"
    "ResolveDispute now' m i (finalize_winner r i d) = Inr m'"
    and res: "re_NewBalance res = (case highest_evidence ?es of
       Some ev \<Rightarrow> if ?n < ev_Sequence ev then (ev_BalanceA ev, ev_BalanceB ev) else (0, 0) | None \<Rightarrow> (0, 0))"
    using assms(1) unfolding FinalizeDispute_open [OF assms(2-4)] by (auto split: option.split)
  have closed: "closed_for m' i (re_Winner res) ch"
    using ResolveDispute_closed_for [OF *(3) assms(4)] *(2) by simp
  show ?thesis
  proof (cases "\<exists>e \<in> set ?es. ?n < ev_Sequence e")
    case True
    then have "?es \<noteq> []" by auto
    then obtain e where e: "highest_evidence ?es = Some e"
      by (metis highest_evidence_None not_None_eq)
    with True have newer: "?n < ev_Sequence e"
      using highest_evidence_max [OF e] by (meson less_le_trans)
    with e have "re_Winner res = ev_Submitter e \<and> re_NewBalance res = (ev_BalanceA e, ev_BalanceB e)"
      by (simp add: *(2) res finalize_winner_def)
    with True *(1) closed highest_evidence_first_best [OF e] show ?thesis
      unfolding first_best_def by auto
  next
    case False
    then have "re_Winner res = dr_Challenger d \<and> re_NewBalance res = (0, 0)"
      unfolding *(2) res finalize_winner_def by (auto split: option.split dest: highest_evidence_max)
    with False *(1) closed show ?thesis by simp
  qed
qed

lemma FinalizeDispute_succeeds:
  assumes "ma_disputes m i = Some d" "\<not> dr_Resolved d" "ma_channels m i = Some ch" "ma_states m i = Some s"
    and "dr_ChallengeEnd d \<le> now" "dr_ChallengeEnd d \<le> now'"
    and "finalize_winner r i d = ch_PartyA ch \<or> finalize_winner r i d = ch_PartyB ch"
  shows "\<exists>m' res. FinalizeDispute now now' m r i = Inr (m', res)"
proof -
  obtain m' where "ResolveDispute now' m i (finalize_winner r i d) = Inr m'"
    using ResolveDispute_iff [OF assms(1-4)] assms(6,7) by blast
  then show ?thesis
    using assms(5) unfolding FinalizeDispute_open [OF assms(1-3)]
    by (auto simp: finalize_winner_def split: option.splits)
qed

section \<open>Evidence of one party\<close>

definition own_evidence :: "crypto \<Rightarrow> bytes \<Rightarrow> hash \<Rightarrow> u64 \<Rightarrow> address \<Rightarrow> Evidence" where
  "own_evidence C priv i n p =
     (let e = \<lparr>ev_ChannelID = i, ev_Sequence = n, ev_BalanceA = 0, ev_BalanceB = 0, ev_SigA = [], ev_SigB = [],
               ev_Timestamp = 0, ev_Submitter = p, ev_BlockNumber = 0\<rparr>
      in e\<lparr>ev_SigA := ed_sign C priv (serializeEvidence e)\<rparr>)"

lemma serializeEvidence_SigA [simp]: "serializeEvidence (e\<lparr>ev_SigA := s\<rparr>) = serializeEvidence e"
  by (simp add: serializeEvidence_def)

lemma own_evidence_valid:
  assumes "key_pair C priv" and "ed25519_Public priv = hash_bytes (ch_PartyA ch)"
    and "ma_channels m i = Some ch" and "n \<noteq> 0"
  shows "validateEvidence C m i (own_evidence C priv i n p) = Inr ()"
  using key_pair_verifies [OF assms(1)] assms(2-4)
  by (simp add: validateEvidence_def own_evidence_def check_sig_def GetChannelState_def serializeEvidence_def Let_def)

lemma own_evidence_sel [simp]:
  "ev_Sequence (own_evidence C priv i n p) = n" "ev_Submitter (own_evidence C priv i n p) = p"
  "ev_SigB (own_evidence C priv i n p) = []"
  by (simp_all add: own_evidence_def Let_def)

text \<open>One signature wins a dispute: before the deadline the first party answers with a state that only it has signed,
  with any sequence number above the evidence so far; the answer is accepted, and after the deadline
  \<^verbatim>\<open>FinalizeDispute\<close> succeeds and gives it the whole channel. The other party has signed nothing.\<close>

theorem self_signed_evidence_wins:
  assumes "ma_disputes m i = Some d" "\<not> dr_Resolved d" "ma_channels m i = Some ch" "ma_states m i = Some s"
    and "key_pair C priv" "ed25519_Public priv = hash_bytes (ch_PartyA ch)"
    and "now \<le> dr_ChallengeEnd d" "dr_ChallengeEnd d \<le> later"
    and "ss_Sequence (dr_ChallengedState d) < n" "\<forall>e \<in> set (evidence_of r i). ev_Sequence e < n"
  shows "\<exists>ev r' m' res. ev_SigB ev = [] \<and> RespondToDispute C now m r i ev = Inr r'
    \<and> FinalizeDispute later later m r' i = Inr (m', res) \<and> closed_for m' i (ch_PartyA ch) ch"
proof -
  let ?ev = "own_evidence C priv i n (ch_PartyA ch)" and ?r = "add_evidence r i (own_evidence C priv i n (ch_PartyA ch))"
  have "n \<noteq> 0" using assms(9) by auto
  then have respond: "RespondToDispute C now m r i ?ev = Inr ?r"
    using assms(1,2,7,9) own_evidence_valid [OF assms(5,6,3)]
    by (simp add: RespondToDispute_def GetDispute_def not_less not_le)
  have winner: "finalize_winner ?r i d = ch_PartyA ch"
    using assms(9,10) by (simp add: finalize_winner_new)
  then obtain m' res where run: "FinalizeDispute later later m ?r i = Inr (m', res)"
    using FinalizeDispute_succeeds [OF assms(1-4,8,8), of ?r] by auto
  then have "closed_for m' i (ch_PartyA ch) ch"
    using FinalizeDispute_open [OF assms(1-3)] ResolveDispute_closed_for [OF _ assms(3)] winner by metis
  then show ?thesis
    using respond run by (metis own_evidence_sel(3))
qed

text \<open>Anyone's address can block a dispute: nothing checks who submits evidence, so an accepted answer that names a
  stranger as its submitter makes every later \<^verbatim>\<open>FinalizeDispute\<close> of the dispute fail, at any time, and answers are
  no longer accepted after the deadline to replace it.\<close>

theorem foreign_submitter_blocks:
  assumes "RespondToDispute C now m r i ev = Inr r'" and "ma_channels m i = Some ch"
    and "ev_Submitter ev \<noteq> ch_PartyA ch" "ev_Submitter ev \<noteq> ch_PartyB ch"
    and "\<forall>e \<in> set (evidence_of r i). ev_Sequence e < ev_Sequence ev"
  shows "FinalizeDispute t t' m r' i \<noteq> Inr (m', res)
    \<and> (\<exists>d. ma_disputes m i = Some d \<and> (\<forall>t > dr_ChallengeEnd d. \<forall>ev' r''. RespondToDispute C t m r' i ev' \<noteq> Inr r''))"
proof -
  obtain d where d: "ma_disputes m i = Some d" "\<not> dr_Resolved d" "ss_Sequence (dr_ChallengedState d) < ev_Sequence ev"
    and r': "r' = add_evidence r i ev"
    using assms(1) by (auto simp: RespondToDispute_def rbind_Inr_iff GetDispute_def split: option.splits if_splits)
  then have "finalize_winner r' i d = ev_Submitter ev"
    using assms(5) by (simp add: finalize_winner_new)
  then have "FinalizeDispute t t' m r' i \<noteq> Inr (m', res)"
    using ResolveDispute_stranger [OF assms(2-4)] FinalizeDispute_open [OF d(1,2) assms(2)] by simp
  moreover have "\<forall>t > dr_ChallengeEnd d. \<forall>ev' r''. RespondToDispute C t m r' i ev' \<noteq> Inr r''"
    using d by (auto simp: RespondToDispute_def rbind_Inr_iff GetDispute_def)
  ultimately show ?thesis using d(1) by blast
qed

section \<open>A concrete dispute\<close>

definition demo_key :: bytes where
  "demo_key = replicate 32 0 @ hash_bytes 1"

lemma demo_key_pair: "key_pair demo_crypto demo_key" "ed25519_Public demo_key = hash_bytes 1"
  by (simp_all add: key_pair_def demo_key_def demo_crypto_def sample_crypto_def ed25519_Public_def)

lemma demo_dispute:
  "\<exists>d. ma_disputes demo_disputed 5 = Some d \<and> \<not> dr_Resolved d \<and> dr_ChallengeEnd d = 10
     \<and> ss_Sequence (dr_ChallengedState d) = 1"
  "ma_channels demo_disputed 5 = Some demo_channel" "\<exists>s. ma_states demo_disputed 5 = Some s"
  "ch_PartyA demo_channel = 1" "ch_PartyB demo_channel = 2"
  "evidence_of NewDisputeResolver 5 = []"
  by (simp_all add: demo_disputed_def demo_open_def demo_state_def demo_channel_def evidence_of_def map_get_def
      NewDisputeResolver_def NewDisputeResolverWithConfig_def DefaultDisputeConfig_def Let_def)

theorem self_signed_evidence_wins_witness:
  "\<exists>ev r' m' res. ev_SigB ev = [] \<and> RespondToDispute demo_crypto 3 demo_disputed NewDisputeResolver 5 ev = Inr r'
    \<and> FinalizeDispute 20 20 demo_disputed r' 5 = Inr (m', res) \<and> closed_for m' 5 1 demo_channel"
proof -
  obtain d s where d: "ma_disputes demo_disputed 5 = Some d" "\<not> dr_Resolved d" "dr_ChallengeEnd d = 10"
    "ss_Sequence (dr_ChallengedState d) = 1" and s: "ma_states demo_disputed 5 = Some s"
    using demo_dispute(1,3) by blast
  show ?thesis
    using self_signed_evidence_wins [OF d(1,2) demo_dispute(2) s demo_key_pair(1), of 3 20 2 NewDisputeResolver]
      d(3,4) demo_key_pair(2) demo_dispute(4,6) by simp
qed

theorem finalize_takes_all_witness:
  "\<exists>r m' res. FinalizeDispute 20 20 demo_disputed r 5 = Inr (m', res) \<and> re_Winner res = 1
     \<and> closed_for m' 5 1 demo_channel \<and> re_NewBalance res = (0, 0) \<and> map ev_Sequence (evidence_of r 5) = [2, 3]"
proof -
  obtain d s where d: "ma_disputes demo_disputed 5 = Some d" "\<not> dr_Resolved d" "dr_ChallengeEnd d = 10"
    "ss_Sequence (dr_ChallengedState d) = 1" and s: "ma_states demo_disputed 5 = Some s"
    using demo_dispute(1,3) by blast
  let ?old = "own_evidence demo_crypto demo_key 5 2 2" and ?new = "own_evidence demo_crypto demo_key 5 3 1"
  let ?r = "add_evidence (add_evidence NewDisputeResolver 5 ?old) 5 ?new"
  have es: "evidence_of ?r 5 = [?old, ?new]"
    using demo_dispute(6) by simp
  have w: "finalize_winner ?r 5 d = 1"
    using d(4) by (subst finalize_winner_new) (simp_all add: demo_dispute(6))
  then obtain m' res where run: "FinalizeDispute 20 20 demo_disputed ?r 5 = Inr (m', res)"
    using FinalizeDispute_succeeds [OF d(1,2) demo_dispute(2) s, of 20 20 ?r] d(3) demo_dispute(4) by auto
  have newer: "\<exists>e \<in> set (evidence_of ?r 5). ss_Sequence (dr_ChallengedState d) < ev_Sequence e"
    unfolding es by (simp add: d(4))
  from finalize_takes_all [OF run d(1,2) demo_dispute(2)] newer
  obtain before e after where e: "evidence_of ?r 5 = before @ e # after" "\<forall>x \<in> set after. ev_Sequence x \<le> ev_Sequence e"
    "re_Winner res = ev_Submitter e" "re_NewBalance res = (ev_BalanceA e, ev_BalanceB e)"
    and closed: "closed_for m' 5 (re_Winner res) demo_channel"
    by auto
  then have "e = ?new"
    unfolding es by (auto simp: Cons_eq_append_conv)
  with e(3,4) have "re_Winner res = 1" "re_NewBalance res = (0, 0)"
    by (simp_all add: own_evidence_def Let_def)
  moreover have "map ev_Sequence (evidence_of ?r 5) = [2, 3]"
    unfolding es by simp
  ultimately show ?thesis
    using run closed by metis
qed

theorem foreign_submitter_blocks_witness:
  "\<exists>ev r'. RespondToDispute demo_crypto 3 demo_disputed NewDisputeResolver 5 ev = Inr r'
    \<and> (\<forall>m' res. FinalizeDispute 20 20 demo_disputed r' 5 \<noteq> Inr (m', res))"
proof -
  obtain d where d: "ma_disputes demo_disputed 5 = Some d" "\<not> dr_Resolved d" "dr_ChallengeEnd d = 10"
    "ss_Sequence (dr_ChallengedState d) = 1"
    using demo_dispute(1) by blast
  let ?ev = "own_evidence demo_crypto demo_key 5 2 9"
  have "validateEvidence demo_crypto demo_disputed 5 ?ev = Inr ()"
    using own_evidence_valid [OF demo_key_pair(1) _ demo_dispute(2)] demo_key_pair(2) demo_dispute(4) by simp
  then have respond: "RespondToDispute demo_crypto 3 demo_disputed NewDisputeResolver 5 ?ev
      = Inr (add_evidence NewDisputeResolver 5 ?ev)"
    using d by (simp add: RespondToDispute_def GetDispute_def word_le_nat_alt)
  then show ?thesis
    using foreign_submitter_blocks [OF respond demo_dispute(2)] demo_dispute(4-6)
    by (intro exI [of _ ?ev] exI [of _ "add_evidence NewDisputeResolver 5 ?ev"]) simp
qed

end
