(* ===== verification/Fork_Choice.thy ===== *)
theory Fork_Choice
  imports Float64 "HOL-Library.Multiset"
begin

text \<open>
  \<^verbatim>\<open>pkg/sync/fork_choice.go\<close>, with the block of \<^verbatim>\<open>pkg/sync/sync.go\<close>: the choice between competing chains,
  the plan of a reorganization and its execution. The local chain is the interface \<^verbatim>\<open>Blockchain\<close>, a
  parameter. \<^verbatim>\<open>Block.Hash\<close> caches what \<^verbatim>\<open>calculateHash\<close> returns when the field is nil, which the model
  recomputes instead. Fields of a block that no function here reads are left out, and pointers to blocks
  are not nil.
\<close>

section \<open>Blocks\<close>

record Block =
  fb_Height :: u64
  fb_PrevBlockHash :: "bytes option"
  fb_Timestamp :: u64
  fb_TaskID :: string
  fb_FinalResult :: string
  fb_IsValid :: bool
  fb_AgreementRate :: rat
  fb_BlockHash :: "bytes option"
  fb_Nonce :: u64

definition PreviousBlockHash :: "Block \<Rightarrow> bytes" where
  "PreviousBlockHash b = (case fb_PrevBlockHash b of None \<Rightarrow> replicate 32 0 | Some h \<Rightarrow> h)"

text \<open>The verbs of \<^verbatim>\<open>fmt.Sprintf\<close> the hash uses: signed decimals, booleans, and six decimals of a finite \<^verbatim>\<open>float64\<close>.\<close>

definition signed_string :: "int \<Rightarrow> string" where
  "signed_string n = (if n < 0 then ''-'' @ dec_string (nat (- n)) else dec_string (nat n))"

definition bool_string :: "bool \<Rightarrow> string" where
  "bool_string b = (if b then ''true'' else ''false'')"

definition pad6 :: "string \<Rightarrow> string" where
  "pad6 s = replicate (6 - length s) (CHR ''0'') @ s"

definition float_string :: "rat \<Rightarrow> string" where
  "float_string x =
     (let n = nat (round_half_even (\<bar>x\<bar> * 10 ^ 6))
      in (if x < 0 then ''-'' else []) @ dec_string (n div 10 ^ 6) @ ''.'' @ pad6 (dec_string (n mod 10 ^ 6)))"

definition text_bytes :: "string \<Rightarrow> bytes" where
  "text_bytes s = map of_char s"

definition block_calculateHash :: "Block \<Rightarrow> bytes" where
  "block_calculateHash b =
     text_bytes (dec_string (unat (fb_Height b)))
     @ (case fb_PrevBlockHash b of None \<Rightarrow> [] | Some h \<Rightarrow> h)
     @ text_bytes (signed_string (sint (fb_Timestamp b)) @ fb_TaskID b @ fb_FinalResult b
         @ bool_string (fb_IsValid b) @ float_string (fb_AgreementRate b) @ dec_string (unat (fb_Nonce b)))"

definition Hash :: "Block \<Rightarrow> bytes" where
  "Hash b = (case fb_BlockHash b of None \<Rightarrow> block_calculateHash b | Some h \<Rightarrow> h)"

section \<open>The local chain\<close>

text \<open>The queries of the interface; \<open>None\<close> is an error.\<close>

record blockchain =
  bc_GetBlock :: "u64 \<Rightarrow> Block option"
  bc_GetLatestBlock :: "Block option"
  bc_GetBlockCount :: u64

datatype fork_error =
    FkEmptyNewChain
  | FkNoCommonAncestor
  | FkNoPrevious
  | FkEmptyChain
  | FkGenesisHeight
  | FkGenesisPrev
  | FkHeightGap nat
  | FkPrevMismatch nat
  | FkHashMismatch nat
  | FkTimestamp nat
  | FkEmptyCandidate
  | FkInvalidCandidate fork_error
  | FkForkMismatch
  | FkReorg fork_error
  | FkAddBlock

record ForkSelector =
  fs_localChain :: blockchain
  fs_reorgThreshold :: int

definition NewForkSelector :: "blockchain \<Rightarrow> int \<Rightarrow> ForkSelector" where
  "NewForkSelector localChain reorgThreshold =
     \<lparr>fs_localChain = localChain, fs_reorgThreshold = (if reorgThreshold \<le> 0 then 6 else reorgThreshold)\<rparr>"

section \<open>Choosing a chain\<close>

definition timestamp_step :: "Block list \<times> int \<Rightarrow> Block list \<Rightarrow> Block list \<times> int" where
  "timestamp_step best chain =
     (if chain = [] then best
      else let timestamp = sint (fb_Timestamp (last chain))
           in if timestamp > snd best then (chain, timestamp) else best)"

definition selectChainByTimestamp :: "Block list list \<Rightarrow> Block list option" where
  "selectChainByTimestamp competing =
     (if competing = [] then None else Some (fst (foldl timestamp_step (hd competing, 0) competing)))"

text \<open>
  \<^verbatim>\<open>sort.Slice\<close> is not stable: \<open>srt\<close> is any arrangement of the chains by descending length.
  A nil result is \<open>None\<close>.
\<close>

definition sorts_by_length :: "(Block list list \<Rightarrow> Block list list) \<Rightarrow> bool" where
  "sorts_by_length srt \<longleftrightarrow>
     (\<forall>cs. mset (srt cs) = mset cs \<and> sorted_wrt (\<lambda>a b. length b \<le> length a) (srt cs))"

definition SelectChain :: "(Block list list \<Rightarrow> Block list list) \<Rightarrow> ForkSelector \<Rightarrow> Block list list \<Rightarrow> Block list option" where
  "SelectChain srt fs competing =
     (if competing = [] then None
      else if length competing = 1 then Some (hd competing)
      else (let competing = srt competing; longest = competing ! 0; secondLongest = competing ! 1;
                diff = int (length longest) - int (length secondLongest)
            in if diff \<ge> fs_reorgThreshold fs then Some longest else selectChainByTimestamp competing))"

section \<open>Reorganizations\<close>

text \<open>The loop of \<^verbatim>\<open>findSplitPoint\<close>: the index before the first difference, or before the shorter end.\<close>

fun split_loop_from :: "int \<Rightarrow> Block list \<Rightarrow> Block list \<Rightarrow> int" where
  "split_loop_from i (b # bs) (c # cs) = (if Hash b \<noteq> Hash c then i - 1 else split_loop_from (i + 1) bs cs)"
| "split_loop_from i _ _ = i - 1"

definition findSplitPoint :: "Block list \<Rightarrow> Block list \<Rightarrow> int" where
  "findSplitPoint chain1 chain2 = split_loop_from 0 chain1 chain2"

definition HandleReorg :: "Block list \<Rightarrow> Block list \<Rightarrow> (fork_error, Block list \<times> Block list) result" where
  "HandleReorg newChain oldChain =
     (if newChain = [] then Inl FkEmptyNewChain
      else if oldChain = [] then Inr (newChain, [])
      else let splitPoint = findSplitPoint newChain oldChain in
        if splitPoint = -1 then Inl FkNoCommonAncestor
        else Inr (drop (nat (splitPoint + 1)) newChain, drop (nat (splitPoint + 1)) oldChain))"

text \<open>The loop of \<^verbatim>\<open>FindFork\<close> has no bound of its own; \<open>None\<close> is a loop that never ends.\<close>

partial_function (option) FindFork :: "blockchain \<Rightarrow> Block \<Rightarrow> (fork_error, u64) result option" where
  "FindFork bc current =
     (if (case bc_GetBlock bc (fb_Height current) of None \<Rightarrow> False | Some localBlock \<Rightarrow> Hash localBlock = Hash current)
      then Some (Inr (fb_Height current))
      else if fb_Height current = 0 then Some (Inl FkNoCommonAncestor)
      else case bc_GetBlock bc (fb_Height current - 1) of
        None \<Rightarrow> Some (Inl FkNoPrevious)
      | Some prevLocal \<Rightarrow> FindFork bc prevLocal)"

declare FindFork.simps [code]

fun link_loop :: "nat \<Rightarrow> Block \<Rightarrow> Block list \<Rightarrow> (fork_error, unit) result" where
  "link_loop i prev [] = Inr ()"
| "link_loop i prev (cur # bs) =
     (if fb_Height cur \<noteq> fb_Height prev + 1 then Inl (FkHeightGap i)
      else if PreviousBlockHash cur \<noteq> Hash prev then Inl (FkPrevMismatch i)
      else if Hash cur \<noteq> block_calculateHash cur then Inl (FkHashMismatch i)
      else if sint (fb_Timestamp cur) \<le> sint (fb_Timestamp prev) then Inl (FkTimestamp i)
      else link_loop (i + 1) cur bs)"

definition ValidateChain :: "Block list \<Rightarrow> (fork_error, unit) result" where
  "ValidateChain blocks =
     (case blocks of
        [] \<Rightarrow> Inl FkEmptyChain
      | genesis # bs \<Rightarrow>
          if fb_Height genesis \<noteq> 0 then Inl FkGenesisHeight
          else if PreviousBlockHash genesis \<noteq> replicate 32 0 then Inl FkGenesisPrev
          else link_loop 1 genesis bs)"

text \<open>\<^verbatim>\<open>bytes.Compare\<close>.\<close>

fun bytes_Compare :: "bytes \<Rightarrow> bytes \<Rightarrow> int" where
  "bytes_Compare [] [] = 0"
| "bytes_Compare [] (_ # _) = -1"
| "bytes_Compare (_ # _) [] = 1"
| "bytes_Compare (a # as) (b # bs) = (if a < b then -1 else if b < a then 1 else bytes_Compare as bs)"

definition IsBetterChain :: "ForkSelector \<Rightarrow> Block list \<Rightarrow> (fork_error, bool) result option" where
  "IsBetterChain fs candidate =
     (if candidate = [] then Some (Inl FkEmptyCandidate)
      else let bc = fs_localChain fs; currentHeight = bc_GetBlockCount bc;
               candidateHeight = fb_Height (last candidate) in
        case ValidateChain candidate of
          Inl e \<Rightarrow> Some (Inl (FkInvalidCandidate e))
        | Inr _ \<Rightarrow>
            if candidateHeight > currentHeight
            then (case FindFork bc (last candidate) of
                None \<Rightarrow> None
              | Some (Inl e) \<Rightarrow> Some (Inl e)
              | Some (Inr forkHeight) \<Rightarrow>
                  if unat forkHeight < length candidate
                     \<and> (case bc_GetBlock bc forkHeight of
                           None \<Rightarrow> False
                         | Some localBlock \<Rightarrow> Hash (candidate ! unat forkHeight) \<noteq> Hash localBlock)
                  then Some (Inl FkForkMismatch)
                  else Some (Inr True))
            else if candidateHeight = currentHeight
            then Some (Inr (case bc_GetLatestBlock bc of
                   None \<Rightarrow> False
                 | Some latestBlock \<Rightarrow> bytes_Compare (Hash (last candidate)) (Hash latestBlock) > 0))
            else Some (Inr False))"

text \<open>
  The loop \<^verbatim>\<open>h <= currentTip.Height\<close> of \<^verbatim>\<open>GetReorgBlocks\<close> never ends when the tip has the largest height,
  because the counter wraps. The first result, the blocks to add, is always nil.
\<close>

definition GetReorgBlocks :: "blockchain \<Rightarrow> Block \<Rightarrow> (fork_error, Block list) result option" where
  "GetReorgBlocks bc newTip =
     (case FindFork bc newTip of
        None \<Rightarrow> None
      | Some (Inl e) \<Rightarrow> Some (Inl e)
      | Some (Inr forkHeight) \<Rightarrow>
          (case bc_GetLatestBlock bc of
             None \<Rightarrow> Some (Inr [])
           | Some currentTip \<Rightarrow>
               if fb_Height currentTip = -1 then None
               else Some (Inr (List.map_filter (bc_GetBlock bc)
                      (map of_nat [unat (forkHeight + 1)..<unat (fb_Height currentTip) + 1])))))"

section \<open>The reorganization handler\<close>

text \<open>
  The calls \<^verbatim>\<open>ProcessReorg\<close> makes, in order; its callbacks are set when the flags hold. \<open>add\<close> is \<^verbatim>\<open>AddBlock\<close> of
  the local chain, a step on its state or an error. The loop over the blocks to remove has no effect.
\<close>

datatype reorg_event = ReorgStart | ReorgEnd nat nat | ReorgFail fork_error

fun add_blocks :: "('s \<Rightarrow> Block \<Rightarrow> 's option) \<Rightarrow> 's \<Rightarrow> Block list \<Rightarrow> 's \<times> bool" where
  "add_blocks add s [] = (s, True)"
| "add_blocks add s (b # bs) = (case add s b of None \<Rightarrow> (s, False) | Some s' \<Rightarrow> add_blocks add s' bs)"

record ReorgHandler =
  rh_onReorgStart :: bool
  rh_onReorgEnd :: bool
  rh_onReorgFail :: bool

definition NewReorgHandler :: ReorgHandler where
  "NewReorgHandler = \<lparr>rh_onReorgStart = False, rh_onReorgEnd = False, rh_onReorgFail = False\<rparr>"

definition SetOnReorgStart :: "ReorgHandler \<Rightarrow> bool \<Rightarrow> ReorgHandler" where
  "SetOnReorgStart rh f = rh\<lparr>rh_onReorgStart := f\<rparr>"

definition SetOnReorgEnd :: "ReorgHandler \<Rightarrow> bool \<Rightarrow> ReorgHandler" where
  "SetOnReorgEnd rh f = rh\<lparr>rh_onReorgEnd := f\<rparr>"

definition SetOnReorgFail :: "ReorgHandler \<Rightarrow> bool \<Rightarrow> ReorgHandler" where
  "SetOnReorgFail rh f = rh\<lparr>rh_onReorgFail := f\<rparr>"

definition ProcessReorg ::
  "ReorgHandler \<Rightarrow> ('s \<Rightarrow> Block \<Rightarrow> 's option) \<Rightarrow> 's \<Rightarrow> Block list \<Rightarrow> Block list
   \<Rightarrow> (fork_error, unit) result \<times> 's \<times> reorg_event list" where
  "ProcessReorg rh add s newChain oldChain =
     (let start = (if rh_onReorgStart rh then [ReorgStart] else []) in
      case HandleReorg newChain oldChain of
        Inl e \<Rightarrow> (Inl (FkReorg e), s, start @ (if rh_onReorgFail rh then [ReorgFail e] else []))
      | Inr (toAdd, toRemove) \<Rightarrow>
          (case add_blocks add s toAdd of
             (s', False) \<Rightarrow> (Inl FkAddBlock, s', start @ (if rh_onReorgFail rh then [ReorgFail FkAddBlock] else []))
           | (s', True) \<Rightarrow> (Inr (), s', start @ (if rh_onReorgEnd rh then [ReorgEnd (length toAdd) (length toRemove)] else []))))"

section \<open>Chain utilities\<close>

record ChainInfo =
  ci_Height :: u64
  ci_TipHash :: string
  ci_Work :: string
  ci_IsValid :: bool
  ci_ForkDetected :: bool

definition pad16 :: "string \<Rightarrow> string" where
  "pad16 s = replicate (16 - length s) (CHR ''0'') @ s"

fun hex_nat :: "nat \<Rightarrow> string" where
  "hex_nat n = (if n < 16 then [hex_digit n] else hex_nat (n div 16) @ [hex_digit (n mod 16)])"

definition calculateChainWork :: "Block list \<Rightarrow> string" where
  "calculateChainWork blocks = pad16 (hex_nat (unat (foldl (\<lambda>w b. w + (fb_Height b + 1)) 0 blocks)))"

definition GetChainInfo :: "Block list \<Rightarrow> ChainInfo" where
  "GetChainInfo blocks =
     (if blocks = []
      then \<lparr>ci_Height = 0, ci_TipHash = [], ci_Work = [], ci_IsValid = False, ci_ForkDetected = False\<rparr>
      else \<lparr>ci_Height = fb_Height (last blocks), ci_TipHash = hex_string (Hash (last blocks)),
            ci_Work = calculateChainWork blocks, ci_IsValid = True, ci_ForkDetected = False\<rparr>)"

definition CompareChains :: "Block list \<Rightarrow> Block list \<Rightarrow> int" where
  "CompareChains chain1 chain2 =
     (if chain1 = [] \<and> chain2 = [] then 0
      else if chain1 = [] then -1
      else if chain2 = [] then 1
      else if length chain1 > length chain2 then 1
      else if length chain1 < length chain2 then -1
      else bytes_Compare (Hash (last chain1)) (Hash (last chain2)))"

fun ancestor_loop :: "Block option \<Rightarrow> Block list \<Rightarrow> Block list \<Rightarrow> Block option" where
  "ancestor_loop prev (b # bs) (c # cs) = (if Hash b \<noteq> Hash c then prev else ancestor_loop (Some b) bs cs)"
| "ancestor_loop prev _ _ = prev"

definition FindCommonAncestor :: "Block list \<Rightarrow> Block list \<Rightarrow> Block option" where
  "FindCommonAncestor chain1 chain2 = ancestor_loop None chain1 chain2"

end
