(* ===== verification/Fork_Runs.thy ===== *)
theory Fork_Runs
  imports Fork_Choice
begin

text \<open>
  What the fork choice achieves: the plan of a reorganization turns the old chain into the new one, the
  comparison of chains is a total preorder, the search for a fork ends, and the verdict on a candidate is
  the one it should not be: a chain two or more blocks longer is an error.
\<close>

section \<open>Reorganizations\<close>

text \<open>The length of the common prefix of two chains, as far as their hashes tell.\<close>

fun common_length :: "Block list \<Rightarrow> Block list \<Rightarrow> nat" where
  "common_length (b # bs) (c # cs) = (if Hash b = Hash c then Suc (common_length bs cs) else 0)"
| "common_length _ _ = 0"

lemma split_loop_from_eq: "split_loop_from i bs cs = i + int (common_length bs cs) - 1"
  by (induction i bs cs rule: split_loop_from.induct) auto

lemma findSplitPoint_eq: "findSplitPoint bs cs = int (common_length bs cs) - 1"
  by (simp add: findSplitPoint_def split_loop_from_eq)

lemma common_length_le: "common_length bs cs \<le> length bs" "common_length bs cs \<le> length cs"
  by (induction bs cs rule: common_length.induct) auto

lemma common_length_prefix:
  "map Hash (take (common_length bs cs) bs) = map Hash (take (common_length bs cs) cs)"
  by (induction bs cs rule: common_length.induct) auto

lemma common_length_differs:
  "common_length bs cs < length bs \<Longrightarrow> common_length bs cs < length cs \<Longrightarrow>
   Hash (bs ! common_length bs cs) \<noteq> Hash (cs ! common_length bs cs)"
  by (induction bs cs rule: common_length.induct) auto

lemma HandleReorg_eq:
  assumes "new \<noteq> []" "old \<noteq> []"
  shows "HandleReorg new old =
    (if common_length new old = 0 then Inl FkNoCommonAncestor
     else Inr (drop (common_length new old) new, drop (common_length new old) old))"
  using assms by (auto simp: HandleReorg_def findSplitPoint_eq)

lemma reorg_result:
  "map Hash (take (common_length new old) old) @ map Hash (drop (common_length new old) new) = map Hash new"
  by (simp flip: common_length_prefix map_append)

text \<open>The plan of a reorganization is right and minimal: for two non-empty chains \<^verbatim>\<open>HandleReorg\<close> fails exactly when
  their first blocks differ; otherwise the blocks to remove are a suffix of the old chain, removing them and
  adding the blocks to add yields the hashes of the new chain, and no block both to remove and to add could have
  been kept: the first removed and the first added block differ.\<close>

theorem reorg_plan:
  assumes "new \<noteq> []" "old \<noteq> []"
  shows "(HandleReorg new old = Inl FkNoCommonAncestor \<longleftrightarrow> Hash (hd new) \<noteq> Hash (hd old))
    \<and> (\<forall>toAdd toRemove. HandleReorg new old = Inr (toAdd, toRemove) \<longrightarrow>
         (\<exists>kept. old = kept @ toRemove \<and> map Hash (kept @ toAdd) = map Hash new)
         \<and> (toAdd \<noteq> [] \<and> toRemove \<noteq> [] \<longrightarrow> Hash (hd toAdd) \<noteq> Hash (hd toRemove)))"
proof -
  let ?n = "common_length new old"
  have "(?n = 0) = (Hash (hd new) \<noteq> Hash (hd old))"
    using assms by (cases new; cases old) auto
  moreover have "\<exists>kept. old = kept @ drop ?n old \<and> map Hash (kept @ drop ?n new) = map Hash new"
    by (intro exI [of _ "take ?n old"]) (simp add: reorg_result)
  moreover have "Hash (hd (drop ?n new)) \<noteq> Hash (hd (drop ?n old))" if "drop ?n new \<noteq> []" "drop ?n old \<noteq> []"
    using that common_length_differs [of new old] by (simp add: hd_drop_conv_nth)
  ultimately show ?thesis
    by (simp add: HandleReorg_eq [OF assms])
qed

lemma ancestor_loop_eq:
  "ancestor_loop prev bs cs = (if common_length bs cs = 0 then prev else Some (bs ! (common_length bs cs - 1)))"
  by (induction prev bs cs rule: ancestor_loop.induct) (auto simp: nth_Cons')

lemma FindCommonAncestor_eq:
  "FindCommonAncestor bs cs = (if common_length bs cs = 0 then None else Some (bs ! (common_length bs cs - 1)))"
  by (simp add: FindCommonAncestor_def ancestor_loop_eq)

section \<open>Comparing chains\<close>

lemma bytes_Compare_antisym: "bytes_Compare a b = - bytes_Compare b a"
  by (induction a b rule: bytes_Compare.induct) auto

lemma bytes_Compare_range: "bytes_Compare a b \<in> {-1, 0, 1}"
  by (induction a b rule: bytes_Compare.induct) auto

lemma bytes_Compare_eq [simp]: "bytes_Compare a b = 0 \<longleftrightarrow> a = b"
  by (induction a b rule: bytes_Compare.induct) auto

lemma bytes_Compare_trans: "bytes_Compare a b \<ge> 0 \<Longrightarrow> bytes_Compare b c \<ge> 0 \<Longrightarrow> bytes_Compare a c \<ge> 0"
proof (induction a b arbitrary: c rule: bytes_Compare.induct)
  case (4 x xs y ys)
  then show ?case by (cases c) (auto split: if_splits)
next
  case (3 x xs)
  then show ?case by (cases c) auto
qed auto

definition chain_rank :: "Block list \<Rightarrow> nat \<times> bytes" where
  "chain_rank c = (length c, if c = [] then [] else Hash (last c))"

text \<open>\<^verbatim>\<open>CompareChains\<close> is a total preorder: it returns -1, 0 or 1, swapping the chains flips the sign, it is
  transitive, and it is 0 exactly when the chains are equally long and end in blocks with the same hash.\<close>

theorem compare_chains_order:
  "CompareChains a b \<in> {-1, 0, 1} \<and> CompareChains a b = - CompareChains b a
   \<and> (CompareChains a b = 0 \<longleftrightarrow> chain_rank a = chain_rank b)
   \<and> \<not> (CompareChains a b \<ge> 0 \<and> CompareChains b c \<ge> 0 \<and> CompareChains a c < 0)"
proof (intro conjI)
  show "CompareChains a b \<in> {-1, 0, 1}"
    using bytes_Compare_range by (auto simp: CompareChains_def)
  show "CompareChains a b = - CompareChains b a"
    by (auto simp: CompareChains_def intro: bytes_Compare_antisym)
  show "CompareChains a b = 0 \<longleftrightarrow> chain_rank a = chain_rank b"
    by (auto simp: CompareChains_def chain_rank_def)
  show "\<not> (CompareChains a b \<ge> 0 \<and> CompareChains b c \<ge> 0 \<and> CompareChains a c < 0)"
    using bytes_Compare_trans [of "Hash (last a)" "Hash (last b)" "Hash (last c)"]
    by (auto simp: CompareChains_def split: if_splits)
qed

section \<open>Finding a fork\<close>

text \<open>
  What the code relies on of the local chain: it has the blocks of heights \<open>0\<close> to \<open>tip\<close>, each under its own
  height, \<open>tip\<close> is the latest, and the block count is the height of the tip or one more.
\<close>

definition chain_view :: "blockchain \<Rightarrow> u64 \<Rightarrow> bool" where
  "chain_view bc tip \<longleftrightarrow>
     (\<forall>h. bc_GetBlock bc h \<noteq> None \<longleftrightarrow> h \<le> tip)
     \<and> (\<forall>h b. bc_GetBlock bc h = Some b \<longrightarrow> fb_Height b = h)
     \<and> bc_GetLatestBlock bc = bc_GetBlock bc tip \<and> tip \<noteq> -1
     \<and> (bc_GetBlockCount bc = tip \<or> bc_GetBlockCount bc = tip + 1)"

definition has_block :: "blockchain \<Rightarrow> Block \<Rightarrow> bool" where
  "has_block bc b \<longleftrightarrow> (\<exists>l. bc_GetBlock bc (fb_Height b) = Some l \<and> Hash l = Hash b)"

lemma has_block_case:
  "(case bc_GetBlock bc (fb_Height b) of None \<Rightarrow> False | Some l \<Rightarrow> Hash l = Hash b) \<longleftrightarrow> has_block bc b"
  by (auto simp: has_block_def split: option.splits)

lemma FindFork_unfold:
  "FindFork bc b = (if has_block bc b then Some (Inr (fb_Height b))
     else if fb_Height b = 0 then Some (Inl FkNoCommonAncestor)
     else case bc_GetBlock bc (fb_Height b - 1) of None \<Rightarrow> Some (Inl FkNoPrevious) | Some p \<Rightarrow> FindFork bc p)"
  by (subst FindFork.simps) (simp only: has_block_case)

lemma FindFork_result:
  assumes "\<forall>h l. bc_GetBlock bc h = Some l \<longrightarrow> fb_Height l = h"
  shows "FindFork bc b = Some
    (if has_block bc b then Inr (fb_Height b)
     else if fb_Height b = 0 then Inl FkNoCommonAncestor
     else if bc_GetBlock bc (fb_Height b - 1) = None then Inl FkNoPrevious
     else Inr (fb_Height b - 1))"
proof (cases "bc_GetBlock bc (fb_Height b - 1)")
  case (Some p)
  then have "fb_Height p = fb_Height b - 1" using assms by blast
  with Some have "FindFork bc p = Some (Inr (fb_Height b - 1))"
    by (subst FindFork_unfold) (simp add: has_block_def)
  with Some show ?thesis by (subst FindFork_unfold) simp
qed (subst FindFork_unfold, simp)

text \<open>C21. The search for a fork ends, after at most one step back: it reports the height of the new block if the local
  chain has that very block, and otherwise the height below it if the local chain has any block there, whatever
  the parent of the new block is, because the search goes on from the local block.\<close>

theorem find_fork_terminates:
  assumes "\<forall>h l. bc_GetBlock bc h = Some l \<longrightarrow> fb_Height l = h"
  shows "FindFork bc b = Some
    (if has_block bc b then Inr (fb_Height b)
     else if fb_Height b = 0 then Inl FkNoCommonAncestor
     else if bc_GetBlock bc (fb_Height b - 1) = None then Inl FkNoPrevious
     else Inr (fb_Height b - 1))"
  using assms by (rule FindFork_result)

section \<open>Better chains\<close>

lemma link_loop_heights:
  "link_loop i prev bs = Inr () \<Longrightarrow> k < length bs \<Longrightarrow> fb_Height (bs ! k) = fb_Height prev + of_nat (Suc k)"
proof (induction bs arbitrary: i prev k)
  case (Cons b bs)
  then show ?case by (cases k) (auto split: if_splits simp: algebra_simps)
qed simp

lemma ValidateChain_heights:
  assumes "ValidateChain bs = Inr ()" and "k < length bs"
  shows "fb_Height (bs ! k) = of_nat k"
  using assms link_loop_heights [of 1 "hd bs" "tl bs" "k - 1"]
  by (cases bs; cases k) (auto simp: ValidateChain_def split: if_splits)

lemma valid_last_height:
  assumes "ValidateChain bs = Inr ()"
  shows "bs \<noteq> []" "fb_Height (last bs) = of_nat (length bs - 1)"
proof -
  show ne: "bs \<noteq> []" using assms by (auto simp: ValidateChain_def)
  then show "fb_Height (last bs) = of_nat (length bs - 1)"
    using ValidateChain_heights [OF assms, of "length bs - 1"] by (simp add: last_conv_nth)
qed

text \<open>C20. The verdict of \<^verbatim>\<open>IsBetterChain\<close> on a valid candidate, against a local chain that ends in the block \<open>l\<close> at
  height \<open>tip\<close>, is exactly this. Two or more blocks above the local tip it is always an error, wherever the
  candidate forks off and even when it extends the local chain. One block above, it depends on what the local chain
  calls its block count: if that is the height of the tip, the candidate is better when it extends the local tip,
  and an error otherwise; if it is one more, the candidate is better when the hash of its last block is the greater
  one, whether it extends the local tip or forks off. At the height of the tip, it is better only when the count is
  that height and its last hash is the greater one. Below, it never is.\<close>

theorem better_chain_verdict:
  assumes "chain_view bc tip" and "bc_GetBlock bc tip = Some l" and "fs_localChain fs = bc"
    and "ValidateChain candidate = Inr ()" and "length candidate < 2 ^ 64"
  shows "IsBetterChain fs candidate = Some
    (let n = length candidate - 1; greater = bytes_Compare (Hash (last candidate)) (Hash l) > 0 in
     if n > unat tip + 1 then Inl FkNoPrevious
     else if n = unat tip + 1 then
       (if bc_GetBlockCount bc = tip
        then (if Hash (candidate ! unat tip) = Hash l then Inr True else Inl FkForkMismatch) else Inr greater)
     else Inr (n = unat tip \<and> bc_GetBlockCount bc = tip \<and> greater))"
proof -
  let ?H = "fb_Height (last candidate)" and ?n = "length candidate - 1" and ?c = "bc_GetBlockCount bc"
  note view = assms(1) [unfolded chain_view_def]
  have len: "unat ?H = ?n" "candidate \<noteq> []"
    using valid_last_height [OF assms(4)] assms(5) by (simp_all add: unat_of_nat take_bit_nat_eq_self)
  have "1 + tip \<noteq> 0"
    using view by (metis add.commute eq_neg_iff_add_eq_0)
  then have tip1: "unat (tip + 1) = Suc (unat tip)"
    by (simp add: unatSuc add.commute)
  have count: "?c = tip \<or> ?c = tip + 1" "?c = tip \<longleftrightarrow> unat ?c = unat tip"
    and latest: "bc_GetLatestBlock bc = Some l"
    using view assms(2) by (auto simp: word_unat_eq_iff)
  note run = IsBetterChain_def [of fs candidate] Let_def assms(3,4) len(2) latest
  show ?thesis
  proof (cases "?n > unat tip")
    case False
    then have "?H < ?c \<or> ?H = ?c \<and> ?c = tip \<and> ?n = unat tip"
      using count tip1 len(1) by (auto simp: word_less_nat_alt word_unat_eq_iff)
    with False count tip1 len(1) show ?thesis
      by (auto simp: run word_less_nat_alt word_unat_eq_iff)
  next
    case True
    then have H: "?H \<noteq> 0" "unat (?H - 1) = ?n - 1"
      using unat_minus_le [of 1 ?H] len(1) by (auto simp: word_le_nat_alt)
    have none: "bc_GetBlock bc ?H = None"
      using view True len(1) by (metis leD word_less_nat_alt)
    have prev: "bc_GetBlock bc (?H - 1) = None \<longleftrightarrow> unat tip + 1 < ?n"
    proof -
      have "bc_GetBlock bc (?H - 1) = None \<longleftrightarrow> \<not> ?H - 1 \<le> tip" using view by blast
      also have "\<dots> \<longleftrightarrow> unat tip + 1 < ?n" using True H(2) by (simp add: word_le_nat_alt) linarith
      finally show ?thesis .
    qed
    have fork: "FindFork bc (last candidate) = Some (if unat tip + 1 < ?n then Inl FkNoPrevious else Inr (?H - 1))"
      using FindFork_result [of bc "last candidate"] view none H(1) prev by (simp add: has_block_def)
    have above: "?c < ?H \<longleftrightarrow> unat tip + 1 < ?n \<or> ?c = tip" "?H = ?c \<longleftrightarrow> ?n = unat tip + 1 \<and> ?c \<noteq> tip"
      using count tip1 True len(1) by (auto simp: word_less_nat_alt word_unat_eq_iff)
    show ?thesis
    proof (cases "unat tip + 1 < ?n")
      case more: True
      then show ?thesis using fork above(1) by (simp add: run)
    next
      case False
      with True have n: "?n = unat tip + 1" by simp
      then have "?H - 1 = tip"
        using H(2) by (simp add: word_unat_eq_iff)
      then show ?thesis
        using fork above n assms(2) len(2) by (auto simp: run)
    qed
  qed
qed

section \<open>Choosing by timestamp\<close>

definition tip_time :: "Block list \<Rightarrow> int" where
  "tip_time c = (if c = [] then 0 else sint (fb_Timestamp (last c)))"

lemma timestamp_step_eq:
  "0 \<le> snd best \<Longrightarrow> timestamp_step best c = (if tip_time c > snd best then (c, tip_time c) else best)"
  by (auto simp: timestamp_step_def tip_time_def Let_def)

lemma fold_timestamp:
  assumes "0 \<le> t" and "c \<in> set cs" and "t < tip_time c"
    and "\<forall>d \<in> set cs. d \<noteq> c \<longrightarrow> tip_time d < tip_time c"
  shows "fst (foldl timestamp_step (b, t) cs) = c"
proof -
  have rest: "foldl timestamp_step (c, tip_time c) ds = (c, tip_time c)" if "\<forall>d \<in> set ds. tip_time d \<le> tip_time c" for ds
    using that assms(1,3) by (induction ds) (auto simp: timestamp_step_eq)
  show ?thesis using assms
  proof (induction cs arbitrary: b t)
    case (Cons d cs)
    show ?case
    proof (cases "d = c")
      case True
      have "\<forall>d \<in> set cs. tip_time d \<le> tip_time c" using Cons.prems(4) by force
      with True Cons.prems show ?thesis by (simp add: timestamp_step_eq rest)
    next
      case False
      with Cons show ?thesis by (auto simp: timestamp_step_eq)
    qed
  qed simp
qed

text \<open>The choice between chains goes by the clock of their last blocks: as soon as two of the chains are within the
  threshold of the greatest length, the chain whose last block has the greatest positive timestamp is chosen,
  however short it is; the comment promises the longest chain.\<close>

theorem late_timestamp_wins:
  assumes "sorts_by_length srt" and "fs_reorgThreshold fs = int k"
    and "\<forall>a \<in> set cs. length a \<le> n" and "2 \<le> length (filter (\<lambda>a. n < length a + k) cs)"
    and "c \<in> set cs" and "0 < tip_time c" and "\<forall>d \<in> set cs. d \<noteq> c \<longrightarrow> tip_time d < tip_time c"
  shows "SelectChain srt fs cs = Some c"
proof -
  have perm: "mset (srt cs) = mset cs" and sorted: "sorted_wrt (\<lambda>a b. length b \<le> length a) (srt cs)"
    using assms(1) by (simp_all add: sorts_by_length_def)
  have set: "set (srt cs) = set cs" using perm by (rule mset_eq_setD)
  have "2 \<le> length cs"
    using assms(4) length_filter_le [of "\<lambda>a. n < length a + k" cs] by linarith
  moreover have "length (srt cs) = length cs"
    using perm by (rule mset_eq_length)
  ultimately obtain a b ds where s: "srt cs = a # b # ds"
    by (metis Suc_le_length_iff numeral_2_eq_2)
  have "n < length b + k"
  proof (rule ccontr)
    assume "\<not> n < length b + k"
    then have "\<forall>d \<in> set (b # ds). \<not> n < length d + k"
      using sorted s by auto
    then have "filter (\<lambda>a. n < length a + k) (b # ds) = []"
      by (meson filter_False)
    then have "length (filter (\<lambda>a. n < length a + k) (srt cs)) \<le> 1"
      using s by auto
    moreover have "length (filter (\<lambda>a. n < length a + k) (srt cs)) = length (filter (\<lambda>a. n < length a + k) cs)"
      using perm by (metis mset_eq_length mset_filter)
    ultimately show False using assms(4) by linarith
  qed
  moreover have "length a \<le> n" using assms(3) set s by auto
  ultimately have "\<not> fs_reorgThreshold fs \<le> int (length a) - int (length b)"
    using assms(2) by simp
  moreover have "fst (foldl timestamp_step (a, 0) (srt cs)) = c"
    using assms(5-7) set by (intro fold_timestamp) auto
  moreover have "cs \<noteq> []" "length cs \<noteq> 1" using \<open>2 \<le> length cs\<close> by auto
  ultimately show ?thesis
    using s by (simp add: SelectChain_def selectChainByTimestamp_def)
qed

section \<open>What validation of a chain says\<close>

lemma link_loop_iff:
  "link_loop i prev bs = Inr () \<longleftrightarrow>
     (\<forall>k < length bs. fb_Height (bs ! k) = fb_Height ((prev # bs) ! k) + 1
        \<and> PreviousBlockHash (bs ! k) = Hash ((prev # bs) ! k)
        \<and> Hash (bs ! k) = block_calculateHash (bs ! k)
        \<and> sint (fb_Timestamp ((prev # bs) ! k)) < sint (fb_Timestamp (bs ! k)))"
proof (induction bs arbitrary: i prev)
  case (Cons b bs)
  show ?case by (auto simp: Cons.IH less_Suc_eq_0_disj not_le)
qed simp

text \<open>Two different results of an inference have the same hash, because its parts are not delimited.\<close>

definition sample_block :: "string \<Rightarrow> string \<Rightarrow> Block" where
  "sample_block task result =
     \<lparr>fb_Height = 0, fb_PrevBlockHash = None, fb_Timestamp = 1, fb_TaskID = task, fb_FinalResult = result,
      fb_IsValid = True, fb_AgreementRate = 0, fb_BlockHash = None, fb_Nonce = 0\<rparr>"

lemma hash_not_delimited:
  "sample_block ''ab'' ''c'' \<noteq> sample_block ''a'' ''bc''
   \<and> Hash (sample_block ''ab'' ''c'') = Hash (sample_block ''a'' ''bc'')"
  by (simp add: sample_block_def Hash_def block_calculateHash_def text_bytes_def)

text \<open>Validation of a chain is exact: a chain is accepted if and only if it starts at height zero with the zero parent
  hash, and every later block is one higher than its parent, names the parent's hash, carries the hash of its own
  contents, and is strictly later. (The hash of the first block is not recomputed.)\<close>

theorem validate_chain_iff:
  "ValidateChain bs = Inr () \<longleftrightarrow>
     bs \<noteq> [] \<and> fb_Height (hd bs) = 0 \<and> PreviousBlockHash (hd bs) = replicate 32 0
     \<and> (\<forall>k < length bs - 1. fb_Height (bs ! Suc k) = fb_Height (bs ! k) + 1
          \<and> PreviousBlockHash (bs ! Suc k) = Hash (bs ! k)
          \<and> Hash (bs ! Suc k) = block_calculateHash (bs ! Suc k)
          \<and> sint (fb_Timestamp (bs ! k)) < sint (fb_Timestamp (bs ! Suc k)))"
  by (cases bs) (auto simp: ValidateChain_def link_loop_iff)

section \<open>Concrete chains\<close>

definition child_block :: "Block \<Rightarrow> u64 \<Rightarrow> Block" where
  "child_block p now = \<lparr>fb_Height = fb_Height p + 1, fb_PrevBlockHash = Some (Hash p), fb_Timestamp = now,
     fb_TaskID = [], fb_FinalResult = [], fb_IsValid = True, fb_AgreementRate = 1, fb_BlockHash = None, fb_Nonce = 0\<rparr>"

definition genesis :: Block where "genesis = sample_block [] []"
definition block_one :: Block where "block_one = child_block genesis 2"
definition block_two :: Block where "block_two = child_block block_one 3"
definition block_three :: Block where "block_three = child_block block_two 4"
definition block_fork :: Block where "block_fork = child_block genesis 19"

definition short_chain :: blockchain where
  "short_chain = \<lparr>bc_GetBlock = (\<lambda>h. if h = 0 then Some genesis else if h = 1 then Some block_one else None),
     bc_GetLatestBlock = Some block_one, bc_GetBlockCount = 2\<rparr>"

lemma fork_heights:
  "fb_Height genesis = 0" "fb_Height block_one = 1" "fb_Height block_two = 2" "fb_Height block_three = 3"
  by (simp_all add: genesis_def block_one_def block_two_def block_three_def child_block_def sample_block_def)

lemma short_chain_view: "chain_view short_chain 1"
proof -
  have "h \<le> 1 \<longleftrightarrow> h = 0 \<or> h = 1" for h :: u64
    by (auto simp: word_le_nat_alt word_unat_eq_iff)
  then show ?thesis by (auto simp: chain_view_def short_chain_def fork_heights)
qed

lemma long_chain_valid: "ValidateChain [genesis, block_one, block_two, block_three] = Inr ()"
  by (simp add: ValidateChain_def genesis_def block_one_def block_two_def block_three_def child_block_def
      sample_block_def PreviousBlockHash_def Hash_def)

theorem validate_chain_iff_witness:
  "PreviousBlockHash block_three = Hash block_two"
proof -
  let ?bs = "[genesis, block_one, block_two, block_three]"
  have "\<forall>k < length ?bs - 1. PreviousBlockHash (?bs ! Suc k) = Hash (?bs ! k)"
    using iffD1 [OF validate_chain_iff long_chain_valid] by blast
  from spec [OF this, of 2] show ?thesis by simp
qed

theorem find_fork_terminates_witness:
  "FindFork short_chain block_three = Some (Inl FkNoPrevious)"
proof -
  have "\<forall>h l. bc_GetBlock short_chain h = Some l \<longrightarrow> fb_Height l = h"
    using short_chain_view unfolding chain_view_def by blast
  moreover have "bc_GetBlock short_chain 3 = None" "bc_GetBlock short_chain 2 = None"
    by (simp_all add: short_chain_def)
  ultimately show ?thesis
    using find_fork_terminates [of short_chain block_three] by (simp add: has_block_def fork_heights)
qed

text \<open>A longer chain is an error, and a fork one block longer is better by its last hash.\<close>

definition fork_two :: Block where "fork_two = child_block block_fork 20"

theorem better_chain_verdict_witness:
  "IsBetterChain (NewForkSelector short_chain 6) [genesis, block_one, block_two, block_three] = Some (Inl FkNoPrevious)
   \<and> IsBetterChain (NewForkSelector short_chain 6) [genesis, block_fork, fork_two] = Some (Inr True)"
proof -
  have bc: "bc_GetBlock short_chain 1 = Some block_one" "fs_localChain (NewForkSelector short_chain 6) = short_chain"
    by (simp_all add: short_chain_def NewForkSelector_def)
  have fork: "ValidateChain [genesis, block_fork, fork_two] = Inr ()"
    by (simp add: ValidateChain_def genesis_def block_fork_def fork_two_def child_block_def
        sample_block_def PreviousBlockHash_def Hash_def)
  have "of_char (char_of (48::nat)) = (48::byte)" "of_char (char_of (49::nat)) = (49::byte)"
    "of_char (char_of (50::nat)) = (50::byte)"
    by code_simp+
  then have "bytes_Compare (Hash fork_two) (Hash block_one) > 0" "bc_GetBlockCount short_chain = 2"
    by (simp_all add: short_chain_def fork_two_def block_one_def block_fork_def child_block_def genesis_def sample_block_def
        Hash_def block_calculateHash_def text_bytes_def dec_string.simps)
  then show ?thesis
    using better_chain_verdict [OF short_chain_view bc long_chain_valid]
      better_chain_verdict [OF short_chain_view bc fork] by simp
qed

theorem reorg_plan_witness:
  "HandleReorg [genesis, block_one] [genesis, block_fork] = Inr ([block_one], [block_fork])
   \<and> (\<exists>kept. [genesis, block_fork] = kept @ [block_fork] \<and> map Hash (kept @ [block_one]) = map Hash [genesis, block_one])"
proof -
  have "Hash block_one \<noteq> Hash block_fork"
    by (simp add: block_one_def block_fork_def child_block_def genesis_def sample_block_def Hash_def
        block_calculateHash_def text_bytes_def signed_string_def dec_string.simps)
  then have run: "HandleReorg [genesis, block_one] [genesis, block_fork] = Inr ([block_one], [block_fork])"
    by (simp add: HandleReorg_eq)
  then show ?thesis
    using reorg_plan [of "[genesis, block_one]" "[genesis, block_fork]"] by blast
qed

definition insert_sorted :: "Block list list \<Rightarrow> Block list list" where
  "insert_sorted cs = sort_key (\<lambda>c. - int (length c)) cs"

lemma insert_sorted_sorts: "sorts_by_length insert_sorted"
proof -
  have "sorted_wrt (\<lambda>a b. length b \<le> length a) (insert_sorted cs)" for cs
    using sorted_sort_key [of "\<lambda>c. - int (length c)" cs]
    by (simp add: insert_sorted_def sorted_map)
  then show ?thesis by (simp add: sorts_by_length_def insert_sorted_def)
qed

theorem late_timestamp_wins_witness:
  "SelectChain insert_sorted (NewForkSelector short_chain 6)
     [[genesis, block_one, block_two], [genesis, block_one], [block_fork]] = Some [block_fork]"
proof (rule late_timestamp_wins [OF insert_sorted_sorts])
  show "fs_reorgThreshold (NewForkSelector short_chain 6) = int 6"
    by (simp add: NewForkSelector_def)
  show "\<forall>a \<in> set [[genesis, block_one, block_two], [genesis, block_one], [block_fork]]. length a \<le> 3"
    by simp
qed (simp_all add: tip_time_def block_fork_def block_one_def block_two_def child_block_def)

end
