(* ===== verification/Settlement.thy ===== *)
theory Settlement
  imports Channel_Runs
begin

text \<open>
  \<^verbatim>\<open>pkg/channel/settlement.go\<close>: settling a channel on the chain. The settlement manager holds a pointer to
  the channel manager and a \<^verbatim>\<open>MultiSigLocker\<close>. Both change under its operations, so an operation takes
  the three states (its own, the channel manager's and the locker's) and returns them next to the
  settlement and the error, which the code may return together. Every reading of the clock is an
  argument. The callbacks for block submission and lookup, which nothing calls, are left out.
\<close>

section \<open>Data\<close>

datatype SettlementType = SettlementCooperative | SettlementForce | SettlementDispute

datatype SettlementStatus =
  SettlementPending | SettlementConfirming | SettlementComplete | SettlementFailed | SettlementCancelled

record Settlement =
  st_ID :: hash
  st_ChannelID :: hash
  st_StateHash :: hash
  st_BalanceA :: u64
  st_BalanceB :: u64
  st_Sequence :: u64
  st_Type :: SettlementType
  st_Status :: SettlementStatus
  st_Initiator :: address
  st_Timestamp :: int
  st_BlockNumber :: u64
  st_TxHash :: hash
  st_SigA :: bytes
  st_SigB :: bytes
  st_ChallengeEnd :: "int option"

record SettlementConfig =
  sc_ChallengePeriod :: int
  sc_ConfirmationDepth :: u64
  sc_MinSettlementAmount :: u64
  sc_HasLocker :: bool

record SettlementManager =
  sm_settlements :: "hash \<rightharpoonup> Settlement"
  sm_challengePeriod :: int
  sm_confirmationDepth :: u64
  sm_minSettlementAmount :: u64

datatype settle_error =
    SmPanic
  | SmNoManager
  | SmNoLocker
  | SmChannel channel_error
  | SmChannelStatus channel_error
  | SmClosed
  | SmInvalidState settle_error
  | SmIDMismatch
  | SmOldSequence u64 u64
  | SmConservation u64 u64
  | SmLengthA
  | SmLengthB
  | SmSignatureA
  | SmSignatureB
  | SmNotFound
  | SmNotPending SettlementStatus
  | SmNotConfirming SettlementStatus
  | SmSpend
  | SmClose channel_error
  | SmUnsigned
  | SmForce channel_error
  | SmNotForce
  | SmNoChallengeEnd
  | SmNotEnded int
  | SmFinalize channel_error
  | SmRandom

definition DefaultSettlementConfig :: SettlementConfig where
  "DefaultSettlementConfig =
     \<lparr>sc_ChallengePeriod = 24 * 3600 * second, sc_ConfirmationDepth = 6, sc_MinSettlementAmount = 1,
      sc_HasLocker = False\<rparr>"

text \<open>The first argument tells whether a manager is given; a missing configuration is the default one.\<close>

definition NewSettlementManager :: "bool \<Rightarrow> SettlementConfig option \<Rightarrow> (settle_error, SettlementManager) result" where
  "NewSettlementManager hasManager cfg =
     (if \<not> hasManager then Inl SmNoManager
      else let c = (case cfg of None \<Rightarrow> DefaultSettlementConfig | Some c \<Rightarrow> c) in
        if \<not> sc_HasLocker c then Inl SmNoLocker
        else Inr \<lparr>sm_settlements = Map.empty,
                  sm_challengePeriod = (if sc_ChallengePeriod c = 0 then 24 * 3600 * second else sc_ChallengePeriod c),
                  sm_confirmationDepth = sc_ConfirmationDepth c,
                  sm_minSettlementAmount = sc_MinSettlementAmount c\<rparr>)"

text \<open>
  The locker as the settlement manager uses it: \<^verbatim>\<open>SpendMultiSig\<close> takes the locker's state and returns whether
  the call succeeded, and the state after it. The channel manager calls the same locker.
\<close>

type_synonym 'w spender = "'w \<Rightarrow> UTXO \<Rightarrow> bytes \<Rightarrow> bytes \<Rightarrow> TXOutput list \<Rightarrow> bool \<times> 'w"

definition world_locker :: "'w spender \<Rightarrow> 'w \<Rightarrow> locker" where
  "world_locker sp w = \<lparr>ml_CreateMultiSigOutput = (\<lambda>_ _ _. None), ml_SpendMultiSig = (\<lambda>u a b o'. fst (sp w u a b o'))\<rparr>"

text \<open>The output of a channel and the outputs that pay its parties, as both managers build them.\<close>

definition funding_utxo :: "Channel \<Rightarrow> u64 \<Rightarrow> UTXO" where
  "funding_utxo ch total' =
     \<lparr>u_TxHash = ch_StateHash ch, u_Index = 0, u_Value = total', u_Script = [], u_Address = ch_PartyA ch\<rparr>"

definition party_outputs :: "Channel \<Rightarrow> u64 \<Rightarrow> u64 \<Rightarrow> TXOutput list" where
  "party_outputs ch a b =
     [\<lparr>to_Value = a, to_Script = [], to_Address = ch_PartyA ch\<rparr>,
      \<lparr>to_Value = b, to_Script = [], to_Address = ch_PartyB ch\<rparr>]"

text \<open>
  \<^verbatim>\<open>Manager.CloseChannel\<close> with the locker's state: it calls the locker once, as its last step that can fail.
\<close>

definition close_in :: "crypto \<Rightarrow> 'w spender \<Rightarrow> Manager \<Rightarrow> 'w \<Rightarrow> hash \<Rightarrow> SignedState
    \<Rightarrow> Manager \<times> 'w \<times> channel_error option" where
  "close_in C sp m w chID st =
     (let w' = (case ma_channels m chID of
                  None \<Rightarrow> w
                | Some ch \<Rightarrow> snd (sp w (funding_utxo ch (ch_BalanceA ch + ch_BalanceB ch)) (ss_SigA st) (ss_SigB st)
                                  (party_outputs ch (ss_BalanceA st) (ss_BalanceB st))))
      in case CloseChannel C (world_locker sp w) m chID st of
           Inr m' \<Rightarrow> (m', w', None)
         | Inl e \<Rightarrow> (m, if e = ChMultiSig then w' else w, Some e))"

section \<open>Building a settlement\<close>

text \<open>
  \<^verbatim>\<open>Time.MarshalBinary\<close> (version 1): seconds since year one, nanoseconds and the offset of the time zone in
  minutes (-1 for UTC), which is an argument; zones whose offset has seconds are not considered.
\<close>

definition time_MarshalBinary :: "16 word \<Rightarrow> int \<Rightarrow> bytes" where
  "time_MarshalBinary zone t =
     [1] @ put_u64_be (of_int (t div second)) @ be_bytes 4 (nat (t mod second)) @ be_bytes 2 (unat zone)"

definition generateSettlementID :: "crypto \<Rightarrow> 16 word \<Rightarrow> hash \<Rightarrow> SignedState \<Rightarrow> hash" where
  "generateSettlementID C zone channelID state =
     sha256 C (hash_bytes channelID @ hash_bytes (ss_ChannelID state) @ put_u64_be (ss_Sequence state)
               @ put_u64_be (ss_BalanceA state) @ put_u64_be (ss_BalanceB state)
               @ time_MarshalBinary zone (ss_Timestamp state))"

definition settle_verify :: "crypto \<Rightarrow> address \<Rightarrow> bytes \<Rightarrow> bytes \<Rightarrow> settle_error \<Rightarrow> settle_error \<Rightarrow> (settle_error, unit) result" where
  "settle_verify C party stateData sig badLength badSig =
     (if length sig \<noteq> 64 then Inl badLength
      else case ed25519_Verify C (hash_bytes party) stateData sig of
        None \<Rightarrow> Inl SmPanic
      | Some ok \<Rightarrow> if \<not> ok then Inl badSig else Inr ())"

definition validateSignedState :: "crypto \<Rightarrow> Channel \<Rightarrow> SignedState \<Rightarrow> (settle_error, unit) result" where
  "validateSignedState C channel signedState =
     (if ss_ChannelID signedState \<noteq> ch_ID channel then Inl SmIDMismatch
      else if ss_Sequence signedState < ch_Sequence channel
      then Inl (SmOldSequence (ss_Sequence signedState) (ch_Sequence channel))
      else let totalBalance = ss_BalanceA signedState + ss_BalanceB signedState;
               channelTotal = ch_BalanceA channel + ch_BalanceB channel
           in if totalBalance \<noteq> channelTotal then Inl (SmConservation totalBalance channelTotal)
              else let stateData = serializeState signedState in
                rbind (settle_verify C (ch_PartyA channel) stateData (ss_SigA signedState) SmLengthA SmSignatureA)
                  (\<lambda>_. settle_verify C (ch_PartyB channel) stateData (ss_SigB signedState) SmLengthB SmSignatureB))"

definition put_settlement :: "SettlementManager \<Rightarrow> hash \<Rightarrow> Settlement \<Rightarrow> SettlementManager" where
  "put_settlement sm i s = sm\<lparr>sm_settlements := (sm_settlements sm)(i \<mapsto> s)\<rparr>"

definition BuildSettlement ::
  "crypto \<Rightarrow> 16 word \<Rightarrow> int \<Rightarrow> SettlementManager \<Rightarrow> Manager \<Rightarrow> hash \<Rightarrow> SignedState
   \<Rightarrow> (settle_error, SettlementManager \<times> Settlement) result" where
  "BuildSettlement C zone now sm m channelID signedState =
     (case GetChannelState m channelID of
        Inl e \<Rightarrow> Inl (SmChannel e)
      | Inr channel \<Rightarrow>
          (case GetChannelStatus m channelID of
             Inl e \<Rightarrow> Inl (SmChannelStatus e)
           | Inr status \<Rightarrow>
               if status = StateClosed then Inl SmClosed
               else (case validateSignedState C channel signedState of
                 Inl e \<Rightarrow> Inl (SmInvalidState e)
               | Inr _ \<Rightarrow>
                   let fresh = \<lparr>st_ID = generateSettlementID C zone channelID signedState,
                         st_ChannelID = channelID, st_StateHash = computeStateHash C channel,
                         st_BalanceA = ss_BalanceA signedState, st_BalanceB = ss_BalanceB signedState,
                         st_Sequence = ss_Sequence signedState, st_Type = SettlementCooperative,
                         st_Status = SettlementPending, st_Initiator = 0, st_Timestamp = now, st_BlockNumber = 0,
                         st_TxHash = 0, st_SigA = ss_SigA signedState, st_SigB = ss_SigB signedState,
                         st_ChallengeEnd = None\<rparr>
                   in case sm_settlements sm channelID of
                        Some existing \<Rightarrow>
                          if st_Status existing = SettlementPending then Inr (sm, existing)
                          else Inr (put_settlement sm channelID fresh, fresh)
                      | None \<Rightarrow> Inr (put_settlement sm channelID fresh, fresh))))"

definition ValidateState :: "crypto \<Rightarrow> Manager \<Rightarrow> hash \<Rightarrow> SignedState \<Rightarrow> (settle_error, unit) result" where
  "ValidateState C m channelID signedState =
     (case GetChannelState m channelID of
        Inl e \<Rightarrow> Inl (SmChannel e)
      | Inr channel \<Rightarrow> validateSignedState C channel signedState)"

section \<open>Executing a settlement\<close>

text \<open>The three states, the returned settlement and the error (\<open>None\<close> is \<^verbatim>\<open>nil\<close>).\<close>

type_synonym 'w settle_outcome =
  "SettlementManager \<times> Manager \<times> 'w \<times> Settlement option \<times> settle_error option"

definition ExecuteSettlement ::
  "crypto \<Rightarrow> 'w spender \<Rightarrow> SettlementManager \<Rightarrow> Manager \<Rightarrow> 'w \<Rightarrow> hash \<Rightarrow> 'w settle_outcome" where
  "ExecuteSettlement C sp sm m w channelID =
     (case sm_settlements sm channelID of
        None \<Rightarrow> (sm, m, w, None, Some SmNotFound)
      | Some settlement \<Rightarrow>
          if st_Status settlement \<noteq> SettlementPending
          then (sm, m, w, None, Some (SmNotPending (st_Status settlement)))
          else (case GetChannelState m channelID of
            Inl e \<Rightarrow> (sm, m, w, None, Some (SmChannel e))
          | Inr channel \<Rightarrow>
              let (spent, w') = sp w (funding_utxo channel (ch_BalanceA channel + ch_BalanceB channel))
                    (st_SigA settlement) (st_SigB settlement)
                    (party_outputs channel (st_BalanceA settlement) (st_BalanceB settlement))
              in if \<not> spent
                 then let settlement = settlement\<lparr>st_Status := SettlementFailed\<rparr>
                      in (put_settlement sm channelID settlement, m, w', Some settlement, Some SmSpend)
                 else let settlement = settlement\<lparr>st_Status := SettlementConfirming\<rparr>;
                          sm' = put_settlement sm channelID settlement;
                          (m', w'', err) = close_in C sp m w' (ch_ID channel)
                            \<lparr>ss_ChannelID = channelID, ss_Sequence = st_Sequence settlement,
                             ss_BalanceA = st_BalanceA settlement, ss_BalanceB = st_BalanceB settlement,
                             ss_SigA = st_SigA settlement, ss_SigB = st_SigB settlement,
                             ss_Timestamp = st_Timestamp settlement\<rparr>
                      in (sm', m', w'', Some settlement, map_option SmClose err)))"

section \<open>Force closing\<close>

definition settle_check_sig :: "crypto \<Rightarrow> address \<Rightarrow> bytes \<Rightarrow> bytes \<Rightarrow> settle_error \<Rightarrow> (settle_error, unit) result" where
  "settle_check_sig C party stateData sig bad =
     (if length sig > 0
      then (case ed25519_Verify C (hash_bytes party) stateData sig of
              None \<Rightarrow> Inl SmPanic
            | Some ok \<Rightarrow> if \<not> ok then Inl bad else Inr ())
      else Inr ())"

text \<open>The clock is read for the end of the challenge period, for the record and by the channel manager.\<close>

definition settlement_ForceClose ::
  "crypto \<Rightarrow> 16 word \<Rightarrow> int \<Rightarrow> int \<Rightarrow> int \<Rightarrow> SettlementManager \<Rightarrow> Manager \<Rightarrow> hash \<Rightarrow> SignedState \<Rightarrow> address
   \<Rightarrow> SettlementManager \<times> Manager \<times> Settlement option \<times> settle_error option" where
  "settlement_ForceClose C zone now now' now'' sm m channelID latestState initiator =
     (case GetChannelState m channelID of
        Inl e \<Rightarrow> (sm, m, None, Some (SmChannel e))
      | Inr channel \<Rightarrow>
          if \<not> (length (ss_SigA latestState) > 0 \<or> length (ss_SigB latestState) > 0)
          then (sm, m, None, Some SmUnsigned)
          else let stateData = serializeState latestState in
            (case rbind (settle_check_sig C (ch_PartyA channel) stateData (ss_SigA latestState) SmSignatureA)
                    (\<lambda>_. settle_check_sig C (ch_PartyB channel) stateData (ss_SigB latestState) SmSignatureB) of
               Inl e \<Rightarrow> (sm, m, None, Some e)
             | Inr _ \<Rightarrow>
                 let settlement = \<lparr>st_ID = generateSettlementID C zone channelID latestState,
                       st_ChannelID = channelID, st_StateHash = computeStateHash C channel,
                       st_BalanceA = ss_BalanceA latestState, st_BalanceB = ss_BalanceB latestState,
                       st_Sequence = ss_Sequence latestState, st_Type = SettlementForce,
                       st_Status = SettlementPending, st_Initiator = initiator, st_Timestamp = now',
                       st_BlockNumber = 0, st_TxHash = 0, st_SigA = ss_SigA latestState,
                       st_SigB = ss_SigB latestState, st_ChallengeEnd = Some (now + sm_challengePeriod sm)\<rparr>;
                     sm' = put_settlement sm channelID settlement
                 in (case ForceClose C now'' m channelID latestState of
                       Inl e \<Rightarrow> (sm', m, Some settlement, Some (SmForce e))
                     | Inr m' \<Rightarrow> (sm', m', Some settlement, None))))"

text \<open>The clock is read by the check of the challenge period, for the remaining time and by the channel manager.\<close>

definition ConfirmForceClose ::
  "'w spender \<Rightarrow> int \<Rightarrow> int \<Rightarrow> int \<Rightarrow> SettlementManager \<Rightarrow> Manager \<Rightarrow> 'w \<Rightarrow> hash \<Rightarrow> 'w settle_outcome" where
  "ConfirmForceClose sp now now' now'' sm m w channelID =
     (case sm_settlements sm channelID of
        None \<Rightarrow> (sm, m, w, None, Some SmNotFound)
      | Some settlement \<Rightarrow>
          if st_Type settlement \<noteq> SettlementForce then (sm, m, w, None, Some SmNotForce)
          else if st_Status settlement \<noteq> SettlementPending
          then (sm, m, w, None, Some (SmNotPending (st_Status settlement)))
          else (case st_ChallengeEnd settlement of
            None \<Rightarrow> (sm, m, w, None, Some SmNoChallengeEnd)
          | Some challengeEnd \<Rightarrow>
              if now < challengeEnd then (sm, m, w, None, Some (SmNotEnded (time_Sub challengeEnd now')))
              else (case GetChannelState m channelID of
                Inl e \<Rightarrow> (sm, m, w, None, Some (SmChannel e))
              | Inr channel \<Rightarrow>
                  let (spent, w') = sp w (funding_utxo channel (ch_BalanceA channel + ch_BalanceB channel))
                        (st_SigA settlement) (st_SigB settlement)
                        (party_outputs channel (st_BalanceA settlement) (st_BalanceB settlement))
                  in if \<not> spent
                     then let settlement = settlement\<lparr>st_Status := SettlementFailed\<rparr>
                          in (put_settlement sm channelID settlement, m, w', Some settlement, Some SmSpend)
                     else let settlement = settlement\<lparr>st_Status := SettlementConfirming\<rparr>;
                              sm' = put_settlement sm channelID settlement
                          in (case FinalizeClose now'' m channelID of
                                Inl e \<Rightarrow> (sm', m, w', Some settlement, Some (SmFinalize e))
                              | Inr m' \<Rightarrow> (sm', m', w', Some settlement, None)))))"

text \<open>\<open>None\<close> for the identifier is a failure of the random source.\<close>

definition ExecuteDisputeSettlement ::
  "crypto \<Rightarrow> 'w spender \<Rightarrow> int \<Rightarrow> hash option \<Rightarrow> SettlementManager \<Rightarrow> Manager \<Rightarrow> 'w \<Rightarrow> hash \<Rightarrow> address \<Rightarrow> bool
   \<Rightarrow> 'w settle_outcome" where
  "ExecuteDisputeSettlement C sp now rnd sm m w channelID honestParty penaltyToWinner =
     (case GetChannelState m channelID of
        Inl e \<Rightarrow> (sm, m, w, None, Some (SmChannel e))
      | Inr channel \<Rightarrow>
          let (currentBalA, currentBalB) =
                (if penaltyToWinner
                 then if honestParty = ch_PartyA channel then (ch_BalanceA channel + ch_BalanceB channel, 0)
                      else if honestParty = ch_PartyB channel then (0, ch_BalanceB channel + ch_BalanceA channel)
                      else (ch_BalanceA channel, ch_BalanceB channel)
                 else (ch_BalanceA channel, ch_BalanceB channel))
          in case rnd of
               None \<Rightarrow> (sm, m, w, None, Some SmRandom)
             | Some settlementID \<Rightarrow>
                 let settlement = \<lparr>st_ID = settlementID, st_ChannelID = channelID,
                       st_StateHash = computeStateHash C channel, st_BalanceA = currentBalA, st_BalanceB = currentBalB,
                       st_Sequence = ch_Sequence channel, st_Type = SettlementDispute, st_Status = SettlementPending,
                       st_Initiator = 0, st_Timestamp = now, st_BlockNumber = 0, st_TxHash = 0, st_SigA = [],
                       st_SigB = [], st_ChallengeEnd = None\<rparr>;
                     (spent, w') = sp w (funding_utxo channel (currentBalA + currentBalB)) [] []
                       (party_outputs channel currentBalA currentBalB)
                 in if \<not> spent
                    then let settlement = settlement\<lparr>st_Status := SettlementFailed\<rparr>
                         in (put_settlement sm channelID settlement, m, w', Some settlement, Some SmSpend)
                    else let settlement = settlement\<lparr>st_Status := SettlementConfirming\<rparr>
                         in (put_settlement sm channelID settlement, m, w', Some settlement, None))"

section \<open>Queries and the life of a record\<close>

definition GetSettlement :: "SettlementManager \<Rightarrow> hash \<Rightarrow> (settle_error, Settlement) result" where
  "GetSettlement sm channelID =
     (case sm_settlements sm channelID of None \<Rightarrow> Inl SmNotFound | Some s \<Rightarrow> Inr s)"

definition GetSettlementStatus :: "SettlementManager \<Rightarrow> hash \<Rightarrow> SettlementStatus \<times> settle_error option" where
  "GetSettlementStatus sm channelID =
     (case sm_settlements sm channelID of
        None \<Rightarrow> (SettlementPending, Some SmNotFound) | Some s \<Rightarrow> (st_Status s, None))"

definition CancelSettlement :: "SettlementManager \<Rightarrow> hash \<Rightarrow> (settle_error, SettlementManager) result" where
  "CancelSettlement sm channelID =
     (case sm_settlements sm channelID of
        None \<Rightarrow> Inl SmNotFound
      | Some s \<Rightarrow>
          if st_Status s \<noteq> SettlementPending then Inl (SmNotPending (st_Status s))
          else Inr (put_settlement sm channelID (s\<lparr>st_Status := SettlementCancelled\<rparr>)))"

definition ConfirmSettlement :: "SettlementManager \<Rightarrow> hash \<Rightarrow> (settle_error, SettlementManager) result" where
  "ConfirmSettlement sm channelID =
     (case sm_settlements sm channelID of
        None \<Rightarrow> Inl SmNotFound
      | Some s \<Rightarrow>
          if st_Status s \<noteq> SettlementConfirming then Inl (SmNotConfirming (st_Status s))
          else Inr (put_settlement sm channelID (s\<lparr>st_Status := SettlementComplete\<rparr>)))"

definition GetChallengePeriodRemaining :: "int \<Rightarrow> SettlementManager \<Rightarrow> hash \<Rightarrow> (settle_error, int) result" where
  "GetChallengePeriodRemaining now sm channelID =
     (case sm_settlements sm channelID of
        None \<Rightarrow> Inl SmNotFound
      | Some s \<Rightarrow>
          (case st_ChallengeEnd s of
             None \<Rightarrow> Inl SmNoChallengeEnd
           | Some challengeEnd \<Rightarrow>
               let remaining = time_Sub challengeEnd now in Inr (if remaining < 0 then 0 else remaining)))"

end
