(* ===== verification/Settlement_Proof.thy ===== *)
theory Settlement_Proof
  imports Settlement
begin

text \<open>
  The second half of \<^verbatim>\<open>pkg/channel/settlement.go\<close>: settlement transactions and their signatures, the
  validator, the recorder, batches, and the proofs of settlements. The listener is a placeholder that
  waits for the end of its context.
\<close>

section \<open>Settlement transactions\<close>

record SettlementTx =
  sx_ChannelID :: hash
  sx_SettlementID :: hash
  sx_BalanceA :: u64
  sx_BalanceB :: u64
  sx_Sequence :: u64
  sx_SigA :: bytes
  sx_SigB :: bytes
  sx_Timestamp :: int

definition settlement_Serialize :: "16 word \<Rightarrow> SettlementTx \<Rightarrow> bytes" where
  "settlement_Serialize zone stx =
     hash_bytes (sx_ChannelID stx) @ hash_bytes (sx_SettlementID stx) @ put_u64_be (sx_BalanceA stx)
     @ put_u64_be (sx_BalanceB stx) @ put_u64_be (sx_Sequence stx) @ time_MarshalBinary zone (sx_Timestamp stx)"

definition settlement_Sign :: "crypto \<Rightarrow> 16 word \<Rightarrow> SettlementTx \<Rightarrow> bytes \<Rightarrow> bytes option" where
  "settlement_Sign C zone stx privateKey = ed25519_Sign C privateKey (settlement_Serialize zone stx)"

definition settlement_VerifySignature :: "crypto \<Rightarrow> 16 word \<Rightarrow> SettlementTx \<Rightarrow> bytes \<Rightarrow> bytes \<Rightarrow> bool option" where
  "settlement_VerifySignature C zone stx pubKey sig = ed25519_Verify C pubKey (settlement_Serialize zone stx) sig"

text \<open>The transaction of a settlement, as the signer and the verifiers build it.\<close>

definition settlement_tx :: "Settlement \<Rightarrow> SettlementTx" where
  "settlement_tx s =
     \<lparr>sx_ChannelID = st_ChannelID s, sx_SettlementID = st_ID s, sx_BalanceA = st_BalanceA s,
      sx_BalanceB = st_BalanceB s, sx_Sequence = st_Sequence s, sx_SigA = [], sx_SigB = [],
      sx_Timestamp = st_Timestamp s\<rparr>"

text \<open>\<open>None\<close> is the error of a missing signer or of the signer.\<close>

definition SignSettlement :: "signer option \<Rightarrow> 16 word \<Rightarrow> Settlement \<Rightarrow> bytes option" where
  "SignSettlement css zone settlement =
     (case css of
        None \<Rightarrow> None
      | Some sg \<Rightarrow> sg_Sign sg (settlement_Serialize zone (settlement_tx settlement)))"

definition VerifySettlement :: "crypto \<Rightarrow> 16 word \<Rightarrow> Settlement \<Rightarrow> bytes \<Rightarrow> bytes \<Rightarrow> bool option" where
  "VerifySettlement C zone settlement pubKey sig =
     settlement_VerifySignature C zone (settlement_tx settlement) pubKey sig"

section \<open>Validator\<close>

datatype validate_error =
    SvChannel channel_error
  | SvIDMismatch
  | SvBalance
  | SvOldSequence u64 u64
  | SvBelowA u64 u64
  | SvBelowB u64 u64

text \<open>\<^verbatim>\<open>NewSettlementValidator\<close> fixes the minimum amount to 1.\<close>

definition validator_minAmount :: u64 where
  "validator_minAmount = 1"

definition ValidateSettlement :: "Manager \<Rightarrow> hash \<Rightarrow> Settlement \<Rightarrow> (validate_error, unit) result" where
  "ValidateSettlement m channelID settlement =
     (case GetChannelState m channelID of
        Inl e \<Rightarrow> Inl (SvChannel e)
      | Inr channel \<Rightarrow>
          if st_ChannelID settlement \<noteq> channelID then Inl SvIDMismatch
          else if st_BalanceA settlement + st_BalanceB settlement \<noteq> ch_BalanceA channel + ch_BalanceB channel
          then Inl SvBalance
          else if st_Sequence settlement < ch_Sequence channel
          then Inl (SvOldSequence (st_Sequence settlement) (ch_Sequence channel))
          else if st_BalanceA settlement < validator_minAmount \<and> st_BalanceA settlement \<noteq> 0
          then Inl (SvBelowA (st_BalanceA settlement) validator_minAmount)
          else if st_BalanceB settlement < validator_minAmount \<and> st_BalanceB settlement \<noteq> 0
          then Inl (SvBelowB (st_BalanceB settlement) validator_minAmount)
          else Inr ())"

section \<open>Recorder\<close>

text \<open>
  The recorder keeps pointers; \<open>deref\<close> gives the record a pointer refers to when it is recorded.
\<close>

type_synonym 'p SettlementRecorder = "hash \<rightharpoonup> 'p list"

definition NewSettlementRecorder :: "'p SettlementRecorder" where
  "NewSettlementRecorder = Map.empty"

definition GetHistory :: "'p SettlementRecorder \<Rightarrow> hash \<Rightarrow> 'p list" where
  "GetHistory sr channelID = map_get [] sr channelID"

definition Record :: "('p \<Rightarrow> Settlement) \<Rightarrow> 'p SettlementRecorder \<Rightarrow> 'p \<Rightarrow> 'p SettlementRecorder" where
  "Record deref sr p = (let i = st_ChannelID (deref p) in sr(i \<mapsto> GetHistory sr i @ [p]))"

definition GetAllHistory :: "hash list \<Rightarrow> 'p SettlementRecorder \<Rightarrow> (hash \<rightharpoonup> 'p list)" where
  "GetAllHistory ks sr = foldl (\<lambda>result k. result(k := sr k)) Map.empty ks"

section \<open>Batches\<close>

record BatchSettlementRequest =
  br_Settlements :: "Settlement list"
  br_ChannelIDs :: "bytes list"
  br_Signature :: bytes

datatype batch_error = BtNoChannelIDs | BtSettlement settle_error

record BatchSettlementResult =
  bs_ChannelID :: hash
  bs_SettlementID :: hash
  bs_Status :: SettlementStatus
  bs_Error :: "batch_error option"

type_synonym BatchSettlementHandler = "hash \<rightharpoonup> BatchSettlementResult"

definition NewBatchSettlementHandler :: BatchSettlementHandler where
  "NewBatchSettlementHandler = Map.empty"

text \<open>\<^verbatim>\<open>copy\<close> into a zeroed array of 32 bytes.\<close>

definition copy_hash :: "bytes \<Rightarrow> hash" where
  "copy_hash bs = hash_of_bytes (take 32 bs @ replicate (32 - length bs) 0)"

definition batch_one ::
  "crypto \<Rightarrow> 'w spender \<Rightarrow> SettlementManager \<times> Manager \<times> 'w \<Rightarrow> BatchSettlementRequest
   \<Rightarrow> (SettlementManager \<times> Manager \<times> 'w) \<times> BatchSettlementResult" where
  "batch_one C sp state req =
     (case br_ChannelIDs req of
        [] \<Rightarrow> (state, \<lparr>bs_ChannelID = 0, bs_SettlementID = 0, bs_Status = SettlementFailed,
                      bs_Error = Some BtNoChannelIDs\<rparr>)
      | i # _ \<Rightarrow>
          let channelID = copy_hash i; (sm, m, w) = state in
          (case GetSettlement sm channelID of
             Inl e \<Rightarrow> (state, \<lparr>bs_ChannelID = channelID, bs_SettlementID = 0, bs_Status = SettlementFailed,
                              bs_Error = Some (BtSettlement e)\<rparr>)
           | Inr settlement \<Rightarrow>
               (case ExecuteSettlement C sp sm m w channelID of
                  (sm', m', w', _, Some e) \<Rightarrow>
                    ((sm', m', w'), \<lparr>bs_ChannelID = channelID, bs_SettlementID = st_ID settlement,
                                    bs_Status = SettlementFailed, bs_Error = Some (BtSettlement e)\<rparr>)
                | (sm', m', w', _, None) \<Rightarrow>
                    ((sm', m', w'), \<lparr>bs_ChannelID = channelID, bs_SettlementID = st_ID settlement,
                                    bs_Status = SettlementConfirming, bs_Error = None\<rparr>))))"

fun batch_loop ::
  "crypto \<Rightarrow> 'w spender \<Rightarrow> SettlementManager \<times> Manager \<times> 'w \<Rightarrow> BatchSettlementRequest list
   \<Rightarrow> (SettlementManager \<times> Manager \<times> 'w) \<times> BatchSettlementResult list" where
  "batch_loop C sp state [] = (state, [])"
| "batch_loop C sp state (req # requests) =
     (let (state, r) = batch_one C sp state req;
          (state, rs) = batch_loop C sp state requests
      in (state, r # rs))"

text \<open>\<open>None\<close> is the error of an empty batch.\<close>

definition ExecuteBatchSettlement ::
  "crypto \<Rightarrow> 'w spender \<Rightarrow> BatchSettlementHandler \<Rightarrow> SettlementManager \<times> Manager \<times> 'w \<Rightarrow> BatchSettlementRequest list
   \<Rightarrow> (BatchSettlementHandler \<times> (SettlementManager \<times> Manager \<times> 'w) \<times> BatchSettlementResult list) option" where
  "ExecuteBatchSettlement C sp bsh state requests =
     (if requests = [] then None
      else (let (state, results) = batch_loop C sp state requests
            in Some (foldl (\<lambda>h r. h(bs_ChannelID r \<mapsto> r)) bsh results, state, results)))"

definition GetBatchSettlementResults :: "BatchSettlementHandler \<Rightarrow> bytes list \<Rightarrow> BatchSettlementResult list" where
  "GetBatchSettlementResults bsh channelIDs = List.map_filter (\<lambda>i. bsh (copy_hash i)) channelIDs"

datatype batch_check = BcNil | BcEmpty | BcCount

definition ValidateBatchSettlement :: "BatchSettlementRequest option \<Rightarrow> (batch_check, unit) result" where
  "ValidateBatchSettlement req =
     (case req of
        None \<Rightarrow> Inl BcNil
      | Some r \<Rightarrow>
          if br_Settlements r = [] then Inl BcEmpty
          else if length (br_Settlements r) \<noteq> length (br_ChannelIDs r) then Inl BcCount
          else Inr ())"

section \<open>Proofs of settlements\<close>

text \<open>The map of signatures is the list of its entries; only its size is ever read.\<close>

record SettlementProof =
  sp_Settlement :: "Settlement option"
  sp_StateProof :: bytes
  sp_StateHash :: hash
  sp_Signatures :: "(string \<times> bytes) list"
  sp_BlockNumber :: u64
  sp_BlockHash :: hash
  sp_Timestamp :: int

datatype proof_error =
    PrPanic
  | PrNil
  | PrNoSettlement
  | PrNotFound settle_error
  | PrIDMismatch
  | PrStateHash
  | PrNoStateProof
  | PrNoBlockHash
  | PrNoTimestamp
  | PrNoSignature
  | PrSignatureA
  | PrSignatureB
  | PrNoValidSignature
  | PrStates
  | PrSequence u64 u64
  | PrBalance u64 u64
  | PrNeitherState
  | PrChannel channel_error

definition computeStateHashFromSettlement :: "crypto \<Rightarrow> Settlement \<Rightarrow> hash" where
  "computeStateHashFromSettlement C s =
     sha256 C (hash_bytes (st_ChannelID s) @ hash_bytes (st_StateHash s) @ put_u64_be (st_BalanceA s)
               @ put_u64_be (st_BalanceB s) @ put_u64_be (st_Sequence s))"

definition computeStateHashFromSignedState :: "crypto \<Rightarrow> SignedState \<Rightarrow> hash" where
  "computeStateHashFromSignedState C s =
     sha256 C (hash_bytes (ss_ChannelID s) @ put_u64_be (ss_Sequence s) @ put_u64_be (ss_BalanceA s)
               @ put_u64_be (ss_BalanceB s))"

text \<open>The manager of a verifier may be \<^verbatim>\<open>nil\<close>. The zero time is 0.\<close>

definition VerifySettlementProof ::
  "crypto \<Rightarrow> SettlementManager option \<Rightarrow> SettlementProof option \<Rightarrow> (proof_error, unit) result" where
  "VerifySettlementProof C manager proof' =
     (case proof' of
        None \<Rightarrow> Inl PrNil
      | Some p \<Rightarrow>
          (case sp_Settlement p of
             None \<Rightarrow> Inl PrNoSettlement
           | Some s \<Rightarrow>
               rbind (case manager of
                        None \<Rightarrow> Inr ()
                      | Some sm \<Rightarrow>
                          (case GetSettlement sm (st_ChannelID s) of
                             Inl e \<Rightarrow> Inl (PrNotFound e)
                           | Inr existing \<Rightarrow> if st_ID existing \<noteq> st_ID s then Inl PrIDMismatch else Inr ()))
                 (\<lambda>_. if sp_StateHash p \<noteq> 0 \<and> computeStateHashFromSettlement C s \<noteq> sp_StateHash p then Inl PrStateHash
                      else if length (sp_StateProof p) = 0 then Inl PrNoStateProof
                      else if sp_BlockHash p = 0 then Inl PrNoBlockHash
                      else if sp_Timestamp p = 0 then Inl PrNoTimestamp
                      else if length (sp_Signatures p) = 0 then Inl PrNoSignature
                      else Inr ())))"

definition proof_check_sig :: "crypto \<Rightarrow> bytes \<Rightarrow> bytes \<Rightarrow> bytes \<Rightarrow> proof_error \<Rightarrow> (proof_error, unit) result" where
  "proof_check_sig C pubKey data sig bad =
     (if length sig > 0 \<and> length pubKey > 0
      then (case ed25519_Verify C pubKey data sig of
              None \<Rightarrow> Inl PrPanic
            | Some ok \<Rightarrow> if \<not> ok then Inl bad else Inr ())
      else Inr ())"

definition VerifyMultiSigProof ::
  "crypto \<Rightarrow> 16 word \<Rightarrow> Settlement option \<Rightarrow> bytes \<Rightarrow> bytes \<Rightarrow> bytes \<Rightarrow> bytes \<Rightarrow> (proof_error, unit) result" where
  "VerifyMultiSigProof C zone settlement pubKeyA pubKeyB sigA sigB =
     (case settlement of
        None \<Rightarrow> Inl PrNoSettlement
      | Some s \<Rightarrow>
          let data = settlement_Serialize zone (settlement_tx s) in
          rbind (proof_check_sig C pubKeyA data sigA PrSignatureA) (\<lambda>_.
          rbind (proof_check_sig C pubKeyB data sigB PrSignatureB) (\<lambda>_.
            if (length sigA = 0 \<or> length pubKeyA = 0) \<and> (length sigB = 0 \<or> length pubKeyB = 0)
            then Inl PrNoValidSignature else Inr ())))"

text \<open>A \<^verbatim>\<open>nil\<close> proof is dereferenced after the other checks.\<close>

definition VerifyStateTransitionProof ::
  "crypto \<Rightarrow> SignedState option \<Rightarrow> SignedState option \<Rightarrow> SettlementProof option \<Rightarrow> (proof_error, unit) result" where
  "VerifyStateTransitionProof C oldState newState proof' =
     (case (oldState, newState) of
        (Some old, Some new) \<Rightarrow>
          if ss_Sequence new \<le> ss_Sequence old then Inl (PrSequence (ss_Sequence old) (ss_Sequence new))
          else let oldTotal = ss_BalanceA old + ss_BalanceB old; newTotal = ss_BalanceA new + ss_BalanceB new in
            if oldTotal \<noteq> newTotal then Inl (PrBalance oldTotal newTotal)
            else (case proof' of
              None \<Rightarrow> Inl PrPanic
            | Some p \<Rightarrow>
                if sp_StateHash p \<noteq> 0 \<and> computeStateHashFromSignedState C old \<noteq> sp_StateHash p
                   \<and> computeStateHashFromSignedState C new \<noteq> sp_StateHash p
                then Inl PrNeitherState else Inr ())
      | _ \<Rightarrow> Inl PrStates)"

text \<open>The state whose bytes serve as the proof has the zero time.\<close>

definition GenerateSettlementProof ::
  "crypto \<Rightarrow> SettlementManager \<Rightarrow> Manager \<Rightarrow> hash \<Rightarrow> (proof_error, SettlementProof) result" where
  "GenerateSettlementProof C sm m channelID =
     (case sm_settlements sm channelID of
        None \<Rightarrow> Inl (PrNotFound SmNotFound)
      | Some s \<Rightarrow>
          (case GetChannelState m channelID of
             Inl e \<Rightarrow> Inl (PrChannel e)
           | Inr channel \<Rightarrow>
               let signatures = (if length (st_SigA s) > 0 then [(''PartyA'', st_SigA s)] else []);
                   signatures = (if length (st_SigB s) > 0 then signatures @ [(''PartyB'', st_SigB s)] else signatures)
               in Inr \<lparr>sp_Settlement = Some s,
                       sp_StateProof = serializeState \<lparr>ss_ChannelID = channelID, ss_Sequence = st_Sequence s,
                         ss_BalanceA = st_BalanceA s, ss_BalanceB = st_BalanceB s, ss_SigA = [], ss_SigB = [],
                         ss_Timestamp = 0\<rparr>,
                       sp_StateHash = computeStateHash C channel, sp_Signatures = signatures,
                       sp_BlockNumber = st_BlockNumber s, sp_BlockHash = 0, sp_Timestamp = st_Timestamp s\<rparr>))"

end
