(* ===== verification/Settlement_Runs.thy ===== *)
theory Settlement_Runs
  imports Settlement_Proof Multisig Dispute_Runs
begin

text \<open>
  What settling a channel does. The locale \<open>output_locker\<close> states what a locker promises about the outputs
  it holds: only a live output can be spent, spending ends it, and no call revives one. The repository's
  own adapter interprets it. From that contract alone a cooperative settlement cannot succeed.
\<close>

section \<open>Lockers that spend an output once\<close>

locale output_locker =
  fixes spend :: "'w \<Rightarrow> UTXO \<Rightarrow> bytes \<Rightarrow> bytes \<Rightarrow> TXOutput list \<Rightarrow> bool \<times> 'w"
    and live :: "'w \<Rightarrow> hash \<Rightarrow> u32 \<Rightarrow> bool"
  assumes spend_live: "fst (spend w u a b outs) \<Longrightarrow> live w (u_TxHash u) (u_Index u)"
    and spend_ends: "fst (spend w u a b outs) \<Longrightarrow> \<not> live (snd (spend w u a b outs)) (u_TxHash u) (u_Index u)"
    and no_revival: "live (snd (spend w u a b outs)) h i \<Longrightarrow> live w h i"
begin

lemma no_second_spend:
  assumes "fst (spend w u a b outs)" and "u_TxHash u' = u_TxHash u" and "u_Index u' = u_Index u"
  shows "\<not> fst (spend (snd (spend w u a b outs)) u' a' b' outs')"
  using assms spend_live spend_ends by metis

lemma stays_dead: "\<not> live w h i \<Longrightarrow> \<not> live (snd (spend w u a b outs)) h i"
  using no_revival by blast

end

definition adapter_spend :: "crypto \<Rightarrow> MultiSigStoreAdapter spender" where
  "adapter_spend C a u sigA sigB outs =
     (case SpendMultiSig C a u sigA sigB outs of Inl _ \<Rightarrow> (False, a) | Inr a' \<Rightarrow> (True, a'))"

definition adapter_live :: "MultiSigStoreAdapter \<Rightarrow> hash \<Rightarrow> u32 \<Rightarrow> bool" where
  "adapter_live a h i \<longleftrightarrow> mst_scripts (ad_multiSig a) (UTXOKey h i) \<noteq> None"

lemmas adapter_spend_defs = adapter_spend_def adapter_live_def SpendMultiSig_def Let_def

interpretation adapter_outputs: output_locker "adapter_spend C" adapter_live for C
  by unfold_locales (auto simp: adapter_spend_defs split: option.splits if_splits)

section \<open>Cooperative settlements\<close>

lemma GetChannelState_cases:
  "GetChannelState m i = (case ma_channels m i of None \<Rightarrow> Inl ErrChannelNotFound | Some ch \<Rightarrow> Inr ch)"
  by (simp add: GetChannelState_def)

lemma put_settlement_simps [simp]:
  "sm_settlements (put_settlement sm i s) = (sm_settlements sm)(i \<mapsto> s)"
  "sm_challengePeriod (put_settlement sm i s) = sm_challengePeriod sm"
  by (simp_all add: put_settlement_def)

text \<open>The two calls \<^verbatim>\<open>ExecuteSettlement\<close> and \<^verbatim>\<open>CloseChannel\<close> make.\<close>

definition channel_spend :: "'w spender \<Rightarrow> 'w \<Rightarrow> Channel \<Rightarrow> Settlement \<Rightarrow> bool \<times> 'w" where
  "channel_spend sp w ch s =
     sp w (funding_utxo ch (ch_BalanceA ch + ch_BalanceB ch)) (st_SigA s) (st_SigB s)
       (party_outputs ch (st_BalanceA s) (st_BalanceB s))"

lemma close_in_closes:
  assumes "close_in C sp m w i st = (m', w', None)"
  shows "ss_ChannelID st = i \<and> (\<exists>ch u. ma_channels m i = Some ch \<and> u_TxHash u = ch_StateHash ch \<and> u_Index u = 0
    \<and> fst (sp w u (ss_SigA st) (ss_SigB st) (party_outputs ch (ss_BalanceA st) (ss_BalanceB st))))"
proof -
  have "CloseChannel C (world_locker sp w) m i st = Inr m'"
    using assms by (auto simp: close_in_def Let_def split: sum.splits)
  then show ?thesis
    by (auto simp: CloseChannel_def rbind_Inr_iff Let_def world_locker_def party_outputs_def split: if_splits
        intro!: exI [of _ "\<lparr>u_TxHash = _, u_Index = 0, u_Value = _, u_Script = _, u_Address = _\<rparr>"])
qed

lemma close_in_fails: "close_in C sp m w i st = (m', w', Some e) \<Longrightarrow> m' = m"
  by (auto simp: close_in_def Let_def split: sum.splits)

lemma close_in_world:
  "close_in C sp m w i st = (m', w', err) \<Longrightarrow> w' = w \<or> (\<exists>u a b outs. w' = snd (sp w u a b outs))"
  by (auto simp: close_in_def Let_def split: sum.splits if_splits option.splits)

lemma close_in_after_spend:
  assumes L: "output_locker sp live" and ch: "ma_channels m i = Some ch" and dead: "\<not> live w (ch_StateHash ch) 0"
    and run: "close_in C sp m w (ch_ID ch) st = (m', w', err)" and st: "ss_ChannelID st = i"
  shows "m' = m \<and> err \<noteq> None \<and> \<not> live w' (ch_StateHash ch) 0"
proof -
  have err: "err \<noteq> None"
  proof
    assume "err = None"
    then have "ss_ChannelID st = ch_ID ch \<and> (\<exists>c u. ma_channels m (ch_ID ch) = Some c
        \<and> u_TxHash u = ch_StateHash c \<and> u_Index u = 0
        \<and> fst (sp w u (ss_SigA st) (ss_SigB st) (party_outputs c (ss_BalanceA st) (ss_BalanceB st))))"
      using close_in_closes [of C sp m w "ch_ID ch" st m' w'] run by simp
    then show False
      using ch st dead output_locker.spend_live [OF L] by (metis option.inject)
  qed
  moreover have "m' = m"
    using err run close_in_fails by (cases err) auto
  moreover have "\<not> live w' (ch_StateHash ch) 0"
    using close_in_world [OF run] dead output_locker.stays_dead [OF L] by metis
  ultimately show ?thesis by simp
qed

lemma ExecuteSettlement_pending:
  assumes "sm_settlements sm i = Some s" "st_Status s = SettlementPending" "ma_channels m i = Some ch"
    and "ExecuteSettlement C sp sm m w i = (sm', m', w', r, err)"
  obtains (rejected) "\<not> fst (channel_spend sp w ch s)" "m' = m" "err = Some SmSpend"
      "r = Some (s\<lparr>st_Status := SettlementFailed\<rparr>)" "sm' = put_settlement sm i (s\<lparr>st_Status := SettlementFailed\<rparr>)"
      "w' = snd (channel_spend sp w ch s)"
    | (spent) e st where "fst (channel_spend sp w ch s)" "ss_ChannelID st = i"
      "r = Some (s\<lparr>st_Status := SettlementConfirming\<rparr>)" "sm' = put_settlement sm i (s\<lparr>st_Status := SettlementConfirming\<rparr>)"
      "close_in C sp m (snd (channel_spend sp w ch s)) (ch_ID ch) st = (m', w', e)" "err = map_option SmClose e"
proof (cases "fst (channel_spend sp w ch s)")
  case True
  let ?s = "s\<lparr>st_Status := SettlementConfirming\<rparr>"
  let ?st = "\<lparr>ss_ChannelID = i, ss_Sequence = st_Sequence ?s, ss_BalanceA = st_BalanceA ?s, ss_BalanceB = st_BalanceB ?s,
     ss_SigA = st_SigA ?s, ss_SigB = st_SigB ?s, ss_Timestamp = st_Timestamp ?s\<rparr>"
  obtain m2 w2 e where c: "close_in C sp m (snd (channel_spend sp w ch s)) (ch_ID ch) ?st = (m2, w2, e)"
    by (rule prod_cases3)
  moreover from this have "sm' = put_settlement sm i ?s \<and> m' = m2 \<and> w' = w2 \<and> r = Some ?s \<and> err = map_option SmClose e"
    using assms True
    by (auto simp: ExecuteSettlement_def GetChannelState_def channel_spend_def Let_def split_beta)
  ultimately show ?thesis
    using True by (intro spent [of ?st e]) auto
next
  case False
  then show ?thesis
    using assms by (intro rejected) (auto simp: ExecuteSettlement_def GetChannelState_def channel_spend_def Let_def split_beta)
qed

text \<open>C22. A cooperative settlement never succeeds, whatever the locker, as long as it lets an output be spent once:
  \<^verbatim>\<open>ExecuteSettlement\<close> spends the channel's output itself and then calls \<^verbatim>\<open>CloseChannel\<close>, which spends it again and
  fails. Every call returns an error and leaves the channel manager as it was; when the first spend succeeded the
  output is gone, the settlement is confirming, and the channel is not closed.\<close>

theorem execute_settlement_never_succeeds:
  assumes L: "output_locker sp live" and run: "ExecuteSettlement C sp sm m w i = (sm', m', w', r, err)"
  shows "err \<noteq> None \<and> m' = m
    \<and> (\<forall>s ch. r = Some s \<and> ma_channels m i = Some ch \<longrightarrow>
         err = Some SmSpend \<and> st_Status s = SettlementFailed
         \<or> \<not> live w' (ch_StateHash ch) 0 \<and> st_Status s = SettlementConfirming \<and> sm_settlements sm' i = Some s)"
proof (cases "\<exists>s ch. sm_settlements sm i = Some s \<and> st_Status s = SettlementPending \<and> ma_channels m i = Some ch")
  case False
  then have "err \<noteq> None \<and> m' = m \<and> r = None"
    using run by (auto simp: ExecuteSettlement_def GetChannelState_def Let_def split: option.splits if_splits)
  then show ?thesis by simp
next
  case True
  then obtain s ch where *: "sm_settlements sm i = Some s" "st_Status s = SettlementPending" "ma_channels m i = Some ch"
    by blast
  show ?thesis
  proof (cases rule: ExecuteSettlement_pending [OF * run, case_names rejected spent])
    case rejected
    then show ?thesis by simp
  next
    case (spent e st)
    have "\<not> live (snd (channel_spend sp w ch s)) (ch_StateHash ch) 0"
      using output_locker.spend_ends [OF L] spent(1) by (fastforce simp: channel_spend_def funding_utxo_def)
    from close_in_after_spend [OF L *(3) this spent(5,2)] show ?thesis
      using spent * by auto
  qed
qed

text \<open>The record goes on to be complete although the channel is still open.\<close>

lemma confirming_completes:
  "sm_settlements sm i = Some s \<Longrightarrow> st_Status s = SettlementConfirming \<Longrightarrow>
   \<exists>sm'. ConfirmSettlement sm i = Inr sm' \<and> sm_settlements sm' i = Some (s\<lparr>st_Status := SettlementComplete\<rparr>)"
  by (simp add: ConfirmSettlement_def)

section \<open>Force closes\<close>

text \<open>A state that only the first party has signed, with balances of its choice.\<close>

definition one_signed :: "crypto \<Rightarrow> bytes \<Rightarrow> hash \<Rightarrow> u64 \<Rightarrow> u64 \<Rightarrow> u64 \<Rightarrow> int \<Rightarrow> SignedState" where
  "one_signed C priv i n x y t =
     (let st = \<lparr>ss_ChannelID = i, ss_Sequence = n, ss_BalanceA = x, ss_BalanceB = y, ss_SigA = [], ss_SigB = [],
                ss_Timestamp = t\<rparr>
      in st\<lparr>ss_SigA := ed_sign C priv (serializeState st)\<rparr>)"

lemma serializeState_SigA [simp]: "serializeState (st\<lparr>ss_SigA := s\<rparr>) = serializeState st"
  by (simp add: serializeState_def)

lemma one_signed_sel [simp]:
  "ss_BalanceA (one_signed C priv i n x y t) = x" "ss_BalanceB (one_signed C priv i n x y t) = y"
  "ss_SigB (one_signed C priv i n x y t) = []" "ss_ChannelID (one_signed C priv i n x y t) = i"
  by (simp_all add: one_signed_def Let_def)

lemma one_signed_verifies:
  assumes "key_pair C priv" and "ed25519_Public priv = hash_bytes p"
  shows "settle_check_sig C p (serializeState (one_signed C priv i n x y t)) (ss_SigA (one_signed C priv i n x y t)) bad = Inr ()"
    and "ss_SigA (one_signed C priv i n x y t) \<noteq> []"
  using key_pair_verifies [OF assms(1)] assms(2)
  by (simp_all add: settle_check_sig_def one_signed_def serializeState_def Let_def)

lemma unsigned_B_rejected: "ss_SigB st = [] \<Longrightarrow> verifySignatures C ch st \<noteq> Inr ()"
  by (auto simp: verifySignatures_def rbind_Inr_iff verify_party_def)

text \<open>One signature is enough to have any balances paid out. The first party hands in a state that nobody else has
  signed, whose balances need not add up to the channel's; the channel manager refuses the force close and stays
  as it is, but the settlement has been stored before, and once the challenge period is over
  \<^verbatim>\<open>ConfirmForceClose\<close> asks the locker to pay these balances with an empty second signature. The channel stays open.\<close>

theorem refused_force_close_pays:
  assumes key: "key_pair C priv" "ed25519_Public priv = hash_bytes (ch_PartyA ch)"
    and m: "ma_channels m i = Some ch" "ma_states m i = Some cs" "cs_Status cs = StateOpen"
  shows "\<exists>sm1 s e. settlement_ForceClose C zone t1 t2 t3 sm m i (one_signed C priv i n x y t) p = (sm1, m, Some s, Some e)
    \<and> (\<forall>now now' now'' sp w. t1 + sm_challengePeriod sm \<le> now \<longrightarrow>
         (\<exists>sm2 s2 e2. ConfirmForceClose sp now now' now'' sm1 m w i
           = (sm2, m, snd (sp w (funding_utxo ch (ch_BalanceA ch + ch_BalanceB ch))
                             (ss_SigA (one_signed C priv i n x y t)) [] (party_outputs ch x y)), Some s2, Some e2)))"
proof -
  let ?st = "one_signed C priv i n x y t"
  have "\<exists>e. ForceClose C t3 m i ?st = Inl e"
    using m unsigned_B_rejected [of ?st C ch]
    by (cases "ForceClose C t3 m i ?st") (auto simp: ForceClose_def rbind_Inr_iff)
  then obtain e where refused: "ForceClose C t3 m i ?st = Inl e" ..
  have final: "FinalizeClose now'' m i = Inl (ChStatus StateOpen)" for now''
    using m by (simp add: FinalizeClose_def lookup_channel_def)
  show ?thesis
    using one_signed_verifies [OF key] refused final m
    by (simp add: settlement_ForceClose_def GetChannelState_def settle_check_sig_def [of C _ _ "[]"] Let_def
        ConfirmForceClose_def split_beta)
qed

text \<open>A dispute does not stop the payout either: \<^verbatim>\<open>ConfirmForceClose\<close> spends the channel's output before the channel
  manager gets to refuse, so a channel that is in dispute (or open, or closed) keeps its status while the output
  is gone.\<close>

theorem dispute_too_late:
  assumes L: "output_locker sp live"
    and s: "sm_settlements sm i = Some s" "st_Type s = SettlementForce" "st_Status s = SettlementPending"
      "st_ChallengeEnd s = Some deadline" "deadline \<le> now"
    and m: "ma_channels m i = Some ch" "ma_states m i = Some cs" "cs_Status cs \<noteq> StateClosing"
    and ok: "fst (channel_spend sp w ch s)"
  shows "\<exists>sm' w'. ConfirmForceClose sp now now' now'' sm m w i
      = (sm', m, w', Some (s\<lparr>st_Status := SettlementConfirming\<rparr>), Some (SmFinalize (ChStatus (cs_Status cs))))
    \<and> \<not> live w' (ch_StateHash ch) 0"
proof -
  have "FinalizeClose now'' m i = Inl (ChStatus (cs_Status cs))"
    using m by (simp add: FinalizeClose_def lookup_channel_def)
  moreover have "\<not> live (snd (channel_spend sp w ch s)) (ch_StateHash ch) 0"
    using output_locker.spend_ends [OF L] ok by (fastforce simp: channel_spend_def funding_utxo_def)
  ultimately show ?thesis
    using assms by (auto simp: ConfirmForceClose_def GetChannelState_def channel_spend_def Let_def split_beta)
qed

section \<open>Well-formed records\<close>

text \<open>What a stored record looks like, by its type.\<close>

definition signature_form :: "bytes \<Rightarrow> bool" where
  "signature_form sig \<longleftrightarrow> sig = [] \<or> length sig = 64"

definition settlement_ok :: "hash \<Rightarrow> Settlement \<Rightarrow> bool" where
  "settlement_ok i s \<longleftrightarrow> st_ChannelID s = i \<and>
     (case st_Type s of
        SettlementCooperative \<Rightarrow> st_ChallengeEnd s = None \<and> length (st_SigA s) = 64 \<and> length (st_SigB s) = 64
      | SettlementForce \<Rightarrow> st_ChallengeEnd s \<noteq> None \<and> signature_form (st_SigA s) \<and> signature_form (st_SigB s)
          \<and> (st_SigA s \<noteq> [] \<or> st_SigB s \<noteq> [])
      | SettlementDispute \<Rightarrow> st_ChallengeEnd s = None \<and> st_SigA s = [] \<and> st_SigB s = []
          \<and> st_Status s \<noteq> SettlementPending \<and> st_Status s \<noteq> SettlementCancelled)"

definition settlements_ok :: "SettlementManager \<Rightarrow> bool" where
  "settlements_ok sm \<longleftrightarrow> (\<forall>i s. sm_settlements sm i = Some s \<longrightarrow> settlement_ok i s)"

lemma settlements_ok_put: "settlements_ok sm \<Longrightarrow> settlement_ok i s \<Longrightarrow> settlements_ok (put_settlement sm i s)"
  by (simp add: settlements_ok_def)

lemma settlements_okD: "settlements_ok sm \<Longrightarrow> sm_settlements sm i = Some s \<Longrightarrow> settlement_ok i s"
  by (simp add: settlements_ok_def)

text \<open>One operation of the settlement manager, of the channel manager, or a change of the locker by others.\<close>

inductive settle_step ::
  "crypto \<Rightarrow> 'w spender \<Rightarrow> SettlementManager \<times> Manager \<times> 'w \<Rightarrow> SettlementManager \<times> Manager \<times> 'w \<Rightarrow> bool"
  for C sp where
  build: "BuildSettlement C zone now sm m i st = Inr (sm', s) \<Longrightarrow> settle_step C sp (sm, m, w) (sm', m, w)"
| exec: "ExecuteSettlement C sp sm m w i = (sm', m', w', r, err) \<Longrightarrow> settle_step C sp (sm, m, w) (sm', m', w')"
| force: "settlement_ForceClose C zone t1 t2 t3 sm m i st p = (sm', m', r, err) \<Longrightarrow> settle_step C sp (sm, m, w) (sm', m', w)"
| confirm_force: "ConfirmForceClose sp t1 t2 t3 sm m w i = (sm', m', w', r, err) \<Longrightarrow> settle_step C sp (sm, m, w) (sm', m', w')"
| dispute: "ExecuteDisputeSettlement C sp now rnd sm m w i p pen = (sm', m', w', r, err) \<Longrightarrow>
    settle_step C sp (sm, m, w) (sm', m', w')"
| cancel: "CancelSettlement sm i = Inr sm' \<Longrightarrow> settle_step C sp (sm, m, w) (sm', m, w)"
| confirm: "ConfirmSettlement sm i = Inr sm' \<Longrightarrow> settle_step C sp (sm, m, w) (sm', m, w)"
| channel: "channel_step C m m' \<Longrightarrow> settle_step C sp (sm, m, w) (sm, m', w)"
| world: "settle_step C sp (sm, m, w) (sm, m, w')"

lemma validateSignedState_Inr:
  "validateSignedState C ch st = Inr () \<Longrightarrow>
   ss_ChannelID st = ch_ID ch \<and> ch_Sequence ch \<le> ss_Sequence st
   \<and> ss_BalanceA st + ss_BalanceB st = ch_BalanceA ch + ch_BalanceB ch
   \<and> length (ss_SigA st) = 64 \<and> length (ss_SigB st) = 64
   \<and> ed_verify C (hash_bytes (ch_PartyA ch)) (serializeState st) (ss_SigA st)
   \<and> ed_verify C (hash_bytes (ch_PartyB ch)) (serializeState st) (ss_SigB st)"
  by (auto simp: validateSignedState_def rbind_Inr_iff settle_verify_def ed25519_Verify_def Let_def not_less
      split: if_splits)

lemma settle_check_sig_Inr: "settle_check_sig C p d sig bad = Inr () \<Longrightarrow> signature_form sig"
  by (auto simp: settle_check_sig_def signature_form_def ed25519_Verify_def split: if_splits)

lemma settlement_ok_status:
  "settlement_ok i s \<Longrightarrow> x \<noteq> SettlementPending \<Longrightarrow> st_Type s \<noteq> SettlementDispute \<or> x \<noteq> SettlementCancelled \<Longrightarrow>
   settlement_ok i (s\<lparr>st_Status := x\<rparr>)"
  by (auto simp: settlement_ok_def split: SettlementType.splits)

lemma build_ok: "BuildSettlement C zone now sm m i st = Inr (sm', s) \<Longrightarrow> settlements_ok sm \<Longrightarrow> settlements_ok sm'"
  by (auto simp: BuildSettlement_def Let_def settlement_ok_def split: sum.splits if_splits option.splits
      dest!: validateSignedState_Inr intro!: settlements_ok_put)

lemma exec_ok: "ExecuteSettlement C sp sm m w i = (sm', m', w', r, err) \<Longrightarrow> settlements_ok sm \<Longrightarrow> settlements_ok sm'"
  by (auto simp: ExecuteSettlement_def Let_def split_beta split: sum.splits if_splits option.splits
      intro!: settlements_ok_put settlement_ok_status dest: settlements_okD)

lemma force_ok:
  assumes "settlement_ForceClose C zone t1 t2 t3 sm m i st p = (sm', m', r, err)" and "settlements_ok sm"
  shows "settlements_ok sm'"
  using assms
  by (auto simp: settlement_ForceClose_def Let_def settlement_ok_def rbind_Inr_iff split: sum.splits if_splits
      dest!: settle_check_sig_Inr intro!: settlements_ok_put)

lemma confirm_force_ok:
  "ConfirmForceClose sp t1 t2 t3 sm m w i = (sm', m', w', r, err) \<Longrightarrow> settlements_ok sm \<Longrightarrow> settlements_ok sm'"
  by (auto simp: ConfirmForceClose_def Let_def split_beta split: sum.splits if_splits option.splits
      intro!: settlements_ok_put settlement_ok_status dest: settlements_okD)

lemma dispute_ok:
  "ExecuteDisputeSettlement C sp now rnd sm m w i p pen = (sm', m', w', r, err) \<Longrightarrow> settlements_ok sm \<Longrightarrow> settlements_ok sm'"
  by (auto simp: ExecuteDisputeSettlement_def Let_def split_beta settlement_ok_def split: sum.splits if_splits option.splits
      intro!: settlements_ok_put)

lemma settle_step_ok: "settle_step C sp x y \<Longrightarrow> settlements_ok (fst x) \<Longrightarrow> settlements_ok (fst y)"
proof (induction rule: settle_step.induct)
  case (cancel sm i sm' m w)
  then obtain s where s: "sm_settlements sm i = Some s" "st_Status s = SettlementPending"
    "sm' = put_settlement sm i (s\<lparr>st_Status := SettlementCancelled\<rparr>)"
    by (auto simp: CancelSettlement_def split: option.splits if_splits)
  then have "settlement_ok i s" using cancel.prems by (simp add: settlements_okD)
  then have "settlement_ok i (s\<lparr>st_Status := SettlementCancelled\<rparr>)"
    using s(2) by (auto simp: settlement_ok_def split: SettlementType.splits)
  then show ?case using cancel.prems s(3) by (simp add: settlements_ok_put)
next
  case confirm
  then show ?case
    by (auto simp: ConfirmSettlement_def split: option.splits if_splits
        intro!: settlements_ok_put settlement_ok_status dest: settlements_okD)
qed (auto intro: build_ok exec_ok force_ok confirm_force_ok dispute_ok)

text \<open>C23. Every record the settlement manager ever holds is well formed: it names the channel it is stored under; a
  cooperative one has two signatures of 64 bytes and no challenge period, a force close has a challenge period and
  at least one signature, and a dispute settlement has no signatures and is never pending. So the check for a missing
  challenge period never fires.\<close>

theorem settlements_well_formed:
  assumes "NewSettlementManager b cfg = Inr sm0" and "(settle_step C sp)\<^sup>*\<^sup>* (sm0, m0, w0) (sm, m, w)"
  shows "settlements_ok sm \<and> snd (snd (snd (snd (ConfirmForceClose sp t1 t2 t3 sm m w i)))) \<noteq> Some SmNoChallengeEnd"
proof -
  have "settlements_ok sm0"
    using assms(1) by (auto simp: NewSettlementManager_def settlements_ok_def Let_def split: if_splits)
  moreover have "settlements_ok (fst x) \<Longrightarrow> settlements_ok (fst y)" if "(settle_step C sp)\<^sup>*\<^sup>* x y" for x y
    using that by (induction rule: rtranclp_induct) (auto intro: settle_step_ok)
  ultimately have ok: "settlements_ok sm"
    using assms(2) by fastforce
  then have "sm_settlements sm i = Some s \<Longrightarrow> st_Type s = SettlementForce \<Longrightarrow> st_ChallengeEnd s \<noteq> None" for s
    using settlements_okD [OF ok, of i s] by (simp add: settlement_ok_def)
  then show ?thesis
    using ok by (auto simp: ConfirmForceClose_def Let_def split_beta split: option.splits sum.splits)
qed

section \<open>Proofs and signatures\<close>

text \<open>No generated proof is ever accepted: \<^verbatim>\<open>GenerateSettlementProof\<close> leaves the block hash zero, which
  \<^verbatim>\<open>VerifySettlementProof\<close> rejects for every manager.\<close>

theorem generated_proof_rejected:
  assumes "GenerateSettlementProof C sm m i = Inr p"
  shows "VerifySettlementProof C' manager (Some p) \<noteq> Inr ()"
  using assms
  by (auto simp: GenerateSettlementProof_def VerifySettlementProof_def rbind_Inr_iff Let_def split: option.splits sum.splits)

text \<open>While a made-up proof is: without a manager any settlement with any nonempty bytes as state proof, block hash and
  signature is accepted; nothing in the proof is checked against anything.\<close>

lemma made_up_proof_accepted:
  "sp_Settlement p = Some s \<Longrightarrow> sp_StateHash p = 0 \<Longrightarrow> sp_StateProof p \<noteq> [] \<Longrightarrow> sp_BlockHash p \<noteq> 0 \<Longrightarrow>
   sp_Timestamp p \<noteq> 0 \<Longrightarrow> sp_Signatures p \<noteq> [] \<Longrightarrow> VerifySettlementProof C None (Some p) = Inr ()"
  by (simp add: VerifySettlementProof_def)

lemma be_bytes_inject: "x < 256 ^ k \<Longrightarrow> y < 256 ^ k \<Longrightarrow> be_bytes k x = be_bytes k y \<longleftrightarrow> x = y"
  by (metis be_val_be_bytes)

lemma time_MarshalBinary_inject:
  assumes "time_MarshalBinary zone t = time_MarshalBinary zone' t'"
    and "- (2 ^ 63) \<le> t div second" "t div second < 2 ^ 63" "- (2 ^ 63) \<le> t' div second" "t' div second < 2 ^ 63"
  shows "t = t'"
proof -
  have "nat (x mod second) < 256 ^ 4" for x
    using pos_mod_bound [of second x] by (simp add: second_def)
  then have n: "nat (t mod second) = nat (t' mod second)" and w: "(of_int (t div second) :: u64) = of_int (t' div second)"
    using assms(1) by (auto simp: time_MarshalBinary_def be_bytes_inject)
  have "t mod second = t' mod second"
    using n pos_mod_sign [of second t] pos_mod_sign [of second t'] by (simp add: second_def)
  moreover have "sint (of_int (t div second) :: u64) = t div second" "sint (of_int (t' div second) :: u64) = t' div second"
    using assms(2-) by (simp_all add: sint_sbintrunc' signed_take_bit_int_eq_self)
  then have "t div second = t' div second"
    using w by metis
  ultimately show ?thesis by (metis div_mult_mod_eq)
qed

text \<open>The signed bytes of a settlement transaction determine all its fields except the signatures, for times whose
  seconds fit 64 bits.\<close>

lemma settlement_Serialize_inject:
  assumes "settlement_Serialize zone x = settlement_Serialize zone' y"
    and "- (2 ^ 63) \<le> sx_Timestamp x div second" "sx_Timestamp x div second < 2 ^ 63"
      "- (2 ^ 63) \<le> sx_Timestamp y div second" "sx_Timestamp y div second < 2 ^ 63"
  shows "x\<lparr>sx_SigA := [], sx_SigB := []\<rparr> = y\<lparr>sx_SigA := [], sx_SigB := []\<rparr>"
proof -
  have "time_MarshalBinary zone (sx_Timestamp x) = time_MarshalBinary zone' (sx_Timestamp y)"
    "sx_ChannelID x = sx_ChannelID y" "sx_SettlementID x = sx_SettlementID y" "sx_BalanceA x = sx_BalanceA y"
    "sx_BalanceB x = sx_BalanceB y" "sx_Sequence x = sx_Sequence y"
    using assms(1) by (auto simp: settlement_Serialize_def)
  then show ?thesis
    using time_MarshalBinary_inject [OF _ assms(2-)] by (cases x; cases y) auto
qed

text \<open>The bytes a state is signed over contain one byte of its time, so the state that \<^verbatim>\<open>ExecuteSettlement\<close> hands on,
  which carries the time of the settlement, has the signed bytes only when the seconds agree modulo 256.\<close>

lemma settlement_time_bytes:
  "serializeState (st\<lparr>ss_Timestamp := t\<rparr>) = serializeState st
   \<longleftrightarrow> (t div second) mod 256 = (ss_Timestamp st div second) mod 256"
proof -
  have "(of_int a :: byte) = of_int b \<longleftrightarrow> a mod 256 = b mod 256" for a b :: int
    by (simp add: word_of_int_eq_iff take_bit_eq_mod)
  then have "(of_int (a - 62135596800) :: byte) = of_int (b - 62135596800) \<longleftrightarrow> a mod 256 = b mod 256" for a b :: int
    by (simp add: mod_eq_dvd_iff)
  then show ?thesis
    by (simp add: serializeState_def)
qed

section \<open>A concrete settlement\<close>

definition demo_settlement :: "SettlementType \<Rightarrow> Settlement" where
  "demo_settlement ty =
     \<lparr>st_ID = 9, st_ChannelID = 5, st_StateHash = 0, st_BalanceA = 40, st_BalanceB = 60, st_Sequence = 1, st_Type = ty,
      st_Status = SettlementPending, st_Initiator = 1, st_Timestamp = 1, st_BlockNumber = 0, st_TxHash = 0,
      st_SigA = replicate 64 0, st_SigB = replicate 64 0, st_ChallengeEnd = Some 10\<rparr>"

definition demo_settlements :: "SettlementType \<Rightarrow> SettlementManager" where
  "demo_settlements ty =
     \<lparr>sm_settlements = [5 \<mapsto> demo_settlement ty], sm_challengePeriod = 10, sm_confirmationDepth = 6,
      sm_minSettlementAmount = 1\<rparr>"

definition demo_in_dispute :: Manager where
  "demo_in_dispute = put_channel demo_open 5 demo_channel
     \<lparr>cs_Status = StateInDispute, cs_LastUpdate = 0, cs_PendingHTLCs = Map.empty, cs_ReceivedNonce = 0\<rparr>"

lemma demo_channel_of: "ma_channels demo_open 5 = Some demo_channel" "ma_channels demo_in_dispute 5 = Some demo_channel"
  "ch_StateHash demo_channel = temp_hash demo_crypto" "ch_PartyA demo_channel = 1"
  by (simp_all add: demo_open_def demo_in_dispute_def demo_channel_def temp_hash_def demo_crypto_def)

lemma demo_states: "\<exists>cs. ma_states demo_open 5 = Some cs \<and> cs_Status cs = StateOpen"
  "\<exists>cs. ma_states demo_in_dispute 5 = Some cs \<and> cs_Status cs = StateInDispute"
  by (simp_all add: demo_open_def demo_in_dispute_def)

lemma demo_spend:
  "u_TxHash u = temp_hash demo_crypto \<Longrightarrow> u_Index u = 0 \<Longrightarrow> fst (adapter_spend demo_crypto demo_adapter u a b outs)"
  by (simp add: adapter_spend_defs demo_adapter_def CreateMultiSigOutput_def)

lemma demo_channel_spend: "fst (channel_spend (adapter_spend demo_crypto) demo_adapter demo_channel s)"
  unfolding channel_spend_def by (rule demo_spend) (simp_all add: funding_utxo_def demo_channel_of)

theorem execute_settlement_never_succeeds_witness:
  "\<exists>sm' w' e s. ExecuteSettlement demo_crypto (adapter_spend demo_crypto) (demo_settlements SettlementCooperative)
       demo_open demo_adapter 5 = (sm', demo_open, w', Some s, Some e)
     \<and> st_Status s = SettlementConfirming \<and> \<not> adapter_live w' (ch_StateHash demo_channel) 0"
proof -
  let ?sm = "demo_settlements SettlementCooperative" and ?s = "demo_settlement SettlementCooperative"
  obtain sm' m' w' r err where run: "ExecuteSettlement demo_crypto (adapter_spend demo_crypto) ?sm demo_open demo_adapter 5
      = (sm', m', w', r, err)"
    by (rule prod_cases5)
  have s: "sm_settlements ?sm 5 = Some ?s" "st_Status ?s = SettlementPending"
    by (simp_all add: demo_settlements_def demo_settlement_def)
  have "\<exists>s. r = Some s \<and> st_Status s = SettlementConfirming"
  proof (cases rule: ExecuteSettlement_pending [OF s demo_channel_of(1) run, case_names rejected spent])
    case rejected
    then show ?thesis using demo_channel_spend by blast
  next
    case (spent e st)
    then show ?thesis by simp
  qed
  then obtain s where r: "r = Some s" "st_Status s = SettlementConfirming" by blast
  then show ?thesis
    using execute_settlement_never_succeeds [OF adapter_outputs.output_locker_axioms run] run demo_channel_of(1) by auto
qed

theorem refused_force_close_pays_witness:
  "\<exists>sm1 s e. settlement_ForceClose demo_crypto 0 0 0 0 (demo_settlements SettlementCooperative) demo_open 5
        (one_signed demo_crypto demo_key 5 0 1000000 0 0) 1 = (sm1, demo_open, Some s, Some e)
    \<and> (\<exists>sm2 w2 s2 e2. ConfirmForceClose (adapter_spend demo_crypto) 20 20 20 sm1 demo_open demo_adapter 5
          = (sm2, demo_open, w2, Some s2, Some e2)
        \<and> GetBalance (ad_utxoStore w2) 1 = 1000000)"
proof -
  obtain cs where cs: "ma_states demo_open 5 = Some cs" "cs_Status cs = StateOpen"
    using demo_states(1) by blast
  let ?pay = "\<lambda>sig. adapter_spend demo_crypto demo_adapter
     (funding_utxo demo_channel (ch_BalanceA demo_channel + ch_BalanceB demo_channel)) sig [] (party_outputs demo_channel 1000000 0)"
  have paid: "GetBalance (ad_utxoStore (snd (?pay sig))) 1 = 1000000" for sig
    by (simp add: adapter_spend_defs funding_utxo_def party_outputs_def demo_adapter_def CreateMultiSigOutput_def
        demo_channel_def temp_hash_def demo_crypto_def NewMultiSigStoreAdapter_def NewUTXOStore_def AddUTXO_def
        output_utxo_def map_get_def GetBalance_def)
  have pub: "ed25519_Public demo_key = hash_bytes (ch_PartyA demo_channel)"
    using demo_key_pair(2) demo_channel_of(4) by simp
  let ?sig = "ss_SigA (one_signed demo_crypto demo_key 5 0 1000000 0 0)"
  obtain sm1 s e where run: "settlement_ForceClose demo_crypto 0 0 0 0 (demo_settlements SettlementCooperative) demo_open 5
      (one_signed demo_crypto demo_key 5 0 1000000 0 0) 1 = (sm1, demo_open, Some s, Some e)"
    and later: "\<forall>now now' now'' (sp :: MultiSigStoreAdapter spender) w. 0 + sm_challengePeriod (demo_settlements SettlementCooperative) \<le> now \<longrightarrow>
      (\<exists>sm2 s2 e2. ConfirmForceClose sp now now' now'' sm1 demo_open w 5 = (sm2, demo_open,
         snd (sp w (funding_utxo demo_channel (ch_BalanceA demo_channel + ch_BalanceB demo_channel)) ?sig []
               (party_outputs demo_channel 1000000 0)), Some s2, Some e2))"
    using refused_force_close_pays [OF demo_key_pair(1) pub demo_channel_of(1) cs, of 0 0 0 0
        "demo_settlements SettlementCooperative" 0 1000000 0 0 1] by (elim exE conjE)
  have "0 + sm_challengePeriod (demo_settlements SettlementCooperative) \<le> 20"
    by (simp add: demo_settlements_def)
  then have "\<exists>sm2 s2 e2. ConfirmForceClose (adapter_spend demo_crypto) 20 20 20 sm1 demo_open demo_adapter 5
      = (sm2, demo_open, snd (?pay ?sig), Some s2, Some e2)"
    using later by blast
  then show ?thesis
    using run paid [of ?sig] by blast
qed

theorem dispute_too_late_witness:
  "\<exists>sm' w' s. ConfirmForceClose (adapter_spend demo_crypto) 20 20 20 (demo_settlements SettlementForce) demo_in_dispute demo_adapter 5
      = (sm', demo_in_dispute, w', Some s, Some (SmFinalize (ChStatus StateInDispute)))
    \<and> \<not> adapter_live w' (ch_StateHash demo_channel) 0"
proof -
  obtain cs where cs: "ma_states demo_in_dispute 5 = Some cs" "cs_Status cs = StateInDispute"
    using demo_states(2) by blast
  have s: "sm_settlements (demo_settlements SettlementForce) 5 = Some (demo_settlement SettlementForce)"
    "st_Type (demo_settlement SettlementForce) = SettlementForce" "st_Status (demo_settlement SettlementForce) = SettlementPending"
    "st_ChallengeEnd (demo_settlement SettlementForce) = Some 10"
    by (simp_all add: demo_settlements_def demo_settlement_def)
  show ?thesis
    using dispute_too_late [OF adapter_outputs.output_locker_axioms s _ demo_channel_of(2) cs(1) _ demo_channel_spend, of 20 20 20] cs(2)
    by auto
qed

definition demo_config :: SettlementConfig where
  "demo_config = \<lparr>sc_ChallengePeriod = 10, sc_ConfirmationDepth = 6, sc_MinSettlementAmount = 1, sc_HasLocker = True\<rparr>"

theorem settlements_well_formed_witness:
  "\<exists>(sm :: SettlementManager) (s :: Settlement). sm_settlements sm 5 = Some s \<and> settlement_ok 5 s \<and> st_Type s = SettlementForce"
proof -
  obtain sm0 where sm0: "NewSettlementManager True (Some demo_config) = Inr sm0"
    by (simp add: NewSettlementManager_def demo_config_def)
  obtain cs where cs: "ma_states demo_open 5 = Some cs" "cs_Status cs = StateOpen"
    using demo_states(1) by blast
  have pub: "ed25519_Public demo_key = hash_bytes (ch_PartyA demo_channel)"
    using demo_key_pair(2) demo_channel_of(4) by simp
  let ?st = "one_signed demo_crypto demo_key 5 0 7 0 0"
  obtain sm1 s e where run: "settlement_ForceClose demo_crypto 0 0 0 0 sm0 demo_open 5 ?st 1 = (sm1, demo_open, Some s, Some e)"
    using refused_force_close_pays [OF demo_key_pair(1) pub demo_channel_of(1) cs, of 0 0 0 0 sm0 0 7 0 0 1]
    by (elim exE conjE)
  then have s: "sm_settlements sm1 5 = Some s" "st_Type s = SettlementForce"
    by (auto simp: settlement_ForceClose_def Let_def split: sum.splits if_splits)
  have "(settle_step demo_crypto (adapter_spend demo_crypto))\<^sup>*\<^sup>* (sm0, demo_open, demo_adapter) (sm1, demo_open, demo_adapter)"
    by (rule r_into_rtranclp) (rule settle_step.force [OF run])
  from settlements_well_formed [OF sm0 this] have "settlements_ok sm1" by blast
  then show ?thesis using s settlements_okD by blast
qed

theorem generated_proof_rejected_witness:
  "\<exists>p. GenerateSettlementProof demo_crypto (demo_settlements SettlementForce) demo_open 5 = Inr p
     \<and> VerifySettlementProof demo_crypto (Some (demo_settlements SettlementForce)) (Some p) \<noteq> Inr ()"
proof -
  obtain p where "GenerateSettlementProof demo_crypto (demo_settlements SettlementForce) demo_open 5 = Inr p"
    by (simp add: GenerateSettlementProof_def demo_settlements_def GetChannelState_def demo_channel_of Let_def)
  with generated_proof_rejected [OF this] show ?thesis by blast
qed

end
