(* ===== verification/Watchtower.thy ===== *)
theory Watchtower
  imports Channel_Runs Float64
begin

text \<open>
  \<^verbatim>\<open>pkg/channel/watchtower.go\<close>: the service that watches channels, collects evidence of fraud and
  punishes. Its goroutines communicate through three buffered Go channels, which are queues with a
  capacity here; a send inside a \<^verbatim>\<open>select\<close> with a default drops the value when the queue is full. One
  iteration of a loop and one call of a method are one step. A method's readings of the clock are
  numbered in the order of the code and given by \<open>en_clock\<close>. Left out: the details map of an alert (values
  for display), the callbacks (code of the client), the fields of the configuration nothing reads
  (block checker, peers), sends after \<^verbatim>\<open>Stop\<close> has closed the queues, unbuffered alert queues, and
  interleavings inside one method between the two sections in which it holds the mutex. The penalty
  multiplier is a non-negative number as in \<open>Float64\<close>.
\<close>

section \<open>Data\<close>

datatype FraudType =
    FraudTypeInvalidClose
  | FraudTypeDoubleClose
  | FraudTypeStateReversion
  | FraudTypeBalanceManipulation
  | FraudTypeSequenceRollback
  | FraudTypeUnauthorizedClose

fun FraudType_String :: "FraudType \<Rightarrow> string" where
  "FraudType_String FraudTypeInvalidClose = ''invalid_close''"
| "FraudType_String FraudTypeDoubleClose = ''double_close''"
| "FraudType_String FraudTypeStateReversion = ''state_reversion''"
| "FraudType_String FraudTypeBalanceManipulation = ''balance_manipulation''"
| "FraudType_String FraudTypeSequenceRollback = ''sequence_rollback''"
| "FraudType_String FraudTypeUnauthorizedClose = ''unauthorized_close''"

datatype AlertLevel = AlertLevelInfo | AlertLevelWarning | AlertLevelCritical | AlertLevelEmergency

fun AlertLevel_String :: "AlertLevel \<Rightarrow> string" where
  "AlertLevel_String AlertLevelInfo = ''INFO''"
| "AlertLevel_String AlertLevelWarning = ''WARNING''"
| "AlertLevel_String AlertLevelCritical = ''CRITICAL''"
| "AlertLevel_String AlertLevelEmergency = ''EMERGENCY''"

datatype AlertType =
    AlertTypeTransactionAnomaly
  | AlertTypeChannelAnomaly
  | AlertTypeNetworkIssue
  | AlertTypeFraudAttempt
  | AlertTypePunishmentTriggered
  | AlertTypeChannelFrozen
  | AlertTypeStateChange

record AlertThresholds =
  at_MaxPendingHTLCs :: int
  at_MaxChannelInactivity :: int
  at_MaxFailedAttempts :: int
  at_StateStaleness :: int

record WatchtowerConfig =
  wc_MonitorInterval :: int
  wc_StateCheckInterval :: int
  wc_ChallengePeriod :: int
  wc_MaxStateAge :: int
  wc_MaxSequenceDiff :: u64
  wc_MinConfirmationBlocks :: u64
  wc_PenaltyEnabled :: bool
  wc_PenaltyRecipient :: address
  wc_FraudPenaltyMultiplier :: rat
  wc_AlertBufferSize :: nat
  wc_AlertThresholds :: "AlertThresholds option"

definition DefaultWatchtowerConfig :: WatchtowerConfig where
  "DefaultWatchtowerConfig =
     \<lparr>wc_MonitorInterval = 10 * second, wc_StateCheckInterval = 5 * second, wc_ChallengePeriod = 24 * 3600 * second,
      wc_MaxStateAge = 3600 * second, wc_MaxSequenceDiff = 100, wc_MinConfirmationBlocks = 6,
      wc_PenaltyEnabled = True, wc_PenaltyRecipient = 0, wc_FraudPenaltyMultiplier = 1, wc_AlertBufferSize = 1000,
      wc_AlertThresholds = Some \<lparr>at_MaxPendingHTLCs = 50, at_MaxChannelInactivity = 24 * 3600 * second,
        at_MaxFailedAttempts = 3, at_StateStaleness = 30 * 60 * second\<rparr>\<rparr>"

record CloseAttempt =
  ca_Sequence :: u64
  ca_BalanceA :: u64
  ca_BalanceB :: u64
  ca_Initiator :: address
  ca_Timestamp :: int
  ca_BlockNumber :: u64
  ca_IsOnChain :: bool

record MonitoredChannel =
  mc_ChannelID :: hash
  mc_PartyA :: address
  mc_PartyB :: address
  mc_Status :: channel_status
  mc_Sequence :: u64
  mc_BalanceA :: u64
  mc_BalanceB :: u64
  mc_StateHash :: hash
  mc_LastUpdate :: int
  mc_LastChecked :: int
  mc_LatestSignedState :: "SignedState option"
  mc_KnownStates :: "u64 \<rightharpoonup> hash"
  mc_CloseAttempts :: "CloseAttempt list"
  mc_IsFrozen :: bool
  mc_FrozenAt :: "int option"
  mc_FrozenBy :: address
  mc_MonitorStartTime :: int
  mc_AlertCount :: int

record Alert =
  al_ID :: string
  al_Type :: AlertType
  al_Level :: AlertLevel
  al_ChannelID :: hash
  al_Message :: string
  al_Timestamp :: int
  al_Acknowledged :: bool

record FraudEvidence =
  fe_ChannelID :: hash
  fe_FraudType :: FraudType
  fe_Sequence :: u64
  fe_InvalidState :: "SignedState option"
  fe_ValidState :: "SignedState option"
  fe_Attacker :: address
  fe_Victim :: address
  fe_Timestamp :: int
  fe_BlockNumber :: u64
  fe_Description :: string
  fe_Proof :: bytes

record PunishmentTask =
  pt_ChannelID :: hash
  pt_FraudType :: FraudType
  pt_Evidence :: FraudEvidence
  pt_HonestParty :: address

text \<open>The conversion of the penalty to \<^verbatim>\<open>uint64\<close> is defined below \<open>2 ^ 64\<close> only (\<open>None\<close> otherwise).\<close>

record PunishmentResult =
  pr_ChannelID :: hash
  pr_Success :: bool
  pr_NewBalanceA :: u64
  pr_NewBalanceB :: u64
  pr_PenaltyAmount :: "u64 option"
  pr_Reason :: string
  pr_Timestamp :: int
  pr_TxHash :: hash

record WatchtowerStats =
  ws_ChannelsMonitored :: u64
  ws_AlertsGenerated :: u64
  ws_FraudDetected :: u64
  ws_PunishmentsExecuted :: u64
  ws_StateVerifications :: u64
  ws_LastUpdate :: int

text \<open>The goroutines, and those started by \<^verbatim>\<open>go wt.TriggerPunishment(evidence)\<close> that have not run yet.\<close>

datatype watch_loop = MonitoringLoop | AlertProcessingLoop | PunishmentLoop | StatsUpdateLoop | FraudDetectionLoop

record Watchtower =
  wt_config :: WatchtowerConfig
  wt_disputeResolver :: bool
  wt_monitored :: "hash \<rightharpoonup> MonitoredChannel"
  wt_alertChan :: "Alert list"
  wt_fraudChan :: "FraudEvidence list"
  wt_punishChan :: "PunishmentTask list"
  wt_cancelled :: bool
  wt_running :: "watch_loop list"
  wt_spawned :: "FraudEvidence list"
  wt_stats :: WatchtowerStats

datatype watch_error =
    ErrChannelNotMonitored
  | ErrWatchtowerInvalidState
  | ErrChannelFrozen
  | ErrPunishmentFailed
  | ErrAlertChannelFull
  | WtPanic
  | WtNoManager
  | WtNoResolver
  | WtChannel channel_error
  | WtTooFarAhead u64 u64 u64
  | WtConservation u64 u64
  | WtNoSignatures
  | WtLengthA
  | WtLengthB
  | WtSignatureA
  | WtSignatureB
  | WtSequence u64 u64
  | WtPunishmentDisabled

text \<open>
  The environment of a call: the cryptographic parameter, how times and errors are printed, and the clock's
  readings during the call.
\<close>

record watch_env =
  en_crypto :: crypto
  en_time_string :: "int \<Rightarrow> string"
  en_error_string :: "channel_error \<Rightarrow> string"
  en_clock :: "nat \<Rightarrow> int"

section \<open>Creation and lifecycle\<close>

definition zero_stats :: WatchtowerStats where
  "zero_stats = \<lparr>ws_ChannelsMonitored = 0, ws_AlertsGenerated = 0, ws_FraudDetected = 0, ws_PunishmentsExecuted = 0,
     ws_StateVerifications = 0, ws_LastUpdate = 0\<rparr>"

definition new_watchtower :: "bool \<Rightarrow> WatchtowerConfig \<Rightarrow> Watchtower" where
  "new_watchtower resolver cfg =
     \<lparr>wt_config = cfg, wt_disputeResolver = resolver, wt_monitored = Map.empty, wt_alertChan = [], wt_fraudChan = [],
      wt_punishChan = [], wt_cancelled = False, wt_running = [], wt_spawned = [], wt_stats = zero_stats\<rparr>"

text \<open>The first argument tells whether a manager is given.\<close>

definition NewWatchtower :: "bool \<Rightarrow> WatchtowerConfig option \<Rightarrow> (watch_error, Watchtower) result" where
  "NewWatchtower hasManager cfg =
     (if \<not> hasManager then Inl WtNoManager
      else let c = (case cfg of None \<Rightarrow> DefaultWatchtowerConfig | Some c \<Rightarrow> c);
               c = (if wc_MonitorInterval c = 0 then c\<lparr>wc_MonitorInterval := 10 * second\<rparr> else c);
               c = (if wc_StateCheckInterval c = 0 then c\<lparr>wc_StateCheckInterval := 5 * second\<rparr> else c);
               c = (if wc_ChallengePeriod c = 0 then c\<lparr>wc_ChallengePeriod := 24 * 3600 * second\<rparr> else c);
               wt = new_watchtower False c
           in Inr (if wt_disputeResolver wt then wt\<lparr>wt_running := wt_running wt @ [FraudDetectionLoop]\<rparr> else wt))"

definition NewWatchtowerWithDisputeResolver ::
  "bool \<Rightarrow> bool \<Rightarrow> WatchtowerConfig option \<Rightarrow> (watch_error, Watchtower) result" where
  "NewWatchtowerWithDisputeResolver hasManager hasResolver cfg =
     (if \<not> hasManager then Inl WtNoManager
      else if \<not> hasResolver then Inl WtNoResolver
      else Inr (new_watchtower True (case cfg of None \<Rightarrow> DefaultWatchtowerConfig | Some c \<Rightarrow> c)))"

text \<open>
  \<^verbatim>\<open>Start\<close> never fails itself; the monitoring loop panics at once when its interval is not positive
  (\<^verbatim>\<open>time.NewTicker\<close>), which is the value \<open>None\<close>.
\<close>

definition Start :: "Watchtower \<Rightarrow> Watchtower option" where
  "Start wt =
     (if wc_MonitorInterval (wt_config wt) \<le> 0 then None
      else Some (wt\<lparr>wt_running := wt_running wt @ [MonitoringLoop, AlertProcessingLoop, PunishmentLoop, StatsUpdateLoop]\<rparr>))"

definition Stop :: "Watchtower \<Rightarrow> Watchtower" where
  "Stop wt = wt\<lparr>wt_cancelled := True, wt_running := []\<rparr>"

section \<open>Alerts\<close>

definition send :: "nat \<Rightarrow> 'a \<Rightarrow> 'a list \<Rightarrow> 'a list option" where
  "send cap x q = (if length q < cap then Some (q @ [x]) else None)"

definition generateAlertID :: "watch_env \<Rightarrow> hash \<Rightarrow> int \<Rightarrow> string" where
  "generateAlertID E channelID timestamp =
     ''alert-'' @ hex_string (take 16 (hash_bytes (sha256 (en_crypto E)
        (hash_bytes channelID @ map of_char (en_time_string E timestamp)
         @ put_u64_be (of_int (timestamp - 62135596800 * second))))))"

text \<open>\<open>k\<close> is the number of the first of the two readings of the clock.\<close>

definition sendAlert :: "watch_env \<Rightarrow> nat \<Rightarrow> AlertType \<Rightarrow> AlertLevel \<Rightarrow> hash \<Rightarrow> string \<Rightarrow> Watchtower \<Rightarrow> Watchtower" where
  "sendAlert E k alertType level channelID message wt =
     (let alert = \<lparr>al_ID = generateAlertID E channelID (en_clock E k), al_Type = alertType, al_Level = level,
                   al_ChannelID = channelID, al_Message = message, al_Timestamp = en_clock E (k + 1),
                   al_Acknowledged = False\<rparr>
      in case send (wc_AlertBufferSize (wt_config wt)) alert (wt_alertChan wt) of
           None \<Rightarrow> wt
         | Some q \<Rightarrow> wt\<lparr>wt_alertChan := q,
                        wt_stats := (wt_stats wt)\<lparr>ws_AlertsGenerated := ws_AlertsGenerated (wt_stats wt) + 1\<rparr>\<rparr>)"

definition SendAlert :: "watch_env \<Rightarrow> AlertType \<Rightarrow> AlertLevel \<Rightarrow> hash \<Rightarrow> string \<Rightarrow> Watchtower \<Rightarrow> Watchtower" where
  "SendAlert E = sendAlert E 0"

definition put_monitored :: "Watchtower \<Rightarrow> hash \<Rightarrow> MonitoredChannel \<Rightarrow> Watchtower" where
  "put_monitored wt i mc = wt\<lparr>wt_monitored := (wt_monitored wt)(i \<mapsto> mc)\<rparr>"

section \<open>Monitoring\<close>

definition StartMonitoring :: "watch_env \<Rightarrow> Manager \<Rightarrow> Watchtower \<Rightarrow> hash \<Rightarrow> (watch_error, Watchtower) result" where
  "StartMonitoring E m wt channelID =
     (if wt_monitored wt channelID \<noteq> None then Inr wt
      else case GetChannelState m channelID of
        Inl e \<Rightarrow> Inl (WtChannel e)
      | Inr channel \<Rightarrow>
          let now = en_clock E 0;
              mc = \<lparr>mc_ChannelID = channelID, mc_PartyA = ch_PartyA channel, mc_PartyB = ch_PartyB channel,
                    mc_Status = StateOpen, mc_Sequence = ch_Sequence channel, mc_BalanceA = ch_BalanceA channel,
                    mc_BalanceB = ch_BalanceB channel, mc_StateHash = ch_StateHash channel, mc_LastUpdate = now,
                    mc_LastChecked = now, mc_LatestSignedState = None,
                    mc_KnownStates = [ch_Sequence channel \<mapsto> ch_StateHash channel], mc_CloseAttempts = [],
                    mc_IsFrozen = False, mc_FrozenAt = None, mc_FrozenBy = 0, mc_MonitorStartTime = now,
                    mc_AlertCount = 0\<rparr>;
              wt = put_monitored wt channelID mc;
              wt = wt\<lparr>wt_stats := (wt_stats wt)\<lparr>ws_ChannelsMonitored := ws_ChannelsMonitored (wt_stats wt) + 1\<rparr>\<rparr>
          in Inr (sendAlert E 1 AlertTypeStateChange AlertLevelInfo channelID ''Channel monitoring started'' wt))"

definition watch_StopMonitoring :: "watch_env \<Rightarrow> Watchtower \<Rightarrow> hash \<Rightarrow> (watch_error, Watchtower) result" where
  "watch_StopMonitoring E wt channelID =
     (case wt_monitored wt channelID of
        None \<Rightarrow> Inl ErrChannelNotMonitored
      | Some mc \<Rightarrow>
          if mc_IsFrozen mc then Inl ErrChannelFrozen
          else let wt = wt\<lparr>wt_monitored := (wt_monitored wt)(channelID := None),
                           wt_stats := (wt_stats wt)\<lparr>ws_ChannelsMonitored := ws_ChannelsMonitored (wt_stats wt) - 1\<rparr>\<rparr>
               in Inr (sendAlert E 1 AlertTypeStateChange AlertLevelInfo channelID ''Channel monitoring stopped'' wt))"

definition GetMonitoredChannel :: "Watchtower \<Rightarrow> hash \<Rightarrow> (watch_error, MonitoredChannel) result" where
  "GetMonitoredChannel wt channelID =
     (case wt_monitored wt channelID of None \<Rightarrow> Inl ErrChannelNotMonitored | Some mc \<Rightarrow> Inr mc)"

definition ListMonitoredChannels :: "hash list \<Rightarrow> Watchtower \<Rightarrow> hash list" where
  "ListMonitoredChannels ks wt = ks"

section \<open>Verification of states\<close>

definition watch_check_sig :: "crypto \<Rightarrow> address \<Rightarrow> bytes \<Rightarrow> bytes \<Rightarrow> watch_error \<Rightarrow> watch_error \<Rightarrow> (watch_error, unit) result" where
  "watch_check_sig C party stateData sig badLength badSig =
     (if length sig > 0
      then if length sig \<noteq> 64 then Inl badLength
           else (case ed25519_Verify C (hash_bytes party) stateData sig of
                   None \<Rightarrow> Inl WtPanic
                 | Some ok \<Rightarrow> if \<not> ok then Inl badSig else Inr ())
      else Inr ())"

definition VerifyState :: "crypto \<Rightarrow> Manager \<Rightarrow> Watchtower \<Rightarrow> hash \<Rightarrow> SignedState \<Rightarrow> (watch_error, Watchtower) result" where
  "VerifyState C m wt channelID state =
     (case wt_monitored wt channelID of
        None \<Rightarrow> Inl ErrChannelNotMonitored
      | Some mc \<Rightarrow>
          if mc_IsFrozen mc then Inl ErrChannelFrozen
          else if ss_ChannelID state \<noteq> channelID then Inl ErrWatchtowerInvalidState
          else if ss_Sequence state > mc_Sequence mc + wc_MaxSequenceDiff (wt_config wt)
          then Inl (WtTooFarAhead (ss_Sequence state) (mc_Sequence mc) (wc_MaxSequenceDiff (wt_config wt)))
          else let total' = ss_BalanceA state + ss_BalanceB state; oldTotal = mc_BalanceA mc + mc_BalanceB mc in
            if total' \<noteq> oldTotal then Inl (WtConservation total' oldTotal)
            else if length (ss_SigA state) = 0 \<and> length (ss_SigB state) = 0 then Inl WtNoSignatures
            else case GetChannelState m channelID of
              Inl e \<Rightarrow> Inl (WtChannel e)
            | Inr channel \<Rightarrow>
                let stateData = serializeState state in
                rbind (watch_check_sig C (ch_PartyA channel) stateData (ss_SigA state) WtLengthA WtSignatureA) (\<lambda>_.
                rbind (watch_check_sig C (ch_PartyB channel) stateData (ss_SigB state) WtLengthB WtSignatureB) (\<lambda>_.
                let wt = (if ss_Sequence state > mc_Sequence mc
                          then put_monitored wt channelID (mc\<lparr>mc_Sequence := ss_Sequence state,
                                 mc_BalanceA := ss_BalanceA state, mc_BalanceB := ss_BalanceB state,
                                 mc_KnownStates := (mc_KnownStates mc)(ss_Sequence state \<mapsto> sha256 C stateData),
                                 mc_LatestSignedState := Some state\<rparr>)
                          else wt)
                in Inr (wt\<lparr>wt_stats := (wt_stats wt)\<lparr>ws_StateVerifications := ws_StateVerifications (wt_stats wt) + 1\<rparr>\<rparr>))))"

definition CheckStateTransition :: "SignedState option \<Rightarrow> SignedState \<Rightarrow> (watch_error, unit) result" where
  "CheckStateTransition oldState newState =
     (case oldState of
        None \<Rightarrow> Inr ()
      | Some old \<Rightarrow>
          if ss_Sequence newState \<le> ss_Sequence old then Inl (WtSequence (ss_Sequence newState) (ss_Sequence old))
          else let oldTotal = ss_BalanceA old + ss_BalanceB old; newTotal = ss_BalanceA newState + ss_BalanceB newState in
            if newTotal \<noteq> oldTotal then Inl (WtConservation newTotal oldTotal) else Inr ())"

section \<open>Detection of fraud\<close>

text \<open>The last line starts a goroutine.\<close>

definition handleFraudDetected :: "watch_env \<Rightarrow> nat \<Rightarrow> FraudEvidence \<Rightarrow> Watchtower \<Rightarrow> Watchtower" where
  "handleFraudDetected E k evidence wt =
     (let wt = wt\<lparr>wt_stats := (wt_stats wt)\<lparr>ws_FraudDetected := ws_FraudDetected (wt_stats wt) + 1\<rparr>\<rparr>;
          wt = sendAlert E k AlertTypeFraudAttempt AlertLevelCritical (fe_ChannelID evidence)
                 (''Fraud detected: '' @ fe_Description evidence) wt;
          wt = (case send 100 evidence (wt_fraudChan wt) of None \<Rightarrow> wt | Some q \<Rightarrow> wt\<lparr>wt_fraudChan := q\<rparr>)
      in if wc_PenaltyEnabled (wt_config wt) then wt\<lparr>wt_spawned := wt_spawned wt @ [evidence]\<rparr> else wt)"

definition evidence_of_fraud :: "hash \<Rightarrow> FraudType \<Rightarrow> u64 \<Rightarrow> address \<Rightarrow> int \<Rightarrow> string \<Rightarrow> FraudEvidence" where
  "evidence_of_fraud channelID ty sq attacker now description =
     \<lparr>fe_ChannelID = channelID, fe_FraudType = ty, fe_Sequence = sq, fe_InvalidState = None, fe_ValidState = None,
      fe_Attacker = attacker, fe_Victim = 0, fe_Timestamp = now, fe_BlockNumber = 0, fe_Description = description,
      fe_Proof = []\<rparr>"

definition u64_string :: "u64 \<Rightarrow> string" where
  "u64_string w = dec_string (unat w)"

text \<open>The third check repeats the first one, as in the code.\<close>

definition DetectFraud ::
  "watch_env \<Rightarrow> Watchtower \<Rightarrow> hash \<Rightarrow> SignedState \<Rightarrow> address \<Rightarrow> Watchtower \<times> FraudEvidence option" where
  "DetectFraud E wt channelID state initiator =
     (case wt_monitored wt channelID of
        None \<Rightarrow> (wt, None)
      | Some mc \<Rightarrow>
          let now = en_clock E 0;
              oldTotal = mc_BalanceA mc + mc_BalanceB mc;
              newTotal = ss_BalanceA state + ss_BalanceB state;
              found = (\<lambda>evidence. (handleFraudDetected E 1 evidence wt, Some evidence))
          in if ss_Sequence state < mc_Sequence mc
             then found (evidence_of_fraud channelID FraudTypeSequenceRollback (ss_Sequence state) initiator now
                    (''Sequence rollback detected: '' @ u64_string (mc_Sequence mc) @ '' -> '' @ u64_string (ss_Sequence state)))
             else if \<exists>attempt \<in> set (mc_CloseAttempts mc). ca_Sequence attempt = ss_Sequence state \<and> ca_IsOnChain attempt
             then found (evidence_of_fraud channelID FraudTypeDoubleClose (ss_Sequence state) initiator now
                    (''Double close attempt detected for sequence '' @ u64_string (ss_Sequence state)))
             else if ss_Sequence state < mc_Sequence mc
             then found ((evidence_of_fraud channelID FraudTypeInvalidClose (ss_Sequence state) initiator now
                    (''Invalid close: state sequence '' @ u64_string (ss_Sequence state) @ '' is older than latest ''
                      @ u64_string (mc_Sequence mc)))\<lparr>fe_InvalidState := Some state\<rparr>)
             else if newTotal \<noteq> oldTotal
             then found ((evidence_of_fraud channelID FraudTypeBalanceManipulation (ss_Sequence state) initiator now
                    (''Balance manipulation detected: '' @ u64_string oldTotal @ '' -> '' @ u64_string newTotal))
                      \<lparr>fe_InvalidState := Some state\<rparr>)
             else (put_monitored wt channelID (mc\<lparr>mc_CloseAttempts := mc_CloseAttempts mc @
                     [\<lparr>ca_Sequence = ss_Sequence state, ca_BalanceA = ss_BalanceA state, ca_BalanceB = ss_BalanceB state,
                       ca_Initiator = initiator, ca_Timestamp = now, ca_BlockNumber = 0, ca_IsOnChain = True\<rparr>]\<rparr>), None))"

text \<open>The largest key of the known states; the order of the iteration does not matter but is an argument.\<close>

definition DetectStateReversion :: "watch_env \<Rightarrow> u64 list \<Rightarrow> Watchtower \<Rightarrow> hash \<Rightarrow> SignedState \<Rightarrow> FraudEvidence option" where
  "DetectStateReversion E ks wt channelID newState =
     (case wt_monitored wt channelID of
        None \<Rightarrow> None
      | Some mc \<Rightarrow>
          let highestSeq = foldl (\<lambda>h sq. if sq > h then sq else h) (mc_Sequence mc) ks in
          if ss_Sequence newState < highestSeq
          then Some (evidence_of_fraud channelID FraudTypeStateReversion (ss_Sequence newState) 0 (en_clock E 0)
                 (''State reversion detected: tried to revert from sequence '' @ u64_string highestSeq @ '' to ''
                   @ u64_string (ss_Sequence newState)))
          else None)"

text \<open>The verb \<^verbatim>\<open>%v\<close> on a byte array.\<close>

fun spaced :: "string list \<Rightarrow> string" where
  "spaced [] = []"
| "spaced [s] = s"
| "spaced (s # t # ss) = s @ '' '' @ spaced (t # ss)"

definition array_string :: "bytes \<Rightarrow> string" where
  "array_string bs = ''['' @ spaced (map (\<lambda>b. dec_string (unat b)) bs) @ '']''"

definition DetectUnauthorizedClose ::
  "watch_env \<Rightarrow> Watchtower \<Rightarrow> hash \<Rightarrow> SignedState \<Rightarrow> address \<Rightarrow> FraudEvidence option" where
  "DetectUnauthorizedClose E wt channelID state closer =
     (case wt_monitored wt channelID of
        None \<Rightarrow> None
      | Some mc \<Rightarrow>
          if closer = mc_PartyA mc \<or> closer = mc_PartyB mc then None
          else if length (ss_SigA state) > 0 \<and> length (ss_SigB state) > 0 then None
          else Some (evidence_of_fraud channelID FraudTypeUnauthorizedClose (ss_Sequence state) closer (en_clock E 0)
                 (''Unauthorized close attempt by '' @ array_string (hash_bytes closer))))"

end
