(* ===== verification/Watch_Service.thy ===== *)
theory Watch_Service
  imports Watchtower
begin

text \<open>
  The second half of \<^verbatim>\<open>pkg/channel/watchtower.go\<close>: freezing and punishing, the background loops, the
  statistics, and a step relation over the whole service next to the channel manager it watches.
\<close>

section \<open>Freezing\<close>

definition FreezeChannel :: "watch_env \<Rightarrow> Watchtower \<Rightarrow> hash \<Rightarrow> string \<Rightarrow> (watch_error, Watchtower) result" where
  "FreezeChannel E wt channelID reason =
     (case wt_monitored wt channelID of
        None \<Rightarrow> Inl ErrChannelNotMonitored
      | Some mc \<Rightarrow>
          if mc_IsFrozen mc then Inr wt
          else Inr (sendAlert E 1 AlertTypeChannelFrozen AlertLevelEmergency channelID (''Channel frozen: '' @ reason)
                 (put_monitored wt channelID (mc\<lparr>mc_IsFrozen := True, mc_FrozenAt := Some (en_clock E 0),
                    mc_FrozenBy := wc_PenaltyRecipient (wt_config wt)\<rparr>))))"

text \<open>\<open>k\<close> is the number of the clock's first reading, since the punishment calls it as well.\<close>

definition UnfreezeChannel :: "watch_env \<Rightarrow> nat \<Rightarrow> Watchtower \<Rightarrow> hash \<Rightarrow> (watch_error, Watchtower) result" where
  "UnfreezeChannel E k wt channelID =
     (case wt_monitored wt channelID of
        None \<Rightarrow> Inl ErrChannelNotMonitored
      | Some mc \<Rightarrow>
          if \<not> mc_IsFrozen mc then Inr wt
          else Inr (sendAlert E k AlertTypeChannelFrozen AlertLevelWarning channelID ''Channel unfrozen''
                 (put_monitored wt channelID (mc\<lparr>mc_IsFrozen := False, mc_FrozenAt := None\<rparr>))))"

section \<open>Punishment\<close>

definition honest_party :: "Manager \<Rightarrow> FraudEvidence \<Rightarrow> address" where
  "honest_party m evidence =
     (if fe_Victim evidence \<noteq> 0 then fe_Victim evidence
      else case fe_ValidState evidence of
        None \<Rightarrow> 0
      | Some valid \<Rightarrow>
          (case GetChannelState m (fe_ChannelID evidence) of
             Inl _ \<Rightarrow> 0
           | Inr channel \<Rightarrow>
               if length (ss_SigA valid) > 0 then ch_PartyA channel
               else if length (ss_SigB valid) > 0 then ch_PartyB channel else 0))"

text \<open>
  \<^verbatim>\<open>TriggerPunishment\<close> up to the point where it waits for the task's result; \<open>await_punishment\<close> is the rest, where
  \<open>None\<close> means that the challenge period passed first.
\<close>

definition TriggerPunishment :: "Manager \<Rightarrow> Watchtower \<Rightarrow> FraudEvidence \<Rightarrow> (watch_error, Watchtower) result" where
  "TriggerPunishment m wt evidence =
     (if \<not> wc_PenaltyEnabled (wt_config wt) then Inl WtPunishmentDisabled
      else if \<not> wt_disputeResolver wt then Inl WtNoResolver
      else let task = \<lparr>pt_ChannelID = fe_ChannelID evidence, pt_FraudType = fe_FraudType evidence,
                       pt_Evidence = evidence, pt_HonestParty = honest_party m evidence\<rparr>
           in case send 100 task (wt_punishChan wt) of
                None \<Rightarrow> Inl ErrAlertChannelFull
              | Some q \<Rightarrow> Inr (wt\<lparr>wt_punishChan := q\<rparr>))"

definition await_punishment :: "PunishmentResult option \<Rightarrow> (watch_error, PunishmentResult) result" where
  "await_punishment r = (case r of None \<Rightarrow> Inl ErrPunishmentFailed | Some result \<Rightarrow> Inr result)"

definition penalty_amount :: "Watchtower \<Rightarrow> u64 \<Rightarrow> u64 option" where
  "penalty_amount wt penaltyAmount =
     (let x = float64 (float64_of_u64 penaltyAmount * wc_FraudPenaltyMultiplier (wt_config wt))
      in if x < 2 ^ 64 then Some (of_int \<lfloor>x\<rfloor>) else None)"

text \<open>
  \<^verbatim>\<open>executePunishment\<close>: the balances are written into the copy that \<^verbatim>\<open>GetChannelState\<close> returned, and the
  state handed to \<^verbatim>\<open>CloseChannel\<close> has no signatures. It returns what it sends to the task's result.
\<close>

definition punish_balances :: "Channel \<Rightarrow> address \<Rightarrow> (u64 \<times> u64 \<times> u64) option" where
  "punish_balances channel honest =
     (if honest = ch_PartyA channel
      then Some (ch_BalanceB channel, ch_BalanceA channel + ch_BalanceB channel, 0)
      else if honest = ch_PartyB channel
      then Some (ch_BalanceA channel, 0, ch_BalanceB channel + ch_BalanceA channel)
      else None)"

definition executePunishment ::
  "watch_env \<Rightarrow> locker \<Rightarrow> Manager \<Rightarrow> Watchtower \<Rightarrow> PunishmentTask \<Rightarrow> Manager \<times> Watchtower \<times> PunishmentResult" where
  "executePunishment E L m wt task =
     (let result = \<lparr>pr_ChannelID = pt_ChannelID task, pr_Success = False, pr_NewBalanceA = 0, pr_NewBalanceB = 0,
                    pr_PenaltyAmount = Some 0, pr_Reason = [], pr_Timestamp = en_clock E 0, pr_TxHash = 0\<rparr> in
      case GetChannelState m (pt_ChannelID task) of
        Inl e \<Rightarrow> (m, wt, result\<lparr>pr_Reason := ''Failed to get channel: '' @ en_error_string E e\<rparr>)
      | Inr channel \<Rightarrow>
          (case punish_balances channel (pt_HonestParty task) of
             None \<Rightarrow> (m, wt, result\<lparr>pr_Reason := ''Cannot determine honest party''\<rparr>)
           | Some (penalty, newA, newB) \<Rightarrow>
               let result = result\<lparr>pr_NewBalanceA := newA, pr_NewBalanceB := newB,
                     pr_PenaltyAmount := penalty_amount wt penalty, pr_Success := True,
                     pr_Reason := ''Fraud detected: '' @ FraudType_String (pt_FraudType task)\<rparr>;
                   closed = CloseChannel (en_crypto E) L m (ch_ID channel)
                     \<lparr>ss_ChannelID = pt_ChannelID task, ss_Sequence = ch_Sequence channel, ss_BalanceA = newA,
                      ss_BalanceB = newB, ss_SigA = [], ss_SigB = [], ss_Timestamp = en_clock E 1\<rparr>;
                   m' = (case closed of Inl _ \<Rightarrow> m | Inr m' \<Rightarrow> m');
                   result = (case closed of
                               Inl e \<Rightarrow> result\<lparr>pr_Success := False,
                                           pr_Reason := ''Failed to close channel: '' @ en_error_string E e\<rparr>
                             | Inr _ \<Rightarrow> result);
                   wt = wt\<lparr>wt_stats := (wt_stats wt)\<lparr>ws_PunishmentsExecuted := ws_PunishmentsExecuted (wt_stats wt) + 1\<rparr>\<rparr>;
                   wt = sendAlert E 2 AlertTypePunishmentTriggered AlertLevelCritical (pt_ChannelID task)
                          (''Punishment executed: '' @ pr_Reason result) wt;
                   wt = (case UnfreezeChannel E 4 wt (pt_ChannelID task) of Inl _ \<Rightarrow> wt | Inr wt' \<Rightarrow> wt')
               in (m', wt, result)))"

section \<open>The loops\<close>

definition status_string :: "channel_status \<Rightarrow> string" where
  "status_string s = (case s of StateOpen \<Rightarrow> ''0'' | StateClosing \<Rightarrow> ''1'' | StateClosed \<Rightarrow> ''2'' | StateInDispute \<Rightarrow> ''3'')"

fun ChannelStatusToString :: "channel_status \<Rightarrow> string" where
  "ChannelStatusToString StateOpen = ''OPEN''"
| "ChannelStatusToString StateClosing = ''CLOSING''"
| "ChannelStatusToString StateClosed = ''CLOSED''"
| "ChannelStatusToString StateInDispute = ''IN_DISPUTE''"

text \<open>\<^verbatim>\<open>checkChannel\<close>; a configuration without thresholds is dereferenced (\<open>None\<close> is the panic).\<close>

definition sync_monitored :: "watch_env \<Rightarrow> Watchtower \<Rightarrow> hash \<Rightarrow> MonitoredChannel \<Rightarrow> Channel \<Rightarrow> Watchtower \<times> MonitoredChannel" where
  "sync_monitored E wt channelID mc channel =
     (if ch_Sequence channel \<noteq> mc_Sequence mc
      then let mc = mc\<lparr>mc_Sequence := ch_Sequence channel, mc_BalanceA := ch_BalanceA channel,
                       mc_BalanceB := ch_BalanceB channel, mc_StateHash := ch_StateHash channel,
                       mc_LastUpdate := en_clock E 2, mc_LastChecked := en_clock E 3,
                       mc_KnownStates := (mc_KnownStates mc)(ch_Sequence channel \<mapsto> ch_StateHash channel)\<rparr>
           in (sendAlert E 4 AlertTypeStateChange AlertLevelInfo channelID
                 (''Channel state updated: sequence '' @ u64_string (ch_Sequence channel)) (put_monitored wt channelID mc), mc)
      else (wt, mc))"

definition checkChannel :: "watch_env \<Rightarrow> Manager \<Rightarrow> Watchtower \<Rightarrow> hash \<Rightarrow> Watchtower option" where
  "checkChannel E m wt channelID =
     (case wt_monitored wt channelID of
        None \<Rightarrow> Some wt
      | Some mc \<Rightarrow>
          (case GetChannelState m channelID of
             Inl e \<Rightarrow> Some (sendAlert E 0 AlertTypeChannelAnomaly AlertLevelWarning channelID
                        (''Failed to get channel state: '' @ en_error_string E e) wt)
           | Inr channel \<Rightarrow>
               let (wt, mc) = sync_monitored E wt channelID mc channel in
               (case wc_AlertThresholds (wt_config wt) of
                  None \<Rightarrow> None
                | Some thresholds \<Rightarrow>
                    let wt = (if time_Sub (en_clock E 6) (mc_LastUpdate mc) > at_StateStaleness thresholds
                              then sendAlert E 7 AlertTypeChannelAnomaly AlertLevelWarning channelID ''Channel state is stale'' wt
                              else wt)
                    in Some (case GetChannelStatus m channelID of
                               Inl _ \<Rightarrow> wt
                             | Inr status \<Rightarrow>
                                 if status = StateClosed \<or> status = StateInDispute
                                 then sendAlert E 9 AlertTypeStateChange AlertLevelInfo channelID
                                        (''Channel closed or in dispute (status: '' @ status_string status @ '')'')
                                        (wt\<lparr>wt_monitored := (wt_monitored wt)(channelID := None)\<rparr>)
                                 else wt))))"

text \<open>The identifiers are collected first, in the order of the map's iteration; each check has its own clock.\<close>

fun check_all :: "(hash \<Rightarrow> watch_env) \<Rightarrow> Manager \<Rightarrow> hash list \<Rightarrow> Watchtower \<Rightarrow> Watchtower option" where
  "check_all Es m [] wt = Some wt"
| "check_all Es m (i # is) wt = Option.bind (checkChannel (Es i) m wt i) (check_all Es m is)"

definition checkMonitoredChannels :: "(hash \<Rightarrow> watch_env) \<Rightarrow> hash list \<Rightarrow> Manager \<Rightarrow> Watchtower \<Rightarrow> Watchtower option" where
  "checkMonitoredChannels Es ks m wt = check_all Es m ks wt"

definition processAlert :: "Watchtower \<Rightarrow> Alert \<Rightarrow> Watchtower" where
  "processAlert wt alert =
     (if al_ChannelID alert \<noteq> 0
      then (case wt_monitored wt (al_ChannelID alert) of
              None \<Rightarrow> wt
            | Some mc \<Rightarrow> put_monitored wt (al_ChannelID alert) (mc\<lparr>mc_AlertCount := mc_AlertCount mc + 1\<rparr>))
      else wt)"

text \<open>Up to the point where it waits for the punishment's result.\<close>

definition processFraudEvidence ::
  "watch_env \<Rightarrow> (watch_error \<Rightarrow> string) \<Rightarrow> Manager \<Rightarrow> Watchtower \<Rightarrow> FraudEvidence \<Rightarrow> Watchtower" where
  "processFraudEvidence E err_string m wt evidence =
     (let wt = (case FreezeChannel E wt (fe_ChannelID evidence) (fe_Description evidence) of Inl _ \<Rightarrow> wt | Inr wt' \<Rightarrow> wt') in
      if wc_PenaltyEnabled (wt_config wt) \<and> wt_disputeResolver wt
      then (case TriggerPunishment m wt evidence of
              Inl e \<Rightarrow> sendAlert E 3 AlertTypePunishmentTriggered AlertLevelCritical (fe_ChannelID evidence)
                        (''Punishment failed: '' @ err_string e) wt
            | Inr wt' \<Rightarrow> wt')
      else wt)"

definition update_stats :: "int \<Rightarrow> Watchtower \<Rightarrow> Watchtower" where
  "update_stats now wt = wt\<lparr>wt_stats := (wt_stats wt)\<lparr>ws_LastUpdate := now\<rparr>\<rparr>"

section \<open>Statistics and health\<close>

definition watch_GetStats :: "Watchtower \<Rightarrow> WatchtowerStats" where
  "watch_GetStats wt = (wt_stats wt)\<lparr>ws_ChannelsMonitored := of_nat (map_len (wt_monitored wt))\<rparr>"

text \<open>The zero value of an alert, and the check that sends one and takes the head of the queue back.\<close>

definition zero_alert :: Alert where
  "zero_alert = \<lparr>al_ID = [], al_Type = AlertTypeTransactionAnomaly, al_Level = AlertLevelInfo, al_ChannelID = 0,
     al_Message = [], al_Timestamp = 0, al_Acknowledged = False\<rparr>"

definition IsHealthy :: "Watchtower \<Rightarrow> Watchtower \<times> bool" where
  "IsHealthy wt =
     (if wt_cancelled wt then (wt, False)
      else case send (wc_AlertBufferSize (wt_config wt)) zero_alert (wt_alertChan wt) of
        None \<Rightarrow> (wt, False)
      | Some q \<Rightarrow> (wt\<lparr>wt_alertChan := tl q\<rparr>, True))"

definition UpdateMonitoredChannelSequence :: "Watchtower \<Rightarrow> hash \<Rightarrow> u64 \<Rightarrow> (watch_error, Watchtower) result" where
  "UpdateMonitoredChannelSequence wt channelID sq =
     (case wt_monitored wt channelID of
        None \<Rightarrow> Inl ErrChannelNotMonitored
      | Some mc \<Rightarrow> Inr (put_monitored wt channelID (mc\<lparr>mc_Sequence := sq\<rparr>)))"

definition addressToHex :: "address \<Rightarrow> string" where
  "addressToHex a = hex_string (hash_bytes a)"

section \<open>The service as a state machine\<close>

text \<open>
  A method call, an iteration of a running loop, a started goroutine, or a step of the channel manager.
\<close>

inductive watch_step :: "Manager \<times> Watchtower \<Rightarrow> Manager \<times> Watchtower \<Rightarrow> bool" where
  start: "Start wt = Some wt' \<Longrightarrow> watch_step (m, wt) (m, wt')"
| stop: "watch_step (m, wt) (m, Stop wt)"
| monitor: "StartMonitoring E m wt i = Inr wt' \<Longrightarrow> watch_step (m, wt) (m, wt')"
| unmonitor: "watch_StopMonitoring E wt i = Inr wt' \<Longrightarrow> watch_step (m, wt) (m, wt')"
| verify: "VerifyState C m wt i st = Inr wt' \<Longrightarrow> watch_step (m, wt) (m, wt')"
| detect: "DetectFraud E wt i st p = (wt', ev) \<Longrightarrow> watch_step (m, wt) (m, wt')"
| freeze: "FreezeChannel E wt i reason = Inr wt' \<Longrightarrow> watch_step (m, wt) (m, wt')"
| unfreeze: "UnfreezeChannel E 0 wt i = Inr wt' \<Longrightarrow> watch_step (m, wt) (m, wt')"
| alert: "watch_step (m, wt) (m, SendAlert E ty level i msg wt)"
| health: "IsHealthy wt = (wt', b) \<Longrightarrow> watch_step (m, wt) (m, wt')"
| set_sequence: "UpdateMonitoredChannelSequence wt i sq = Inr wt' \<Longrightarrow> watch_step (m, wt) (m, wt')"
| trigger: "TriggerPunishment m wt ev = Inr wt' \<Longrightarrow> watch_step (m, wt) (m, wt')"
| goroutine: "wt_spawned wt = evs @ ev # evs' \<Longrightarrow> wt1 = wt\<lparr>wt_spawned := evs @ evs'\<rparr> \<Longrightarrow>
    wt' = (case TriggerPunishment m wt1 ev of Inl _ \<Rightarrow> wt1 | Inr wt2 \<Rightarrow> wt2) \<Longrightarrow> watch_step (m, wt) (m, wt')"
| monitoring_loop: "MonitoringLoop \<in> set (wt_running wt) \<Longrightarrow> iteration_of ks (wt_monitored wt) \<Longrightarrow>
    checkMonitoredChannels Es ks m wt = Some wt' \<Longrightarrow> watch_step (m, wt) (m, wt')"
| alert_loop: "AlertProcessingLoop \<in> set (wt_running wt) \<Longrightarrow> wt_alertChan wt = al # q \<Longrightarrow>
    watch_step (m, wt) (m, processAlert (wt\<lparr>wt_alertChan := q\<rparr>) al)"
| punishment_loop: "PunishmentLoop \<in> set (wt_running wt) \<Longrightarrow> wt_punishChan wt = task # q \<Longrightarrow>
    executePunishment E L m (wt\<lparr>wt_punishChan := q\<rparr>) task = (m', wt', r) \<Longrightarrow> watch_step (m, wt) (m', wt')"
| fraud_loop: "FraudDetectionLoop \<in> set (wt_running wt) \<Longrightarrow> wt_fraudChan wt = ev # q \<Longrightarrow>
    watch_step (m, wt) (m, processFraudEvidence E err_string m (wt\<lparr>wt_fraudChan := q\<rparr>) ev)"
| stats_loop: "StatsUpdateLoop \<in> set (wt_running wt) \<Longrightarrow> watch_step (m, wt) (m, update_stats now wt)"
| manager: "channel_step C m m' \<Longrightarrow> watch_step (m, wt) (m', wt)"

end
