(* ===== verification/Watch_Runs.thy ===== *)
theory Watch_Runs
  imports Watch_Service Dispute_Runs "HOL-Library.Sublist"
begin

text \<open>
  What the watchtower achieves. It never changes a channel and none of its punishments succeeds; the
  evidence it collects is never processed; and a party can make it accuse the other one.
\<close>

section \<open>What an operation leaves alone\<close>

lemma sendAlert_keeps [simp]:
  "wt_config (sendAlert E k ty lv i msg wt) = wt_config wt"
  "wt_disputeResolver (sendAlert E k ty lv i msg wt) = wt_disputeResolver wt"
  "wt_monitored (sendAlert E k ty lv i msg wt) = wt_monitored wt"
  "wt_fraudChan (sendAlert E k ty lv i msg wt) = wt_fraudChan wt"
  "wt_punishChan (sendAlert E k ty lv i msg wt) = wt_punishChan wt"
  "wt_running (sendAlert E k ty lv i msg wt) = wt_running wt"
  "wt_spawned (sendAlert E k ty lv i msg wt) = wt_spawned wt"
  by (simp_all add: sendAlert_def Let_def split: option.splits)

lemma put_monitored_keeps [simp]:
  "wt_config (put_monitored wt i mc) = wt_config wt"
  "wt_disputeResolver (put_monitored wt i mc) = wt_disputeResolver wt"
  "wt_monitored (put_monitored wt i mc) = (wt_monitored wt)(i \<mapsto> mc)"
  "wt_fraudChan (put_monitored wt i mc) = wt_fraudChan wt"
  "wt_alertChan (put_monitored wt i mc) = wt_alertChan wt"
  "wt_punishChan (put_monitored wt i mc) = wt_punishChan wt"
  "wt_running (put_monitored wt i mc) = wt_running wt"
  "wt_spawned (put_monitored wt i mc) = wt_spawned wt"
  by (simp_all add: put_monitored_def)

lemma send_Some: "send cap x q = Some q' \<longleftrightarrow> length q < cap \<and> q' = q @ [x]"
  by (auto simp: send_def)

text \<open>The queue of evidence grows at its end, up to its capacity, and no loop that reads it is started.\<close>

definition collects :: "Watchtower \<Rightarrow> Watchtower \<Rightarrow> bool" where
  "collects wt wt' \<longleftrightarrow>
     (FraudDetectionLoop \<notin> set (wt_running wt) \<longrightarrow> FraudDetectionLoop \<notin> set (wt_running wt')) \<and>
     prefix (wt_fraudChan wt) (wt_fraudChan wt') \<and>
     (length (wt_fraudChan wt) \<le> 100 \<longrightarrow> length (wt_fraudChan wt') \<le> 100)"

lemma collects_refl [simp]: "collects wt wt"
  by (simp add: collects_def)

lemma collects_trans: "collects a b \<Longrightarrow> collects b c \<Longrightarrow> collects a c"
  unfolding collects_def by (meson prefix_order.trans)

lemma collects_same: "wt_fraudChan wt' = wt_fraudChan wt \<Longrightarrow> set (wt_running wt') \<subseteq> set (wt_running wt) \<Longrightarrow> collects wt wt'"
  by (auto simp: collects_def)

lemma collects_handle: "collects wt (handleFraudDetected E k ev wt)"
  by (auto simp: handleFraudDetected_def collects_def send_Some Let_def split: option.splits)

lemma collects_check: "checkChannel E m wt i = Some wt' \<Longrightarrow> collects wt wt'"
  by (auto simp: checkChannel_def sync_monitored_def Let_def intro!: collects_same
      split: option.splits sum.splits if_splits prod.splits)

lemma collects_check_all: "check_all Es m ks wt = Some wt' \<Longrightarrow> collects wt wt'"
proof (induction ks arbitrary: wt)
  case (Cons i ks)
  then show ?case
    by (auto split: bind_splits intro: collects_trans dest: collects_check)
qed simp

lemma collects_trigger: "TriggerPunishment m wt ev = Inr wt' \<Longrightarrow> collects wt wt'"
  by (auto simp: TriggerPunishment_def Let_def split: if_splits option.splits intro!: collects_same)

lemma collects_unfreeze: "UnfreezeChannel E k wt i = Inr wt' \<Longrightarrow> collects wt wt'"
  by (auto simp: UnfreezeChannel_def split: option.splits if_splits intro!: collects_same)

section \<open>Punishments\<close>

lemma unsigned_rejected: "ss_SigA st = [] \<Longrightarrow> \<exists>e. CloseChannel C L m i st = Inl e"
  by (cases "CloseChannel C L m i st")
    (auto simp: CloseChannel_def verifySignatures_def verify_party_def rbind_Inr_iff Let_def split: if_splits)

lemma unfreeze_keeps:
  "UnfreezeChannel E k wt i = Inr wt' \<Longrightarrow> wt_fraudChan wt' = wt_fraudChan wt \<and> wt_running wt' = wt_running wt"
  by (auto simp: UnfreezeChannel_def split: option.splits if_splits)

lemma execute_keeps:
  "executePunishment E L m wt task = (m', wt', r) \<Longrightarrow> wt_fraudChan wt' = wt_fraudChan wt \<and> wt_running wt' = wt_running wt"
  by (auto simp: executePunishment_def Let_def split: sum.split_asm option.split_asm prod.split_asm dest!: unfreeze_keeps)

text \<open>C26. No punishment ever succeeds: \<^verbatim>\<open>executePunishment\<close> closes the channel with a state that carries no
  signatures, which the channel manager rejects, and the balances it computes are written into a copy. Whatever
  the task, the locker and the channel are, the result reports a failure and the channel manager is as it was.\<close>

theorem punishment_never_succeeds:
  "\<exists>wt' r. executePunishment E L m wt task = (m, wt', r) \<and> \<not> pr_Success r"
proof (cases "GetChannelState m (pt_ChannelID task)")
  case (Inr ch)
  obtain e where "CloseChannel (en_crypto E) L m (ch_ID ch)
      \<lparr>ss_ChannelID = pt_ChannelID task, ss_Sequence = ch_Sequence ch, ss_BalanceA = a, ss_BalanceB = b,
       ss_SigA = [], ss_SigB = [], ss_Timestamp = en_clock E 1\<rparr> = Inl (e a b)" for a b
    using unsigned_rejected [of "\<lparr>ss_ChannelID = pt_ChannelID task, ss_Sequence = ch_Sequence ch, ss_BalanceA = _,
       ss_BalanceB = _, ss_SigA = [], ss_SigB = [], ss_Timestamp = en_clock E 1\<rparr>" "en_crypto E" L m "ch_ID ch"]
    by (metis SignedState.select_convs(5))
  with Inr show ?thesis
    by (simp add: executePunishment_def GetChannelState_def Let_def split: option.splits prod.splits)
qed (simp add: executePunishment_def)

text \<open>So the channel manager is changed by nobody but its own callers.\<close>

lemma watch_step_manager: "watch_step x y \<Longrightarrow> fst y = fst x \<or> (\<exists>C. channel_step C (fst x) (fst y))"
proof (induction rule: watch_step.induct)
  case (punishment_loop wt task q E L m m' wt' r)
  then show ?case using punishment_never_succeeds [of E L m "wt\<lparr>wt_punishChan := q\<rparr>" task] by auto
qed auto

section \<open>Evidence is never processed\<close>

lemma collects_step:
  "watch_step x y \<Longrightarrow> FraudDetectionLoop \<notin> set (wt_running (snd x)) \<Longrightarrow> collects (snd x) (snd y)"
proof (induction rule: watch_step.induct)
  case start
  then show ?case by (auto simp: Start_def collects_def split: if_splits)
next
  case stop
  then show ?case by (simp add: Stop_def collects_def)
next
  case monitor
  then show ?case by (auto simp: StartMonitoring_def Let_def split: if_splits sum.splits intro!: collects_same)
next
  case unmonitor
  then show ?case by (auto simp: watch_StopMonitoring_def Let_def split: if_splits option.splits intro!: collects_same)
next
  case verify
  then show ?case
    by (auto simp: VerifyState_def Let_def rbind_Inr_iff split: if_splits option.splits sum.splits intro!: collects_same)
next
  case detect
  then show ?case
    by (auto simp: DetectFraud_def Let_def split: if_splits option.splits intro: collects_handle collects_same)
next
  case freeze
  then show ?case by (auto simp: FreezeChannel_def split: option.splits if_splits intro!: collects_same)
next
  case unfreeze
  then show ?case by (simp add: collects_unfreeze)
next
  case alert
  then show ?case by (simp add: SendAlert_def collects_def)
next
  case health
  then show ?case by (auto simp: IsHealthy_def split: if_splits option.splits intro!: collects_same)
next
  case set_sequence
  then show ?case by (auto simp: UpdateMonitoredChannelSequence_def split: option.splits intro!: collects_same)
next
  case trigger
  then show ?case by (simp add: collects_trigger)
next
  case (goroutine wt evs ev evs' wt1 wt' m)
  have "collects wt wt1" using goroutine.hyps(2) by (simp add: collects_def)
  moreover have "collects wt1 wt'"
    using goroutine.hyps(3) collects_trigger by (auto split: sum.splits)
  ultimately show ?case by (auto intro: collects_trans)
next
  case monitoring_loop
  then show ?case by (auto simp: checkMonitoredChannels_def dest: collects_check_all)
next
  case alert_loop
  then show ?case by (auto simp: processAlert_def split: option.splits intro!: collects_same)
next
  case (punishment_loop wt task q E L m m' wt' r)
  then show ?case using execute_keeps [OF punishment_loop.hyps(3)] by (auto intro!: collects_same)
next
  case stats_loop
  then show ?case by (simp add: update_stats_def collects_def)
qed auto

lemma collects_run:
  "watch_step\<^sup>*\<^sup>* x y \<Longrightarrow> FraudDetectionLoop \<notin> set (wt_running (snd x)) \<Longrightarrow> collects (snd x) (snd y)"
proof (induction rule: rtranclp_induct)
  case (step y z)
  then have "FraudDetectionLoop \<notin> set (wt_running (snd y))" by (auto simp: collects_def)
  then show ?case
    using step collects_step by (blast intro: collects_trans)
qed simp

definition created :: "Watchtower \<Rightarrow> bool" where
  "created wt \<longleftrightarrow> (\<exists>b cfg. NewWatchtower b cfg = Inr wt) \<or> (\<exists>b r cfg. NewWatchtowerWithDisputeResolver b r cfg = Inr wt)"

lemma created_empty: "created wt \<Longrightarrow> wt_running wt = [] \<and> wt_fraudChan wt = []"
  by (auto simp: created_def NewWatchtower_def NewWatchtowerWithDisputeResolver_def new_watchtower_def Let_def
      split: if_splits option.splits)

text \<open>Collected evidence is never processed. However a watchtower was created, in every state it can reach the loop
  that handles evidence is not running, and from then on the queue of evidence only grows at its end, up to 100
  entries; whatever is found afterwards is dropped.\<close>

theorem evidence_never_processed:
  assumes "created wt0" and "watch_step\<^sup>*\<^sup>* (m0, wt0) (m1, wt1)" and "watch_step\<^sup>*\<^sup>* (m1, wt1) (m2, wt2)"
  shows "FraudDetectionLoop \<notin> set (wt_running wt1) \<and> prefix (wt_fraudChan wt1) (wt_fraudChan wt2)
    \<and> length (wt_fraudChan wt2) \<le> 100"
proof -
  have 1: "FraudDetectionLoop \<notin> set (wt_running wt1) \<and> length (wt_fraudChan wt1) \<le> 100"
    using collects_run [OF assms(2)] created_empty [OF assms(1)] by (simp add: collects_def)
  then show ?thesis
    using collects_run [OF assms(3)] by (simp add: collects_def)
qed

section \<open>False accusations\<close>

definition sole_state :: "crypto \<Rightarrow> bytes \<Rightarrow> hash \<Rightarrow> u64 \<Rightarrow> u64 \<Rightarrow> u64 \<Rightarrow> SignedState" where
  "sole_state C priv i n x y =
     (let st = \<lparr>ss_ChannelID = i, ss_Sequence = n, ss_BalanceA = x, ss_BalanceB = y, ss_SigA = [], ss_SigB = [],
                ss_Timestamp = 0\<rparr>
      in st\<lparr>ss_SigA := ed_sign C priv (serializeState st)\<rparr>)"

lemma sole_state_sel [simp]:
  "ss_ChannelID (sole_state C priv i n x y) = i" "ss_Sequence (sole_state C priv i n x y) = n"
  "ss_BalanceA (sole_state C priv i n x y) = x" "ss_BalanceB (sole_state C priv i n x y) = y"
  "ss_SigB (sole_state C priv i n x y) = []"
  by (simp_all add: sole_state_def Let_def)

lemma sole_state_signed:
  assumes "key_pair C priv" "ed25519_Public priv = hash_bytes p"
  shows "watch_check_sig C p (serializeState (sole_state C priv i n x y)) (ss_SigA (sole_state C priv i n x y)) e e' = Inr ()"
    and "ss_SigA (sole_state C priv i n x y) \<noteq> []"
proof -
  have "length (ed_sign C priv msg) = 64" for msg
    using assms(1) by (simp add: key_pair_def)
  then show "watch_check_sig C p (serializeState (sole_state C priv i n x y)) (ss_SigA (sole_state C priv i n x y)) e e' = Inr ()"
    and "ss_SigA (sole_state C priv i n x y) \<noteq> []"
    using key_pair_verifies [OF assms(1)] assms(2)
    by (simp_all add: watch_check_sig_def sole_state_def serializeState_def Let_def)
qed

text \<open>A party can have the other one accused. \<^verbatim>\<open>VerifyState\<close> takes a state with one signature for the latest one, so the
  first party shows the watchtower a state that it alone has signed, with a higher sequence number; when the second
  party then closes with any state below that number, such as the one both signed last, \<^verbatim>\<open>DetectFraud\<close>
  reports a rollback with the second party as the attacker.\<close>

theorem lone_signature_frames:
  assumes key: "key_pair C priv" "ed25519_Public priv = hash_bytes (ch_PartyA ch)"
    and mc: "wt_monitored wt i = Some mc" "\<not> mc_IsFrozen mc" "ma_channels m i = Some ch"
    and n: "mc_Sequence mc < n" "n \<le> mc_Sequence mc + wc_MaxSequenceDiff (wt_config wt)"
    and st: "ss_Sequence st < n"
  shows "\<exists>wt1 wt2 ev. VerifyState C m wt i (sole_state C priv i n (mc_BalanceA mc) (mc_BalanceB mc)) = Inr wt1
    \<and> DetectFraud E wt1 i st (ch_PartyB ch) = (wt2, Some ev)
    \<and> fe_Attacker ev = ch_PartyB ch \<and> fe_FraudType ev = FraudTypeSequenceRollback"
proof -
  let ?s = "sole_state C priv i n (mc_BalanceA mc) (mc_BalanceB mc)"
  have "\<exists>wt1. VerifyState C m wt i ?s = Inr wt1 \<and> (\<exists>mc1. wt_monitored wt1 i = Some mc1 \<and> mc_Sequence mc1 = n)"
    using sole_state_signed [OF key] mc n
    by (simp add: VerifyState_def GetChannelState_def watch_check_sig_def [of C _ _ "[]"] Let_def not_less)
  then obtain wt1 mc1 where "VerifyState C m wt i ?s = Inr wt1" "wt_monitored wt1 i = Some mc1" "mc_Sequence mc1 = n"
    by blast
  then show ?thesis
    using st by (auto simp: DetectFraud_def evidence_of_fraud_def Let_def)
qed

text \<open>The next check of the channel undoes it: the sequence number is set back to the channel manager's, whatever states
  the watchtower has verified.\<close>

lemma check_forgets:
  assumes "checkChannel E m wt i = Some wt'" and "ma_channels m i = Some ch" and "wt_monitored wt i = Some mc"
    and "wt_monitored wt' i = Some mc'"
  shows "mc_Sequence mc' = ch_Sequence ch"
  using assms
  by (auto simp: checkChannel_def sync_monitored_def GetChannelState_def Let_def
      split: option.splits sum.splits if_splits prod.splits)

text \<open>The health check takes the oldest alert out of the queue and leaves an empty one at its end.\<close>

theorem health_check_loses_alert:
  assumes "\<not> wt_cancelled wt" and "wt_alertChan wt = al # q" and "length (wt_alertChan wt) < wc_AlertBufferSize (wt_config wt)"
  shows "IsHealthy wt = (wt\<lparr>wt_alertChan := q @ [zero_alert]\<rparr>, True)"
  using assms by (simp add: IsHealthy_def send_def)

section \<open>A concrete watchtower\<close>

definition demo_env :: watch_env where
  "demo_env = \<lparr>en_crypto = demo_crypto, en_time_string = (\<lambda>_. []), en_error_string = (\<lambda>_. []), en_clock = (\<lambda>_. 0)\<rparr>"

definition demo_tower :: Watchtower where
  "demo_tower = new_watchtower True DefaultWatchtowerConfig"

lemma demo_tower_created: "created demo_tower"
  by (auto simp: created_def NewWatchtowerWithDisputeResolver_def demo_tower_def intro!: exI [of _ True] exI [of _ None])

definition demo_watching :: Watchtower where
  "demo_watching = (case StartMonitoring demo_env demo_open demo_tower 5 of Inr wt \<Rightarrow> wt)"

lemma demo_watching: "StartMonitoring demo_env demo_open demo_tower 5 = Inr demo_watching"
  by (simp add: StartMonitoring_def demo_watching_def GetChannelState_def demo_open_def demo_tower_def new_watchtower_def Let_def)

lemma demo_monitored:
  "\<exists>mc. wt_monitored demo_watching 5 = Some mc \<and> \<not> mc_IsFrozen mc \<and> mc_Sequence mc = 0"
  "wc_MaxSequenceDiff (wt_config demo_watching) = 100"
  by (simp_all add: demo_watching_def StartMonitoring_def GetChannelState_def demo_open_def demo_tower_def new_watchtower_def
      demo_channel_def DefaultWatchtowerConfig_def Let_def)

theorem lone_signature_frames_witness:
  "\<exists>wt1 wt2 ev s. VerifyState demo_crypto demo_open demo_watching 5 s = Inr wt1 \<and> ss_SigB s = []
    \<and> DetectFraud demo_env wt1 5 demo_state 2 = (wt2, Some ev) \<and> fe_Attacker ev = 2"
proof -
  obtain mc where mc: "wt_monitored demo_watching 5 = Some mc" "\<not> mc_IsFrozen mc" "mc_Sequence mc = 0"
    using demo_monitored(1) by blast
  have pub: "ed25519_Public demo_key = hash_bytes (ch_PartyA demo_channel)"
    using demo_key_pair(2) demo_dispute(4) by simp
  have "ma_channels demo_open 5 = Some demo_channel" "ch_PartyB demo_channel = 2"
    by (simp_all add: demo_open_def demo_channel_def)
  moreover have "mc_Sequence mc < 7" "7 \<le> mc_Sequence mc + wc_MaxSequenceDiff (wt_config demo_watching)"
    "ss_Sequence demo_state < 7"
    using mc(3) demo_monitored(2) by (simp_all add: demo_state_def)
  ultimately show ?thesis
    using lone_signature_frames [OF demo_key_pair(1) pub mc(1,2), of demo_open 7 demo_state demo_env]
    by (metis sole_state_sel(5))
qed

text \<open>A watchtower that has just reported a rollback.\<close>

lemma DetectFraud_rollback:
  "wt_monitored wt i = Some mc \<Longrightarrow> ss_Sequence st < mc_Sequence mc \<Longrightarrow>
   \<exists>ev. DetectFraud E wt i st p = (handleFraudDetected E 1 ev wt, Some ev)"
  by (simp add: DetectFraud_def Let_def)

lemma handle_queues:
  "wt_fraudChan wt = [] \<Longrightarrow> wt_fraudChan (handleFraudDetected E k ev wt) = [ev]"
  "wt_config (handleFraudDetected E k ev wt) = wt_config wt"
  by (simp_all add: handleFraudDetected_def send_def Let_def)

lemma demo_watching_fields: "wt_fraudChan demo_watching = []" "wt_config demo_watching = DefaultWatchtowerConfig"
  by (simp_all add: demo_watching_def StartMonitoring_def GetChannelState_def demo_open_def demo_tower_def new_watchtower_def
      Let_def)

theorem evidence_never_processed_witness:
  "\<exists>wt1 wt2 ev. watch_step\<^sup>*\<^sup>* (demo_open, demo_tower) (demo_open, wt1) \<and> wt_fraudChan wt1 = [ev]
     \<and> Start wt1 = Some wt2 \<and> prefix [ev] (wt_fraudChan wt2) \<and> FraudDetectionLoop \<notin> set (wt_running wt1)"
proof -
  obtain mc where mc: "wt_monitored demo_watching 5 = Some mc"
    using demo_monitored(1) by blast
  define wt0 where "wt0 = put_monitored demo_watching 5 (mc\<lparr>mc_Sequence := 7\<rparr>)"
  have wt0: "UpdateMonitoredChannelSequence demo_watching 5 7 = Inr wt0"
    by (simp add: UpdateMonitoredChannelSequence_def mc wt0_def)
  obtain ev where d: "DetectFraud demo_env wt0 5 demo_state 2 = (handleFraudDetected demo_env 1 ev wt0, Some ev)"
    using DetectFraud_rollback [of wt0 5 "mc\<lparr>mc_Sequence := 7\<rparr>" demo_state demo_env 2] by (auto simp: wt0_def demo_state_def)
  let ?wt1 = "handleFraudDetected demo_env 1 ev wt0"
  have reach: "watch_step\<^sup>*\<^sup>* (demo_open, demo_tower) (demo_open, ?wt1)"
    using watch_step.monitor [OF demo_watching] watch_step.set_sequence [OF wt0] watch_step.detect [OF d]
    by (meson converse_rtranclp_into_rtranclp rtranclp.rtrancl_refl)
  have f: "wt_fraudChan ?wt1 = [ev]" and c: "wt_config ?wt1 = DefaultWatchtowerConfig"
    by (simp_all add: handle_queues wt0_def demo_watching_fields)
  then obtain wt2 where s: "Start ?wt1 = Some wt2"
    by (simp add: Start_def DefaultWatchtowerConfig_def second_def)
  have "watch_step\<^sup>*\<^sup>* (demo_open, ?wt1) (demo_open, wt2)"
    using watch_step.start [OF s] by blast
  from evidence_never_processed [OF demo_tower_created reach this] show ?thesis
    using reach f s by auto
qed

theorem health_check_loses_alert_witness:
  "\<exists>al. wt_alertChan demo_watching = [al] \<and> IsHealthy demo_watching = (demo_watching\<lparr>wt_alertChan := [zero_alert]\<rparr>, True)"
proof -
  obtain al where al: "wt_alertChan demo_watching = [al]" "\<not> wt_cancelled demo_watching"
    "wc_AlertBufferSize (wt_config demo_watching) = 1000"
    by (simp add: demo_watching_def StartMonitoring_def GetChannelState_def demo_open_def demo_tower_def new_watchtower_def
        sendAlert_def send_def put_monitored_def DefaultWatchtowerConfig_def Let_def)
  from health_check_loses_alert [OF al(2,1)] al show ?thesis by simp
qed

end
