(* ===== verification/KV_Store.thy ===== *)
theory KV_Store
  imports AIB_Prelude "HOL-Library.DAList"
begin

text \<open>
  The embedded key-value database \<^verbatim>\<open>go.etcd.io/bbolt\<close>, which is not part of the repository: a parameter. A
  value of \<open>bbolt\<close> gives the operations on the state of a write transaction, \<open>'d\<close>; \<open>None\<close> is an error. The
  locale \<open>bbolt_laws\<close> states its documented behaviour: a read sees the last write of its key in its bucket,
  deleting works for absent keys too, a cursor visits every entry of a bucket once, and \<^verbatim>\<open>Put\<close> succeeds for
  keys that are not empty and below the size limits. \<^verbatim>\<open>db.Update\<close> commits the state its callback returns, or
  leaves the database as it was when the callback fails. Errors of the disk are not considered.
\<close>

record 'd bbolt =
  bb_get :: "'d \<Rightarrow> string \<Rightarrow> bytes \<Rightarrow> bytes option"
  bb_put :: "'d \<Rightarrow> string \<Rightarrow> bytes \<Rightarrow> bytes \<Rightarrow> 'd option"
  bb_delete :: "'d \<Rightarrow> string \<Rightarrow> bytes \<Rightarrow> 'd option"
  bb_entries :: "'d \<Rightarrow> string \<Rightarrow> (bytes \<times> bytes) list"
  bb_clear :: "'d \<Rightarrow> string \<Rightarrow> 'd option"

definition MaxKeySize :: nat where
  "MaxKeySize = 32768"

definition MaxValueSize :: nat where
  "MaxValueSize = 2 ^ 31 - 2"

locale bbolt_laws =
  fixes B :: "'d bbolt"
  assumes get_put: "bb_put B d b k v = Some d' \<Longrightarrow>
      bb_get B d' b' k' = (if b' = b \<and> k' = k then Some v else bb_get B d b' k')"
    and get_delete: "bb_delete B d b k = Some d' \<Longrightarrow>
      bb_get B d' b' k' = (if b' = b \<and> k' = k then None else bb_get B d b' k')"
    and get_clear: "bb_clear B d b = Some d' \<Longrightarrow> bb_get B d' b' k' = (if b' = b then None else bb_get B d b' k')"
    and put_succeeds: "k \<noteq> [] \<Longrightarrow> length k \<le> MaxKeySize \<Longrightarrow> length v \<le> MaxValueSize \<Longrightarrow> bb_put B d b k v \<noteq> None"
    and delete_succeeds: "bb_delete B d b k \<noteq> None"
    and clear_succeeds: "bb_clear B d b \<noteq> None"
    and entries_distinct: "distinct (map fst (bb_entries B d b))"
    and entries_get: "(k, v) \<in> set (bb_entries B d b) \<longleftrightarrow> bb_get B d b k = Some v"
begin

text \<open>Every bucket holds finitely many keys, and its entries are its contents in some order.\<close>

lemma finite_bucket: "finite {k. bb_get B d b k \<noteq> None}"
proof -
  have "{k. bb_get B d b k \<noteq> None} = fst ` set (bb_entries B d b)"
    using entries_get [of _ _ d b] by (force simp: image_iff)
  then show ?thesis by simp
qed

lemma map_of_entries: "map_of (bb_entries B d b) = bb_get B d b"
proof
  fix k
  show "map_of (bb_entries B d b) k = bb_get B d b k"
    using map_of_eq_Some_iff [OF entries_distinct, of d b k] entries_get [of k _ d b]
    by (cases "bb_get B d b k"; cases "map_of (bb_entries B d b) k") auto
qed

end

text \<open>A database in memory that has these properties, for evaluating instances.\<close>

definition mem_bbolt :: "(string \<Rightarrow> (bytes, bytes) alist) bbolt" where
  "mem_bbolt =
     \<lparr>bb_get = (\<lambda>d b k. DAList.lookup (d b) k),
      bb_put = (\<lambda>d b k v. if k = [] \<or> MaxKeySize < length k \<or> MaxValueSize < length v then None
                         else Some (d(b := DAList.update k v (d b)))),
      bb_delete = (\<lambda>d b k. Some (d(b := DAList.delete k (d b)))),
      bb_entries = (\<lambda>d b. DAList.impl_of (d b)),
      bb_clear = (\<lambda>d b. Some (d(b := DAList.empty)))\<rparr>"

definition mem_empty :: "string \<Rightarrow> (bytes, bytes) alist" where
  "mem_empty = (\<lambda>_. DAList.empty)"

lemma lookup_empty [simp]: "DAList.lookup DAList.empty k = None"
  by (simp add: DAList.lookup.rep_eq DAList.empty.rep_eq)

lemma set_impl_of: "(k, v) \<in> set (DAList.impl_of xs) \<longleftrightarrow> DAList.lookup xs k = Some v"
  by (simp add: DAList.lookup.rep_eq map_of_eq_Some_iff)

interpretation mem: bbolt_laws mem_bbolt
  by unfold_locales (auto simp: mem_bbolt_def lookup_update set_impl_of split: if_splits)

section \<open>Values in the database\<close>

definition or_error :: "'e \<Rightarrow> 'a option \<Rightarrow> ('e, 'a) result" where
  "or_error e x = (case x of None \<Rightarrow> Inl e | Some y \<Rightarrow> Inr y)"

lemma or_error_Inr [simp]: "or_error e x = Inr y \<longleftrightarrow> x = Some y"
  by (cases x) (auto simp: or_error_def)

text \<open>\<^verbatim>\<open>binary.BigEndian.Uint64\<close> panics on fewer than eight bytes (\<open>None\<close>).\<close>

definition get_u64_be :: "bytes \<Rightarrow> u64 option" where
  "get_u64_be bs = (if length bs < 8 then None else Some (of_nat (be_val (take 8 bs))))"

lemma get_put_u64_be [simp]: "get_u64_be (put_u64_be w) = Some w"
  by (simp add: get_u64_be_def put_u64_be_inverse)

definition put_u32_be :: "u32 \<Rightarrow> bytes" where
  "put_u32_be w = be_bytes 4 (unat w)"

lemma length_put_u32_be [simp]: "length (put_u32_be w) = 4"
  by (simp add: put_u32_be_def)

lemma put_u32_be_inverse: "of_nat (be_val (put_u32_be w)) = w"
  using unat_bound [of w] by (simp add: put_u32_be_def be_val_be_bytes)

definition string_bytes :: "string \<Rightarrow> bytes" where
  "string_bytes s = map of_char s"

lemma of_char_byte_inject: "(of_char c :: byte) = of_char c' \<longleftrightarrow> c = c'"
proof
  assume "(of_char c :: byte) = of_char c'"
  then have "unat (of_char c :: byte) = unat (of_char c' :: byte)" by simp
  moreover have "unat (of_char x :: byte) = of_char x" for x
  proof -
    have "(of_char x :: byte) = of_nat (of_char x)"
      by (simp add: of_nat_of_char)
    moreover have "(of_char x :: nat) < 256" by (rule nat_of_char_less_256)
    ultimately show ?thesis by (simp add: unat_of_nat)
  qed
  ultimately have "(of_char c :: nat) = of_char c'" by simp
  then show "c = c'" by simp
qed simp

lemma string_bytes_inject [simp]: "string_bytes s = string_bytes t \<longleftrightarrow> s = t"
  using map_injective [of of_char s t] of_char_byte_inject by (auto simp: string_bytes_def inj_def)

lemma length_string_bytes [simp]: "length (string_bytes s) = length s"
  by (simp add: string_bytes_def)

end
