(* ===== verification/Persistent_Store.thy ===== *)
theory Persistent_Store
  imports UTXO_Store KV_Store
begin

text \<open>
  \<^verbatim>\<open>pkg/utxo/store_persistent.go\<close>: the store of unspent outputs on bbolt. Every definition takes the
  database's operations as the parameter \<open>B\<close>; the store is the database's state with the read-only flag. A
  method that writes is one transaction: it returns the new store or an error, which leaves the database
  as it was. Left out: opening, copying and restoring database files, the low-level statistics, the
  iterator (its cursor outlives its transaction), and \<^verbatim>\<open>Batch\<close>, \<^verbatim>\<open>Update\<close> and \<^verbatim>\<open>View\<close>, whose callbacks start
  a second transaction inside the first.
\<close>

section \<open>Data\<close>

definition BucketUTXO :: string where "BucketUTXO = ''utxo''"
definition BucketBalances :: string where "BucketBalances = ''balances''"
definition BucketHeads :: string where "BucketHeads = ''heads''"
definition BucketMeta :: string where "BucketMeta = ''meta''"
definition BucketTXIndex :: string where "BucketTXIndex = ''txindex''"

lemmas bucket_defs = BucketUTXO_def BucketBalances_def BucketHeads_def BucketMeta_def BucketTXIndex_def

record 'd PersistentUTXOStore =
  ps_db :: 'd
  ps_readOnly :: bool

datatype pstore_error =
    PsPanic
  | PsDb
  | PsReadOnly
  | PsNotFound string
  | PsSpent
  | PsShort
  | PsShortScript
  | PsNegative
  | PsBadSignature nat
  | PsInsufficient u64 u64
  | PsNoTransaction

section \<open>Serialization\<close>

definition serializeUTXO :: "UTXO \<Rightarrow> bytes" where
  "serializeUTXO u =
     hash_bytes (u_TxHash u) @ put_u32_be (u_Index u) @ put_u64_be (u_Value u)
     @ put_u32_be (of_nat (length (u_Script u))) @ u_Script u @ hash_bytes (u_Address u)"

definition deserializeUTXO :: "bytes \<Rightarrow> (pstore_error, UTXO) result" where
  "deserializeUTXO data =
     (if length data < 80 then Inl PsShort
      else let scriptLen = be_val (take 4 (drop 44 data)) in
        if length data < 48 + scriptLen + 32 then Inl PsShortScript
        else Inr \<lparr>u_TxHash = hash_of_bytes (take 32 data), u_Index = of_nat (be_val (take 4 (drop 32 data))),
                  u_Value = of_nat (be_val (take 8 (drop 36 data))),
                  u_Script = take scriptLen (drop 48 data),
                  u_Address = hash_of_bytes (take 32 (drop (48 + scriptLen) data))\<rparr>)"

section \<open>Outputs and balances\<close>

definition key_bytes :: "hash \<Rightarrow> u32 \<Rightarrow> bytes" where
  "key_bytes txHash index = string_bytes (UTXOKey txHash index)"

text \<open>
  \<^verbatim>\<open>updateBalance\<close> computes with \<^verbatim>\<open>int64\<close>: the stored balance and the change are read as signed numbers and
  their sum wraps.
\<close>

definition updateBalance :: "'d bbolt \<Rightarrow> 'd \<Rightarrow> address \<Rightarrow> u64 \<Rightarrow> (pstore_error, 'd) result" where
  "updateBalance B d addr delta =
     (case (case bb_get B d BucketBalances (hash_bytes addr) of None \<Rightarrow> Some 0 | Some data \<Rightarrow> get_u64_be data) of
        None \<Rightarrow> Inl PsPanic
      | Some current' \<Rightarrow>
          let newBalance = current' + delta in
          if sint newBalance < 0 then Inl PsNegative
          else if newBalance = 0 then or_error PsDb (bb_delete B d BucketBalances (hash_bytes addr))
          else or_error PsDb (bb_put B d BucketBalances (hash_bytes addr) (put_u64_be newBalance)))"

definition writable :: "'d PersistentUTXOStore \<Rightarrow> ('d \<Rightarrow> (pstore_error, 'd) result)
    \<Rightarrow> (pstore_error, 'd PersistentUTXOStore) result" where
  "writable s f = (if ps_readOnly s then Inl PsReadOnly else rbind (f (ps_db s)) (\<lambda>d. Inr (s\<lparr>ps_db := d\<rparr>)))"

definition IsReadOnly :: "'d PersistentUTXOStore \<Rightarrow> bool" where
  "IsReadOnly s = ps_readOnly s"

definition SetReadOnly :: "'d PersistentUTXOStore \<Rightarrow> bool \<Rightarrow> 'd PersistentUTXOStore" where
  "SetReadOnly s readOnly = s\<lparr>ps_readOnly := readOnly\<rparr>"

definition put_output :: "'d bbolt \<Rightarrow> 'd \<Rightarrow> UTXO \<Rightarrow> (pstore_error, 'd) result" where
  "put_output B d u =
     rbind (or_error PsDb (bb_put B d BucketUTXO (key_bytes (u_TxHash u) (u_Index u)) (serializeUTXO u)))
       (\<lambda>d. updateBalance B d (u_Address u) (u_Value u))"

definition persistent_AddUTXO ::
  "'d bbolt \<Rightarrow> 'd PersistentUTXOStore \<Rightarrow> UTXO \<Rightarrow> (pstore_error, 'd PersistentUTXOStore) result" where
  "persistent_AddUTXO B s u = writable s (\<lambda>d. put_output B d u)"

definition persistent_GetUTXO ::
  "'d bbolt \<Rightarrow> 'd PersistentUTXOStore \<Rightarrow> hash \<Rightarrow> u32 \<Rightarrow> (pstore_error, UTXO) result" where
  "persistent_GetUTXO B s txHash index =
     (case bb_get B (ps_db s) BucketUTXO (key_bytes txHash index) of
        None \<Rightarrow> Inl (PsNotFound (UTXOKey txHash index)) | Some data \<Rightarrow> deserializeUTXO data)"

definition persistent_HasUTXO :: "'d bbolt \<Rightarrow> 'd PersistentUTXOStore \<Rightarrow> hash \<Rightarrow> u32 \<Rightarrow> bool" where
  "persistent_HasUTXO B s txHash index \<longleftrightarrow> bb_get B (ps_db s) BucketUTXO (key_bytes txHash index) \<noteq> None"

definition persistent_SpendUTXO ::
  "'d bbolt \<Rightarrow> 'd PersistentUTXOStore \<Rightarrow> hash \<Rightarrow> u32 \<Rightarrow> (pstore_error, 'd PersistentUTXOStore) result" where
  "persistent_SpendUTXO B s txHash index =
     writable s (\<lambda>d.
       case bb_get B d BucketUTXO (key_bytes txHash index) of
         None \<Rightarrow> Inl PsSpent
       | Some data \<Rightarrow>
           rbind (deserializeUTXO data) (\<lambda>u.
           rbind (or_error PsDb (bb_delete B d BucketUTXO (key_bytes txHash index))) (\<lambda>d.
           updateBalance B d (u_Address u) (- u_Value u))))"

text \<open>An absent or unreadable entry gives 0; a short one panics (\<open>None\<close>).\<close>

definition persistent_GetBalance :: "'d bbolt \<Rightarrow> 'd PersistentUTXOStore \<Rightarrow> address \<Rightarrow> u64 option" where
  "persistent_GetBalance B s addr =
     (case bb_get B (ps_db s) BucketBalances (hash_bytes addr) of None \<Rightarrow> Some 0 | Some data \<Rightarrow> get_u64_be data)"

definition readable_utxos :: "(bytes \<times> bytes) list \<Rightarrow> UTXO list" where
  "readable_utxos es = List.map_filter (\<lambda>(_, v). case deserializeUTXO v of Inl _ \<Rightarrow> None | Inr u \<Rightarrow> Some u) es"

definition persistent_GetAllUTXOsAll :: "'d bbolt \<Rightarrow> 'd PersistentUTXOStore \<Rightarrow> UTXO list" where
  "persistent_GetAllUTXOsAll B s = readable_utxos (bb_entries B (ps_db s) BucketUTXO)"

definition persistent_GetAllUTXOs :: "'d bbolt \<Rightarrow> 'd PersistentUTXOStore \<Rightarrow> address \<Rightarrow> UTXO list" where
  "persistent_GetAllUTXOs B s addr =
     filter (\<lambda>u. u_Address u = addr) (readable_utxos (bb_entries B (ps_db s) BucketUTXO))"

text \<open>The loop over the outputs of an address is the one of the in-memory store.\<close>

definition persistent_GetUTXOsForAmount ::
  "'d bbolt \<Rightarrow> 'd PersistentUTXOStore \<Rightarrow> address \<Rightarrow> u64 \<Rightarrow> (pstore_error, UTXO list \<times> u64) result" where
  "persistent_GetUTXOsForAmount B s addr amount =
     (let (selected, tot) = select_utxos addr amount (persistent_GetAllUTXOs B s addr) [] 0 in
      if tot < amount then Inl (PsInsufficient tot amount) else Inr (selected, tot))"

definition persistent_GetUTXOCount :: "'d bbolt \<Rightarrow> 'd PersistentUTXOStore \<Rightarrow> nat" where
  "persistent_GetUTXOCount B s = length (bb_entries B (ps_db s) BucketUTXO)"

definition persistent_GetStats :: "'d bbolt \<Rightarrow> 'd PersistentUTXOStore \<Rightarrow> nat \<times> nat \<times> u64" where
  "persistent_GetStats B s =
     (length (bb_entries B (ps_db s) BucketUTXO), length (bb_entries B (ps_db s) BucketBalances),
      foldl (\<lambda>tot u. tot + u_Value u) 0 (persistent_GetAllUTXOsAll B s))"

section \<open>Transactions\<close>

fun have_inputs :: "'d bbolt \<Rightarrow> 'd \<Rightarrow> TXInput list \<Rightarrow> (pstore_error, unit) result" where
  "have_inputs B d [] = Inr ()"
| "have_inputs B d (i # is) =
     (if bb_get B d BucketUTXO (key_bytes (ti_TxHash i) (ti_Index i)) = None
      then Inl (PsNotFound (UTXOKey (ti_TxHash i) (ti_Index i))) else have_inputs B d is)"

fun persistent_signatures :: "crypto \<Rightarrow> Transaction \<Rightarrow> nat list \<Rightarrow> (pstore_error, unit) result" where
  "persistent_signatures C tx [] = Inr ()"
| "persistent_signatures C tx (i # is) =
     (case VerifyInput C tx (int i) of
        None \<Rightarrow> Inl PsPanic
      | Some ok \<Rightarrow> if \<not> ok then Inl (PsBadSignature i) else persistent_signatures C tx is)"

definition persistent_ValidateTransaction ::
  "crypto \<Rightarrow> 'd bbolt \<Rightarrow> 'd PersistentUTXOStore \<Rightarrow> Transaction \<Rightarrow> (pstore_error, unit) result" where
  "persistent_ValidateTransaction C B s tx =
     rbind (have_inputs B (ps_db s) (tx_Inputs tx))
       (\<lambda>_. persistent_signatures C tx [0..<length (tx_Inputs tx)])"

text \<open>
  Spending reads every input again: an input that occurs twice is gone the second time, and its empty data
  is too short.
\<close>

fun persistent_spend :: "'d bbolt \<Rightarrow> 'd \<Rightarrow> TXInput list \<Rightarrow> (pstore_error, 'd) result" where
  "persistent_spend B d [] = Inr d"
| "persistent_spend B d (i # is) =
     (let key = key_bytes (ti_TxHash i) (ti_Index i) in
      rbind (deserializeUTXO (case bb_get B d BucketUTXO key of None \<Rightarrow> [] | Some data \<Rightarrow> data)) (\<lambda>u.
      rbind (updateBalance B d (u_Address u) (- u_Value u)) (\<lambda>d.
      rbind (or_error PsDb (bb_delete B d BucketUTXO key)) (\<lambda>d.
      persistent_spend B d is))))"

fun persistent_outputs :: "'d bbolt \<Rightarrow> 'd \<Rightarrow> hash \<Rightarrow> nat \<Rightarrow> TXOutput list \<Rightarrow> (pstore_error, 'd) result" where
  "persistent_outputs B d txHash i [] = Inr d"
| "persistent_outputs B d txHash i (out # outs) =
     rbind (put_output B d (output_utxo txHash i out)) (\<lambda>d. persistent_outputs B d txHash (Suc i) outs)"

definition indexTransaction :: "crypto \<Rightarrow> 'd bbolt \<Rightarrow> 'd \<Rightarrow> Transaction \<Rightarrow> (pstore_error, 'd) result" where
  "indexTransaction C B d tx = or_error PsDb (bb_put B d BucketTXIndex (hash_bytes (TxHash C tx)) (put_u64_be 0))"

definition persistent_ApplyTransaction ::
  "crypto \<Rightarrow> 'd bbolt \<Rightarrow> 'd PersistentUTXOStore \<Rightarrow> Transaction \<Rightarrow> (pstore_error, 'd PersistentUTXOStore) result" where
  "persistent_ApplyTransaction C B s tx =
     writable s (\<lambda>d.
       rbind (have_inputs B d (tx_Inputs tx)) (\<lambda>_.
       rbind (persistent_signatures C tx [0..<length (tx_Inputs tx)]) (\<lambda>_.
       rbind (persistent_spend B d (tx_Inputs tx)) (\<lambda>d.
       rbind (persistent_outputs B d (TxHash C tx) 0 (tx_Outputs tx)) (\<lambda>d.
       indexTransaction C B d tx)))))"

text \<open>The replay of accepted blocks skips missing inputs and checks no signatures.\<close>

fun replay_spend :: "'d bbolt \<Rightarrow> 'd \<Rightarrow> TXInput list \<Rightarrow> (pstore_error, 'd) result" where
  "replay_spend B d [] = Inr d"
| "replay_spend B d (i # is) =
     (let key = key_bytes (ti_TxHash i) (ti_Index i) in
      case bb_get B d BucketUTXO key of
        None \<Rightarrow> replay_spend B d is
      | Some data \<Rightarrow>
          rbind (deserializeUTXO data) (\<lambda>u.
          rbind (updateBalance B d (u_Address u) (- u_Value u)) (\<lambda>d.
          rbind (or_error PsDb (bb_delete B d BucketUTXO key)) (\<lambda>d.
          replay_spend B d is))))"

definition ApplyTransactionUnchecked ::
  "crypto \<Rightarrow> 'd bbolt \<Rightarrow> 'd PersistentUTXOStore \<Rightarrow> Transaction \<Rightarrow> (pstore_error, 'd PersistentUTXOStore) result" where
  "ApplyTransactionUnchecked C B s tx =
     writable s (\<lambda>d.
       rbind (replay_spend B d (tx_Inputs tx)) (\<lambda>d.
       rbind (persistent_outputs B d (TxHash C tx) 0 (tx_Outputs tx)) (\<lambda>d.
       indexTransaction C B d tx)))"

section \<open>Metadata\<close>

definition GetTransactionIndex ::
  "'d bbolt \<Rightarrow> 'd PersistentUTXOStore \<Rightarrow> hash \<Rightarrow> (pstore_error, u64) result" where
  "GetTransactionIndex B s txHash =
     (case bb_get B (ps_db s) BucketTXIndex (hash_bytes txHash) of
        None \<Rightarrow> Inl PsNoTransaction | Some data \<Rightarrow> or_error PsPanic (get_u64_be data))"

definition SetChainHead :: "'d bbolt \<Rightarrow> 'd PersistentUTXOStore \<Rightarrow> u64 \<Rightarrow> (pstore_error, 'd PersistentUTXOStore) result" where
  "SetChainHead B s height =
     rbind (or_error PsDb (bb_put B (ps_db s) BucketHeads (string_bytes ''head'') (put_u64_be height)))
       (\<lambda>d. Inr (s\<lparr>ps_db := d\<rparr>))"

definition GetChainHead :: "'d bbolt \<Rightarrow> 'd PersistentUTXOStore \<Rightarrow> u64 option" where
  "GetChainHead B s =
     (case bb_get B (ps_db s) BucketHeads (string_bytes ''head'') of None \<Rightarrow> Some 0 | Some data \<Rightarrow> get_u64_be data)"

definition SetMeta :: "'d bbolt \<Rightarrow> 'd PersistentUTXOStore \<Rightarrow> string \<Rightarrow> string \<Rightarrow> (pstore_error, 'd PersistentUTXOStore) result" where
  "SetMeta B s key val =
     rbind (or_error PsDb (bb_put B (ps_db s) BucketMeta (string_bytes key) (string_bytes val)))
       (\<lambda>d. Inr (s\<lparr>ps_db := d\<rparr>))"

definition GetMeta :: "'d bbolt \<Rightarrow> 'd PersistentUTXOStore \<Rightarrow> string \<Rightarrow> string" where
  "GetMeta B s key =
     (case bb_get B (ps_db s) BucketMeta (string_bytes key) of None \<Rightarrow> [] | Some data \<Rightarrow> map (\<lambda>b. char_of (unat b)) data)"

definition ResetAll :: "'d bbolt \<Rightarrow> 'd PersistentUTXOStore \<Rightarrow> (pstore_error, 'd PersistentUTXOStore) result" where
  "ResetAll B s =
     writable s (\<lambda>d.
       rbind (or_error PsDb (bb_clear B d BucketUTXO)) (\<lambda>d.
       rbind (or_error PsDb (bb_clear B d BucketBalances)) (\<lambda>d.
       rbind (or_error PsDb (bb_clear B d BucketTXIndex)) (\<lambda>d.
       or_error PsDb (bb_put B d BucketMeta (string_bytes ''chain_head'') (replicate 8 0))))))"

definition ToInMemory :: "'d bbolt \<Rightarrow> 'd PersistentUTXOStore \<Rightarrow> UTXOStore" where
  "ToInMemory B s = foldl AddUTXO NewUTXOStore (persistent_GetAllUTXOsAll B s)"

end
