(* ===== verification/Persistent_Runs.thy ===== *)
theory Persistent_Runs
  imports Persistent_Store
begin

text \<open>
  The persistent store refines the store in memory: \<open>stored B d s\<close> says that the database state \<open>d\<close> holds
  the outputs and the balances of \<open>s\<close>, and applying a transaction preserves it in both directions, as long
  as no balance reaches \<open>2 ^ 63\<close>, where the code's signed arithmetic ends.
\<close>

section \<open>The format of an output\<close>

definition script_ok :: "bytes \<Rightarrow> bool" where
  "script_ok s \<longleftrightarrow> length s \<le> MaxValueSize - 80"

lemma length_serializeUTXO [simp]: "length (serializeUTXO u) = 80 + length (u_Script u)"
  by (simp add: serializeUTXO_def)

lemma utxo_bytes_inverse:
  assumes "length (u_Script u) < 2 ^ 32"
  shows "deserializeUTXO (serializeUTXO u) = Inr u"
proof -
  have len: "be_val (put_u32_be (of_nat (length (u_Script u)))) = length (u_Script u)"
    using assms by (simp add: put_u32_be_def be_val_be_bytes unat_of_nat)
  have parts: "take 32 (serializeUTXO u) = hash_bytes (u_TxHash u)"
    "take 4 (drop 32 (serializeUTXO u)) = put_u32_be (u_Index u)"
    "take 8 (drop 36 (serializeUTXO u)) = put_u64_be (u_Value u)"
    "take 4 (drop 44 (serializeUTXO u)) = put_u32_be (of_nat (length (u_Script u)))"
    "take (length (u_Script u)) (drop 48 (serializeUTXO u)) = u_Script u"
    "take 32 (drop (48 + length (u_Script u)) (serializeUTXO u)) = hash_bytes (u_Address u)"
    by (simp_all add: serializeUTXO_def)
  show ?thesis
    unfolding deserializeUTXO_def Let_def parts len
    by (simp add: put_u32_be_inverse put_u64_be_inverse)
qed

lemma utxo_bytes_inverse_ok: "script_ok (u_Script u) \<Longrightarrow> deserializeUTXO (serializeUTXO u) = Inr u"
  by (rule utxo_bytes_inverse) (simp add: script_ok_def MaxValueSize_def)

lemma length_dec_string: "0 < k \<Longrightarrow> n < 10 ^ k \<Longrightarrow> length (dec_string n) \<le> k"
proof (induction k arbitrary: n)
  case (Suc k)
  show ?case
  proof (cases "n < 10")
    case False
    then have "0 < k" using Suc.prems by (cases k) auto
    moreover have "n div 10 < 10 ^ k" using Suc.prems by (simp add: less_mult_imp_div_less mult.commute)
    ultimately show ?thesis
      using Suc.IH [of "n div 10"] False by (simp add: dec_string.simps [of n])
  qed (simp add: dec_string.simps [of n])
qed simp

lemma key_bytes_ok: "key_bytes h i \<noteq> []" "length (key_bytes h i) \<le> MaxKeySize"
proof -
  have "length (dec_string (unat i)) \<le> 10"
    using unat_bound [of i] by (intro length_dec_string) simp_all
  then show "key_bytes h i \<noteq> []" "length (key_bytes h i) \<le> MaxKeySize"
    by (simp_all add: key_bytes_def UTXOKey_def MaxKeySize_def string_bytes_def)
qed

lemma key_bytes_inject [simp]: "key_bytes h i = key_bytes h' i' \<longleftrightarrow> h = h' \<and> i = i'"
  by (simp add: key_bytes_def)

section \<open>The refinement relation\<close>

definition balance_entry :: "u64 \<Rightarrow> bytes option" where
  "balance_entry w = (if w = 0 then None else Some (put_u64_be w))"

definition stored :: "'d bbolt \<Rightarrow> 'd \<Rightarrow> UTXOStore \<Rightarrow> bool" where
  "stored B d s \<longleftrightarrow>
     (\<forall>h i. bb_get B d BucketUTXO (key_bytes h i) = map_option serializeUTXO (GetUTXO s h i)) \<and>
     (\<forall>a. bb_get B d BucketBalances (hash_bytes a) = balance_entry (GetBalance s a)) \<and>
     (\<forall>h i u. GetUTXO s h i = Some u \<longrightarrow> script_ok (u_Script u))"

text \<open>No balance exceeds the value of all outputs together.\<close>

lemma unat_sum_le: "finite A \<Longrightarrow> unat (\<Sum>k \<in> A. f k :: u64) \<le> (\<Sum>k \<in> A. unat (f k))"
proof (induction A rule: finite_induct)
  case (insert x A)
  have "unat (f x + (\<Sum>k \<in> A. f k)) \<le> unat (f x) + unat (\<Sum>k \<in> A. f k)"
    by (simp add: unat_word_ariths)
  with insert show ?case by simp
qed simp

lemma balance_le_total:
  assumes "store_inv s"
  shows "unat (GetBalance s a) \<le> total_value (st_utxos s)"
proof -
  have "unat (GetBalance s a) \<le> (\<Sum>k \<in> dom (st_utxos s). unat (owned (the (st_utxos s k)) a))"
    using assms unat_sum_le by (auto simp: store_inv_def balance_of_def)
  also have "\<dots> \<le> total_value (st_utxos s)"
    unfolding total_value_def by (rule sum_mono) (simp add: owned_def)
  finally show ?thesis .
qed

lemma not_negative:
  assumes "unat (w :: u64) < 2 ^ 63"
  shows "\<not> sint w < 0"
proof -
  have "int (unat w) < 2 ^ 63"
    using assms by (simp only: of_nat_less_numeral_power_cancel_iff)
  then have "uint w < 2 ^ 63"
    by (simp only: uint_nat)
  moreover have "- (2 ^ 63) \<le> uint w"
    using uint_ge_0 [of w] by (rule order_trans [rotated]) simp
  ultimately have "sint w = uint w"
    using signed_take_bit_int_eq_self [of 63 "uint w"] by (simp add: sint_uint)
  then show ?thesis by simp
qed

context bbolt_laws begin

lemma updateBalance_ok:
  assumes "bb_get B d BucketBalances (hash_bytes a) = balance_entry w" and "unat (w + delta) < 2 ^ 63"
  shows "\<exists>d'. updateBalance B d a delta = Inr d' \<and>
    (\<forall>b k. bb_get B d' b k = (if b = BucketBalances \<and> k = hash_bytes a then balance_entry (w + delta) else bb_get B d b k))"
proof -
  have cur: "(case bb_get B d BucketBalances (hash_bytes a) of None \<Rightarrow> Some 0 | Some data \<Rightarrow> get_u64_be data) = Some w"
    using assms(1) by (simp add: balance_entry_def)
  have pos: "\<not> sint (w + delta) < 0"
    using assms(2) by (rule not_negative)
  show ?thesis
  proof (cases "w + delta = 0")
    case True
    obtain d' where d': "bb_delete B d BucketBalances (hash_bytes a) = Some d'"
      using delete_succeeds by blast
    then show ?thesis
      using cur True get_delete [OF d'] by (simp add: updateBalance_def balance_entry_def or_error_def)
  next
    case False
    have "bb_put B d BucketBalances (hash_bytes a) (put_u64_be (w + delta)) \<noteq> None"
      by (rule put_succeeds) (simp_all add: MaxKeySize_def MaxValueSize_def)
    then obtain d' where d': "bb_put B d BucketBalances (hash_bytes a) (put_u64_be (w + delta)) = Some d'"
      by blast
    then show ?thesis
      using cur False pos get_put [OF d'] by (simp add: updateBalance_def balance_entry_def or_error_def Let_def)
  qed
qed

lemma put_output_ok:
  assumes st: "stored B d s" and inv: "store_inv s" and fresh: "GetUTXO s (u_TxHash u) (u_Index u) = None"
    and small: "total_value (st_utxos s) + unat (u_Value u) < 2 ^ 63" and script: "script_ok (u_Script u)"
  shows "\<exists>d'. put_output B d u = Inr d' \<and> stored B d' (AddUTXO s u)"
proof -
  have "bb_put B d BucketUTXO (key_bytes (u_TxHash u) (u_Index u)) (serializeUTXO u) \<noteq> None"
    using script by (intro put_succeeds key_bytes_ok) (simp add: script_ok_def MaxValueSize_def)
  then obtain d1 where d1: "bb_put B d BucketUTXO (key_bytes (u_TxHash u) (u_Index u)) (serializeUTXO u) = Some d1"
    by blast
  have bal: "GetBalance (AddUTXO s u) a = (if a = u_Address u then GetBalance s a + u_Value u else GetBalance s a)" for a
    by (simp add: GetBalance_def AddUTXO_def)
  have "unat (GetBalance (AddUTXO s u) (u_Address u)) \<le> total_value (st_utxos s) + unat (u_Value u)"
    using balance_le_total [OF store_inv_AddUTXO [OF inv fresh], of "u_Address u"] mem_store.holds_add [OF inv fresh] by simp
  then have "unat (GetBalance s (u_Address u) + u_Value u) < 2 ^ 63"
    using small bal [of "u_Address u"] by simp
  then obtain d' where d': "updateBalance B d1 (u_Address u) (u_Value u) = Inr d'"
    and get: "\<forall>b k. bb_get B d' b k = (if b = BucketBalances \<and> k = hash_bytes (u_Address u)
       then balance_entry (GetBalance s (u_Address u) + u_Value u) else bb_get B d1 b k)"
    using updateBalance_ok [of d1 "u_Address u" "GetBalance s (u_Address u)" "u_Value u"] st get_put [OF d1]
    by (auto simp: stored_def bucket_defs)
  have "stored B d' (AddUTXO s u)"
    using st get get_put [OF d1] script
    by (simp add: stored_def bal GetUTXO_AddUTXO bucket_defs)
  then show ?thesis
    using d1 d' by (simp add: put_output_def or_error_def)
qed

lemma spend_one_ok:
  assumes st: "stored B d s" and inv: "store_inv s" and small: "total_value (st_utxos s) < 2 ^ 63"
    and s': "SpendUTXO s h i = Inr s'" and u: "GetUTXO s h i = Some u"
  shows "\<exists>d1 d'. updateBalance B d (u_Address u) (- u_Value u) = Inr d1
    \<and> bb_delete B d1 BucketUTXO (key_bytes h i) = Some d' \<and> stored B d' s'"
proof -
  have bal: "GetBalance s' a = (if a = u_Address u then GetBalance s a - u_Value u else GetBalance s a)" for a
    using s' u by (auto simp: SpendUTXO_def GetUTXO_def GetBalance_def map_get_debit)
  have get': "GetUTXO s' h' i' = (if h' = h \<and> i' = i then None else GetUTXO s h' i')" for h' i'
    using s' u by (auto simp: SpendUTXO_def GetUTXO_def)
  obtain s2 where "SpendUTXO s h i = Inr s2" "unat (u_Value u) + total_value (st_utxos s2) = total_value (st_utxos s)"
    using mem_store.spend_ok [OF inv u] by blast
  then have tot: "total_value (st_utxos s') \<le> total_value (st_utxos s)"
    using s' by simp
  have "unat (GetBalance s (u_Address u) + - u_Value u) < 2 ^ 63"
    using balance_le_total [OF store_inv_SpendUTXO [OF inv s'], of "u_Address u"] bal [of "u_Address u"] tot small by simp
  then obtain d1 where d1: "updateBalance B d (u_Address u) (- u_Value u) = Inr d1"
    and get: "\<forall>b k. bb_get B d1 b k = (if b = BucketBalances \<and> k = hash_bytes (u_Address u)
       then balance_entry (GetBalance s (u_Address u) + - u_Value u) else bb_get B d b k)"
    using updateBalance_ok [of d "u_Address u" "GetBalance s (u_Address u)" "- u_Value u"] st
    by (auto simp: stored_def)
  obtain d' where d': "bb_delete B d1 BucketUTXO (key_bytes h i) = Some d'"
    using delete_succeeds by blast
  have "stored B d' s'"
    using st get get_delete [OF d'] by (simp add: stored_def bal get' bucket_defs)
  then show ?thesis using d1 d' by blast
qed

lemma read_stored:
  "stored B d s \<Longrightarrow> GetUTXO s h i = Some u \<Longrightarrow> bb_get B d BucketUTXO (key_bytes h i) = Some (serializeUTXO u)
    \<and> deserializeUTXO (serializeUTXO u) = Inr u"
  by (simp add: stored_def utxo_bytes_inverse_ok)

lemma persistent_spend_refines:
  assumes "stored B d s" and "store_inv s" and "total_value (st_utxos s) < 2 ^ 63"
  shows "case spend_inputs s ins of
      Inl _ \<Rightarrow> \<exists>e. persistent_spend B d ins = Inl e
    | Inr s' \<Rightarrow> \<exists>d'. persistent_spend B d ins = Inr d' \<and> stored B d' s' \<and> store_inv s'"
  using assms
proof (induction ins arbitrary: d s)
  case (Cons i ins)
  let ?h = "ti_TxHash i" and ?i = "ti_Index i"
  show ?case
  proof (cases "GetUTXO s ?h ?i")
    case None
    then show ?thesis
      using Cons.prems(1) by (simp add: GetUTXO_def stored_def deserializeUTXO_def)
  next
    case (Some u)
    obtain s' where s': "SpendUTXO s ?h ?i = Inr s'" "store_inv s'"
      and tot: "unat (u_Value u) + total_value (st_utxos s') = total_value (st_utxos s)"
      using mem_store.spend_ok [OF Cons.prems(2) Some] by blast
    obtain d1 d' where d: "updateBalance B d (u_Address u) (- u_Value u) = Inr d1"
      "bb_delete B d1 BucketUTXO (key_bytes ?h ?i) = Some d'" "stored B d' s'"
      using spend_one_ok [OF Cons.prems s'(1) Some] by blast
    have a: "spend_inputs s (i # ins) = spend_inputs s' ins"
      using s'(1) Some by (auto simp: SpendUTXO_def GetUTXO_def)
    have b: "persistent_spend B d (i # ins) = persistent_spend B d' ins"
      using read_stored [OF Cons.prems(1) Some] d(1,2) by (simp add: or_error_def)
    show ?thesis
      unfolding a b using tot Cons.prems(3) by (intro Cons.IH d(3) s'(2)) simp
  qed
qed simp

lemma persistent_outputs_refines:
  assumes "stored B d s" and "store_inv s" and "n + length outs \<le> 2 ^ 32"
    and "\<forall>i. n \<le> unat i \<and> unat i < n + length outs \<longrightarrow> GetUTXO s txHash i = None"
    and "total_value (st_utxos s) + exact_sum (map to_Value outs) < 2 ^ 63" and "\<forall>out \<in> set outs. script_ok (to_Script out)"
  shows "\<exists>d'. persistent_outputs B d txHash n outs = Inr d' \<and> stored B d' (add_outputs s txHash n outs)"
  using assms
proof (induction outs arbitrary: d s n)
  case (Cons out outs)
  let ?u = "output_utxo txHash n out"
  have idx: "unat (of_nat n :: u32) = n"
    using Cons.prems(3) by (simp add: unat_of_nat)
  have fresh: "GetUTXO s (u_TxHash ?u) (u_Index ?u) = None"
    using Cons.prems(4) idx by (simp add: output_utxo_def)
  have u: "u_Value ?u = to_Value out" "u_Script ?u = to_Script out"
    by (simp_all add: output_utxo_def)
  obtain d1 where d1: "put_output B d ?u = Inr d1" "stored B d1 (AddUTXO s ?u)"
    using put_output_ok [OF Cons.prems(1,2) fresh] Cons.prems(5,6) u by fastforce
  have "GetUTXO (AddUTXO s ?u) txHash i = None" if "Suc n \<le> unat i \<and> unat i < Suc n + length outs" for i
    using that Cons.prems(4) idx by (auto simp: GetUTXO_AddUTXO output_utxo_def)
  then have "\<exists>d'. persistent_outputs B d1 txHash (Suc n) outs = Inr d'
      \<and> stored B d' (add_outputs (AddUTXO s ?u) txHash (Suc n) outs)"
    using Cons.prems d1(2) store_inv_AddUTXO [OF Cons.prems(2) fresh] mem_store.holds_add [OF Cons.prems(2) fresh] u(1)
    by (intro Cons.IH) simp_all
  then show ?case using d1(1) by simp
qed simp

lemma index_ok: "stored B d s \<Longrightarrow> \<exists>d'. indexTransaction C B d tx = Inr d' \<and> stored B d' s"
proof -
  assume st: "stored B d s"
  have "bb_put B d BucketTXIndex (hash_bytes (TxHash C tx)) (put_u64_be 0) \<noteq> None"
    by (rule put_succeeds) (simp_all add: MaxKeySize_def MaxValueSize_def)
  then obtain d' where d': "bb_put B d BucketTXIndex (hash_bytes (TxHash C tx)) (put_u64_be 0) = Some d'"
    by blast
  then show ?thesis
    using st get_put [OF d'] by (simp add: indexTransaction_def or_error_def stored_def bucket_defs)
qed

lemma have_inputs_iff:
  "stored B d s \<Longrightarrow> have_inputs B d ins = Inr () \<longleftrightarrow> (\<forall>i \<in> set ins. GetUTXO s (ti_TxHash i) (ti_Index i) \<noteq> None)"
  by (induction ins) (auto simp: stored_def)

end

lemma signatures_iff: "persistent_signatures C tx is = Inr () \<longleftrightarrow> check_signatures C tx is = Inr ()"
  by (induction "is") (auto split: option.splits)

lemma spend_inputs_valid:
  "spend_inputs s ins = Inr s' \<Longrightarrow>
   distinct (map outpoint_of ins) \<and> (\<forall>i \<in> set ins. GetUTXO s (ti_TxHash i) (ti_Index i) \<noteq> None)"
proof (induction ins arbitrary: s)
  case (Cons i ins)
  let ?k = "UTXOKey (ti_TxHash i) (ti_Index i)"
  obtain u where u: "st_utxos s ?k = Some u"
    and rest: "spend_inputs \<lparr>st_utxos = (st_utxos s)(?k := None),
        st_balances = debit (st_balances s) (u_Address u) (u_Value u)\<rparr> ins = Inr s'"
    using Cons.prems by (auto simp: Let_def split: option.splits)
  from Cons.IH [OF rest] show ?case
    using u by (auto simp: GetUTXO_def outpoint_of_def split: if_splits)
qed simp

lemma ApplyTransaction_Inr:
  "ApplyTransaction C s tx = Inr s' \<longleftrightarrow>
     (\<forall>i \<in> set (tx_Inputs tx). GetUTXO s (ti_TxHash i) (ti_Index i) \<noteq> None) \<and>
     check_signatures C tx [0..<length (tx_Inputs tx)] = Inr () \<and>
     (\<exists>s1. spend_inputs s (tx_Inputs tx) = Inr s1 \<and> s' = add_outputs s1 (TxHash C tx) 0 (tx_Outputs tx))"
  using spend_inputs_valid [of s "tx_Inputs tx"]
  by (auto simp: ApplyTransaction_def ValidateTransaction_def rbind_Inr_iff check_inputs_ok)

text \<open>C9. The persistent store refines the store in memory: when the database holds a store whose outputs and those of the
  transaction together are below \<open>2 ^ 63\<close>, applying a transaction fails on both or succeeds on both, and then the
  database holds the new store: the same outputs and, address by address, the same balances.\<close>

theorem persistent_apply_refines:
  assumes L: "bbolt_laws B" and st: "stored B (ps_db p) s" and rw: "\<not> ps_readOnly p" and inv: "store_inv s"
    and small: "total_value (st_utxos s) + exact_sum (output_values tx) < 2 ^ 63"
    and len: "length (tx_Outputs tx) \<le> 2 ^ 32"
    and fresh: "\<forall>i. unat i < length (tx_Outputs tx) \<longrightarrow> GetUTXO s (TxHash C tx) i = None"
    and scripts: "\<forall>out \<in> set (tx_Outputs tx). script_ok (to_Script out)"
  shows "case ApplyTransaction C s tx of
      Inl _ \<Rightarrow> \<exists>e. persistent_ApplyTransaction C B p tx = Inl e
    | Inr s' \<Rightarrow> \<exists>p'. persistent_ApplyTransaction C B p tx = Inr p' \<and> stored B (ps_db p') s'"
proof (cases "ApplyTransaction C s tx")
  case (Inr s')
  then obtain s1 where a: "\<forall>i \<in> set (tx_Inputs tx). GetUTXO s (ti_TxHash i) (ti_Index i) \<noteq> None"
    "check_signatures C tx [0..<length (tx_Inputs tx)] = Inr ()" "spend_inputs s (tx_Inputs tx) = Inr s1"
    "s' = add_outputs s1 (TxHash C tx) 0 (tx_Outputs tx)"
    unfolding ApplyTransaction_Inr by blast
  obtain d1 where d1: "persistent_spend B (ps_db p) (tx_Inputs tx) = Inr d1" "stored B d1 s1" "store_inv s1"
    using bbolt_laws.persistent_spend_refines [OF L st inv, of "tx_Inputs tx"] small a(3) by auto
  obtain s2 where "spend_all SpendUTXO s (map outpoint_of (tx_Inputs tx)) = Inr s2"
    "sum_list (map (\<lambda>p. unat (u_Value (the (GetUTXO s (fst p) (snd p))))) (map outpoint_of (tx_Inputs tx)))
       + total_value (st_utxos s2) = total_value (st_utxos s)"
    "\<forall>h i. GetUTXO s2 h i = (if (h, i) \<in> set (map outpoint_of (tx_Inputs tx)) then None else GetUTXO s h i)"
    using mem_store.spend_all_ok [OF inv, of "map outpoint_of (tx_Inputs tx)"] spend_inputs_valid [OF a(3)]
    by (auto simp: outpoint_of_def)
  moreover have "spend_all SpendUTXO s (map outpoint_of (tx_Inputs tx)) = Inr s1"
    using a(3) spend_inputs_spend_all by blast
  ultimately have s1: "total_value (st_utxos s1) \<le> total_value (st_utxos s)"
    "\<forall>i. unat i < length (tx_Outputs tx) \<longrightarrow> GetUTXO s1 (TxHash C tx) i = None"
    using fresh by auto
  then have "total_value (st_utxos s1) + exact_sum (map to_Value (tx_Outputs tx)) < 2 ^ 63"
    using small by (simp add: output_values_def)
  then obtain d2 where d2: "persistent_outputs B d1 (TxHash C tx) 0 (tx_Outputs tx) = Inr d2" "stored B d2 s'"
    using bbolt_laws.persistent_outputs_refines [OF L d1(2,3), of 0 "tx_Outputs tx" "TxHash C tx"] len s1(2) scripts a(4)
    by auto
  obtain d3 where d3: "indexTransaction C B d2 tx = Inr d3" "stored B d3 s'"
    using bbolt_laws.index_ok [OF L d2(2)] by blast
  have "have_inputs B (ps_db p) (tx_Inputs tx) = Inr ()" "persistent_signatures C tx [0..<length (tx_Inputs tx)] = Inr ()"
    using bbolt_laws.have_inputs_iff [OF L st] a(1,2) signatures_iff by blast+
  then show ?thesis
    using d1(1) d2(1) d3 Inr rw by (simp add: persistent_ApplyTransaction_def writable_def)
next
  case (Inl e)
  have "persistent_ApplyTransaction C B p tx \<noteq> Inr p'" for p'
  proof
    assume "persistent_ApplyTransaction C B p tx = Inr p'"
    then obtain d1 where "have_inputs B (ps_db p) (tx_Inputs tx) = Inr ()"
      "persistent_signatures C tx [0..<length (tx_Inputs tx)] = Inr ()" "persistent_spend B (ps_db p) (tx_Inputs tx) = Inr d1"
      using rw by (auto simp: persistent_ApplyTransaction_def writable_def rbind_Inr_iff)
    then have "\<exists>s'. ApplyTransaction C s tx = Inr s'"
      using bbolt_laws.persistent_spend_refines [OF L st inv, of "tx_Inputs tx"] small
        bbolt_laws.have_inputs_iff [OF L st] signatures_iff
      by (auto simp: ApplyTransaction_Inr split: sum.splits)
    with Inl show False by simp
  qed
  then show ?thesis using Inl by (cases "persistent_ApplyTransaction C B p tx") auto
qed

section \<open>Where the two stores differ from the chain\<close>

text \<open>An output that is written twice counts twice: \<^verbatim>\<open>AddUTXO\<close> overwrites the entry of the output but adds its value
  to the balance again, so after two calls the outputs are the same as after one, while the balance has grown by
  twice the value.\<close>

theorem double_add_inflates:
  assumes L: "bbolt_laws B" and st: "stored B (ps_db p) s" and rw: "\<not> ps_readOnly p" and script: "script_ok (u_Script u)"
    and small: "unat (GetBalance s (u_Address u)) + 2 * unat (u_Value u) < 2 ^ 63"
  shows "\<exists>p1 p2. persistent_AddUTXO B p u = Inr p1 \<and> persistent_AddUTXO B p1 u = Inr p2
    \<and> (\<forall>h i. persistent_GetUTXO B p2 h i = persistent_GetUTXO B p1 h i)
    \<and> persistent_GetBalance B p2 (u_Address u) = Some (GetBalance s (u_Address u) + 2 * u_Value u)"
proof -
  let ?a = "u_Address u" and ?k = "key_bytes (u_TxHash u) (u_Index u)"
  have step: "\<exists>d'. put_output B d u = Inr d' \<and> bb_get B d' BucketBalances (hash_bytes ?a) = balance_entry (w + u_Value u)
      \<and> (\<forall>k. bb_get B d' BucketUTXO k = (if k = ?k then Some (serializeUTXO u) else bb_get B d BucketUTXO k))"
    if "bb_get B d BucketBalances (hash_bytes ?a) = balance_entry w" "unat w + unat (u_Value u) < 2 ^ 63" for d w
  proof -
    have "bb_put B d BucketUTXO ?k (serializeUTXO u) \<noteq> None"
      using script by (intro bbolt_laws.put_succeeds [OF L] key_bytes_ok) (simp add: script_ok_def MaxValueSize_def)
    then obtain d1 where d1: "bb_put B d BucketUTXO ?k (serializeUTXO u) = Some d1" by blast
    have "unat (w + u_Value u) < 2 ^ 63"
      using that(2) by (simp add: unat_word_ariths)
    moreover have "bb_get B d1 BucketBalances (hash_bytes ?a) = bb_get B d BucketBalances (hash_bytes ?a)"
      using bbolt_laws.get_put [OF L d1] by (simp add: bucket_defs)
    then have "bb_get B d1 BucketBalances (hash_bytes ?a) = balance_entry w"
      using that(1) by (rule trans)
    ultimately obtain d' where "updateBalance B d1 ?a (u_Value u) = Inr d'"
      "\<forall>b k. bb_get B d' b k = (if b = BucketBalances \<and> k = hash_bytes ?a then balance_entry (w + u_Value u) else bb_get B d1 b k)"
      using bbolt_laws.updateBalance_ok [OF L, of d1 ?a w "u_Value u"] by blast
    then show ?thesis
      using d1 bbolt_laws.get_put [OF L d1] by (simp add: put_output_def or_error_def bucket_defs)
  qed
  let ?w = "GetBalance s ?a"
  have "bb_get B (ps_db p) BucketBalances (hash_bytes ?a) = balance_entry ?w"
    using st by (simp add: stored_def)
  from step [OF this] obtain d1 where d1: "put_output B (ps_db p) u = Inr d1"
    "bb_get B d1 BucketBalances (hash_bytes ?a) = balance_entry (?w + u_Value u)"
    "\<forall>k. bb_get B d1 BucketUTXO k = (if k = ?k then Some (serializeUTXO u) else bb_get B (ps_db p) BucketUTXO k)"
    using small by auto
  have "unat (?w + u_Value u) + unat (u_Value u) < 2 ^ 63"
    using small by (simp add: unat_word_ariths)
  from step [OF d1(2) this] obtain d2 where d2: "put_output B d1 u = Inr d2"
    "bb_get B d2 BucketBalances (hash_bytes ?a) = balance_entry (?w + u_Value u + u_Value u)"
    "\<forall>k. bb_get B d2 BucketUTXO k = (if k = ?k then Some (serializeUTXO u) else bb_get B d1 BucketUTXO k)"
    by blast
  have "persistent_GetBalance B (p\<lparr>ps_db := d2\<rparr>) ?a = Some (?w + 2 * u_Value u)"
    using d2(2) by (simp add: persistent_GetBalance_def balance_entry_def algebra_simps)
  then show ?thesis
    using d1 d2 rw by (auto simp: persistent_AddUTXO_def writable_def persistent_GetUTXO_def)
qed

text \<open>The reset of the store writes its marker of the chain head into another bucket than the one \<^verbatim>\<open>GetChainHead\<close> reads, so the
  head stays what it was.\<close>

theorem reset_keeps_head:
  assumes "bbolt_laws B" and "ResetAll B p = Inr p'"
  shows "GetChainHead B p' = GetChainHead B p \<and> persistent_GetUTXO B p' h i = Inl (PsNotFound (UTXOKey h i))"
proof -
  obtain d1 d2 d3 where d: "bb_clear B (ps_db p) BucketUTXO = Some d1" "bb_clear B d1 BucketBalances = Some d2"
    "bb_clear B d2 BucketTXIndex = Some d3" "bb_put B d3 BucketMeta (string_bytes ''chain_head'') (replicate 8 0) = Some (ps_db p')"
    using assms(2) by (auto simp: ResetAll_def writable_def rbind_Inr_iff split: if_splits)
  show ?thesis
    using bbolt_laws.get_put [OF assms(1) d(4)] bbolt_laws.get_clear [OF assms(1) d(1)]
      bbolt_laws.get_clear [OF assms(1) d(2)] bbolt_laws.get_clear [OF assms(1) d(3)]
    by (simp add: GetChainHead_def persistent_GetUTXO_def bucket_defs)
qed

section \<open>A concrete database\<close>

lemma mem_empty_stored: "stored mem_bbolt mem_empty NewUTXOStore"
  by (simp add: stored_def mem_bbolt_def mem_empty_def GetUTXO_def NewUTXOStore_def GetBalance_def map_get_def balance_entry_def)

lemma sample_stored: "\<exists>d. stored mem_bbolt d sample_store"
proof -
  have "total_value (st_utxos NewUTXOStore) = 0"
    by (simp add: total_value_def NewUTXOStore_def)
  then show ?thesis
    using mem.put_output_ok [OF mem_empty_stored store_inv_new, of sample_utxo]
    by (auto simp: sample_store_def sample_utxo_def GetUTXO_def NewUTXOStore_def script_ok_def)
qed

theorem persistent_apply_refines_witness:
  "\<exists>p p' s'. persistent_ApplyTransaction demo_crypto mem_bbolt p signed_tx = Inr p'
     \<and> ApplyTransaction demo_crypto sample_store signed_tx = Inr s' \<and> stored mem_bbolt (ps_db p') s'"
proof -
  obtain d where d: "stored mem_bbolt d sample_store" using sample_stored by blast
  let ?p = "\<lparr>ps_db = d, ps_readOnly = False\<rparr>"
  obtain s' where s': "ApplyTransaction demo_crypto sample_store signed_tx = Inr s'"
    using signed_tx_applies by blast
  have tot: "total_value (st_utxos sample_store) = 12"
    by (simp add: total_value_def sample_store_def AddUTXO_def sample_utxo_def NewUTXOStore_def)
  have "exact_sum (output_values signed_tx) < 2 ^ 60" "length (tx_Outputs signed_tx) \<le> 2 ^ 32"
    "\<forall>out \<in> set (tx_Outputs signed_tx). script_ok (to_Script out)"
    by (simp_all add: output_values_def signed_tx_def NewTransaction_def sample_output_def script_ok_def MaxValueSize_def)
  moreover have "\<forall>i. unat i < length (tx_Outputs signed_tx) \<longrightarrow> GetUTXO sample_store (TxHash demo_crypto signed_tx) i = None"
    by (simp add: signed_tx_hash sample_store_get)
  moreover have "stored mem_bbolt (ps_db ?p) sample_store" "\<not> ps_readOnly ?p" using d by simp_all
  ultimately have "case ApplyTransaction demo_crypto sample_store signed_tx of
      Inl _ \<Rightarrow> \<exists>e. persistent_ApplyTransaction demo_crypto mem_bbolt ?p signed_tx = Inl e
    | Inr s' \<Rightarrow> \<exists>p'. persistent_ApplyTransaction demo_crypto mem_bbolt ?p signed_tx = Inr p' \<and> stored mem_bbolt (ps_db p') s'"
    using tot by (intro persistent_apply_refines [OF mem.bbolt_laws_axioms _ _ sample_store_inv]) simp_all
  then show ?thesis using s' by auto
qed

theorem double_add_inflates_witness:
  "\<exists>p1 p2. persistent_AddUTXO mem_bbolt \<lparr>ps_db = mem_empty, ps_readOnly = False\<rparr> sample_utxo = Inr p1
     \<and> persistent_AddUTXO mem_bbolt p1 sample_utxo = Inr p2 \<and> persistent_GetBalance mem_bbolt p2 4 = Some 24"
proof -
  let ?p = "\<lparr>ps_db = mem_empty, ps_readOnly = False\<rparr>"
  have "stored mem_bbolt (ps_db ?p) NewUTXOStore" "\<not> ps_readOnly ?p" "script_ok (u_Script sample_utxo)"
    "unat (GetBalance NewUTXOStore (u_Address sample_utxo)) + 2 * unat (u_Value sample_utxo) < 2 ^ 63"
    using mem_empty_stored
    by (simp_all add: script_ok_def sample_utxo_def GetBalance_def NewUTXOStore_def map_get_def)
  from double_add_inflates [OF mem.bbolt_laws_axioms this] show ?thesis
    by (auto simp: sample_utxo_def GetBalance_def NewUTXOStore_def map_get_def)
qed

theorem reset_keeps_head_witness:
  "\<exists>p p'. ResetAll mem_bbolt p = Inr p' \<and> GetChainHead mem_bbolt p = Some 9 \<and> GetChainHead mem_bbolt p' = Some 9"
proof -
  let ?p = "\<lparr>ps_db = mem_empty, ps_readOnly = False\<rparr>"
  obtain p1 where p1: "SetChainHead mem_bbolt ?p 9 = Inr p1"
    by (simp add: SetChainHead_def mem_bbolt_def or_error_def MaxKeySize_def MaxValueSize_def string_bytes_def)
  then obtain d where d: "bb_put mem_bbolt (ps_db ?p) BucketHeads (string_bytes ''head'') (put_u64_be 9) = Some d"
    "p1 = ?p\<lparr>ps_db := d\<rparr>"
    by (auto simp: SetChainHead_def rbind_Inr_iff)
  have head: "GetChainHead mem_bbolt p1 = Some 9" and rw: "\<not> ps_readOnly p1"
    using mem.get_put [OF d(1), of BucketHeads "string_bytes ''head''"] d(2) by (simp_all add: GetChainHead_def)
  obtain p2 where p2: "ResetAll mem_bbolt p1 = Inr p2"
    using rw by (simp add: ResetAll_def writable_def mem_bbolt_def or_error_def MaxKeySize_def MaxValueSize_def string_bytes_def)
  show ?thesis
    using reset_keeps_head [OF mem.bbolt_laws_axioms p2] p2 head by auto
qed

end
