(* ===== verification/Chain.thy ===== *)
theory Chain
  imports Persistent_Store Mempool Consensus PoW "HOL-Library.List_Lexorder" "HOL-Library.Char_ord"
begin

text \<open>
  \<^verbatim>\<open>pkg/utxo/chain.go\<close> and \<^verbatim>\<open>pkg/utxo/prune.go\<close>: the state of the chain, kept in memory and in a bbolt
  database, on top of the persistent store, the mempool and the consensus state. The store lives in a
  database of its own, so its writes stay when the transaction on the chain's database is rolled back. A
  method that can fail after it has changed something returns the state next to the error. What comes from
  outside (the clock, the orders of map iteration, the hook of the consensus state, the length of the
  proof-of-work era) is the record \<open>chain_env\<close>; the clock is read once per call. Left out: opening and closing
  the database file.
\<close>

section \<open>State\<close>

record 'd ChainState =
  cs_db :: 'd
  cs_bestHeight :: u64
  cs_bestHash :: hash
  cs_genesisHash :: hash
  cs_blockIndex :: "u64 \<rightharpoonup> hash"
  cs_utxoStore :: "'d PersistentUTXOStore option"
  cs_mempool :: "Mempool option"
  cs_consensus :: "ConsensusState option"
  cs_finalityGuard :: "(u64 \<Rightarrow> hash \<Rightarrow> bool) option"

record chain_env =
  ev_now :: int
  ev_order0 :: "address list"
  ev_order1 :: "address list"
  ev_order2 :: "address list"
  ev_hook :: "(ConsensusState \<Rightarrow> ConsensusState) option"
  ev_eraBlocks :: u64

datatype chain_error =
    ChPanic
  | ChDb
  | ChPruned
  | ChBadBlock
  | ChNotFound u64
  | ChEmpty
  | ChVersionZero
  | ChMerkleMismatch
  | ChFuture
  | ChBeforeParent
  | ChTooSoon
  | ChDrift
  | ChFinality
  | ChPrevHash
  | ChNoTransactions
  | ChFirstNotCoinbase
  | ChManyCoinbases nat
  | ChTxSignature nat
  | ChTxInput nat nat
  | ChTxFee nat tx_error
  | ChFeeTooLow nat u64
  | ChDoubleSpend nat nat
  | ChNoSignature
  | ChBadSignature
  | ChBadPoW
  | ChBadBits u32 u32
  | ChProposer string
  | ChStore pstore_error
  | ChConsensus consensus_error
  | ChBadTarget
  | ChHasGenesis
  | ChNotGenesis
  | ChNoStore

definition BucketBlocks :: string where "BucketBlocks = ''blocks''"
definition BucketBlockHeight :: string where "BucketBlockHeight = ''blockheight''"
definition BucketChainMeta :: string where "BucketChainMeta = ''chainmeta''"
definition MetaBestHeight :: string where "MetaBestHeight = ''best_height''"
definition MetaBestHash :: string where "MetaBestHash = ''best_hash''"
definition MetaGenesisHash :: string where "MetaGenesisHash = ''genesis_hash''"

text \<open>\<^verbatim>\<open>copy\<close> into an array of 32 bytes that is zero.\<close>

definition copy32 :: "bytes \<Rightarrow> hash" where
  "copy32 bs = hash_of_bytes (take 32 (bs @ replicate 32 0))"

definition unix_seconds :: "chain_env \<Rightarrow> int" where
  "unix_seconds ev = ev_now ev div second - 62135596800"

text \<open>Reading the metadata and the index; \<open>None\<close> is the panic on a height of fewer than eight bytes.\<close>

definition index_entry :: "(u64 \<rightharpoonup> hash) \<Rightarrow> bytes \<times> bytes \<Rightarrow> (u64 \<rightharpoonup> hash)" where
  "index_entry index = (\<lambda>(k, v).
     if length k = 8 \<and> length v = 32 then index(of_nat (be_val k) \<mapsto> hash_of_bytes v) else index)"

definition load_hash :: "bytes option \<Rightarrow> hash \<Rightarrow> hash" where
  "load_hash data h = (case data of None \<Rightarrow> h | Some bs \<Rightarrow> if length bs = 32 then hash_of_bytes bs else h)"

definition loadState :: "'d bbolt \<Rightarrow> 'd ChainState \<Rightarrow> 'd ChainState option" where
  "loadState B cs =
     (let meta = (\<lambda>key. bb_get B (cs_db cs) BucketChainMeta (string_bytes key)) in
      case (case meta MetaBestHeight of None \<Rightarrow> Some (cs_bestHeight cs) | Some data \<Rightarrow> get_u64_be data) of
        None \<Rightarrow> None
      | Some height \<Rightarrow>
          Some (cs\<lparr>cs_bestHeight := height,
                   cs_bestHash := load_hash (meta MetaBestHash) (cs_bestHash cs),
                   cs_genesisHash := load_hash (meta MetaGenesisHash) (cs_genesisHash cs),
                   cs_blockIndex := foldl index_entry (cs_blockIndex cs) (bb_entries B (cs_db cs) BucketBlockHeight)\<rparr>))"

definition NewChainStateWithDB :: "'d bbolt \<Rightarrow> 'd \<Rightarrow> 'd ChainState option" where
  "NewChainStateWithDB B d =
     loadState B \<lparr>cs_db = d, cs_bestHeight = 0, cs_bestHash = 0, cs_genesisHash = 0, cs_blockIndex = Map.empty,
                  cs_utxoStore = None, cs_mempool = None, cs_consensus = None, cs_finalityGuard = None\<rparr>"

definition SetUTXOStore :: "'d ChainState \<Rightarrow> 'd PersistentUTXOStore option \<Rightarrow> 'd ChainState" where
  "SetUTXOStore cs store = cs\<lparr>cs_utxoStore := store\<rparr>"

definition SetMempool :: "'d ChainState \<Rightarrow> Mempool option \<Rightarrow> 'd ChainState" where
  "SetMempool cs mempool = cs\<lparr>cs_mempool := mempool\<rparr>"

definition SetConsensus :: "'d ChainState \<Rightarrow> ConsensusState option \<Rightarrow> 'd ChainState" where
  "SetConsensus cs consensus = cs\<lparr>cs_consensus := consensus\<rparr>"

definition SetFinalityGuard :: "'d ChainState \<Rightarrow> (u64 \<Rightarrow> hash \<Rightarrow> bool) option \<Rightarrow> 'd ChainState" where
  "SetFinalityGuard cs g = cs\<lparr>cs_finalityGuard := g\<rparr>"

section \<open>Queries\<close>

definition GetBlockByHash :: "crypto \<Rightarrow> 'd bbolt \<Rightarrow> 'd ChainState \<Rightarrow> hash \<Rightarrow> (chain_error, Block) result" where
  "GetBlockByHash C B cs h =
     (case bb_get B (cs_db cs) BucketBlocks (hash_bytes h) of
        None \<Rightarrow> Inl ChPruned
      | Some data \<Rightarrow> (case DeserializeBlock C data of None \<Rightarrow> Inl ChBadBlock | Some b \<Rightarrow> Inr b))"

definition GetBlockByHeight :: "crypto \<Rightarrow> 'd bbolt \<Rightarrow> 'd ChainState \<Rightarrow> u64 \<Rightarrow> (chain_error, Block) result" where
  "GetBlockByHeight C B cs height =
     (case cs_blockIndex cs height of None \<Rightarrow> Inl (ChNotFound height) | Some h \<Rightarrow> GetBlockByHash C B cs h)"

definition GetBestBlockHash :: "'d ChainState \<Rightarrow> hash" where
  "GetBestBlockHash cs = cs_bestHash cs"

definition GetBestBlockHeight :: "'d ChainState \<Rightarrow> u64" where
  "GetBestBlockHeight cs = cs_bestHeight cs"

definition GetGenesisBlockHash :: "'d ChainState \<Rightarrow> hash" where
  "GetGenesisBlockHash cs = cs_genesisHash cs"

definition GetBestBlock :: "crypto \<Rightarrow> 'd bbolt \<Rightarrow> 'd ChainState \<Rightarrow> (chain_error, Block) result" where
  "GetBestBlock C B cs =
     (if map_len (cs_blockIndex cs) = 0 then Inl ChEmpty else GetBlockByHash C B cs (GetBestBlockHash cs))"

definition GetBlockCount :: "'d ChainState \<Rightarrow> nat" where
  "GetBlockCount cs = map_len (cs_blockIndex cs)"

definition HasBlock :: "'d ChainState \<Rightarrow> u64 \<Rightarrow> bool" where
  "HasBlock cs height \<longleftrightarrow> cs_blockIndex cs height \<noteq> None"

definition HasBlockByHash :: "'d bbolt \<Rightarrow> 'd ChainState \<Rightarrow> hash \<Rightarrow> bool" where
  "HasBlockByHash B cs h \<longleftrightarrow> bb_get B (cs_db cs) BucketBlocks (hash_bytes h) \<noteq> None"

definition chain_GetUTXO ::
  "'d bbolt \<Rightarrow> 'd ChainState \<Rightarrow> hash \<Rightarrow> u32 \<Rightarrow> (chain_error, UTXO) result" where
  "chain_GetUTXO B cs txHash index =
     (case cs_utxoStore cs of
        None \<Rightarrow> Inl ChNoStore
      | Some p \<Rightarrow> (case persistent_GetUTXO B p txHash index of Inl e \<Rightarrow> Inl (ChStore e) | Inr u \<Rightarrow> Inr u))"

section \<open>Validation\<close>

text \<open>The hash of a signed block is replaced by the one of its header. The code also refuses a \<^verbatim>\<open>nil\<close> slice of
  transactions; a list has no such value, and the slice of a block read from bytes never is \<^verbatim>\<open>nil\<close>.\<close>

definition validateBlockStructure :: "crypto \<Rightarrow> Block \<Rightarrow> Block \<times> (chain_error, unit) result" where
  "validateBlockStructure C block =
     (if bh_Version (bl_Header block) = 0 then (block, Inl ChVersionZero)
      else if CalculateMerkleRoot C block \<noteq> bh_MerkleRoot (bl_Header block) then (block, Inl ChMerkleMismatch)
      else if length (bh_Signature (bl_Header block)) > 0
      then (block\<lparr>bl_Hash := CalculateHash C block\<rparr>, Inr ())
      else (block, Inr ()))"

definition validateBlockTimestamp ::
  "crypto \<Rightarrow> 'd bbolt \<Rightarrow> chain_env \<Rightarrow> 'd ChainState \<Rightarrow> Block \<Rightarrow> (chain_error, unit) result" where
  "validateBlockTimestamp C B ev cs block =
     (let h = bl_Header block in
      if bh_Timestamp h > of_int (unix_seconds ev) + 300 then Inl ChFuture
      else if bh_Height h > 0
      then rbind (GetBlockByHeight C B cs (bh_Height h - 1)) (\<lambda>parent.
        let parentTime = bh_Timestamp (bl_Header parent) in
        if bh_Timestamp h < parentTime then Inl ChBeforeParent
        else
          let timeDiff = sint ((bh_Timestamp h - parentTime) * 1000000000) in
          if timeDiff < MinBlockTime \<and> bh_Version h < 3 then Inl ChTooSoon
          else if bh_Height h > 100 \<and> time_Sub (ev_now ev) (time_Unix parentTime) < 2 * MaxBlockTimeDrift
               \<and> time_Sub (time_Unix (bh_Timestamp h)) (ev_now ev) > MaxBlockTimeDrift
          then Inl ChDrift else Inr ())
      else Inr ())"

text \<open>The genesis hash is set by the first block that looks like one, before the block has passed.\<close>

definition validateBlockParent ::
  "crypto \<Rightarrow> 'd bbolt \<Rightarrow> 'd ChainState \<Rightarrow> Block \<Rightarrow> 'd ChainState \<times> (chain_error, unit) result" where
  "validateBlockParent C B cs block =
     (if IsGenesis block
      then (if cs_genesisHash cs = 0 then cs\<lparr>cs_genesisHash := bl_Hash block\<rparr> else cs, Inr ())
      else (cs, rbind (GetBlockByHeight C B cs (bh_Height (bl_Header block) - 1)) (\<lambda>parent.
             if bh_PrevBlockHash (bl_Header block) \<noteq> bl_Hash parent then Inl ChPrevHash else Inr ())))"

definition store_provider :: "'d bbolt \<Rightarrow> 'd PersistentUTXOStore \<Rightarrow> utxo_provider" where
  "store_provider B p h i = (case persistent_GetUTXO B p h i of Inl _ \<Rightarrow> None | Inr u \<Rightarrow> Some u)"

fun inputs_exist :: "utxo_provider \<Rightarrow> nat \<Rightarrow> nat \<Rightarrow> TXInput list \<Rightarrow> (chain_error, unit) result" where
  "inputs_exist prov i j [] = Inr ()"
| "inputs_exist prov i j (inp # ins) =
     (if prov (ti_TxHash inp) (ti_Index inp) = None then Inl (ChTxInput i j)
      else inputs_exist prov i (Suc j) ins)"

fun validate_txs :: "crypto \<Rightarrow> utxo_provider option \<Rightarrow> nat \<Rightarrow> Transaction list \<Rightarrow> (chain_error, unit) result" where
  "validate_txs C prov i [] = Inr ()"
| "validate_txs C prov i (tx # txs) =
     (if IsCoinbase tx then validate_txs C prov (Suc i) txs
      else case VerifyAllInputs C tx of
        None \<Rightarrow> Inl ChPanic
      | Some ok \<Rightarrow>
          if \<not> ok then Inl (ChTxSignature i)
          else rbind (case prov of
                        None \<Rightarrow> Inr ()
                      | Some p \<Rightarrow>
                          rbind (inputs_exist p i 0 (tx_Inputs tx)) (\<lambda>_.
                            case GetFee p tx of
                              Inl e \<Rightarrow> Inl (ChTxFee i e)
                            | Inr fee \<Rightarrow> if fee < MinTransactionFee then Inl (ChFeeTooLow i fee) else Inr ()))
                 (\<lambda>_. validate_txs C prov (Suc i) txs))"

fun mark_inputs :: "nat \<Rightarrow> nat \<Rightarrow> TXInput list \<Rightarrow> string set \<Rightarrow> (chain_error, string set) result" where
  "mark_inputs i j [] seen = Inr seen"
| "mark_inputs i j (inp # ins) seen =
     (if input_key inp \<in> seen then Inl (ChDoubleSpend i j)
      else mark_inputs i (Suc j) ins (insert (input_key inp) seen))"

fun no_double_spend :: "nat \<Rightarrow> Transaction list \<Rightarrow> string set \<Rightarrow> (chain_error, unit) result" where
  "no_double_spend i [] seen = Inr ()"
| "no_double_spend i (tx # txs) seen =
     rbind (mark_inputs i 0 (tx_Inputs tx) seen) (\<lambda>seen. no_double_spend (Suc i) txs seen)"

definition validateBlockTransactions ::
  "crypto \<Rightarrow> u64 \<Rightarrow> utxo_provider option \<Rightarrow> Block \<Rightarrow> (chain_error, unit) result" where
  "validateBlockTransactions C eraBlocks prov block =
     (let h = bl_Header block; txs = bl_Transactions block;
          afterEra = (bh_Version h \<ge> 3 \<and> bh_Height h > eraBlocks) in
      if length txs = 0 then (if afterEra then Inr () else Inl ChNoTransactions)
      else if \<not> afterEra \<and> \<not> IsCoinbase (txs ! 0) then Inl ChFirstNotCoinbase
      else let coinbaseCount = length (filter IsCoinbase txs) in
        if coinbaseCount > 1 then Inl (ChManyCoinbases coinbaseCount)
        else rbind (validate_txs C prov 0 txs) (\<lambda>_. no_double_spend 1 (drop 1 txs) {}))"

definition validateBlockSignature :: "crypto \<Rightarrow> Block \<Rightarrow> (chain_error, unit) result" where
  "validateBlockSignature C block =
     (if bh_Height (bl_Header block) = 0 then Inr ()
      else if length (bh_Signature (bl_Header block)) = 0 then Inl ChNoSignature
      else case VerifyBlockSignature C block of
        None \<Rightarrow> Inl ChPanic | Some ok \<Rightarrow> if \<not> ok then Inl ChBadSignature else Inr ())"

definition IsDeepHistory :: "chain_env \<Rightarrow> u64 \<Rightarrow> u64 \<Rightarrow> bool" where
  "IsDeepHistory ev height blockTime \<longleftrightarrow> unix_seconds ev > sint (blockTime + 3600)"

text \<open>The check of the proposer may run the hook of the consensus state, which rebuilds the validator set.\<close>

definition validateBlockProposer ::
  "crypto \<Rightarrow> 'd bbolt \<Rightarrow> chain_env \<Rightarrow> 'd ChainState \<Rightarrow> Block \<Rightarrow> 'd ChainState \<times> (chain_error, unit) result" where
  "validateBlockProposer C B ev cs block =
     (if bh_Height (bl_Header block) = 0 then (cs, Inr ())
      else case cs_consensus cs of
        None \<Rightarrow> (cs, Inr ())
      | Some consensus \<Rightarrow>
          (case GetBlockByHeight C B cs (bh_Height (bl_Header block) - 1) of
             Inl e \<Rightarrow> (cs, Inl e)
           | Inr parent \<Rightarrow>
               let (consensus', result) = VerifyBlockProposer C (ev_order0 ev) (ev_order1 ev) (ev_hook ev)
                      (ev_eraBlocks ev) (of_int (unix_seconds ev)) consensus block (Some parent)
               in (cs\<lparr>cs_consensus := Some consensus'\<rparr>,
                   if \<not> pv_Valid result then Inl (ChProposer (pv_Error result)) else Inr ())))"

definition NextPoWBitsForHeight :: "crypto \<Rightarrow> 'd bbolt \<Rightarrow> 'd ChainState \<Rightarrow> u64 \<Rightarrow> u32" where
  "NextPoWBitsForHeight C B cs prevHeight =
     (if prevHeight = 0 then PoWGenesisBits
      else case GetBlockByHeight C B cs prevHeight of
        Inl _ \<Rightarrow> PoWGenesisBits
      | Inr prevBlock \<Rightarrow>
          if prevHeight mod PoWRetargetWindow \<noteq> 0 then bh_Bits (bl_Header prevBlock)
          else (case GetBlockByHeight C B cs (prevHeight - PoWRetargetWindow) of
                  Inl _ \<Rightarrow> bh_Bits (bl_Header prevBlock)
                | Inr start \<Rightarrow>
                    NextWorkRequired (bh_Bits (bl_Header prevBlock)) prevHeight
                      (bh_Timestamp (bl_Header start)) (bh_Timestamp (bl_Header prevBlock))))"

definition validate_work :: "crypto \<Rightarrow> 'd bbolt \<Rightarrow> 'd ChainState \<Rightarrow> Block \<Rightarrow> (chain_error, unit) result" where
  "validate_work C B cs block =
     (let h = bl_Header block in
      if \<not> CheckProofOfWork C h then Inl ChBadPoW
      else if bh_Height h > 1
      then let expected = NextPoWBitsForHeight C B cs (bh_Height h - 1) in
        if bh_Bits h \<noteq> expected then Inl (ChBadBits expected (bh_Bits h)) else Inr ()
      else Inr ())"

definition chain_ValidateBlock ::
  "crypto \<Rightarrow> 'd bbolt \<Rightarrow> chain_env \<Rightarrow> 'd ChainState \<Rightarrow> Block
   \<Rightarrow> 'd ChainState \<times> Block \<times> (chain_error, unit) result" where
  "chain_ValidateBlock C B ev cs block =
     (let (block, r) = validateBlockStructure C block in
      case r of Inl e \<Rightarrow> (cs, block, Inl e) | Inr _ \<Rightarrow>
      case validateBlockTimestamp C B ev cs block of Inl e \<Rightarrow> (cs, block, Inl e) | Inr _ \<Rightarrow>
      if (case cs_finalityGuard cs of None \<Rightarrow> False | Some g \<Rightarrow> g (bh_Height (bl_Header block)) (bl_Hash block))
      then (cs, block, Inl ChFinality)
      else let (cs, r) = validateBlockParent C B cs block in
      case r of Inl e \<Rightarrow> (cs, block, Inl e) | Inr _ \<Rightarrow>
      case validateBlockTransactions C (ev_eraBlocks ev) (map_option (store_provider B) (cs_utxoStore cs)) block of
        Inl e \<Rightarrow> (cs, block, Inl e) | Inr _ \<Rightarrow>
      case validateBlockSignature C block of Inl e \<Rightarrow> (cs, block, Inl e) | Inr _ \<Rightarrow>
      if bh_Version (bl_Header block) \<ge> 3 \<and> bh_Height (bl_Header block) \<le> ev_eraBlocks ev
      then (cs, block, validate_work C B cs block)
      else let (cs, r) = validateBlockProposer C B ev cs block in
        case r of
          Inr _ \<Rightarrow> (cs, block, Inr ())
        | Inl e \<Rightarrow>
            (cs, block, if IsDeepHistory ev (bh_Height (bl_Header block)) (bh_Timestamp (bl_Header block))
                        then Inr () else Inl e))"

section \<open>Adding a block\<close>

fun add_coinbase_outputs ::
  "'d bbolt \<Rightarrow> 'd PersistentUTXOStore \<Rightarrow> hash \<Rightarrow> nat \<Rightarrow> TXOutput list
   \<Rightarrow> 'd PersistentUTXOStore \<times> (chain_error, unit) result" where
  "add_coinbase_outputs B p txHash i [] = (p, Inr ())"
| "add_coinbase_outputs B p txHash i (out # outs) =
     (case persistent_AddUTXO B p (output_utxo txHash i out) of
        Inl e \<Rightarrow> (p, Inl (ChStore e))
      | Inr p' \<Rightarrow> add_coinbase_outputs B p' txHash (Suc i) outs)"

definition applyCoinbaseTransaction ::
  "crypto \<Rightarrow> 'd bbolt \<Rightarrow> 'd PersistentUTXOStore \<Rightarrow> Transaction
   \<Rightarrow> 'd PersistentUTXOStore \<times> (chain_error, unit) result" where
  "applyCoinbaseTransaction C B p tx = add_coinbase_outputs B p (TxHash C tx) 0 (tx_Outputs tx)"

definition apply_block_tx ::
  "crypto \<Rightarrow> 'd bbolt \<Rightarrow> 'd PersistentUTXOStore \<Rightarrow> Transaction
   \<Rightarrow> 'd PersistentUTXOStore \<times> (chain_error, unit) result" where
  "apply_block_tx C B p tx =
     (if IsCoinbase tx then applyCoinbaseTransaction C B p tx
      else case persistent_ApplyTransaction C B p tx of
        Inl e \<Rightarrow> (p, Inl (ChStore e)) | Inr p' \<Rightarrow> (p', Inr ()))"

fun apply_block_txs ::
  "crypto \<Rightarrow> 'd bbolt \<Rightarrow> 'd PersistentUTXOStore \<Rightarrow> Transaction list
   \<Rightarrow> 'd PersistentUTXOStore \<times> (chain_error, unit) result" where
  "apply_block_txs C B p [] = (p, Inr ())"
| "apply_block_txs C B p (tx # txs) =
     (case apply_block_tx C B p tx of
        (p', Inl e) \<Rightarrow> (p', Inl e)
      | (p', Inr _) \<Rightarrow> apply_block_txs C B p' txs)"

definition store_block :: "'d bbolt \<Rightarrow> 'd \<Rightarrow> Block \<Rightarrow> (chain_error, 'd) result" where
  "store_block B d block =
     rbind (or_error ChDb (bb_put B d BucketBlocks (hash_bytes (bl_Hash block)) (SerializeBlock block)))
       (\<lambda>d. or_error ChDb (bb_put B d BucketBlockHeight (put_u64_be (bh_Height (bl_Header block)))
                              (hash_bytes (bl_Hash block))))"

definition is_new_best :: "'d ChainState \<Rightarrow> Block \<Rightarrow> bool" where
  "is_new_best cs block \<longleftrightarrow>
     (let isFirstBlock = (map_len (cs_blockIndex cs) = 0); height = bh_Height (bl_Header block) in
      height > cs_bestHeight cs \<or> height = 0 \<and> isFirstBlock)"

definition set_best :: "'d ChainState \<Rightarrow> Block \<Rightarrow> 'd ChainState" where
  "set_best cs block =
     cs\<lparr>cs_bestHeight := bh_Height (bl_Header block), cs_bestHash := bl_Hash block,
        cs_blockIndex := (cs_blockIndex cs)(bh_Height (bl_Header block) \<mapsto> bl_Hash block)\<rparr>"

definition put_best :: "'d bbolt \<Rightarrow> 'd \<Rightarrow> u64 \<Rightarrow> hash \<Rightarrow> (chain_error, 'd) result" where
  "put_best B d height h =
     rbind (or_error ChDb (bb_put B d BucketChainMeta (string_bytes MetaBestHeight) (put_u64_be height)))
       (\<lambda>d. or_error ChDb (bb_put B d BucketChainMeta (string_bytes MetaBestHash) (hash_bytes h)))"

text \<open>
  The transaction on the chain's database: the new state of the database, or an error. The best block in
  memory and the store change in place.
\<close>

definition update_chain ::
  "crypto \<Rightarrow> 'd bbolt \<Rightarrow> 'd ChainState \<Rightarrow> Block \<Rightarrow> 'd ChainState \<times> (chain_error, 'd) result" where
  "update_chain C B cs block =
     (case store_block B (cs_db cs) block of
        Inl e \<Rightarrow> (cs, Inl e)
      | Inr d \<Rightarrow>
          let cs' = (if is_new_best cs block then set_best cs block else cs);
              r = (if is_new_best cs block then put_best B d (bh_Height (bl_Header block)) (bl_Hash block) else Inr d)
          in case r of
               Inl e \<Rightarrow> (cs', Inl e)
             | Inr d \<Rightarrow>
                 (case cs_utxoStore cs' of
                    None \<Rightarrow> (cs', Inr d)
                  | Some p \<Rightarrow>
                      let (p', r) = apply_block_txs C B p (bl_Transactions block) in
                      (cs'\<lparr>cs_utxoStore := Some p'\<rparr>, rbind r (\<lambda>_. Inr d))))"

definition confirm_in_pool :: "crypto \<Rightarrow> 'd ChainState \<Rightarrow> Transaction list \<Rightarrow> 'd ChainState" where
  "confirm_in_pool C cs txs =
     cs\<lparr>cs_mempool := map_option (\<lambda>m. if length txs > 0 then RemoveConfirmed m (map (TxHash C) txs) else m)
                        (cs_mempool cs)\<rparr>"

definition AddBlock ::
  "crypto \<Rightarrow> 'd bbolt \<Rightarrow> chain_env \<Rightarrow> 'd ChainState \<Rightarrow> Block
   \<Rightarrow> 'd ChainState \<times> Block \<times> (chain_error, unit) result" where
  "AddBlock C B ev cs block =
     (let (cs, block, r) = chain_ValidateBlock C B ev cs block in
      case r of Inl e \<Rightarrow> (cs, block, Inl e) | Inr _ \<Rightarrow>
      let (cs, r) = update_chain C B cs block in
      case r of Inl e \<Rightarrow> (cs, block, Inl e) | Inr d \<Rightarrow>
      let cs = confirm_in_pool C (cs\<lparr>cs_db := d\<rparr>) (bl_Transactions block) in
      case cs_consensus cs of
        None \<Rightarrow> (cs, block, Inr ())
      | Some consensus \<Rightarrow>
          let (consensus', r) = ProcessNewBlock (ev_order2 ev) consensus block in
          (cs\<lparr>cs_consensus := Some consensus'\<rparr>, block,
           case r of Inl e \<Rightarrow> Inl (ChConsensus e) | Inr _ \<Rightarrow> Inr ()))"

definition InitGenesis ::
  "crypto \<Rightarrow> 'd bbolt \<Rightarrow> chain_env \<Rightarrow> 'd ChainState \<Rightarrow> Block
   \<Rightarrow> 'd ChainState \<times> Block \<times> (chain_error, unit) result" where
  "InitGenesis C B ev cs genesisBlock =
     (if cs_bestHeight cs > 0 then (cs, genesisBlock, Inl ChHasGenesis)
      else if \<not> IsGenesis genesisBlock then (cs, genesisBlock, Inl ChNotGenesis)
      else let (cs, genesisBlock, r) = AddBlock C B ev cs genesisBlock in
        case r of Inl e \<Rightarrow> (cs, genesisBlock, Inl e) | Inr _ \<Rightarrow>
        let cs = cs\<lparr>cs_genesisHash := bl_Hash genesisBlock\<rparr> in
        case bb_put B (cs_db cs) BucketChainMeta (string_bytes MetaGenesisHash) (hash_bytes (cs_genesisHash cs)) of
          None \<Rightarrow> (cs, genesisBlock, Inl ChDb)
        | Some d \<Rightarrow> (cs\<lparr>cs_db := d\<rparr>, genesisBlock, Inr ()))"

section \<open>Forks and rollback\<close>

record ForkChoice =
  fk_Block :: Block
  fk_IsActive :: bool

definition add_height :: "(u64 \<rightharpoonup> bytes list) option \<Rightarrow> bytes \<times> bytes \<Rightarrow> (u64 \<rightharpoonup> bytes list) option" where
  "add_height m e =
     (case m of None \<Rightarrow> None | Some m \<Rightarrow>
      case get_u64_be (fst e) of
        None \<Rightarrow> None | Some height \<Rightarrow> Some (m(height \<mapsto> map_get [] m height @ [snd e])))"

definition GetForks :: "crypto \<Rightarrow> 'd bbolt \<Rightarrow> u64 list \<Rightarrow> 'd ChainState \<Rightarrow> ForkChoice list option" where
  "GetForks C B ks cs =
     map_option (\<lambda>heightToHashes.
       concat (map (\<lambda>hashes.
         if length hashes > 1
         then List.map_filter (\<lambda>h. case GetBlockByHash C B cs (copy32 h) of
                Inl _ \<Rightarrow> None
              | Inr block \<Rightarrow> Some \<lparr>fk_Block = block, fk_IsActive = (copy32 h = cs_bestHash cs)\<rparr>) hashes
         else []) (range_values ks heightToHashes)))
     (foldl add_height (Some Map.empty) (bb_entries B (cs_db cs) BucketBlockHeight))"

fun delete_keys :: "'d bbolt \<Rightarrow> string \<Rightarrow> 'd \<Rightarrow> bytes list \<Rightarrow> (chain_error, 'd) result" where
  "delete_keys B b d [] = Inr d"
| "delete_keys B b d (k # ks) = rbind (or_error ChDb (bb_delete B d b k)) (\<lambda>d. delete_keys B b d ks)"

definition heights_down :: "u64 \<Rightarrow> u64 \<Rightarrow> u64 list" where
  "heights_down best target = map of_nat (rev [Suc (unat target)..<Suc (unat best)])"

definition RollbackChain :: "'d bbolt \<Rightarrow> 'd ChainState \<Rightarrow> u64 \<Rightarrow> 'd ChainState \<times> (chain_error, unit) result" where
  "RollbackChain B cs targetHeight =
     (if targetHeight \<ge> cs_bestHeight cs then (cs, Inl ChBadTarget)
      else
        let heights = heights_down (cs_bestHeight cs) targetHeight;
            blocksToRemove = List.map_filter
              (\<lambda>h. map_option copy32 (bb_get B (cs_db cs) BucketBlockHeight (put_u64_be h))) heights
        in case rbind (delete_keys B BucketBlocks (cs_db cs) (map hash_bytes blocksToRemove))
                  (\<lambda>d. delete_keys B BucketBlockHeight d (map put_u64_be heights)) of
             Inl e \<Rightarrow> (cs, Inl e)
           | Inr d \<Rightarrow>
               let newBest = (if targetHeight > 0
                              then load_hash (bb_get B d BucketBlockHeight (put_u64_be targetHeight)) 0 else 0);
                   cs' = cs\<lparr>cs_bestHeight := targetHeight, cs_bestHash := newBest\<rparr>
               in case put_best B d targetHeight newBest of
                    Inl e \<Rightarrow> (cs', Inl e)
                  | Inr d \<Rightarrow>
                      (cs'\<lparr>cs_db := d,
                           cs_blockIndex := (\<lambda>h. if h > targetHeight then None else cs_blockIndex cs h)\<rparr>, Inr ()))"

section \<open>Information and iteration\<close>

record chain_Info =
  cinf_BestBlockHash :: string
  cinf_BestBlockHeight :: u64
  cinf_GenesisBlockHash :: string
  cinf_TotalBlocks :: u64

definition chain_GetChainInfo :: "'d ChainState \<Rightarrow> chain_Info" where
  "chain_GetChainInfo cs =
     \<lparr>cinf_BestBlockHash = hex_string (hash_bytes (cs_bestHash cs)), cinf_BestBlockHeight = cs_bestHeight cs,
      cinf_GenesisBlockHash = hex_string (hash_bytes (cs_genesisHash cs)), cinf_TotalBlocks = cs_bestHeight cs + 1\<rparr>"

record BlockInfo =
  binf_Hash :: string
  binf_Height :: u64
  binf_Version :: u32
  binf_PrevBlockHash :: string
  binf_MerkleRoot :: string
  binf_Timestamp :: u64
  binf_Proposer :: string
  binf_TransactionCount :: nat
  binf_BlockReward :: u64
  binf_Size :: nat

definition ToBlockInfo :: "Block \<Rightarrow> BlockInfo" where
  "ToBlockInfo block =
     (let h = bl_Header block in
      \<lparr>binf_Hash = hex_string (hash_bytes (bl_Hash block)), binf_Height = bh_Height h, binf_Version = bh_Version h,
       binf_PrevBlockHash = hex_string (hash_bytes (bh_PrevBlockHash h)),
       binf_MerkleRoot = hex_string (hash_bytes (bh_MerkleRoot h)), binf_Timestamp = bh_Timestamp h,
       binf_Proposer = hex_string (hash_bytes (bh_Proposer h)),
       binf_TransactionCount = length (bl_Transactions block), binf_BlockReward = GetBlockReward block,
       binf_Size = length (SerializeBlock block)\<rparr>)"

definition GetBlockInfo :: "crypto \<Rightarrow> 'd bbolt \<Rightarrow> 'd ChainState \<Rightarrow> u64 \<Rightarrow> (chain_error, BlockInfo) result" where
  "GetBlockInfo C B cs height = rbind (GetBlockByHeight C B cs height) (\<lambda>block. Inr (ToBlockInfo block))"

definition GetBlockInfoByHash :: "crypto \<Rightarrow> 'd bbolt \<Rightarrow> 'd ChainState \<Rightarrow> hash \<Rightarrow> (chain_error, BlockInfo) result" where
  "GetBlockInfoByHash C B cs h = rbind (GetBlockByHash C B cs h) (\<lambda>block. Inr (ToBlockInfo block))"

text \<open>An iterator is its current height; \<^verbatim>\<open>Next\<close> returns the new height next to the block.\<close>

definition iterator_Next :: "crypto \<Rightarrow> 'd bbolt \<Rightarrow> 'd ChainState \<Rightarrow> u64 \<Rightarrow> u64 \<times> Block option" where
  "iterator_Next C B cs currentHeight =
     (if currentHeight > cs_bestHeight cs then (currentHeight, None)
      else case GetBlockByHeight C B cs currentHeight of
        Inl _ \<Rightarrow> (currentHeight, None)
      | Inr block \<Rightarrow> (currentHeight + 1, Some block))"

definition VerifyBlockHash :: "crypto \<Rightarrow> Block \<Rightarrow> bool" where
  "VerifyBlockHash C block \<longleftrightarrow> CalculateHash C block = bl_Hash block"

definition GetBlockHashHex :: "Block \<Rightarrow> string" where
  "GetBlockHashHex block = hex_string (hash_bytes (bl_Hash block))"

definition SerializeChainState :: "'d ChainState \<Rightarrow> bytes" where
  "SerializeChainState cs =
     put_u64_be (cs_bestHeight cs) @ hash_bytes (cs_bestHash cs) @ hash_bytes (cs_genesisHash cs)"

text \<open>A short read of a hash is accepted as long as a byte is left.\<close>

definition DeserializeChainState :: "bytes \<Rightarrow> (u64 \<times> hash \<times> hash) option" where
  "DeserializeChainState data =
     do { (heightBytes, r) \<leftarrow> read_full 8 data;
          (bestHash, r) \<leftarrow> read_hash r;
          (genesisHash, r) \<leftarrow> read_hash r;
          Some (of_nat (be_val heightBytes), bestHash, genesisHash) }"

section \<open>Replay and the root of the output set\<close>

definition replay_tx ::
  "crypto \<Rightarrow> 'd bbolt \<Rightarrow> 'd PersistentUTXOStore \<Rightarrow> Transaction
   \<Rightarrow> 'd PersistentUTXOStore \<times> (chain_error, unit) result" where
  "replay_tx C B p tx =
     (if IsCoinbase tx then applyCoinbaseTransaction C B p tx
      else case ApplyTransactionUnchecked C B p tx of
        Inl e \<Rightarrow> (p, Inl (ChStore e)) | Inr p' \<Rightarrow> (p', Inr ()))"

fun replay_txs ::
  "crypto \<Rightarrow> 'd bbolt \<Rightarrow> 'd PersistentUTXOStore \<Rightarrow> Transaction list
   \<Rightarrow> 'd PersistentUTXOStore \<times> (chain_error, unit) result" where
  "replay_txs C B p [] = (p, Inr ())"
| "replay_txs C B p (tx # txs) =
     (case replay_tx C B p tx of
        (p', Inl e) \<Rightarrow> (p', Inl e) | (p', Inr _) \<Rightarrow> replay_txs C B p' txs)"

fun replay_blocks ::
  "crypto \<Rightarrow> 'd bbolt \<Rightarrow> 'd ChainState \<Rightarrow> 'd PersistentUTXOStore \<Rightarrow> u64 list
   \<Rightarrow> 'd PersistentUTXOStore \<times> (u64 \<times> chain_error) option" where
  "replay_blocks C B cs p [] = (p, None)"
| "replay_blocks C B cs p (h # hs) =
     (case GetBlockByHeight C B cs h of
        Inl e \<Rightarrow> (p, Some (h - 1, e))
      | Inr blk \<Rightarrow>
          (case replay_txs C B p (bl_Transactions blk) of
             (p', Inl e) \<Rightarrow> (p', Some (h, e))
           | (p', Inr _) \<Rightarrow> replay_blocks C B cs p' hs))"

text \<open>The heights from 1 to the best one; the loop would not end at the largest 64-bit height.\<close>

definition ReplayUTXOSetFromChain ::
  "crypto \<Rightarrow> 'd bbolt \<Rightarrow> 'd ChainState \<Rightarrow> 'd ChainState \<times> u64 \<times> chain_error option" where
  "ReplayUTXOSetFromChain C B cs =
     (case cs_utxoStore cs of
        None \<Rightarrow> (cs, 0, Some ChNoStore)
      | Some p \<Rightarrow>
          (case ResetAll B p of
             Inl e \<Rightarrow> (cs, 0, Some (ChStore e))
           | Inr p \<Rightarrow>
               let best = GetBestBlockHeight cs in
               case replay_blocks C B cs p (map of_nat [1..<Suc (unat best)]) of
                 (p, Some (n, e)) \<Rightarrow> (cs\<lparr>cs_utxoStore := Some p\<rparr>, n, Some e)
               | (p, None) \<Rightarrow>
                   let p = (case SetChainHead B p best of Inl _ \<Rightarrow> p | Inr p \<Rightarrow> p) in
                   (cs\<lparr>cs_utxoStore := Some p\<rparr>, best, None)))"

definition root_entry :: "string \<times> UTXO \<Rightarrow> bytes" where
  "root_entry e =
     string_bytes (fst e) @ put_u64_be (u_Value (snd e)) @ hash_bytes (u_Address (snd e))
     @ [of_nat (length (u_Script (snd e)))] @ u_Script (snd e)"

definition root_entries :: "UTXO list \<Rightarrow> (string \<times> UTXO) list" where
  "root_entries all = sort_key fst (map (\<lambda>u. (UTXOKey (u_TxHash u) (u_Index u), u)) all)"

definition UTXOSetRootHash :: "crypto \<Rightarrow> 'd bbolt \<Rightarrow> 'd ChainState \<Rightarrow> hash option" where
  "UTXOSetRootHash C B cs =
     (case cs_utxoStore cs of
        None \<Rightarrow> None
      | Some p \<Rightarrow>
          let list = root_entries (persistent_GetAllUTXOsAll B p) in
          Some (sha256 C (put_u64_be (of_nat (length list)) @ concat (map root_entry list))))"

section \<open>Pruning\<close>

record Pruner =
  pr_keepBlocks :: u64

definition NewPruner :: "u64 \<Rightarrow> Pruner" where
  "NewPruner keepBlocks = \<lparr>pr_keepBlocks = keepBlocks\<rparr>"

definition Enabled :: "Pruner option \<Rightarrow> bool" where
  "Enabled p \<longleftrightarrow> (case p of None \<Rightarrow> False | Some p \<Rightarrow> pr_keepBlocks p > 0)"

definition Keep :: "Pruner option \<Rightarrow> u64" where
  "Keep p = (case p of None \<Rightarrow> 0 | Some p \<Rightarrow> pr_keepBlocks p)"

fun prune_heights :: "'d bbolt \<Rightarrow> 'd \<Rightarrow> u64 list \<Rightarrow> nat \<Rightarrow> nat \<times> (chain_error, 'd) result" where
  "prune_heights B d [] deleted = (deleted, Inr d)"
| "prune_heights B d (h # hs) deleted =
     (case bb_get B d BucketBlockHeight (put_u64_be h) of
        None \<Rightarrow> prune_heights B d hs deleted
      | Some hashBytes \<Rightarrow>
          if bb_get B d BucketBlocks (hash_bytes (copy32 hashBytes)) = None then prune_heights B d hs deleted
          else case bb_delete B d BucketBlocks (hash_bytes (copy32 hashBytes)) of
            None \<Rightarrow> (deleted, Inl ChDb)
          | Some d \<Rightarrow> prune_heights B d hs (Suc deleted))"

definition Prune ::
  "'d bbolt \<Rightarrow> Pruner option \<Rightarrow> 'd ChainState \<Rightarrow> u64 \<Rightarrow> 'd ChainState \<times> nat \<times> chain_error option" where
  "Prune B p cs bestHeight =
     (if \<not> Enabled p \<or> bestHeight \<le> Keep p then (cs, 0, None)
      else
        let cutoff = bestHeight - Keep p;
            (deleted, r) = prune_heights B (cs_db cs) (map of_nat [0..<Suc (unat cutoff)]) 0
        in case rbind r (\<lambda>d. or_error ChDb (bb_put B d BucketChainMeta (string_bytes ''prune_below'') (put_u64_be cutoff))) of
             Inl e \<Rightarrow> (cs, deleted, Some e)
           | Inr d \<Rightarrow> (cs\<lparr>cs_db := d\<rparr>, deleted, None))"

definition PruneBelow :: "'d bbolt \<Rightarrow> 'd ChainState \<Rightarrow> u64" where
  "PruneBelow B cs =
     (case bb_get B (cs_db cs) BucketChainMeta (string_bytes ''prune_below'') of
        None \<Rightarrow> 0 | Some data \<Rightarrow> if length data = 8 then of_nat (be_val data) else 0)"

definition StoreFetchedBlock :: "crypto \<Rightarrow> 'd bbolt \<Rightarrow> 'd ChainState \<Rightarrow> Block \<Rightarrow> 'd ChainState \<times> (chain_error, unit) result" where
  "StoreFetchedBlock C B cs block =
     (case bb_put B (cs_db cs) BucketBlocks (hash_bytes (CalculateHash C block)) (SerializeBlock block) of
        None \<Rightarrow> (cs, Inl ChDb) | Some d \<Rightarrow> (cs\<lparr>cs_db := d\<rparr>, Inr ()))"

definition GetBlockHashByHeight :: "'d ChainState \<Rightarrow> u64 \<Rightarrow> hash option" where
  "GetBlockHashByHeight cs height = cs_blockIndex cs height"

end
