(* ===== verification/Chain_Runs.thy ===== *)
theory Chain_Runs
  imports Chain Persistent_Runs
begin

text \<open>
  What the chain of \<open>Chain\<close> guarantees and where it does not: the index in memory is a hash chain without gaps
  in every reachable state; a block beside the chain is applied to the output set all the same; a block that
  fails half-way moves the tip in memory only.
\<close>

section \<open>What validation changes\<close>

definition same_chain :: "'d ChainState \<Rightarrow> 'd ChainState \<Rightarrow> bool" where
  "same_chain cs cs' \<longleftrightarrow> cs_db cs' = cs_db cs \<and> cs_bestHeight cs' = cs_bestHeight cs \<and> cs_bestHash cs' = cs_bestHash cs
     \<and> cs_blockIndex cs' = cs_blockIndex cs \<and> cs_utxoStore cs' = cs_utxoStore cs"

lemma same_chain_refl [simp]: "same_chain cs cs"
  by (simp add: same_chain_def)

lemma GetBlockByHeight_same: "same_chain cs cs' \<Longrightarrow> GetBlockByHeight C B cs' h = GetBlockByHeight C B cs h"
  by (simp add: same_chain_def GetBlockByHeight_def GetBlockByHash_def split: option.split)

lemma validateBlockParent_same: "validateBlockParent C B cs block = (cs', r) \<Longrightarrow> same_chain cs cs'"
  by (auto simp: validateBlockParent_def same_chain_def split: if_splits)

lemma validateBlockProposer_same: "validateBlockProposer C B ev cs block = (cs', r) \<Longrightarrow> same_chain cs cs'"
  by (auto simp: validateBlockProposer_def same_chain_def Let_def
      split: if_splits option.splits sum.splits prod.splits)

lemma validateBlockStructure_block:
  "validateBlockStructure C block = (block', r) \<Longrightarrow>
   bl_Header block' = bl_Header block \<and> bl_Transactions block' = bl_Transactions block
   \<and> (bl_Hash block' = bl_Hash block \<or> bl_Hash block' = CalculateHash C block)"
  by (auto simp: validateBlockStructure_def split: if_splits)

lemma chain_ValidateBlock_same:
  assumes "chain_ValidateBlock C B ev cs block = (cs', block', r)"
  shows "same_chain cs cs' \<and> bl_Header block' = bl_Header block \<and> bl_Transactions block' = bl_Transactions block
    \<and> (bl_Hash block' = bl_Hash block \<or> bl_Hash block' = CalculateHash C block)"
proof -
  obtain b1 r1 where s: "validateBlockStructure C block = (b1, r1)" by force
  obtain cs1 r2 where p: "validateBlockParent C B cs b1 = (cs1, r2)" by force
  obtain cs2 r3 where q: "validateBlockProposer C B ev cs1 b1 = (cs2, r3)" by force
  have "same_chain cs cs1" using p by (rule validateBlockParent_same)
  moreover have "same_chain cs1 cs2" using q by (rule validateBlockProposer_same)
  moreover have "cs' = cs \<or> cs' = cs1 \<or> cs' = cs2" "block' = b1"
    using assms unfolding chain_ValidateBlock_def s p q
    by (auto simp: Let_def s p q split: sum.splits if_splits)
  ultimately show ?thesis
    using validateBlockStructure_block [OF s] by (auto simp: same_chain_def)
qed

text \<open>What an accepted block satisfies.\<close>

lemma chain_ValidateBlock_Inr:
  assumes "chain_ValidateBlock C B ev cs block = (cs', block', Inr ())"
  shows "IsGenesis block \<or> (\<exists>parent. GetBlockByHeight C B cs (bh_Height (bl_Header block) - 1) = Inr parent
      \<and> bh_PrevBlockHash (bl_Header block) = bl_Hash parent)"
    and "CalculateMerkleRoot C block = bh_MerkleRoot (bl_Header block)"
    and "bh_Height (bl_Header block) > 0 \<Longrightarrow> VerifyBlockSignature C block = Some True \<and> bl_Hash block' = CalculateHash C block"
    and "validateBlockTransactions C (ev_eraBlocks ev) (map_option (store_provider B) (cs_utxoStore cs)) block = Inr ()"
proof -
  obtain b1 r1 where s: "validateBlockStructure C block = (b1, r1)" by force
  obtain cs1 r2 where p: "validateBlockParent C B cs b1 = (cs1, r2)" by force
  obtain cs2 r3 where q: "validateBlockProposer C B ev cs1 b1 = (cs2, r3)" by force
  have run: "r1 = Inr ()" "r2 = Inr ()" "block' = b1" "validateBlockSignature C b1 = Inr ()"
    "validateBlockTransactions C (ev_eraBlocks ev) (map_option (store_provider B) (cs_utxoStore cs1)) b1 = Inr ()"
    using assms unfolding chain_ValidateBlock_def s p q
    by (auto simp: Let_def s p q split: sum.splits if_splits)
  have same: "same_chain cs cs1" using p by (rule validateBlockParent_same)
  note b1 = validateBlockStructure_block [OF s]
  show "IsGenesis block \<or> (\<exists>parent. GetBlockByHeight C B cs (bh_Height (bl_Header block) - 1) = Inr parent
      \<and> bh_PrevBlockHash (bl_Header block) = bl_Hash parent)"
    using p run(2) b1 by (auto simp: validateBlockParent_def IsGenesis_def rbind_Inr_iff split: if_splits)
  show "CalculateMerkleRoot C block = bh_MerkleRoot (bl_Header block)"
    using s run(1) by (auto simp: validateBlockStructure_def split: if_splits)
  have cong: "VerifyBlockSignature C b1 = VerifyBlockSignature C block"
    using b1 by (simp add: VerifyBlockSignature_def CalculateHash_def)
  show "VerifyBlockSignature C block = Some True \<and> bl_Hash block' = CalculateHash C block"
    if "bh_Height (bl_Header block) > 0"
    using that run(1,3,4) s b1 cong
    by (auto simp: validateBlockSignature_def validateBlockStructure_def VerifyBlockSignature_def
        split: if_splits option.splits)
  show "validateBlockTransactions C (ev_eraBlocks ev) (map_option (store_provider B) (cs_utxoStore cs)) block = Inr ()"
  proof -
    have "validateBlockTransactions C (ev_eraBlocks ev) prov b1 = validateBlockTransactions C (ev_eraBlocks ev) prov block" for prov
      using b1 by (simp add: validateBlockTransactions_def)
    then show ?thesis using run(5) same by (simp add: same_chain_def)
  qed
qed

section \<open>What adding a block changes\<close>

lemma update_chain_memory:
  assumes "update_chain C B cs block = (cs', r)"
  shows "cs_db cs' = cs_db cs \<and> (cs_blockIndex cs' = cs_blockIndex cs \<and> cs_bestHeight cs' = cs_bestHeight cs \<or>
     is_new_best cs block \<and> cs_bestHeight cs' = bh_Height (bl_Header block)
     \<and> cs_blockIndex cs' = (cs_blockIndex cs)(bh_Height (bl_Header block) \<mapsto> bl_Hash block))"
  using assms by (auto simp: update_chain_def set_best_def Let_def split: sum.splits option.splits prod.splits if_splits)

lemma update_chain_db:
  assumes "update_chain C B cs block = (cs', Inr d)"
  shows "\<exists>d1. store_block B (cs_db cs) block = Inr d1 \<and>
    (if is_new_best cs block then put_best B d1 (bh_Height (bl_Header block)) (bl_Hash block) = Inr d else d = d1)"
  using assms by (auto simp: update_chain_def Let_def rbind_Inr_iff split: sum.splits option.splits prod.splits if_splits)

lemma confirm_in_pool_keeps [simp]:
  "cs_db (confirm_in_pool C cs txs) = cs_db cs" "cs_blockIndex (confirm_in_pool C cs txs) = cs_blockIndex cs"
  "cs_bestHeight (confirm_in_pool C cs txs) = cs_bestHeight cs" "cs_bestHash (confirm_in_pool C cs txs) = cs_bestHash cs"
  "cs_utxoStore (confirm_in_pool C cs txs) = cs_utxoStore cs" "cs_consensus (confirm_in_pool C cs txs) = cs_consensus cs"
  by (simp_all add: confirm_in_pool_def)

text \<open>The result of adding a block is the one of validation, or the one of the update.\<close>

lemma AddBlock_cases:
  assumes "AddBlock C B ev cs block = (cs', block', r)"
  obtains (invalid) e where "chain_ValidateBlock C B ev cs block = (cs', block', Inl e)" "r = Inl e"
  | (failed) cs1 e where "chain_ValidateBlock C B ev cs block = (cs1, block', Inr ())"
      "update_chain C B cs1 block' = (cs', Inl e)" "r = Inl e"
  | (stored) cs1 cs2 d where "chain_ValidateBlock C B ev cs block = (cs1, block', Inr ())"
      "update_chain C B cs1 block' = (cs2, Inr d)" "cs_db cs' = d" "cs_blockIndex cs' = cs_blockIndex cs2"
      "cs_bestHeight cs' = cs_bestHeight cs2" "cs_bestHash cs' = cs_bestHash cs2" "cs_utxoStore cs' = cs_utxoStore cs2"
proof -
  obtain cs1 b1 r1 where v: "chain_ValidateBlock C B ev cs block = (cs1, b1, r1)"
    using prod_cases3 by blast
  obtain cs2 r2 where u: "update_chain C B cs1 b1 = (cs2, r2)" by force
  show thesis
  proof (cases r1)
    case (Inl e)
    then show thesis using assms v invalid by (auto simp: AddBlock_def)
  next
    case ok: (Inr _)
    show thesis
    proof (cases r2)
      case (Inl e)
      then show thesis using assms v u ok failed by (auto simp: AddBlock_def)
    next
      case (Inr d)
      have "b1 = block'" "cs_db cs' = d" "cs_blockIndex cs' = cs_blockIndex cs2"
        "cs_bestHeight cs' = cs_bestHeight cs2" "cs_bestHash cs' = cs_bestHash cs2" "cs_utxoStore cs' = cs_utxoStore cs2"
        using assms v u ok Inr by (auto simp: AddBlock_def Let_def split: option.splits prod.splits)
      then show thesis using v u ok Inr stored by simp
    qed
  qed
qed

section \<open>The index is a hash chain\<close>

text \<open>The index has no gaps up to the best height.\<close>

definition contiguous :: "'d ChainState \<Rightarrow> bool" where
  "contiguous cs \<longleftrightarrow> (\<forall>h. cs_blockIndex cs h \<noteq> None \<longleftrightarrow> h \<le> cs_bestHeight cs)
     \<or> cs_blockIndex cs = Map.empty \<and> cs_bestHeight cs = 0"

text \<open>Every body in the database is stored under the hash of its header.\<close>

definition bodies_hashed :: "crypto \<Rightarrow> 'd bbolt \<Rightarrow> 'd \<Rightarrow> bool" where
  "bodies_hashed C B d \<longleftrightarrow> (\<forall>k data b. bb_get B d BucketBlocks (hash_bytes k) = Some data
     \<longrightarrow> DeserializeBlock C data = Some b \<longrightarrow> bl_Hash b = k)"

text \<open>Every hash in the index is the hash of a header of that height, which names the hash below it.\<close>

definition hash_chain :: "crypto \<Rightarrow> (u64 \<rightharpoonup> hash) \<Rightarrow> bool" where
  "hash_chain C index \<longleftrightarrow> (\<forall>h k. index h = Some k \<longrightarrow>
     (\<exists>hd. k = sha256d C (SerializeHeader hd) \<and> bh_Height hd = h
       \<and> (h > 0 \<longrightarrow> index (h - 1) = Some (bh_PrevBlockHash hd))))"

lemma GetBlockByHeight_hash:
  assumes "bodies_hashed C B (cs_db cs)" and "GetBlockByHeight C B cs h = Inr b"
  shows "cs_blockIndex cs h = Some (bl_Hash b)"
  using assms by (auto simp: GetBlockByHeight_def GetBlockByHash_def bodies_hashed_def split: option.splits)

lemma next_height:
  fixes h best :: u64
  assumes "h - 1 \<le> best" and "best < h"
  shows "x \<le> h \<longleftrightarrow> x \<le> best \<or> x = h"
proof -
  have "h \<noteq> 0" using assms(2) by auto
  then have "unat (h - 1) = unat h - 1" by (simp add: unat_minus_one)
  then have "unat h = Suc (unat best)"
    using assms by (simp add: word_le_nat_alt word_less_nat_alt)
  then show ?thesis
    by (auto simp: word_le_nat_alt word_unat_eq_iff)
qed

lemma chain_hash_bodies:
  "bodies_hashed C B (cs_db cs) \<Longrightarrow> cs_db cs' = cs_db cs \<Longrightarrow> bodies_hashed C B (cs_db cs')"
  by simp

context bbolt_laws begin

lemma store_body_hashed:
  assumes "bodies_hashed C B d" and "bb_put B d BucketBlocks (hash_bytes k) (SerializeBlock block) = Some d'"
    and "block_wf block" and "k = CalculateHash C block"
  shows "bodies_hashed C B d'"
proof -
  have "DeserializeBlock C (SerializeBlock block @ []) = Some (block\<lparr>bl_Header := canonical (bl_Header block),
      bl_Hash := CalculateHash C block, bl_SignedHash := 0\<rparr>)"
    using block_roundtrip [OF assms(3)] by blast
  then show ?thesis
    using assms(1,4) by (auto simp: bodies_hashed_def get_put [OF assms(2)] split: if_splits)
qed

lemma put_other_hashed:
  "bodies_hashed C B d \<Longrightarrow> bb_put B d b k v = Some d' \<Longrightarrow> b \<noteq> BucketBlocks \<Longrightarrow> bodies_hashed C B d'"
  by (simp add: bodies_hashed_def get_put)

lemma delete_hashed: "bodies_hashed C B d \<Longrightarrow> bb_delete B d b k = Some d' \<Longrightarrow> bodies_hashed C B d'"
  by (auto simp: bodies_hashed_def get_delete split: if_splits)

end

lemma chain_buckets [simp]:
  "BucketBlocks \<noteq> BucketBlockHeight" "BucketBlockHeight \<noteq> BucketBlocks" "BucketBlocks \<noteq> BucketChainMeta"
  "BucketChainMeta \<noteq> BucketBlocks" "BucketBlockHeight \<noteq> BucketChainMeta" "BucketChainMeta \<noteq> BucketBlockHeight"
  by (simp_all add: BucketBlocks_def BucketBlockHeight_def BucketChainMeta_def)

lemma put_best_Inr:
  "put_best B d height h = Inr d' \<longleftrightarrow>
   (\<exists>d1. bb_put B d BucketChainMeta (string_bytes MetaBestHeight) (put_u64_be height) = Some d1
     \<and> bb_put B d1 BucketChainMeta (string_bytes MetaBestHash) (hash_bytes h) = Some d')"
  by (simp add: put_best_def rbind_Inr_iff)

lemma put_best_hashed:
  "bbolt_laws B \<Longrightarrow> bodies_hashed C B d \<Longrightarrow> put_best B d height h = Inr d' \<Longrightarrow> bodies_hashed C B d'"
  unfolding put_best_Inr using bbolt_laws.put_other_hashed [of B C] chain_buckets(4) by blast

lemma store_block_hashed:
  assumes "bbolt_laws B" and "bodies_hashed C B d" and "store_block B d block = Inr d'"
    and "block_wf block" and "bl_Hash block = CalculateHash C block"
  shows "bodies_hashed C B d'"
proof -
  obtain d1 where "bb_put B d BucketBlocks (hash_bytes (bl_Hash block)) (SerializeBlock block) = Some d1"
    "bb_put B d1 BucketBlockHeight (put_u64_be (bh_Height (bl_Header block))) (hash_bytes (bl_Hash block)) = Some d'"
    using assms(3) by (auto simp: store_block_def rbind_Inr_iff)
  then show ?thesis
    using bbolt_laws.store_body_hashed [OF assms(1,2) _ assms(4,5)] bbolt_laws.put_other_hashed [OF assms(1)]
      chain_buckets(2) by blast
qed

text \<open>A block that has passed and has the hash of its header extends the chain by one header.\<close>

lemma new_best_linked:
  assumes "contiguous cs" and "bodies_hashed C B (cs_db cs)" and "hash_chain C (cs_blockIndex cs)"
    and v: "chain_ValidateBlock C B ev cs block = (cs1, block', Inr ())" and new: "is_new_best cs1 block'"
    and h: "bl_Hash block = CalculateHash C block"
  shows "\<forall>x. ((cs_blockIndex cs)(bh_Height (bl_Header block) \<mapsto> bl_Hash block')) x \<noteq> None \<longleftrightarrow> x \<le> bh_Height (bl_Header block)"
    and "hash_chain C ((cs_blockIndex cs)(bh_Height (bl_Header block) \<mapsto> bl_Hash block'))"
proof -
  let ?h = "bh_Height (bl_Header block)"
  note same = chain_ValidateBlock_same [OF v]
  have hash: "bl_Hash block' = sha256d C (SerializeHeader (bl_Header block))"
    using same h by (auto simp: CalculateHash_def)
  consider (genesis) "?h = 0" "cs_blockIndex cs = Map.empty" | (successor) "?h > 0" "cs_bestHeight cs < ?h"
    using new same le_less_trans [OF word_zero_le, of "cs_bestHeight cs" ?h]
    by (auto simp: is_new_best_def Let_def same_chain_def map_len_def)
  note cases = this
  show "\<forall>x. ((cs_blockIndex cs)(?h \<mapsto> bl_Hash block')) x \<noteq> None \<longleftrightarrow> x \<le> ?h"
  proof (cases rule: cases)
    case genesis
    then show ?thesis by simp
  next
    case successor
    then have "\<not> IsGenesis block" by (auto simp: IsGenesis_def)
    with chain_ValidateBlock_Inr(1) [OF v] obtain parent where "GetBlockByHeight C B cs (?h - 1) = Inr parent"
      by blast
    from GetBlockByHeight_hash [OF assms(2) this] have idx: "cs_blockIndex cs (?h - 1) \<noteq> None" by simp
    then have full: "\<forall>x. cs_blockIndex cs x \<noteq> None \<longleftrightarrow> x \<le> cs_bestHeight cs"
      using assms(1) by (auto simp: contiguous_def)
    with idx have "?h - 1 \<le> cs_bestHeight cs" by blast
    from next_height [OF this successor(2)] show ?thesis using full by auto
  qed
  show "hash_chain C ((cs_blockIndex cs)(?h \<mapsto> bl_Hash block'))"
  proof (cases rule: cases)
    case genesis
    then show ?thesis using hash by (auto simp: hash_chain_def)
  next
    case successor
    then have "\<not> IsGenesis block" by (auto simp: IsGenesis_def)
    with chain_ValidateBlock_Inr(1) [OF v] obtain parent where par: "GetBlockByHeight C B cs (?h - 1) = Inr parent"
      "bh_PrevBlockHash (bl_Header block) = bl_Hash parent"
      by blast
    have idx: "cs_blockIndex cs (?h - 1) = Some (bh_PrevBlockHash (bl_Header block))"
      using GetBlockByHeight_hash [OF assms(2) par(1)] par(2) by simp
    have ne: "?h - 1 \<noteq> ?h" by simp
    have old: "x - 1 \<noteq> ?h" if "cs_blockIndex cs x \<noteq> None" "x > 0" for x
    proof
      assume "x - 1 = ?h"
      moreover have "x \<noteq> 0" using that(2) by auto
      then have "unat (x - 1) = unat x - 1" "0 < unat x" by (simp_all add: unat_minus_one unat_gt_0)
      ultimately have "unat ?h < unat x" by simp
      moreover have "x \<le> cs_bestHeight cs" using assms(1) that by (auto simp: contiguous_def)
      ultimately show False using successor(2) by (simp add: word_le_nat_alt word_less_nat_alt)
    qed
    show ?thesis
      unfolding hash_chain_def
    proof (intro allI impI)
      fix x k
      assume k: "((cs_blockIndex cs)(?h \<mapsto> bl_Hash block')) x = Some k"
      show "\<exists>hd. k = sha256d C (SerializeHeader hd) \<and> bh_Height hd = x
        \<and> (x > 0 \<longrightarrow> ((cs_blockIndex cs)(?h \<mapsto> bl_Hash block')) (x - 1) = Some (bh_PrevBlockHash hd))"
      proof (cases "x = ?h")
        case True
        then show ?thesis using k hash idx ne by (intro exI [of _ "bl_Header block"]) simp
      next
        case False
        then have ix: "cs_blockIndex cs x = Some k" using k by simp
        with assms(3) obtain hd where "k = sha256d C (SerializeHeader hd)" "bh_Height hd = x"
          "x > 0 \<longrightarrow> cs_blockIndex cs (x - 1) = Some (bh_PrevBlockHash hd)"
          unfolding hash_chain_def by blast
        then show ?thesis using old [of x] ix by (intro exI [of _ hd]) auto
      qed
    qed
  qed
qed

definition chain_inv :: "crypto \<Rightarrow> 'd bbolt \<Rightarrow> 'd ChainState \<Rightarrow> bool" where
  "chain_inv C B cs \<longleftrightarrow> contiguous cs \<and> bodies_hashed C B (cs_db cs) \<and> hash_chain C (cs_blockIndex cs)"

lemma chain_inv_memory:
  "chain_inv C B cs \<Longrightarrow> cs_blockIndex cs' = cs_blockIndex cs \<Longrightarrow> cs_bestHeight cs' = cs_bestHeight cs
   \<Longrightarrow> bodies_hashed C B (cs_db cs') \<Longrightarrow> chain_inv C B cs'"
  by (simp add: chain_inv_def contiguous_def)

lemma AddBlock_inv:
  assumes L: "bbolt_laws B" and inv: "chain_inv C B cs" and wf: "block_wf block" "bl_Hash block = CalculateHash C block"
    and run: "AddBlock C B ev cs block = (cs', block', r)"
  shows "chain_inv C B cs'"
proof -
  have mem: "contiguous cs2 \<and> hash_chain C (cs_blockIndex cs2)"
    if v: "chain_ValidateBlock C B ev cs block = (cs1, block', Inr ())" and u: "update_chain C B cs1 block' = (cs2, r')"
    for cs1 cs2 r'
  proof -
    note same = chain_ValidateBlock_same [OF v]
    from update_chain_memory [OF u]
    show ?thesis
    proof (elim conjE disjE)
      assume "cs_blockIndex cs2 = cs_blockIndex cs1" "cs_bestHeight cs2 = cs_bestHeight cs1"
      then show ?thesis using inv same by (simp add: chain_inv_def contiguous_def same_chain_def)
    next
      assume "is_new_best cs1 block'" "cs_bestHeight cs2 = bh_Height (bl_Header block')"
        "cs_blockIndex cs2 = (cs_blockIndex cs1)(bh_Height (bl_Header block') \<mapsto> bl_Hash block')"
      then show ?thesis
        using new_best_linked [OF _ _ _ v _ wf(2)] inv same by (simp add: chain_inv_def contiguous_def same_chain_def)
    qed
  qed
  have blk: "block_wf block'" "bl_Hash block' = CalculateHash C block'" if "chain_ValidateBlock C B ev cs block = (cs1, block', x)" for cs1 x
    using chain_ValidateBlock_same [OF that] wf by (auto simp: block_wf_def CalculateHash_def)
  from run show ?thesis
  proof (cases rule: AddBlock_cases)
    case (invalid e)
    then show ?thesis using chain_ValidateBlock_same [OF invalid(1)] inv by (auto simp: same_chain_def chain_inv_def contiguous_def)
  next
    case (failed cs1 e)
    then show ?thesis
      using mem [OF failed(1,2)] update_chain_memory [OF failed(2)] chain_ValidateBlock_same [OF failed(1)] inv
      by (simp add: chain_inv_def same_chain_def)
  next
    case (stored cs1 cs2 d)
    have "bodies_hashed C B d"
    proof -
      obtain d1 where d1: "store_block B (cs_db cs1) block' = Inr d1"
        "if is_new_best cs1 block' then put_best B d1 (bh_Height (bl_Header block')) (bl_Hash block') = Inr d else d = d1"
        using update_chain_db [OF stored(2)] by blast
      have "bodies_hashed C B (cs_db cs1)"
        using chain_ValidateBlock_same [OF stored(1)] inv by (simp add: same_chain_def chain_inv_def)
      from store_block_hashed [OF L this d1(1)] blk [OF stored(1)] have "bodies_hashed C B d1" by blast
      then show ?thesis using d1(2) put_best_hashed [OF L] by (auto split: if_splits)
    qed
    then show ?thesis
      using mem [OF stored(1,2)] stored(3-5) by (simp add: chain_inv_def contiguous_def)
  qed
qed

lemma delete_keys_hashed:
  "bbolt_laws B \<Longrightarrow> bodies_hashed C B d \<Longrightarrow> delete_keys B b d ks = Inr d' \<Longrightarrow> bodies_hashed C B d'"
  by (induction ks arbitrary: d) (auto simp: rbind_Inr_iff dest: bbolt_laws.delete_hashed)

lemma hash_chain_restrict: "hash_chain C index \<Longrightarrow> hash_chain C (\<lambda>h. if h > target then None else index h)"
  unfolding hash_chain_def
proof (intro allI impI)
  fix h k
  assume hc: "\<forall>h k. index h = Some k \<longrightarrow> (\<exists>hd. k = sha256d C (SerializeHeader hd) \<and> bh_Height hd = h
       \<and> (h > 0 \<longrightarrow> index (h - 1) = Some (bh_PrevBlockHash hd)))"
    and k: "(if h > target then None else index h) = Some k"
  then have le: "h \<le> target" "index h = Some k" by (auto split: if_splits)
  have "h - 1 \<le> target" if "h > 0"
  proof -
    have "unat (h - 1) = unat h - 1" using that by (intro unat_minus_one) auto
    then show ?thesis using le(1) by (simp add: word_le_nat_alt)
  qed
  moreover obtain hd where "k = sha256d C (SerializeHeader hd)" "bh_Height hd = h"
    "h > 0 \<longrightarrow> index (h - 1) = Some (bh_PrevBlockHash hd)"
    using hc le(2) by blast
  ultimately show "\<exists>hd. k = sha256d C (SerializeHeader hd) \<and> bh_Height hd = h
       \<and> (h > 0 \<longrightarrow> (if h - 1 > target then None else index (h - 1)) = Some (bh_PrevBlockHash hd))"
    by (intro exI [of _ hd] conjI impI) simp_all
qed

lemma RollbackChain_db:
  assumes "RollbackChain B cs target = (cs', Inr ())"
  shows "\<exists>d1 d2 ks1 ks2 h. delete_keys B BucketBlocks (cs_db cs) ks1 = Inr d1 \<and> delete_keys B BucketBlockHeight d1 ks2 = Inr d2
    \<and> put_best B d2 target h = Inr (cs_db cs')"
  using assms by (auto simp: RollbackChain_def Let_def rbind_Inr_iff split: if_splits sum.splits; blast)

lemma RollbackChain_memory:
  assumes "RollbackChain B cs target = (cs', r)"
  shows "(case r of Inr _ \<Rightarrow> target < cs_bestHeight cs \<and> cs_bestHeight cs' = target
       \<and> cs_blockIndex cs' = (\<lambda>h. if h > target then None else cs_blockIndex cs h)
     | Inl _ \<Rightarrow> cs_db cs' = cs_db cs) \<and> cs_utxoStore cs' = cs_utxoStore cs"
  using assms by (auto simp: RollbackChain_def Let_def not_le split: if_splits sum.splits)

lemma put_best_succeeds:
  assumes "bbolt_laws B"
  shows "\<exists>d'. put_best B d height h = Inr d'"
proof -
  have "bb_put B d BucketChainMeta (string_bytes MetaBestHeight) (put_u64_be height) \<noteq> None" for d
    by (rule bbolt_laws.put_succeeds [OF assms])
      (simp_all add: MaxKeySize_def MaxValueSize_def string_bytes_def MetaBestHeight_def)
  moreover have "bb_put B d BucketChainMeta (string_bytes MetaBestHash) (hash_bytes h) \<noteq> None" for d
    by (rule bbolt_laws.put_succeeds [OF assms])
      (simp_all add: MaxKeySize_def MaxValueSize_def string_bytes_def MetaBestHash_def)
  ultimately show ?thesis
    unfolding put_best_Inr by (metis option.exhaust)
qed

lemma RollbackChain_inv:
  assumes L: "bbolt_laws B" and inv: "chain_inv C B cs" and run: "RollbackChain B cs target = (cs', r)"
  shows "chain_inv C B cs'"
proof (cases r)
  case (Inl e)
  have "put_best B d height h \<noteq> Inl e" for d height h
    using put_best_succeeds [OF L, of d height h] by auto
  then have "cs_blockIndex cs' = cs_blockIndex cs" "cs_bestHeight cs' = cs_bestHeight cs"
    using run Inl by (auto simp: RollbackChain_def Let_def split: if_splits sum.splits)
  then show ?thesis
    using RollbackChain_memory [OF run] Inl inv by (simp add: chain_inv_def contiguous_def)
next
  case (Inr u)
  then have run': "RollbackChain B cs target = (cs', Inr ())" using run by simp
  note mem = RollbackChain_memory [OF run', simplified]
  obtain d1 d2 ks1 ks2 h where d: "delete_keys B BucketBlocks (cs_db cs) ks1 = Inr d1"
    "delete_keys B BucketBlockHeight d1 ks2 = Inr d2" "put_best B d2 target h = Inr (cs_db cs')"
    using RollbackChain_db [OF run'] by blast
  have "bodies_hashed C B (cs_db cs')"
    by (rule put_best_hashed [OF L delete_keys_hashed [OF L delete_keys_hashed [OF L _ d(1)] d(2)] d(3)])
      (use inv in \<open>simp add: chain_inv_def\<close>)
  moreover have "contiguous cs'"
  proof -
    have lt: "target < cs_bestHeight cs" and cs': "cs_bestHeight cs' = target"
      "cs_blockIndex cs' = (\<lambda>h. if h > target then None else cs_blockIndex cs h)"
      using mem by simp_all
    have full: "cs_blockIndex cs x \<noteq> None \<longleftrightarrow> x \<le> cs_bestHeight cs" for x
    proof -
      have "contiguous cs" using inv unfolding chain_inv_def by blast
      moreover have "cs_bestHeight cs \<noteq> 0" using lt by (metis word_not_simps(1))
      ultimately show ?thesis unfolding contiguous_def by blast
    qed
    have "cs_blockIndex cs' x \<noteq> None \<longleftrightarrow> x \<le> cs_bestHeight cs'" for x
    proof (cases "x > target")
      case True
      then show ?thesis by (simp add: cs' not_le)
    next
      case False
      then have "x \<le> cs_bestHeight cs" using lt by simp
      then show ?thesis using False full [of x] by (simp add: cs' not_less)
    qed
    then show ?thesis unfolding contiguous_def by blast
  qed
  moreover have "hash_chain C (cs_blockIndex cs')"
    using mem hash_chain_restrict inv by (simp add: chain_inv_def)
  ultimately show ?thesis by (simp add: chain_inv_def)
qed

lemma prune_heights_hashed:
  assumes L: "bbolt_laws B"
  shows "bodies_hashed C B d \<Longrightarrow> prune_heights B d hs n = (m, Inr d') \<Longrightarrow> bodies_hashed C B d'"
proof (induction hs arbitrary: d n)
  case (Cons h hs)
  then show ?case
    by (auto split: option.splits if_splits dest: bbolt_laws.delete_hashed [OF L])
qed simp

lemma Prune_inv:
  assumes L: "bbolt_laws B" and inv: "chain_inv C B cs" and run: "Prune B p cs best = (cs', n, r)"
  shows "chain_inv C B cs'"
proof -
  let ?cutoff = "best - Keep p"
  obtain m r' where ph: "prune_heights B (cs_db cs) (map of_nat [0..<Suc (unat ?cutoff)]) 0 = (m, r')" by force
  have "cs' = cs \<or> (\<exists>d1 d. r' = Inr d1 \<and> bb_put B d1 BucketChainMeta (string_bytes ''prune_below'') (put_u64_be ?cutoff) = Some d
      \<and> cs' = cs\<lparr>cs_db := d\<rparr>)"
    using run unfolding Prune_def Let_def ph
    by (cases r') (auto simp: rbind_Inr_iff rbind_def or_error_def split: if_splits sum.splits option.splits)
  then show ?thesis
  proof (elim disjE exE conjE)
    fix d1 d assume r': "r' = Inr d1" and d: "bb_put B d1 BucketChainMeta (string_bytes ''prune_below'') (put_u64_be ?cutoff) = Some d"
      and cs': "cs' = cs\<lparr>cs_db := d\<rparr>"
    have "bodies_hashed C B d1"
      using prune_heights_hashed [OF L _ ph [unfolded r']] inv by (simp add: chain_inv_def)
    from bbolt_laws.put_other_hashed [OF L this d chain_buckets(4)] show ?thesis
      using inv cs' by (simp add: chain_inv_def contiguous_def)
  qed (use inv in simp)
qed

lemma StoreFetchedBlock_inv:
  assumes "bbolt_laws B" and "chain_inv C B cs" and "block_wf block"
  shows "chain_inv C B (fst (StoreFetchedBlock C B cs block))"
  using assms bbolt_laws.store_body_hashed [OF assms(1) _ _ assms(3) refl]
  by (auto simp: StoreFetchedBlock_def chain_inv_def contiguous_def split: option.splits)

lemma InitGenesis_inv:
  assumes L: "bbolt_laws B" and inv: "chain_inv C B cs" and wf: "block_wf block" "bl_Hash block = CalculateHash C block"
  shows "chain_inv C B (fst (InitGenesis C B ev cs block))"
proof -
  obtain cs1 b1 r1 where a: "AddBlock C B ev cs block = (cs1, b1, r1)"
    using prod_cases3 by blast
  from AddBlock_inv [OF L inv wf a] show ?thesis
    using inv a bbolt_laws.put_other_hashed [OF L] chain_buckets(4)
    by (auto simp: InitGenesis_def Let_def chain_inv_def contiguous_def split: sum.splits option.splits)
qed

text \<open>The operations of a running node; blocks come from the decoder, which computes their hash.\<close>

inductive chain_step :: "crypto \<Rightarrow> 'd bbolt \<Rightarrow> 'd ChainState \<Rightarrow> 'd ChainState \<Rightarrow> bool" for C B where
  add: "block_wf block \<Longrightarrow> bl_Hash block = CalculateHash C block \<Longrightarrow> chain_step C B cs (fst (AddBlock C B ev cs block))"
| genesis: "block_wf block \<Longrightarrow> bl_Hash block = CalculateHash C block \<Longrightarrow> chain_step C B cs (fst (InitGenesis C B ev cs block))"
| rollback: "chain_step C B cs (fst (RollbackChain B cs target))"
| prune: "chain_step C B cs (fst (Prune B p cs best))"
| fetch: "block_wf block \<Longrightarrow> chain_step C B cs (fst (StoreFetchedBlock C B cs block))"
| replay: "chain_step C B cs (fst (ReplayUTXOSetFromChain C B cs))"
| attach: "chain_step C B cs (SetUTXOStore (SetMempool (SetConsensus (SetFinalityGuard cs g) consensus) mempool) store)"

inductive chain_reachable :: "crypto \<Rightarrow> 'd bbolt \<Rightarrow> 'd ChainState \<Rightarrow> bool" for C B where
  start: "(\<And>k. bb_get B d BucketBlocks k = None) \<Longrightarrow> (\<And>k. bb_get B d BucketBlockHeight k = None)
    \<Longrightarrow> (\<And>k. bb_get B d BucketChainMeta k = None) \<Longrightarrow> NewChainStateWithDB B d = Some cs \<Longrightarrow> chain_reachable C B cs"
| step: "chain_reachable C B cs \<Longrightarrow> chain_step C B cs cs' \<Longrightarrow> chain_reachable C B cs'"

lemma Replay_memory:
  "ReplayUTXOSetFromChain C B cs = (cs', n, r) \<Longrightarrow>
   cs_db cs' = cs_db cs \<and> cs_blockIndex cs' = cs_blockIndex cs \<and> cs_bestHeight cs' = cs_bestHeight cs"
  by (auto simp: ReplayUTXOSetFromChain_def Let_def split: option.splits sum.splits prod.splits)

lemma chain_step_inv:
  assumes L: "bbolt_laws B" and inv: "chain_inv C B cs" and st: "chain_step C B cs cs'"
  shows "chain_inv C B cs'"
  using st
proof cases
  case (add block ev)
  then show ?thesis using AddBlock_inv [OF L inv add(2,3)] by (metis prod.collapse)
next
  case (genesis block ev)
  then show ?thesis using InitGenesis_inv [OF L inv] by blast
next
  case (rollback target)
  then show ?thesis using RollbackChain_inv [OF L inv] by (metis prod.collapse)
next
  case (prune p best)
  then show ?thesis using Prune_inv [OF L inv] by (metis prod.collapse)
next
  case (fetch block)
  then show ?thesis using StoreFetchedBlock_inv [OF L inv] by blast
next
  case replay
  then show ?thesis using Replay_memory [of C B cs] inv
    by (metis chain_inv_def chain_inv_memory prod.collapse)
next
  case (attach g consensus mempool store)
  then show ?thesis
    using inv by (simp add: chain_inv_def contiguous_def SetUTXOStore_def SetMempool_def SetConsensus_def SetFinalityGuard_def)
qed

lemma fresh_chain_inv:
  assumes "bbolt_laws B" and "\<And>k. bb_get B d BucketBlocks k = None" and "\<And>k. bb_get B d BucketBlockHeight k = None"
    and "\<And>k. bb_get B d BucketChainMeta k = None" and "NewChainStateWithDB B d = Some cs"
  shows "chain_inv C B cs"
proof -
  have "bb_entries B d BucketBlockHeight = []"
    using bbolt_laws.map_of_entries [OF assms(1), of d BucketBlockHeight] assms(3)
    by (cases "bb_entries B d BucketBlockHeight") (auto simp: fun_eq_iff split: if_splits)
  then show ?thesis
    using assms(2,4,5)
    by (auto simp: NewChainStateWithDB_def loadState_def Let_def load_hash_def chain_inv_def contiguous_def
        bodies_hashed_def hash_chain_def)
qed

lemma chain_reachable_inv:
  assumes L: "bbolt_laws B" and "chain_reachable C B cs"
  shows "chain_inv C B cs"
  using assms(2)
proof (induction rule: chain_reachable.induct)
  case (start d cs)
  then show ?case using fresh_chain_inv [OF L] by blast
next
  case (step cs cs')
  then show ?case using chain_step_inv [OF L] by blast
qed

end
