(* ===== verification/Chain_Forks.thy ===== *)
theory Chain_Forks
  imports Chain_Runs
begin

text \<open>
  What happens to the store when a block does not extend the chain, or fails after it has been accepted, and what
  validation does not look at.
\<close>

section \<open>Coinbase outputs\<close>

lemma put_u64_be_neq_nil [simp]: "put_u64_be w \<noteq> []"
  by (simp add: put_u64_be_def flip: length_0_conv)

lemma add_coinbase_outputs_eq:
  "persistent_outputs B (ps_db p) h n outs = Inr d \<Longrightarrow> \<not> ps_readOnly p
   \<Longrightarrow> add_coinbase_outputs B p h n outs = (p\<lparr>ps_db := d\<rparr>, Inr ())"
  by (induction outs arbitrary: p n) (auto simp: rbind_Inr_iff persistent_AddUTXO_def writable_def)

text \<open>A transaction that fits the store: its outputs are new and no sum exceeds the signed 64-bit numbers.\<close>

definition fits_store :: "crypto \<Rightarrow> UTXOStore \<Rightarrow> Transaction \<Rightarrow> bool" where
  "fits_store C s tx \<longleftrightarrow>
     total_value (st_utxos s) + exact_sum (output_values tx) < 2 ^ 63 \<and> length (tx_Outputs tx) \<le> 2 ^ 32
     \<and> (\<forall>i. unat i < length (tx_Outputs tx) \<longrightarrow> GetUTXO s (TxHash C tx) i = None)
     \<and> (\<forall>out \<in> set (tx_Outputs tx). script_ok (to_Script out))"

lemma apply_coinbase_ok:
  assumes "bbolt_laws B" and "stored B (ps_db p) s" and "store_inv s" and "\<not> ps_readOnly p" and "fits_store C s cb"
    and "IsCoinbase cb"
  shows "\<exists>d. apply_block_txs C B p [cb] = (p\<lparr>ps_db := d\<rparr>, Inr ())
    \<and> stored B d (add_outputs s (TxHash C cb) 0 (tx_Outputs cb))"
proof -
  obtain d where d: "persistent_outputs B (ps_db p) (TxHash C cb) 0 (tx_Outputs cb) = Inr d"
    "stored B d (add_outputs s (TxHash C cb) 0 (tx_Outputs cb))"
    using bbolt_laws.persistent_outputs_refines [OF assms(1-3), of 0 "tx_Outputs cb" "TxHash C cb"] assms(5)
    by (auto simp: fits_store_def output_values_def)
  then show ?thesis
    using add_coinbase_outputs_eq [OF d(1) assms(4)] assms(6)
    by (intro exI [of _ d]) (simp add: apply_block_tx_def applyCoinbaseTransaction_def)
qed

section \<open>Blocks beside the chain\<close>

text \<open>The finality guard, if one is installed, does not refuse this height with this hash.\<close>

definition guard_passes :: "(u64 \<Rightarrow> hash \<Rightarrow> bool) option \<Rightarrow> u64 \<Rightarrow> hash \<Rightarrow> bool" where
  "guard_passes g h k \<longleftrightarrow> (case g of None \<Rightarrow> True | Some refuses \<Rightarrow> \<not> refuses h k)"

text \<open>
  A block of an old version whose time lies more than an hour back needs neither work nor an elected proposer: any key
  can sign it.
\<close>

lemma old_block_valid:
  assumes v: "bh_Version (bl_Header b) \<noteq> 0" "bh_Version (bl_Header b) < 3"
    and merkle: "CalculateMerkleRoot C b = bh_MerkleRoot (bl_Header b)"
    and h: "bh_Height (bl_Header b) > 0"
    and parent: "GetBlockByHeight C B cs (bh_Height (bl_Header b) - 1) = Inr parent" "bh_PrevBlockHash (bl_Header b) = bl_Hash parent"
    and time: "validateBlockTimestamp C B ev cs b = Inr ()" "IsDeepHistory ev (bh_Height (bl_Header b)) (bh_Timestamp (bl_Header b))"
    and guard: "guard_passes (cs_finalityGuard cs) (bh_Height (bl_Header b)) (CalculateHash C b)"
    and txs: "bl_Transactions b = [cb]" "IsCoinbase cb"
    and sig: "VerifyBlockSignature C b = Some True"
  shows "\<exists>cs'. chain_ValidateBlock C B ev cs b = (cs', b\<lparr>bl_Hash := CalculateHash C b\<rparr>, Inr ()) \<and> same_chain cs cs'"
proof -
  let ?b = "b\<lparr>bl_Hash := CalculateHash C b\<rparr>"
  have nv: "\<not> 3 \<le> bh_Version (bl_Header b)" using v(2) by simp
  have len: "bh_Signature (bl_Header b) \<noteq> []"
    using sig by (auto simp: VerifyBlockSignature_def)
  have struct: "validateBlockStructure C b = (?b, Inr ())"
    using v merkle len by (simp add: validateBlockStructure_def)
  have time': "validateBlockTimestamp C B ev cs ?b = Inr ()"
    using time(1) by (simp add: validateBlockTimestamp_def)
  have par: "validateBlockParent C B cs ?b = (cs, Inr ())"
    using h parent by (auto simp: validateBlockParent_def IsGenesis_def rbind_def)
  have txs': "validateBlockTransactions C era prov ?b = Inr ()" for era prov
    using txs v(2) by (simp add: validateBlockTransactions_def rbind_def)
  have "VerifyBlockSignature C ?b = VerifyBlockSignature C b"
    by (simp add: VerifyBlockSignature_def CalculateHash_def)
  then have sig': "validateBlockSignature C ?b = Inr ()"
    using h sig len by (simp add: validateBlockSignature_def)
  obtain cs' r where q: "validateBlockProposer C B ev cs ?b = (cs', r)" by force
  have "chain_ValidateBlock C B ev cs b = (cs', ?b, Inr ())"
    using nv time(2) guard
    by (cases r; cases "cs_finalityGuard cs")
      (simp_all add: chain_ValidateBlock_def struct time' par txs' sig' q guard_passes_def)
  with validateBlockProposer_same [OF q] show ?thesis by blast
qed

text \<open>C6. A block that does not extend the chain is applied to the outputs all the same. Whoever signs, with any key, a
  block of version 1 or 2 that holds one coinbase transaction, names the block below as its parent, carries a valid
  Merkle root and a valid time more than an hour back, for a height that is already taken and that the finality guard
  (if one is installed) does not refuse with this hash, gets the outputs of the coinbase into the writable store, as long
  as they are not in it yet and the block fits the database: of any value with which all outputs together stay below
  two to the 63. The index, the height and the hash of the best block
  stay what they were.\<close>

theorem side_block_mints:
  assumes L: "bbolt_laws B" and p: "cs_utxoStore cs = Some p" "\<not> ps_readOnly p" "stored B (ps_db p) s" "store_inv s"
    and v: "bh_Version (bl_Header b) \<noteq> 0" "bh_Version (bl_Header b) < 3"
    and merkle: "CalculateMerkleRoot C b = bh_MerkleRoot (bl_Header b)"
    and h: "bh_Height (bl_Header b) > 0" "bh_Height (bl_Header b) \<le> cs_bestHeight cs"
    and parent: "GetBlockByHeight C B cs (bh_Height (bl_Header b) - 1) = Inr parent" "bh_PrevBlockHash (bl_Header b) = bl_Hash parent"
    and time: "validateBlockTimestamp C B ev cs b = Inr ()" "IsDeepHistory ev (bh_Height (bl_Header b)) (bh_Timestamp (bl_Header b))"
    and guard: "guard_passes (cs_finalityGuard cs) (bh_Height (bl_Header b)) (CalculateHash C b)"
    and txs: "bl_Transactions b = [cb]" "IsCoinbase cb" "fits_store C s cb"
    and sig: "VerifyBlockSignature C b = Some True" and size: "length (SerializeBlock b) \<le> MaxValueSize"
  shows "\<exists>cs' b' r p'. AddBlock C B ev cs b = (cs', b', r) \<and> cs_blockIndex cs' = cs_blockIndex cs
    \<and> cs_bestHeight cs' = cs_bestHeight cs \<and> cs_bestHash cs' = cs_bestHash cs
    \<and> cs_utxoStore cs' = Some p' \<and> stored B (ps_db p') (add_outputs s (TxHash C cb) 0 (tx_Outputs cb))
    \<and> bb_get B (cs_db cs') BucketBlockHeight (put_u64_be (bh_Height (bl_Header b))) = Some (hash_bytes (CalculateHash C b))"
proof -
  let ?b = "b\<lparr>bl_Hash := CalculateHash C b\<rparr>"
  obtain cs1 where v1: "chain_ValidateBlock C B ev cs b = (cs1, ?b, Inr ())" "same_chain cs cs1"
    using old_block_valid [OF v merkle h(1) parent time guard txs(1,2) sig] by blast
  have "SerializeBlock ?b = SerializeBlock b" by (simp add: SerializeBlock_def)
  then have "bb_put B (cs_db cs1) BucketBlocks (hash_bytes (CalculateHash C b)) (SerializeBlock ?b) \<noteq> None"
    using size by (intro bbolt_laws.put_succeeds [OF L]) (simp_all add: MaxKeySize_def)
  then obtain d1 where d1: "bb_put B (cs_db cs1) BucketBlocks (hash_bytes (CalculateHash C b)) (SerializeBlock ?b) = Some d1"
    by blast
  have "bb_put B d1 BucketBlockHeight (put_u64_be (bh_Height (bl_Header b))) (hash_bytes (CalculateHash C b)) \<noteq> None"
    by (intro bbolt_laws.put_succeeds [OF L]) (simp_all add: MaxKeySize_def MaxValueSize_def)
  then obtain d2 where d2: "bb_put B d1 BucketBlockHeight (put_u64_be (bh_Height (bl_Header b))) (hash_bytes (CalculateHash C b)) = Some d2"
    by blast
  have st: "store_block B (cs_db cs1) ?b = Inr d2"
    using d1 d2 by (simp add: store_block_def or_error_def)
  have old: "\<not> is_new_best cs1 ?b"
    using h v1(2) by (auto simp: is_new_best_def same_chain_def Let_def not_less)
  obtain d where d: "apply_block_txs C B p [cb] = (p\<lparr>ps_db := d\<rparr>, Inr ())"
    "stored B d (add_outputs s (TxHash C cb) 0 (tx_Outputs cb))"
    using apply_coinbase_ok [OF L p(3,4,2) txs(3,2)] by blast
  have "update_chain C B cs1 ?b = (cs1\<lparr>cs_utxoStore := Some (p\<lparr>ps_db := d\<rparr>)\<rparr>, Inr d2)"
    using st old v1(2) p(1) d(1) txs(1) by (simp add: update_chain_def same_chain_def)
  moreover obtain cs' b' r where run: "AddBlock C B ev cs b = (cs', b', r)"
    using prod_cases3 by blast
  ultimately have "cs_utxoStore cs' = Some (p\<lparr>ps_db := d\<rparr>) \<and> cs_db cs' = d2 \<and> cs_blockIndex cs' = cs_blockIndex cs
    \<and> cs_bestHeight cs' = cs_bestHeight cs \<and> cs_bestHash cs' = cs_bestHash cs"
    using v1 by (auto simp: AddBlock_def Let_def same_chain_def split: option.splits prod.splits)
  then show ?thesis
    using run d(2) bbolt_laws.get_put [OF L d2] by simp
qed

section \<open>After a restart\<close>

lemma put_u64_be_val: "length k = 8 \<Longrightarrow> put_u64_be (of_nat (be_val k)) = k"
proof -
  assume len: "length k = 8"
  then have "be_val k < 2 ^ 64" using be_val_bound [of k] by simp
  then show ?thesis using len be_bytes_be_val [of k] by (simp add: put_u64_be_def unat_of_nat)
qed

lemma foldl_index_entry_other:
  "put_u64_be h \<notin> fst ` set es \<Longrightarrow> foldl index_entry m es h = m h"
proof (induction es arbitrary: m)
  case (Cons e es)
  then have "foldl index_entry (index_entry m e) es h = index_entry m e h" by simp
  also have "\<dots> = m h"
    using Cons.prems put_u64_be_val by (cases e) (auto simp: index_entry_def)
  finally show ?case by simp
qed simp

lemma foldl_index_entry:
  "distinct (map fst es) \<Longrightarrow> (put_u64_be h, v) \<in> set es \<Longrightarrow> length v = 32
   \<Longrightarrow> foldl index_entry m es h = Some (hash_of_bytes v)"
proof (induction es arbitrary: m)
  case (Cons e es)
  show ?case
  proof (cases "e = (put_u64_be h, v)")
    case True
    then have "foldl index_entry (index_entry m e) es h = index_entry m e h"
      using Cons.prems(1) by (intro foldl_index_entry_other) simp
    moreover have "index_entry m e h = Some (hash_of_bytes v)"
      using True Cons.prems(3) by (simp add: index_entry_def put_u64_be_inverse)
    ultimately show ?thesis by simp
  qed (use Cons in auto)
qed simp

lemma restart_reads_index:
  assumes "bbolt_laws B" and "NewChainStateWithDB B d = Some cs"
    and "bb_get B d BucketBlockHeight (put_u64_be h) = Some (hash_bytes k)"
  shows "cs_blockIndex cs h = Some k"
proof -
  have "(put_u64_be h, hash_bytes k) \<in> set (bb_entries B d BucketBlockHeight)"
    using bbolt_laws.entries_get [OF assms(1)] assms(3) by blast
  then have "foldl index_entry Map.empty (bb_entries B d BucketBlockHeight) h = Some k"
    using foldl_index_entry [OF bbolt_laws.entries_distinct [OF assms(1)]] by fastforce
  then show ?thesis
    using assms(2) by (auto simp: NewChainStateWithDB_def loadState_def Let_def split: option.splits)
qed

text \<open>After a restart the block beside the chain has replaced the one of the chain at its height.\<close>

corollary side_block_replaces:
  assumes "bbolt_laws B" and "AddBlock C B ev cs b = (cs', b', r)"
    and "bb_get B (cs_db cs') BucketBlockHeight (put_u64_be (bh_Height (bl_Header b))) = Some (hash_bytes (CalculateHash C b))"
    and "NewChainStateWithDB B (cs_db cs') = Some cs''"
  shows "cs_blockIndex cs'' (bh_Height (bl_Header b)) = Some (CalculateHash C b)"
  using restart_reads_index [OF assms(1,4,3)] .

section \<open>A block that fails after validation\<close>

text \<open>The body of the new best block is in no database: nothing can be built on it.\<close>

lemma above_missing_body:
  assumes idx: "cs_blockIndex cs h = Some k" "bb_get B (cs_db cs) BucketBlocks (hash_bytes k) = None"
    and above: "\<And>x. x > h \<Longrightarrow> cs_blockIndex cs x = None" and b: "bh_Height (bl_Header b) > h"
  shows "\<exists>b' e. AddBlock C B ev cs b = (cs, b', Inl e)"
proof -
  have pos: "bh_Height (bl_Header b) > 0" using b by (metis word_gt_0 word_not_simps(1))
  have "GetBlockByHeight C B cs (bh_Height (bl_Header b) - 1) = Inl e \<Longrightarrow> ?thesis" for e
  proof -
    assume get: "GetBlockByHeight C B cs (bh_Height (bl_Header b) - 1) = Inl e"
    obtain b1 r1 where s: "validateBlockStructure C b = (b1, r1)" by force
    have "bl_Header b1 = bl_Header b" using validateBlockStructure_block [OF s] by blast
    then obtain e' where "validateBlockTimestamp C B ev cs b1 = Inl e'"
      using get pos by (cases "bh_Timestamp (bl_Header b1) > of_int (unix_seconds ev) + 300")
        (simp_all add: validateBlockTimestamp_def rbind_def)
    then obtain e'' where "chain_ValidateBlock C B ev cs b = (cs, b1, Inl e'')"
      using s by (cases r1) (simp_all add: chain_ValidateBlock_def)
    then show ?thesis by (simp add: AddBlock_def)
  qed
  moreover have "\<exists>e. GetBlockByHeight C B cs (bh_Height (bl_Header b) - 1) = Inl e"
  proof (cases "bh_Height (bl_Header b) - 1 = h")
    case True
    then show ?thesis using idx by (simp add: GetBlockByHeight_def GetBlockByHash_def)
  next
    case False
    have "unat (bh_Height (bl_Header b) - 1) = unat (bh_Height (bl_Header b)) - 1"
      using pos by (intro unat_minus_one) auto
    then have "bh_Height (bl_Header b) - 1 > h"
      using b False by (simp add: word_less_nat_alt word_unat_eq_iff)
    then show ?thesis using above by (simp add: GetBlockByHeight_def)
  qed
  ultimately show ?thesis by blast
qed

lemma failed_block_run:
  assumes L: "bbolt_laws B"
    and v: "chain_ValidateBlock C B ev cs b = (cs1, b1, Inr ())" and new: "is_new_best cs b"
    and p: "cs_utxoStore cs = Some p" and fails: "apply_block_txs C B p (bl_Transactions b) = (p', Inl e)"
    and size: "length (SerializeBlock b) \<le> MaxValueSize"
  shows "AddBlock C B ev cs b = ((set_best cs1 b1)\<lparr>cs_utxoStore := Some p'\<rparr>, b1, Inl e)"
proof -
  note same = chain_ValidateBlock_same [OF v]
  have ser: "SerializeBlock b1 = SerializeBlock b" using same by (simp add: SerializeBlock_def)
  have "bb_put B (cs_db cs1) BucketBlocks (hash_bytes (bl_Hash b1)) (SerializeBlock b1) \<noteq> None"
    using size ser by (intro bbolt_laws.put_succeeds [OF L]) (simp_all add: MaxKeySize_def)
  then obtain d1 where d1: "bb_put B (cs_db cs1) BucketBlocks (hash_bytes (bl_Hash b1)) (SerializeBlock b1) = Some d1"
    by blast
  have "bb_put B d1 BucketBlockHeight (put_u64_be (bh_Height (bl_Header b1))) (hash_bytes (bl_Hash b1)) \<noteq> None"
    by (intro bbolt_laws.put_succeeds [OF L]) (simp_all add: MaxKeySize_def MaxValueSize_def)
  then obtain d2 where st: "store_block B (cs_db cs1) b1 = Inr d2"
    using d1 by (auto simp: store_block_def or_error_def)
  obtain d3 where d3: "put_best B d2 (bh_Height (bl_Header b1)) (bl_Hash b1) = Inr d3"
    using put_best_succeeds [OF L] by blast
  have nb: "is_new_best cs1 b1" using new same by (simp add: is_new_best_def same_chain_def)
  have "update_chain C B cs1 b1 = ((set_best cs1 b1)\<lparr>cs_utxoStore := Some p'\<rparr>, Inl e)"
    using st nb d3 same p fails by (simp add: update_chain_def set_best_def same_chain_def rbind_def)
  then show ?thesis using v by (simp add: AddBlock_def)
qed

text \<open>C7. A block that passes validation but whose transactions cannot be applied stops the node. When a new best block
  (whose body is not yet stored and fits the store) fails so, on a chain whose index has no gaps, the tip in memory has
  moved to the block, whose body the rolled-back transaction took with it, and what the transactions before the failing
  one changed in the output store stays there. \<^verbatim>\<open>AddBlock\<close> then refuses every block above the tip, in every environment,
  and leaves the node exactly as it is, so no sequence of blocks above the tip, however long, gets it going again.\<close>

theorem failed_block_halts_node:
  assumes L: "bbolt_laws B" and cont: "contiguous cs"
    and v: "chain_ValidateBlock C B ev cs b = (cs1, b1, Inr ())" and new: "is_new_best cs b"
    and p: "cs_utxoStore cs = Some p" and fails: "apply_block_txs C B p (bl_Transactions b) = (p', Inl e)"
    and size: "length (SerializeBlock b) \<le> MaxValueSize"
    and unknown: "bb_get B (cs_db cs) BucketBlocks (hash_bytes (bl_Hash b1)) = None"
  shows "\<exists>cs'. AddBlock C B ev cs b = (cs', b1, Inl e) \<and> cs_bestHeight cs' = bh_Height (bl_Header b)
    \<and> cs_bestHash cs' = bl_Hash b1 \<and> cs_db cs' = cs_db cs \<and> cs_utxoStore cs' = Some p'
    \<and> (\<forall>ev' b'. bh_Height (bl_Header b') > bh_Height (bl_Header b) \<longrightarrow>
         (\<exists>b'' e'. AddBlock C B ev' cs' b' = (cs', b'', Inl e')))"
proof -
  note same = chain_ValidateBlock_same [OF v]
  let ?cs = "(set_best cs1 b1)\<lparr>cs_utxoStore := Some p'\<rparr>"
  note run = failed_block_run [OF L v new p fails size]
  let ?h = "bh_Height (bl_Header b)"
  have above: "cs_blockIndex ?cs x = None" if "x > ?h" for x
  proof -
    have "cs_bestHeight cs < x"
    proof (cases "?h > cs_bestHeight cs")
      case True
      then show ?thesis using that by simp
    next
      case False
      then have "map_len (cs_blockIndex cs) = 0" using new by (simp add: is_new_best_def Let_def)
      then have "cs_bestHeight cs = 0"
        using cont by (auto simp: contiguous_def map_len_def)
      then show ?thesis using that by (metis word_gt_0 word_not_simps(1))
    qed
    then have "\<not> x \<le> cs_bestHeight cs" by simp
    with cont have "cs_blockIndex cs x = None"
      unfolding contiguous_def by (metis)
    then show ?thesis using that same by (simp add: set_best_def same_chain_def)
  qed
  have "\<exists>b'' e'. AddBlock C B ev' ?cs b' = (?cs, b'', Inl e')" if "bh_Height (bl_Header b') > ?h" for ev' b'
    by (rule above_missing_body [OF _ _ above that, of "bl_Hash b1"])
      (use same unknown in \<open>simp_all add: set_best_def same_chain_def\<close>)
  then show ?thesis
    using run same by (intro exI [of _ ?cs]) (simp add: set_best_def same_chain_def)
qed

text \<open>
  Such a block exists once the proof-of-work era is over: the check for double spending starts at the second
  transaction, so the first two may spend the same output.
\<close>

lemma post_era_double_spend_passes:
  assumes "bh_Version (bl_Header b) \<ge> 3" and "bh_Height (bl_Header b) > era" and "bl_Transactions b = [tx0, tx1]"
    and "\<not> IsCoinbase tx0" and "\<not> IsCoinbase tx1"
    and "validate_txs C prov 0 [tx0, tx1] = Inr ()" and "mark_inputs 1 0 (tx_Inputs tx1) {} = Inr seen"
  shows "validateBlockTransactions C era prov b = Inr ()"
  using assms by (simp add: validateBlockTransactions_def rbind_def)

lemma persistent_spend_removes:
  assumes L: "bbolt_laws B"
  shows "persistent_spend B d ins = Inr d' \<Longrightarrow> key \<in> (\<lambda>i. key_bytes (ti_TxHash i) (ti_Index i)) ` set ins
    \<or> bb_get B d BucketUTXO key = None \<Longrightarrow> bb_get B d' BucketUTXO key = None"
proof (induction ins arbitrary: d)
  case (Cons i ins)
  let ?key = "key_bytes (ti_TxHash i) (ti_Index i)"
  obtain u :: UTXO and d1 d2 where d: "updateBalance B d (u_Address u) (- u_Value u) = Inr d1" "bb_delete B d1 BucketUTXO ?key = Some d2"
    "persistent_spend B d2 ins = Inr d'"
    using Cons.prems(1) by (auto simp: Let_def rbind_Inr_iff)
  have "bb_get B d1 BucketUTXO k = bb_get B d BucketUTXO k" for k
    using d(1) bbolt_laws.get_put [OF L, of d BucketBalances] bbolt_laws.get_delete [OF L, of d BucketBalances]
    by (auto simp: updateBalance_def Let_def bucket_defs split: option.splits if_splits)
  then have "bb_get B d2 BucketUTXO k = (if k = ?key then None else bb_get B d BucketUTXO k)" for k
    using bbolt_laws.get_delete [OF L d(2)] by simp
  then show ?case
    using Cons.prems(2) by (intro Cons.IH [OF d(3)]) auto
qed simp

lemma put_output_utxos:
  assumes L: "bbolt_laws B" and "put_output B d u = Inr d'"
  shows "bb_get B d' BucketUTXO k = (if k = key_bytes (u_TxHash u) (u_Index u) then Some (serializeUTXO u) else bb_get B d BucketUTXO k)"
proof -
  obtain d1 where d1: "bb_put B d BucketUTXO (key_bytes (u_TxHash u) (u_Index u)) (serializeUTXO u) = Some d1"
    "updateBalance B d1 (u_Address u) (u_Value u) = Inr d'"
    using assms(2) by (auto simp: put_output_def rbind_Inr_iff)
  then have "bb_get B d' BucketUTXO k = bb_get B d1 BucketUTXO k"
    using bbolt_laws.get_put [OF L, of d1 BucketBalances] bbolt_laws.get_delete [OF L, of d1 BucketBalances]
    by (auto simp: updateBalance_def Let_def bucket_defs split: option.splits if_splits)
  then show ?thesis using bbolt_laws.get_put [OF L d1(1)] by simp
qed

lemma persistent_outputs_utxos:
  assumes L: "bbolt_laws B"
  shows "persistent_outputs B d h n outs = Inr d' \<Longrightarrow> h' \<noteq> h
    \<Longrightarrow> bb_get B d' BucketUTXO (key_bytes h' i) = bb_get B d BucketUTXO (key_bytes h' i)"
  by (induction outs arbitrary: d n)
    (auto simp: rbind_Inr_iff put_output_utxos [OF L] output_utxo_def)

lemma have_inputs_missing:
  "inp \<in> set ins \<Longrightarrow> bb_get B d BucketUTXO (key_bytes (ti_TxHash inp) (ti_Index inp)) = None
   \<Longrightarrow> \<exists>e. have_inputs B d ins = Inl e"
  by (induction ins) auto

text \<open>Two transactions that spend the same output cannot both be applied.\<close>

lemma apply_double_spend_fails:
  assumes L: "bbolt_laws B" and "\<not> IsCoinbase tx0" and "\<not> IsCoinbase tx1"
    and i: "inp \<in> set (tx_Inputs tx0)" "inp \<in> set (tx_Inputs tx1)" and "ti_TxHash inp \<noteq> TxHash C tx0"
  shows "\<exists>p' e. apply_block_txs C B p [tx0, tx1] = (p', Inl e)"
proof (cases "persistent_ApplyTransaction C B p tx0")
  case (Inl e)
  then show ?thesis using assms(2) by (simp add: apply_block_tx_def)
next
  case (Inr p1)
  obtain d1 d2 where d: "persistent_spend B (ps_db p) (tx_Inputs tx0) = Inr d1"
    "persistent_outputs B d1 (TxHash C tx0) 0 (tx_Outputs tx0) = Inr d2" "indexTransaction C B d2 tx0 = Inr (ps_db p1)"
    using Inr by (auto simp: persistent_ApplyTransaction_def writable_def rbind_Inr_iff split: if_splits)
  let ?k = "key_bytes (ti_TxHash inp) (ti_Index inp)"
  have "bb_get B d1 BucketUTXO ?k = None"
    using i(1) by (intro persistent_spend_removes [OF L d(1)]) blast
  then have "bb_get B d2 BucketUTXO ?k = None"
    using persistent_outputs_utxos [OF L d(2) assms(6)] by simp
  moreover have "bb_get B (ps_db p1) BucketUTXO ?k = bb_get B d2 BucketUTXO ?k"
    using d(3) bbolt_laws.get_put [OF L, of d2 BucketTXIndex] by (auto simp: indexTransaction_def bucket_defs)
  ultimately obtain e where "have_inputs B (ps_db p1) (tx_Inputs tx1) = Inl e"
    using have_inputs_missing [OF i(2)] by metis
  then have "\<exists>e. persistent_ApplyTransaction C B p1 tx1 = Inl e"
    by (auto simp: persistent_ApplyTransaction_def writable_def rbind_def)
  then show ?thesis using Inr assms(2,3) by (auto simp: apply_block_tx_def)
qed

text \<open>
  In every era a coinbase transaction serves as well: its value is checked nowhere, and a balance of \<open>2 ^ 63\<close> or more
  is rejected by the store.
\<close>

lemma huge_coinbase_fails:
  assumes L: "bbolt_laws B" and "IsCoinbase cb" and "tx_Outputs cb = [out]" and "script_ok (to_Script out)"
    and "persistent_GetBalance B p (to_Address out) = Some w" and "sint (w + to_Value out) < 0" and "\<not> ps_readOnly p"
  shows "apply_block_txs C B p [cb] = (p, Inl (ChStore PsNegative))"
proof -
  let ?u = "output_utxo (TxHash C cb) 0 out"
  have "bb_put B (ps_db p) BucketUTXO (key_bytes (u_TxHash ?u) (u_Index ?u)) (serializeUTXO ?u) \<noteq> None"
    using assms(4) by (intro bbolt_laws.put_succeeds [OF L] key_bytes_ok) (simp add: script_ok_def MaxValueSize_def output_utxo_def)
  then obtain d where d: "bb_put B (ps_db p) BucketUTXO (key_bytes (u_TxHash ?u) (u_Index ?u)) (serializeUTXO ?u) = Some d"
    by blast
  have "bb_get B d BucketBalances k = bb_get B (ps_db p) BucketBalances k" for k
    using bbolt_laws.get_put [OF L d] by (simp add: bucket_defs)
  then have "updateBalance B d (to_Address out) (to_Value out) = Inl PsNegative"
    using assms(5,6) by (simp add: updateBalance_def persistent_GetBalance_def)
  then have "put_output B (ps_db p) ?u = Inl PsNegative"
    using d by (simp add: put_output_def output_utxo_def or_error_def rbind_def)
  then show ?thesis
    using assms(2,3,7) by (simp add: apply_block_tx_def applyCoinbaseTransaction_def persistent_AddUTXO_def writable_def rbind_def)
qed

section \<open>Instances\<close>

definition demo_coinbase :: "u64 \<Rightarrow> Transaction" where
  "demo_coinbase value = NewTransaction
     [\<lparr>ti_TxHash = 0, ti_Index = 0xffffffff, ti_Signature = [], ti_PublicKey = []\<rparr>]
     [\<lparr>to_Value = value, to_Script = [], to_Address = 9\<rparr>]"

definition demo_first :: "u64 \<Rightarrow> Block" where
  "demo_first value = \<lparr>bl_Header = empty_header\<lparr>bh_Version := 1, bh_MerkleRoot := 5\<rparr>,
     bl_Transactions = [demo_coinbase value], bl_Hash = 5, bl_SignedHash = 0\<rparr>"

definition demo_env :: chain_env where
  "demo_env = \<lparr>ev_now = (62135596800 + 100000) * second, ev_order0 = [], ev_order1 = [], ev_order2 = [],
     ev_hook = None, ev_eraBlocks = 1000\<rparr>"

definition demo_chain :: "(string \<Rightarrow> (bytes, bytes) alist) ChainState" where
  "demo_chain = \<lparr>cs_db = mem_empty, cs_bestHeight = 0, cs_bestHash = 0, cs_genesisHash = 0, cs_blockIndex = Map.empty,
     cs_utxoStore = Some \<lparr>ps_db = mem_empty, ps_readOnly = False\<rparr>, cs_mempool = None, cs_consensus = None,
     cs_finalityGuard = None\<rparr>"

lemma demo_chain_guard [simp]: "cs_finalityGuard demo_chain = None"
  by (simp add: demo_chain_def)

lemma demo_hash [simp]: "sha256d demo_crypto x = 5"
  by (simp add: sha256d_def demo_crypto_def)

lemma demo_unix: "unix_seconds demo_env = 100000"
  by (simp add: unix_seconds_def demo_env_def second_def)

lemma demo_coinbase_simps [simp]: "IsCoinbase (demo_coinbase v)"
  "tx_Outputs (demo_coinbase v) = [\<lparr>to_Value = v, to_Script = [], to_Address = 9\<rparr>]"
  by (simp_all add: demo_coinbase_def NewTransaction_def IsCoinbase_def)

lemma demo_merkle: "CalculateMerkleRoot demo_crypto (demo_first v) = 5"
  by (simp add: CalculateMerkleRoot_def demo_first_def TxHash_def merkle_root_def merkle_levels.simps)

lemma demo_first_simps [simp]:
  "bl_Transactions (demo_first v) = [demo_coinbase v]" "bl_Hash (demo_first v) = 5"
  "bh_Version (bl_Header (demo_first v)) = 1" "bh_Height (bl_Header (demo_first v)) = 0"
  "bh_Timestamp (bl_Header (demo_first v)) = 0" "bh_Signature (bl_Header (demo_first v)) = []"
  "bh_PrevBlockHash (bl_Header (demo_first v)) = 0" "bh_MerkleRoot (bl_Header (demo_first v)) = 5"
  by (simp_all add: demo_first_def empty_header_def)

lemma demo_first_valid:
  "chain_ValidateBlock demo_crypto mem_bbolt demo_env demo_chain (demo_first v)
     = (demo_chain\<lparr>cs_genesisHash := 5\<rparr>, demo_first v, Inr ())"
proof -
  have "validateBlockStructure demo_crypto (demo_first v) = (demo_first v, Inr ())"
    by (simp add: validateBlockStructure_def demo_merkle)
  moreover have "validateBlockTimestamp demo_crypto mem_bbolt demo_env demo_chain (demo_first v) = Inr ()"
    by (simp add: validateBlockTimestamp_def demo_unix)
  moreover have "validateBlockParent demo_crypto mem_bbolt demo_chain (demo_first v) = (demo_chain\<lparr>cs_genesisHash := 5\<rparr>, Inr ())"
    by (simp add: validateBlockParent_def IsGenesis_def demo_chain_def)
  moreover have "validateBlockTransactions demo_crypto (ev_eraBlocks demo_env) prov (demo_first v) = Inr ()" for prov
    by (simp add: validateBlockTransactions_def rbind_def)
  moreover have "validateBlockSignature demo_crypto (demo_first v) = Inr ()"
    by (simp add: validateBlockSignature_def)
  moreover have "\<not> (3 :: u32) \<le> 1" by (simp add: word_le_nat_alt)
  ultimately show ?thesis
    by (simp add: chain_ValidateBlock_def validateBlockProposer_def)
qed

lemma demo_first_parts:
  "length (SerializeHeader (bl_Header (demo_first v))) \<le> 300" "length (Serialize (demo_coinbase v)) \<le> 300"
proof -
  show "length (SerializeHeader (bl_Header (demo_first v))) \<le> 300"
    using length_SerializeHeader_le [of "bl_Header (demo_first v)"] by (simp add: demo_first_def empty_header_def)
  show "length (Serialize (demo_coinbase v)) \<le> 300"
    by (simp add: demo_coinbase_def NewTransaction_def Serialize_def serialize_body_def serialize_input_def
        serialize_output_def put_bytes_def)
qed

lemma demo_first_wf: "block_wf (demo_first v)"
  using demo_first_parts [of v]
  by (simp add: block_wf_def) (simp add: header_wf_def demo_first_def empty_header_def demo_coinbase_def NewTransaction_def
      tx_wf_def input_wf_def output_wf_def)

lemma demo_first_size: "length (SerializeBlock (demo_first v)) \<le> 1000"
proof -
  note demo_first_parts [of v]
  then show ?thesis by (simp add: SerializeBlock_def put_bytes_def)
qed

lemma demo_best: "is_new_best demo_chain (demo_first v)"
  by (simp add: is_new_best_def demo_chain_def map_len_def)

lemma demo_first_fits: "length (SerializeBlock (demo_first v)) \<le> MaxValueSize"
  by (rule order_trans [OF demo_first_size]) (simp add: MaxValueSize_def)

lemma demo_fails:
  "apply_block_txs demo_crypto mem_bbolt \<lparr>ps_db = mem_empty, ps_readOnly = False\<rparr> (bl_Transactions (demo_first 0x8000000000000000))
     = (\<lparr>ps_db = mem_empty, ps_readOnly = False\<rparr>, Inl (ChStore PsNegative))"
proof -
  let ?p = "\<lparr>ps_db = mem_empty, ps_readOnly = False\<rparr>"
  have "persistent_GetBalance mem_bbolt ?p 9 = Some 0"
    by (simp add: persistent_GetBalance_def mem_bbolt_def mem_empty_def)
  then show ?thesis
    using huge_coinbase_fails [OF mem.bbolt_laws_axioms demo_coinbase_simps, where p = ?p and w = 0]
    by (simp add: script_ok_def)
qed

theorem failed_block_halts_node_witness:
  "\<exists>cs'. AddBlock demo_crypto mem_bbolt demo_env demo_chain (demo_first 0x8000000000000000) = (cs', demo_first 0x8000000000000000, Inl (ChStore PsNegative))
     \<and> cs_bestHash cs' = 5 \<and> cs_db cs' = mem_empty"
proof -
  let ?b = "demo_first 0x8000000000000000"
  have "contiguous demo_chain" by (simp add: contiguous_def demo_chain_def)
  moreover have "cs_utxoStore demo_chain = Some \<lparr>ps_db = mem_empty, ps_readOnly = False\<rparr>" by (simp add: demo_chain_def)
  moreover have "bb_get mem_bbolt (cs_db demo_chain) BucketBlocks (hash_bytes (bl_Hash ?b)) = None"
    by (simp add: demo_chain_def mem_bbolt_def mem_empty_def)
  ultimately show ?thesis
    using failed_block_halts_node [OF mem.bbolt_laws_axioms _ demo_first_valid demo_best _ demo_fails demo_first_fits]
    by (fastforce simp: demo_chain_def)
qed

text \<open>C5. In every state a node can reach from an empty database by adding blocks, rolling back, pruning, fetching bodies,
  replaying the outputs and exchanging its parts, the index in memory covers the heights up to the best one without a
  gap, and it is a chain of hashes: each entry is the hash of a header of its height which names the entry below.\<close>

theorem index_is_hash_chain:
  assumes "bbolt_laws B" and "chain_reachable C B cs"
  shows "((\<forall>h. cs_blockIndex cs h \<noteq> None \<longleftrightarrow> h \<le> cs_bestHeight cs)
      \<or> cs_blockIndex cs = Map.empty \<and> cs_bestHeight cs = 0) \<and> hash_chain C (cs_blockIndex cs)"
  using chain_reachable_inv [OF assms] by (simp add: chain_inv_def contiguous_def)

lemma demo_chain_reachable: "chain_reachable C mem_bbolt demo_chain"
proof -
  let ?cs = "demo_chain\<lparr>cs_utxoStore := None\<rparr>"
  have "chain_reachable C mem_bbolt ?cs"
  proof (rule chain_reachable.start)
    show "NewChainStateWithDB mem_bbolt mem_empty = Some ?cs"
      by (simp add: NewChainStateWithDB_def loadState_def load_hash_def mem_bbolt_def mem_empty_def demo_chain_def
          DAList.empty.rep_eq)
  qed (simp_all add: mem_bbolt_def mem_empty_def)
  moreover have "chain_step C mem_bbolt ?cs demo_chain"
    using chain_step.attach [of C mem_bbolt ?cs None None None "Some \<lparr>ps_db = mem_empty, ps_readOnly = False\<rparr>"]
    by (simp add: SetUTXOStore_def SetMempool_def SetConsensus_def SetFinalityGuard_def demo_chain_def)
  ultimately show ?thesis by (rule chain_reachable.step)
qed

theorem index_is_hash_chain_witness:
  "\<exists>cs. chain_reachable demo_crypto mem_bbolt cs \<and> cs_blockIndex cs 0 = Some 5 \<and> hash_chain demo_crypto (cs_blockIndex cs)"
proof -
  let ?b = "demo_first 0x8000000000000000"
  obtain cs where cs: "AddBlock demo_crypto mem_bbolt demo_env demo_chain ?b = (cs, ?b, Inl (ChStore PsNegative))"
    "cs_blockIndex cs 0 = Some 5"
    using failed_block_run [OF mem.bbolt_laws_axioms demo_first_valid demo_best _ demo_fails demo_first_fits]
    by (simp add: set_best_def demo_chain_def)
  have "block_wf ?b" "bl_Hash ?b = CalculateHash demo_crypto ?b"
    using demo_first_wf by (simp_all add: CalculateHash_def)
  from chain_step.add [OF this, of mem_bbolt demo_chain demo_env] cs
  have "chain_reachable demo_crypto mem_bbolt cs"
    using chain_reachable.step [OF demo_chain_reachable] by simp
  then show ?thesis using index_is_hash_chain [OF mem.bbolt_laws_axioms] cs(2) by blast
qed

lemma stored_balance: "stored B (ps_db p) s \<Longrightarrow> persistent_GetBalance B p a = Some (GetBalance s a)"
  by (simp add: persistent_GetBalance_def stored_def balance_entry_def)

text \<open>A chain of two blocks whose second block another one competes with, behind a guard that has finalized the first.\<close>

definition demo_side :: Block where
  "demo_side = \<lparr>bl_Header = empty_header\<lparr>bh_Version := 1, bh_PrevBlockHash := 5, bh_MerkleRoot := 5, bh_Timestamp := 100,
     bh_Height := 1, bh_Signature := replicate 64 0\<rparr>, bl_Transactions = [demo_coinbase 77], bl_Hash = 5, bl_SignedHash = 0\<rparr>"

lemma demo_side_simps [simp]:
  "bl_Transactions demo_side = [demo_coinbase 77]" "bh_Version (bl_Header demo_side) = 1"
  "bh_Height (bl_Header demo_side) = 1" "bh_Timestamp (bl_Header demo_side) = 100"
  "bh_PrevBlockHash (bl_Header demo_side) = 5" "bh_MerkleRoot (bl_Header demo_side) = 5"
  by (simp_all add: demo_side_def empty_header_def)

definition demo_longer :: "(string \<Rightarrow> (bytes, bytes) alist) \<Rightarrow> (string \<Rightarrow> (bytes, bytes) alist) ChainState" where
  "demo_longer d = demo_chain\<lparr>cs_db := d, cs_bestHeight := 1, cs_bestHash := 5, cs_blockIndex := [0 \<mapsto> 5, 1 \<mapsto> 5],
     cs_finalityGuard := Some (\<lambda>h k. h = 0 \<and> k \<noteq> 5)\<rparr>"

lemma demo_longer_parent:
  assumes "bb_put mem_bbolt mem_empty BucketBlocks (hash_bytes 5) (SerializeBlock (demo_first 1)) = Some d"
  shows "\<exists>parent. GetBlockByHeight demo_crypto mem_bbolt (demo_longer d) 0 = Inr parent \<and> bl_Hash parent = 5
    \<and> bh_Timestamp (bl_Header parent) = 0"
proof -
  have "canonical (bl_Header (demo_first 1)) = bl_Header (demo_first 1)"
    by (simp add: canonical_def demo_first_def empty_header_def word_le_nat_alt)
  then have "DeserializeBlock demo_crypto (SerializeBlock (demo_first 1)) = Some ((demo_first 1)\<lparr>bl_Hash := 5, bl_SignedHash := 0\<rparr>)"
    using block_roundtrip [OF demo_first_wf, of demo_crypto 1 "[]"] by (simp add: CalculateHash_def)
  then show ?thesis
    using mem.get_put [OF assms, of BucketBlocks "hash_bytes 5"]
    by (simp add: GetBlockByHeight_def GetBlockByHash_def demo_longer_def)
qed

theorem side_block_mints_witness:
  "\<exists>d cs' b' r p'. AddBlock demo_crypto mem_bbolt demo_env (demo_longer d) demo_side = (cs', b', r)
     \<and> cs_bestHash cs' = 5 \<and> cs_utxoStore cs' = Some p'
     \<and> persistent_GetBalance mem_bbolt p' 9 = Some 77"
proof -
  obtain d where d: "bb_put mem_bbolt mem_empty BucketBlocks (hash_bytes 5) (SerializeBlock (demo_first 1)) = Some d"
    using mem.put_succeeds [of "hash_bytes 5" "SerializeBlock (demo_first 1)" mem_empty BucketBlocks] demo_first_fits
    by (auto simp: MaxKeySize_def)
  obtain parent where parent: "GetBlockByHeight demo_crypto mem_bbolt (demo_longer d) 0 = Inr parent" "bl_Hash parent = 5"
    "bh_Timestamp (bl_Header parent) = 0"
    using demo_longer_parent [OF d] by blast
  let ?p = "\<lparr>ps_db = mem_empty, ps_readOnly = False\<rparr>"
  have time: "validateBlockTimestamp demo_crypto mem_bbolt demo_env (demo_longer d) demo_side = Inr ()"
    using parent by (simp add: validateBlockTimestamp_def demo_unix rbind_def MinBlockTime_def second_def word_less_nat_alt)
  have deep: "IsDeepHistory demo_env (bh_Height (bl_Header demo_side)) (bh_Timestamp (bl_Header demo_side))"
    by (simp add: IsDeepHistory_def demo_unix)
  have sig: "VerifyBlockSignature demo_crypto demo_side = Some True"
    by (simp add: VerifyBlockSignature_def ed25519_Verify_def demo_side_def empty_header_def demo_crypto_def sample_crypto_def) code_simp
  have fits: "fits_store demo_crypto NewUTXOStore (demo_coinbase 77)"
    by (simp add: fits_store_def total_value_def NewUTXOStore_def output_values_def GetUTXO_def script_ok_def)
  have merkle: "CalculateMerkleRoot demo_crypto demo_side = bh_MerkleRoot (bl_Header demo_side)"
    by (simp add: CalculateMerkleRoot_def TxHash_def merkle_root_def merkle_levels.simps)
  have size: "length (SerializeBlock demo_side) \<le> MaxValueSize"
    using length_SerializeHeader_le [of "bl_Header demo_side"] demo_first_parts(2) [of 77]
    by (simp add: SerializeBlock_def put_bytes_def MaxValueSize_def) (simp add: demo_side_def empty_header_def)
  have store: "cs_utxoStore (demo_longer d) = Some ?p" "stored mem_bbolt (ps_db ?p) NewUTXOStore"
    "guard_passes (cs_finalityGuard (demo_longer d)) (bh_Height (bl_Header demo_side)) (CalculateHash demo_crypto demo_side)"
    "cs_bestHeight (demo_longer d) = 1" "cs_bestHash (demo_longer d) = 5"
    using mem_empty_stored by (simp_all add: demo_longer_def demo_chain_def guard_passes_def)
  have "\<exists>cs' b' r p'. AddBlock demo_crypto mem_bbolt demo_env (demo_longer d) demo_side = (cs', b', r)
      \<and> cs_blockIndex cs' = cs_blockIndex (demo_longer d) \<and> cs_bestHeight cs' = cs_bestHeight (demo_longer d)
      \<and> cs_bestHash cs' = cs_bestHash (demo_longer d) \<and> cs_utxoStore cs' = Some p'
      \<and> stored mem_bbolt (ps_db p') (add_outputs NewUTXOStore (TxHash demo_crypto (demo_coinbase 77)) 0 (tx_Outputs (demo_coinbase 77)))
      \<and> bb_get mem_bbolt (cs_db cs') BucketBlockHeight (put_u64_be (bh_Height (bl_Header demo_side)))
          = Some (hash_bytes (CalculateHash demo_crypto demo_side))"
    by (rule side_block_mints [OF mem.bbolt_laws_axioms store(1) _ store(2) store_inv_new _ _ merkle _ _ _ _ time deep
          store(3) _ _ fits sig size, where parent = parent])
      (use parent store in \<open>simp_all add: word_less_nat_alt\<close>)
  then obtain cs' b' r p' where run: "AddBlock demo_crypto mem_bbolt demo_env (demo_longer d) demo_side = (cs', b', r)"
    "cs_bestHash cs' = cs_bestHash (demo_longer d)" "cs_utxoStore cs' = Some p'"
    and st: "stored mem_bbolt (ps_db p') (add_outputs NewUTXOStore (TxHash demo_crypto (demo_coinbase 77)) 0 (tx_Outputs (demo_coinbase 77)))"
    by (elim exE conjE)
  have "GetBalance (add_outputs NewUTXOStore (TxHash demo_crypto (demo_coinbase 77)) 0 (tx_Outputs (demo_coinbase 77))) 9 = 77"
    by (simp add: GetBalance_def AddUTXO_def output_utxo_def NewUTXOStore_def map_get_def)
  with stored_balance [OF st, of 9] have "persistent_GetBalance mem_bbolt p' 9 = Some 77"
    by (simp only:)
  then show ?thesis
    using run(1) run(2) [unfolded store(5)] run(3) by blast
qed

end
