(* ===== verification/Proposer_VRF.thy ===== *)
theory Proposer_VRF
  imports Consensus KV_Store
begin

text \<open>
  \<^verbatim>\<open>pkg/utxo/vrf_proposer.go\<close>: the verifiable random function built from signatures and the choice of a proposer on
  the producing side. SHA-512 of the standard library is the parameter \<open>sha512\<close>.
\<close>

section \<open>Definitions\<close>

record VrfProof =
  vp_Output :: bytes
  vp_Proof :: bytes
  vp_Height :: u64
  vp_Winner :: address
  vp_Stakes :: "address \<rightharpoonup> u64"

datatype vrf_error = VrfNoActive | VrfZeroStake | VrfPanic | VrfUseDeterministic | VrfFailed

text \<open>The division of \<^verbatim>\<open>math/big\<close> panics on zero.\<close>

definition vrfThreshold :: "u64 \<Rightarrow> u64 \<Rightarrow> nat option" where
  "vrfThreshold stake totalStake =
     (if totalStake = 0 then None else Some (unat stake * 2 ^ 256 div unat totalStake))"

definition vrfHash :: "crypto \<Rightarrow> bytes \<Rightarrow> u64 \<Rightarrow> bytes \<Rightarrow> nat" where
  "vrfHash C seed height out = unat (sha256 C (string_bytes ''AIB-VRF-v1'' @ seed @ put_u64_be height @ out))"

definition vrf_message :: "bytes \<Rightarrow> u64 \<Rightarrow> bytes" where
  "vrf_message seed height = string_bytes ''AIB-VRF-v1'' @ seed @ put_u64_be height"

text \<open>\<^verbatim>\<open>copy\<close> of a slice into a zero array of \<open>n\<close> bytes.\<close>

definition copy_array :: "nat \<Rightarrow> bytes \<Rightarrow> bytes" where
  "copy_array n bs = take n (bs @ replicate n 0)"

definition EvaluateVrf ::
  "crypto \<Rightarrow> (bytes \<Rightarrow> bytes) \<Rightarrow> bytes \<Rightarrow> bytes \<Rightarrow> u64 \<Rightarrow> (bytes \<times> bytes) option" where
  "EvaluateVrf C sha512 priv seed height =
     (let msg = vrf_message seed height in
      case ed25519_Sign C priv msg of
        None \<Rightarrow> None
      | Some sig \<Rightarrow>
          Some (copy_array 64 (sha512 (ed25519_Public priv @ msg @ sig)), copy_array 80 sig))"

definition VerifyVrf ::
  "crypto \<Rightarrow> (bytes \<Rightarrow> bytes) \<Rightarrow> bytes \<Rightarrow> bytes \<Rightarrow> u64 \<Rightarrow> bytes \<Rightarrow> bytes \<Rightarrow> bool option" where
  "VerifyVrf C sha512 pub seed height out proof80 =
     (let msg = vrf_message seed height in
      if length proof80 < 64 then Some False
      else case ed25519_Verify C pub msg (take 64 proof80) of
        None \<Rightarrow> None
      | Some ok \<Rightarrow>
          if \<not> ok then Some False
          else Some (copy_array 64 (sha512 (pub @ msg @ take 64 proof80)) = out))"

definition SetHeightForTest :: "ConsensusState \<Rightarrow> u64 \<Rightarrow> ConsensusState" where
  "SetHeightForTest cs h = cs\<lparr>cn_currentHeight := h\<rparr>"

text \<open>The loop stops at the first validator with a key, where signing with a nil private key panics.\<close>

fun vrf_try_keys :: "crypto \<Rightarrow> (bytes \<Rightarrow> bytes) \<Rightarrow> bytes \<Rightarrow> u64 \<Rightarrow> (address \<rightharpoonup> bytes) \<Rightarrow> Validator list \<Rightarrow> vrf_error" where
  "vrf_try_keys C sha512 seed height pubKeys [] = VrfUseDeterministic"
| "vrf_try_keys C sha512 seed height pubKeys (v # vs) =
     (case pubKeys (v_Address v) of
        None \<Rightarrow> vrf_try_keys C sha512 seed height pubKeys vs
      | Some pub \<Rightarrow>
          (case EvaluateVrf C sha512 [] seed height of None \<Rightarrow> VrfPanic | Some _ \<Rightarrow> VrfUseDeterministic))"

definition SelectProposerVRF ::
  "crypto \<Rightarrow> (bytes \<Rightarrow> bytes) \<Rightarrow> address list \<Rightarrow> ConsensusState \<Rightarrow> bytes \<Rightarrow> (address \<rightharpoonup> bytes)
   \<Rightarrow> (vrf_error, VrfProof) result" where
  "SelectProposerVRF C sha512 ks cs seed pubKeys =
     (let validators = getActiveValidatorsLocked ks cs in
      if length validators = 0 then Inl VrfNoActive
      else if foldl (\<lambda>tot v. tot + v_Stake v) 0 validators = 0 then Inl VrfZeroStake
      else Inl (vrf_try_keys C sha512 seed (cn_currentHeight cs) pubKeys validators))"

definition stake_snapshot :: "Validator list \<Rightarrow> (address \<rightharpoonup> u64)" where
  "stake_snapshot vs = foldl (\<lambda>m v. m(v_Address v \<mapsto> v_Stake v)) Map.empty vs"

definition SelectProposerVRFAtHeightAttempt ::
  "crypto \<Rightarrow> address list \<Rightarrow> ConsensusState \<Rightarrow> bytes \<Rightarrow> u64 \<Rightarrow> u64 \<Rightarrow> (vrf_error, VrfProof) result" where
  "SelectProposerVRFAtHeightAttempt C ks cs seed height attempt =
     (let validators = sorted_active ks cs in
      if length validators = 0 then Inl VrfNoActive
      else let totalStake = foldl (\<lambda>tot v. tot + v_Stake v) 0 validators in
        if totalStake = 0 then Inl VrfZeroStake
        else let digest = sha256 C (seed @ put_u64_be height @ put_u64_be attempt);
                 selected = of_nat (unat digest mod unat totalStake)
          in case pick_validator selected 0 validators of
               None \<Rightarrow> Inl VrfFailed
             | Some winner \<Rightarrow>
                 Inr \<lparr>vp_Output = hash_bytes digest @ replicate 32 0, vp_Proof = replicate 80 0, vp_Height = height,
                      vp_Winner = winner, vp_Stakes = stake_snapshot validators\<rparr>)"

definition SelectProposerVRFAtHeight ::
  "crypto \<Rightarrow> address list \<Rightarrow> ConsensusState \<Rightarrow> bytes \<Rightarrow> u64 \<Rightarrow> (vrf_error, VrfProof) result" where
  "SelectProposerVRFAtHeight C ks cs seed height = SelectProposerVRFAtHeightAttempt C ks cs seed height 0"

definition SelectProposerVRFDeterministic ::
  "crypto \<Rightarrow> address list \<Rightarrow> ConsensusState \<Rightarrow> bytes \<Rightarrow> (vrf_error, VrfProof) result" where
  "SelectProposerVRFDeterministic C ks cs seed = SelectProposerVRFAtHeight C ks cs seed (cn_currentHeight cs)"

section \<open>The two sides of a block agree\<close>

lemma pick_exact_address: "pick_exact r vs = Some a \<Longrightarrow> a \<in> v_Address ` set vs"
  by (induction vs arbitrary: r) (auto split: if_splits)

lemma stake_snapshot_eq:
  assumes "distinct (map v_Address vs)"
  shows "stake_snapshot vs a = map_option v_Stake (find (\<lambda>v. v_Address v = a) vs)"
proof -
  have "foldl (\<lambda>m v. m(v_Address v \<mapsto> v_Stake v)) m vs a
      = (case find (\<lambda>v. v_Address v = a) vs of None \<Rightarrow> m a | Some v \<Rightarrow> Some (v_Stake v))" for m
    using assms
  proof (induction vs arbitrary: m)
    case (Cons v vs)
    show ?case
    proof (cases "v_Address v = a")
      case True
      then have "find (\<lambda>v. v_Address v = a) vs = None"
        using Cons.prems unfolding find_None_iff by (metis distinct.simps(2) image_eqI image_set list.simps(9))
      then show ?thesis using True Cons by simp
    qed (use Cons in \<open>simp split: option.splits\<close>)
  qed simp
  then show ?thesis by (simp add: stake_snapshot_def split: option.splits)
qed

text \<open>C10. The producer and the validators of a block agree. When the active stake sums to less than two to the 64, the
  choice the producer makes (\<^verbatim>\<open>SelectProposerVRFAtHeightAttempt\<close>) succeeds exactly when the one the validators
  check (\<^verbatim>\<open>selectProposerAttemptLocked\<close>) does, with the same winner, whatever the order in which either side's
  map is iterated; and the proof's snapshot of the stakes is the table of the active validators.\<close>

theorem producer_validator_agree:
  assumes "validators_inv cs" and "iteration_of ks (cn_validators cs)" and "iteration_of ks' (cn_validators cs)"
    and "stakes_sum (sorted_active ks cs) < 2 ^ 64"
  shows "case SelectProposerVRFAtHeightAttempt C ks cs seed height attempt of
      Inl _ \<Rightarrow> \<exists>e. selectProposerAttemptLocked C ks' cs seed height attempt = Inl e
    | Inr p \<Rightarrow> selectProposerAttemptLocked C ks' cs seed height attempt = Inr (vp_Winner p)
        \<and> (\<forall>a. vp_Stakes p a = (if active_at cs a then map_option v_Stake (cn_validators cs a) else None))"
proof -
  let ?vs = "sorted_active ks cs" and ?T = "stakes_sum (sorted_active ks cs)"
  have vs': "sorted_active ks' cs = ?vs" by (rule sorted_active_unique [OF assms(1,3,2)])
  have tot: "unat (foldl (\<lambda>tot v. tot + v_Stake v) 0 ?vs) = ?T"
    using assms(4) by (simp add: foldl_sum_list unat_sum_list stakes_sum_def)
  show ?thesis
  proof (cases "?vs = [] \<or> foldl (\<lambda>tot v. tot + v_Stake v) 0 ?vs = 0")
    case True
    then show ?thesis
      by (auto simp: SelectProposerVRFAtHeightAttempt_def selectProposerAttemptLocked_def vs' Let_def)
  next
    case False
    then have "0 < ?T" using tot by (metis gr0I unat_0 word_unat_eq_iff)
    then have r: "sortition C seed height attempt mod ?T < ?T" by simp
    from pick_exact_some [OF r] obtain a where a: "pick_exact (sortition C seed height attempt mod ?T) ?vs = Some a"
      by blast
    have "pick_validator (of_nat (sortition C seed height attempt mod ?T)) 0 ?vs = Some a"
      using pick_validator_exact [of 0 ?vs "sortition C seed height attempt mod ?T"] assms(4) r a by simp
    moreover have "stake_snapshot ?vs a' = (if active_at cs a' then map_option v_Stake (cn_validators cs a') else None)" for a'
    proof -
      have dist: "distinct (map v_Address ?vs)"
        using assms(2) by (simp add: sorted_active_addresses [OF assms(1,2)] iteration_of_def)
      show ?thesis
      proof (cases "find (\<lambda>v. v_Address v = a') ?vs")
        case None
        then have "a' \<notin> set (map v_Address ?vs)" by (auto simp: find_None_iff)
        then have "\<not> active_at cs a'"
          using assms(2) by (auto simp: sorted_active_addresses [OF assms(1,2)] iteration_of_def active_at_def split: option.splits)
        then show ?thesis using None stake_snapshot_eq [OF dist] by simp
      next
        case (Some v)
        then have "v \<in> set ?vs" "v_Address v = a'" by (auto simp: find_Some_iff)
        then show ?thesis
          using Some stake_snapshot_eq [OF dist] set_sorted_active [OF assms(1,2), of v] by (simp add: active_at_def)
      qed
    qed
    ultimately show ?thesis
      using False tot
      by (simp add: SelectProposerVRFAtHeightAttempt_def selectProposerAttemptLocked_def vs' Let_def sortition_def)
  qed
qed

theorem producer_validator_agree_witness:
  "\<exists>p. SelectProposerVRFAtHeightAttempt demo_crypto [9, 4] two_validators [] 1 0 = Inr p
     \<and> selectProposerAttemptLocked demo_crypto [9, 4] two_validators [] 1 0 = Inr (vp_Winner p)
     \<and> vp_Stakes p 9 = Some 30"
proof -
  have T: "stakes_sum (sorted_active [9, 4] two_validators) = 42"
    using two_validators_facts(3) by (simp add: stakes_sum_def)
  have v: "cn_validators two_validators 9 = Some (new_validator 9 30 0 [] True)"
    by (simp add: two_validators_def AddValidatorFromStake_def NewConsensusState_def)
  then have act: "active_at two_validators 9" by (simp add: active_at_def IsActive_def new_validator_def)
  have "selectProposerAttemptLocked demo_crypto [9, 4] two_validators [] 1 0 \<noteq> Inl e" for e
    using selectProposer_result [of "[9, 4]" two_validators demo_crypto "[]" 1 0] T by simp
  then show ?thesis
    using producer_validator_agree [OF two_validators_facts(1,2,2), of demo_crypto "[]" 1 0] T act v
    by (auto simp: new_validator_def split: sum.splits)
qed

section \<open>The random function\<close>

text \<open>What a prover computes verifies; the last sixteen bytes of the proof are not looked at.\<close>

lemma vrf_roundtrip:
  assumes "key_pair C priv"
  shows "\<exists>out prf. EvaluateVrf C sha512 priv seed height = Some (out, prf)
    \<and> (\<forall>tail. VerifyVrf C sha512 (ed25519_Public priv) seed height out (take 64 prf @ tail) = Some True)"
proof -
  let ?msg = "vrf_message seed height"
  have sg: "length (ed_sign C priv ?msg) = 64" using assms by (simp add: key_pair_def)
  then have "take 64 (copy_array 80 (ed_sign C priv ?msg)) = ed_sign C priv ?msg"
    by (simp add: copy_array_def)
  moreover have "length (copy_array 80 (ed_sign C priv ?msg)) = 80"
    by (simp add: copy_array_def)
  ultimately show ?thesis
    using key_pair_verifies(1,2) [OF assms, of ?msg] sg
    by (simp add: EvaluateVrf_def VerifyVrf_def Let_def)
qed

text \<open>It is not unique: every valid signature of the message gives an output that verifies, so whoever holds the
  private key can choose among as many outputs as there are signatures.\<close>

lemma vrf_not_unique:
  assumes "length pub = 32" and "length sg = 64" and "ed_verify C pub (vrf_message seed height) sg"
  shows "VerifyVrf C sha512 pub seed height (copy_array 64 (sha512 (pub @ vrf_message seed height @ sg))) (sg @ replicate 16 0) = Some True"
  using assms by (simp add: VerifyVrf_def ed25519_Verify_def)

text \<open>\<^verbatim>\<open>SelectProposerVRF\<close> never chooses anyone.\<close>

lemma select_vrf_never_succeeds: "\<exists>e. SelectProposerVRF C sha512 ks cs seed pubKeys = Inl e"
  by (simp add: SelectProposerVRF_def Let_def)

end
