(* ===== verification/Double.thy ===== *)
theory Double
  imports Float64
begin

text \<open>
  Go's \<^verbatim>\<open>float64\<close> with all its values: not a number, the infinities and the rationals. Every operation rounds its
  exact result to 53 significant bits, ties to even, with gradual underflow. The sign of a zero is not kept, since
  no operation the sources use tells it. \<^verbatim>\<open>Float64bits\<close> is \<open>double_bits\<close>.
\<close>

text \<open>The length of a number in bits, computed on integers.\<close>

fun int_bits :: "int \<Rightarrow> nat" where
  "int_bits p = (if p \<le> 0 then 0 else Suc (int_bits (p div 2)))"

declare int_bits.simps [simp del]

lemma int_bits_eq: "int_bits p = bit_length (nat p)"
proof (induction p rule: int_bits.induct)
  case (1 p)
  then show ?case
    by (simp add: int_bits.simps [of p] bit_length.simps [of "nat p"] nat_div_distrib)
qed

lemma f64_exponent_code [code]:
  "f64_exponent x =
     (let (p, q) = quotient_of x; e = int (int_bits p) - int (int_bits q) - 53
      in if x < pow2 (e + 53) then e else e + 1)"
  by (simp add: f64_exponent_def int_bits_eq)

datatype double = NaN | Infinity bool | Number rat

definition double_exponent :: "rat \<Rightarrow> int" where
  "double_exponent x = max (- 1074) (f64_exponent x)"

definition round_abs :: "rat \<Rightarrow> rat" where
  "round_abs x =
     (if x \<le> 0 then 0
      else let e = double_exponent x in pow2 e * of_int (round_half_even (x / pow2 e)))"

text \<open>The largest exponent of a significand of 53 bits is 971.\<close>

definition round_double :: "rat \<Rightarrow> double" where
  "round_double x =
     (let a = round_abs \<bar>x\<bar> in
      if 0 < a \<and> 971 < f64_exponent a then Infinity (x < 0) else Number (if x < 0 then - a else a))"

fun double_neg :: "double \<Rightarrow> double" where
  "double_neg NaN = NaN"
| "double_neg (Infinity s) = Infinity (\<not> s)"
| "double_neg (Number x) = Number (- x)"

fun double_add :: "double \<Rightarrow> double \<Rightarrow> double" where
  "double_add (Number x) (Number y) = round_double (x + y)"
| "double_add NaN y = NaN"
| "double_add x NaN = NaN"
| "double_add (Infinity s) (Infinity t) = (if s = t then Infinity s else NaN)"
| "double_add (Infinity s) (Number y) = Infinity s"
| "double_add (Number x) (Infinity t) = Infinity t"

definition double_sub :: "double \<Rightarrow> double \<Rightarrow> double" where
  "double_sub x y = double_add x (double_neg y)"

fun double_mul :: "double \<Rightarrow> double \<Rightarrow> double" where
  "double_mul (Number x) (Number y) = round_double (x * y)"
| "double_mul NaN y = NaN"
| "double_mul x NaN = NaN"
| "double_mul (Infinity s) (Infinity t) = Infinity (s \<noteq> t)"
| "double_mul (Infinity s) (Number y) = (if y = 0 then NaN else Infinity (s \<noteq> (y < 0)))"
| "double_mul (Number x) (Infinity t) = (if x = 0 then NaN else Infinity ((x < 0) \<noteq> t))"

fun double_div :: "double \<Rightarrow> double \<Rightarrow> double" where
  "double_div (Number x) (Number y) =
     (if y = 0 then (if x = 0 then NaN else Infinity (x < 0)) else round_double (x / y))"
| "double_div NaN y = NaN"
| "double_div x NaN = NaN"
| "double_div (Infinity s) (Infinity t) = NaN"
| "double_div (Infinity s) (Number y) = Infinity (s \<noteq> (y < 0))"
| "double_div (Number x) (Infinity t) = Number 0"

text \<open>A comparison with not-a-number is false.\<close>

fun double_less :: "double \<Rightarrow> double \<Rightarrow> bool" where
  "double_less (Number x) (Number y) = (x < y)"
| "double_less NaN y = False"
| "double_less x NaN = False"
| "double_less (Infinity s) (Infinity t) = (s \<and> \<not> t)"
| "double_less (Infinity s) (Number y) = s"
| "double_less (Number x) (Infinity t) = (\<not> t)"

fun double_eq :: "double \<Rightarrow> double \<Rightarrow> bool" where
  "double_eq NaN y = False"
| "double_eq x y = (x = y)"

definition double_of_u64 :: "u64 \<Rightarrow> double" where
  "double_of_u64 w = round_double (of_int (uint w))"

definition double_of_nat :: "nat \<Rightarrow> double" where
  "double_of_nat n = round_double (of_nat n)"

text \<open>
  The conversion to \<^verbatim>\<open>uint64\<close> drops the fraction. For a value out of range the language leaves the result to the
  implementation: \<open>conv\<close> is what the implementation does there.
\<close>

definition u64_of_double :: "(double \<Rightarrow> u64) \<Rightarrow> double \<Rightarrow> u64" where
  "u64_of_double conv x =
     (case x of
        Number r \<Rightarrow> if - 1 < r \<and> r < 2 ^ 64 then of_int (if r < 0 then 0 else \<lfloor>r\<rfloor>) else conv x
      | _ \<Rightarrow> conv x)"

section \<open>Bits\<close>

definition double_of_bits :: "u64 \<Rightarrow> double" where
  "double_of_bits w =
     (let m = uint w mod 2 ^ 52; e = uint w div 2 ^ 52 mod 2 ^ 11; s = (2 ^ 63 \<le> uint w) in
      if e = 2047 then (if m = 0 then Infinity s else NaN)
      else let a = (if e = 0 then of_int m * pow2 (- 1074) else of_int (2 ^ 52 + m) * pow2 (e - 1075))
           in Number (if s then - a else a))"

fun double_bits :: "double \<Rightarrow> u64" where
  "double_bits NaN = 0x7FF8000000000001"
| "double_bits (Infinity s) = (if s then 0xFFF0000000000000 else 0x7FF0000000000000)"
| "double_bits (Number x) =
     (if x = 0 then 0
      else let e = double_exponent \<bar>x\<bar>;
               m = round_half_even (\<bar>x\<bar> / pow2 e)
           in of_int ((if x < 0 then 2 ^ 63 else 0) + (e + 1074) * 2 ^ 52 + m))"

section \<open>Rounding is monotone\<close>

lemma pow2_add: "pow2 (a + b) = pow2 a * pow2 b"
proof -
  have "pow2 e = power_int 2 e" for e
    by (simp add: pow2_def power_int_def field_simps)
  then show ?thesis by (simp add: power_int_add)
qed

lemma pow2_of_nat: "pow2 (int n) = 2 ^ n"
  by (simp add: pow2_def)

lemma pow2_mono: "a \<le> b \<Longrightarrow> pow2 a \<le> pow2 b"
proof -
  assume "a \<le> b"
  then obtain n where b: "b = a + int n" using zle_iff_zadd by blast
  have "(1::rat) \<le> 2 ^ n" by simp
  then have "pow2 a * 1 \<le> pow2 a * 2 ^ n" by (intro mult_left_mono) (simp_all add: less_imp_le)
  then show ?thesis by (simp add: b pow2_add pow2_of_nat)
qed

lemma pow2_less_iff [simp]: "pow2 a < pow2 b \<longleftrightarrow> a < b"
proof
  show "pow2 a < pow2 b \<Longrightarrow> a < b" using pow2_mono [of b a] by (meson not_less)
next
  assume "a < b"
  then have "pow2 (a + 1) \<le> pow2 b" by (intro pow2_mono) simp
  moreover have "pow2 (a + 1) = 2 * pow2 a" using pow2_add [of a 1] by (simp add: pow2_def)
  ultimately show "pow2 a < pow2 b" using pow2_pos(1) [of a] by linarith
qed

lemma pow2_numeral [simp]: "pow2 (numeral n) = 2 ^ numeral n"
  by (simp add: pow2_def)

lemma pow2_diff_int: "pow2 (int a - int b) = 2 ^ a / 2 ^ b"
  using pow2_add [of "int a - int b" "int b"] by (simp add: pow2_of_nat field_simps)

lemma f64_exponent_bounds:
  assumes "0 < x"
  shows "pow2 (f64_exponent x + 52) \<le> x" and "x < pow2 (f64_exponent x + 53)"
proof -
  obtain p q where pq: "quotient_of x = (p, q)" by (cases "quotient_of x")
  have q: "0 < q" using quotient_of_denom_pos [OF pq] .
  have x: "x = of_int p / of_int q" using quotient_of_div [OF pq] .
  then have p: "0 < p" using assms q by (simp add: zero_less_divide_iff)
  let ?a = "bit_length (nat p)" and ?b = "bit_length (nat q)"
  have a: "2 ^ (?a - 1) \<le> nat p" "nat p < 2 ^ ?a" and b: "2 ^ (?b - 1) \<le> nat q" "nat q < 2 ^ ?b"
    using bit_length_bounds [of "nat p"] bit_length_bounds [of "nat q"] p q by simp_all
  have pos: "0 < ?a" "0 < ?b" using p q by (simp_all add: bit_length.simps [of "nat _"])
  have "of_nat (2 ^ (?a - 1)) \<le> (of_nat (nat p) :: rat)" "(of_nat (nat p) :: rat) < of_nat (2 ^ ?a)"
    "of_nat (2 ^ (?b - 1)) \<le> (of_nat (nat q) :: rat)" "(of_nat (nat q) :: rat) < of_nat (2 ^ ?b)"
    using a b by (simp_all only: of_nat_le_iff of_nat_less_iff)
  then have r: "2 ^ (?a - 1) \<le> (of_int p :: rat)" "(of_int p :: rat) < 2 ^ ?a"
    "2 ^ (?b - 1) \<le> (of_int q :: rat)" "(of_int q :: rat) < 2 ^ ?b"
    unfolding of_nat_nat [OF less_imp_le [OF p]] of_nat_nat [OF less_imp_le [OF q]] of_nat_power of_nat_numeral .
  have "(2 :: rat) ^ (?a - 1) / 2 ^ ?b \<le> x"
    unfolding x using r q less_imp_le [OF p] by (intro frac_le) simp_all
  then have lo: "pow2 (int ?a - 1 - int ?b) \<le> x"
    using pow2_diff_int [of "?a - 1" ?b] pos by (simp add: of_nat_diff)
  have "x < 2 ^ ?a / 2 ^ (?b - 1)"
    unfolding x using r q p by (intro frac_less) simp_all
  then have hi: "x < pow2 (int ?a - int ?b + 1)"
    using pow2_diff_int [of ?a "?b - 1"] pos by (simp add: of_nat_diff algebra_simps)
  show "pow2 (f64_exponent x + 52) \<le> x" "x < pow2 (f64_exponent x + 53)"
    using lo hi by (auto simp: f64_exponent_def pq Let_def not_less algebra_simps)
qed

lemma f64_exponent_mono: "0 < x \<Longrightarrow> x \<le> y \<Longrightarrow> f64_exponent x \<le> f64_exponent y"
proof -
  assume "0 < x" "x \<le> y"
  then have "pow2 (f64_exponent x + 52) < pow2 (f64_exponent y + 53)"
    using f64_exponent_bounds(1) [of x] f64_exponent_bounds(2) [of y] by linarith
  then show ?thesis by simp
qed

lemma double_exponent_mono: "0 < x \<Longrightarrow> x \<le> y \<Longrightarrow> double_exponent x \<le> double_exponent y"
  using f64_exponent_mono [of x y] by (auto simp: double_exponent_def)

lemma round_half_even_le: "z \<le> of_int n \<Longrightarrow> round_half_even z \<le> n"
proof -
  assume z: "z \<le> of_int n"
  show ?thesis
  proof (cases "\<lfloor>z\<rfloor> = n")
    case True
    with z have "z = of_int n" by (metis antisym of_int_floor_le)
    then show ?thesis by simp
  next
    case False
    with z have "\<lfloor>z\<rfloor> < n" by (metis floor_mono floor_of_int order.not_eq_order_implies_strict)
    then show ?thesis by (simp add: round_half_even_def Let_def)
  qed
qed

lemma round_half_even_ge: "of_int n \<le> z \<Longrightarrow> n \<le> round_half_even z"
proof -
  assume "of_int n \<le> z"
  then have "n \<le> \<lfloor>z\<rfloor>" by (simp add: le_floor_iff)
  then show ?thesis by (simp add: round_half_even_def Let_def)
qed

text \<open>A value is representable when rounding keeps it.\<close>

definition representable :: "rat \<Rightarrow> bool" where
  "representable y \<longleftrightarrow> 0 \<le> y \<and> round_abs y = y"

lemma representable_int:
  assumes "representable y" and "0 < y"
  obtains k where "y = pow2 (double_exponent y) * of_int k"
proof -
  have "y = pow2 (double_exponent y) * of_int (round_half_even (y / pow2 (double_exponent y)))"
    using assms by (simp add: representable_def round_abs_def Let_def)
  then show thesis by (rule that)
qed

lemma representable_multiple:
  assumes "representable y" and "0 < x" and "x \<le> y"
  obtains n where "y = pow2 (double_exponent x) * of_int n"
proof -
  have y: "0 < y" using assms by simp
  obtain k where k: "y = pow2 (double_exponent y) * of_int k"
    using representable_int [OF assms(1) y] .
  obtain d where d: "double_exponent y = double_exponent x + int d"
    using double_exponent_mono [OF assms(2,3)] zle_iff_zadd by blast
  have "y = pow2 (double_exponent x) * of_int (2 ^ d * k)"
    using k by (simp add: d pow2_add pow2_of_nat)
  then show thesis by (rule that)
qed

lemma round_abs_nonneg: "0 \<le> round_abs x"
proof (cases "x \<le> 0")
  case False
  then have "0 \<le> round_half_even (x / pow2 (double_exponent x))"
    using round_half_even_ge [of 0 "x / pow2 (double_exponent x)"] by (simp add: less_imp_le)
  then show ?thesis using False by (simp add: round_abs_def Let_def less_imp_le)
qed (simp add: round_abs_def)

lemma round_abs_le:
  assumes "representable y" and "x \<le> y"
  shows "round_abs x \<le> y"
proof (cases "0 < x")
  case True
  obtain n where n: "y = pow2 (double_exponent x) * of_int n"
    using representable_multiple [OF assms(1) True assms(2)] .
  then have "x / pow2 (double_exponent x) \<le> of_int n"
    using assms(2) by (simp add: divide_le_eq mult.commute)
  then have "round_half_even (x / pow2 (double_exponent x)) \<le> n" by (rule round_half_even_le)
  then show ?thesis using True n by (simp add: round_abs_def Let_def)
qed (use assms in \<open>simp add: round_abs_def representable_def\<close>)

lemma round_abs_ge:
  assumes "representable y" and "y \<le> x"
  shows "y \<le> round_abs x"
proof (cases "0 < y")
  case False
  then have "y = 0" using assms(1) by (simp add: representable_def)
  then show ?thesis using round_abs_nonneg by simp
next
  case True
  then have x: "0 < x" using assms(2) by simp
  let ?u = "pow2 (double_exponent x)"
  have "double_exponent y \<le> double_exponent x" using True assms(2) by (rule double_exponent_mono)
  then consider "double_exponent y = double_exponent x" | "double_exponent y < double_exponent x" by linarith
  then obtain n :: int where n: "y \<le> ?u * of_int n" "?u * of_int n \<le> x"
  proof cases
    case 1
    obtain k where "y = ?u * of_int k"
      using representable_int [OF assms(1) True] 1 by metis
    then show thesis using that [of k] assms(2) by simp
  next
    case 2
    then have e: "double_exponent x = f64_exponent x" "f64_exponent y < f64_exponent x"
      by (auto simp: double_exponent_def split: if_splits)
    have "?u * of_int (2 ^ 52) \<le> x"
      using f64_exponent_bounds(1) [OF x] e(1) pow2_add [of "f64_exponent x" "int 52"] by (simp add: pow2_of_nat)
    moreover have "y \<le> ?u * of_int (2 ^ 52)"
      using f64_exponent_bounds(2) [OF True] pow2_mono [of "f64_exponent y + 53" "f64_exponent x + 52"] e
        pow2_add [of "f64_exponent x" "int 52"] by (simp add: pow2_of_nat)
    ultimately show thesis by (intro that [of "2 ^ 52"])
  qed
  have "of_int n \<le> x / ?u" using n(2) by (simp add: le_divide_eq mult.commute)
  then have "n \<le> round_half_even (x / ?u)" by (rule round_half_even_ge)
  then have "?u * of_int n \<le> round_abs x" using x by (simp add: round_abs_def Let_def)
  with n(1) show ?thesis by simp
qed

lemma representable_scaled:
  assumes "m < 2 ^ 53" and "- 1074 \<le> e"
  shows "representable (of_nat m * pow2 e)"
proof (cases "m = 0")
  case False
  let ?x = "of_nat m * pow2 e"
  have x: "0 < ?x" using False by simp
  have "(of_nat m :: rat) < 2 ^ 53" using assms(1) by (metis of_nat_less_iff of_nat_numeral of_nat_power)
  then have "?x < pow2 (e + 53)" by (simp add: pow2_add pow2_of_nat [of 53, simplified])
  then have "f64_exponent ?x \<le> e" using f64_exponent_bounds(1) [OF x] pow2_less_iff [of "f64_exponent ?x + 52" "e + 53"]
    by linarith
  then have "double_exponent ?x \<le> e" using assms(2) by (simp add: double_exponent_def)
  then obtain d where d: "e = double_exponent ?x + int d" using zle_iff_zadd by blast
  have "pow2 e = pow2 (double_exponent ?x) * 2 ^ d" by (subst d) (simp add: pow2_add pow2_of_nat)
  then have eq: "pow2 (double_exponent ?x) * of_int (int m * 2 ^ d) = ?x" by simp
  then have "?x / pow2 (double_exponent ?x) = of_int (int m * 2 ^ d)"
    by (metis nonzero_mult_div_cancel_left pow2_pos(2))
  then have "round_half_even (?x / pow2 (double_exponent ?x)) = int m * 2 ^ d"
    by (simp only: round_half_even_of_int)
  then have "round_abs ?x = ?x"
    using x unfolding round_abs_def Let_def by (simp only: eq not_le [symmetric] if_False)
  then show ?thesis using x by (simp add: representable_def)
qed (simp add: representable_def round_abs_def)

lemma representable_nat: "m < 2 ^ 53 \<Longrightarrow> representable (of_nat m)"
  using representable_scaled [of m 0] by (simp add: pow2_def)

lemma round_double_Number:
  assumes "\<bar>x\<bar> \<le> y" and "representable y" and "y < 2 ^ 1024"
  shows "round_double x = Number (if x < 0 then - round_abs \<bar>x\<bar> else round_abs \<bar>x\<bar>)" and "round_abs \<bar>x\<bar> \<le> y"
proof -
  show le: "round_abs \<bar>x\<bar> \<le> y" using assms(2,1) by (rule round_abs_le)
  have "f64_exponent (round_abs \<bar>x\<bar>) \<le> 971" if "0 < round_abs \<bar>x\<bar>"
  proof -
    have "pow2 (f64_exponent (round_abs \<bar>x\<bar>) + 52) \<le> round_abs \<bar>x\<bar>" using that by (rule f64_exponent_bounds(1))
    also have "\<dots> < pow2 1024" using le assms(3) by simp
    finally have "f64_exponent (round_abs \<bar>x\<bar>) + 52 < 1024" by (simp only: pow2_less_iff)
    then show ?thesis by simp
  qed
  then show "round_double x = Number (if x < 0 then - round_abs \<bar>x\<bar> else round_abs \<bar>x\<bar>)"
    unfolding round_double_def Let_def by (metis not_le)
qed

lemma round_double_exact:
  assumes "representable \<bar>x\<bar>" and "\<bar>x\<bar> < 2 ^ 1024"
  shows "round_double x = Number x"
  using round_double_Number(1) [OF order_refl assms] assms(1) by (simp add: representable_def abs_if split: if_splits)

text \<open>Whatever lies between two representable numbers is rounded to a number between them.\<close>

lemma round_double_between:
  assumes "0 \<le> a" and "a \<le> x" and "x \<le> b" and "representable a" and "representable b" and "b < 2 ^ 1024"
  obtains r where "round_double x = Number r" "a \<le> r" "r \<le> b"
proof -
  have x: "\<bar>x\<bar> = x" "\<not> x < 0" using assms by simp_all
  have "round_double x = Number (round_abs x)" "round_abs x \<le> b"
    using round_double_Number [of x b] assms x by simp_all
  moreover have "a \<le> round_abs x" using assms(4,2) by (rule round_abs_ge)
  ultimately show thesis using that by blast
qed

lemma round_double_abs:
  assumes "\<bar>x\<bar> \<le> b" and "representable b" and "b < 2 ^ 1024"
  obtains r where "round_double x = Number r" "\<bar>r\<bar> \<le> b"
  using round_double_Number [OF assms] that round_abs_nonneg [of "\<bar>x\<bar>"] by (cases "x < 0") auto

end
