(* ===== verification/Reputation.thy ===== *)
theory Reputation
  imports Consensus KV_Store Address Double
begin

text \<open>
  \<^verbatim>\<open>pkg/utxo/reputation.go\<close>: signed scores of nodes, their averages and the weights made from them, and
  \<^verbatim>\<open>pkg/utxo/pos_v2.go\<close>: the choice of a proposer by those weights, the genesis validators and the coinbase of the
  second version. A score is stored as the bits of its \<^verbatim>\<open>float64\<close>. Operations on \<^verbatim>\<open>float64\<close> round one by one; the
  language also lets a compiler fuse a product with a sum.
\<close>

section \<open>Scores\<close>

record ScoreContent =
  sc_TargetPubKey :: hash
  sc_Score :: u64
  sc_Reason :: string
  sc_Timestamp :: u64

record ReputationScore =
  rs_Content :: ScoreContent
  rs_Signer :: hash
  rs_Signature :: bytes

record ReputationManager =
  rm_scores :: "hash \<rightharpoonup> ReputationScore list"
  rm_averages :: "hash \<rightharpoonup> double"
  rm_spamRecords :: "bytes \<rightharpoonup> u64 list"

datatype reputation_error = RpNil | RpSignature | RpRange | RpReason string

definition NewReputationManager :: ReputationManager where
  "NewReputationManager = \<lparr>rm_scores = Map.empty, rm_averages = Map.empty, rm_spamRecords = Map.empty\<rparr>"

definition serializeContent :: "ScoreContent \<Rightarrow> bytes" where
  "serializeContent c =
     hash_bytes (sc_TargetPubKey c) @ put_u64 (sc_Score c) @ put_u32_be (of_nat (length (sc_Reason c)))
     @ string_bytes (sc_Reason c) @ put_u64_be (sc_Timestamp c)"

text \<open>\<open>None\<close> is the panic of \<^verbatim>\<open>ed25519.Sign\<close> on a key of the wrong length.\<close>

definition SignScore :: "crypto \<Rightarrow> ScoreContent \<Rightarrow> bytes \<Rightarrow> ReputationScore option" where
  "SignScore C content privKey =
     (case ed25519_Sign C privKey (serializeContent content) of
        None \<Rightarrow> None
      | Some signature \<Rightarrow>
          Some \<lparr>rs_Content = content, rs_Signer = hash_of_bytes (take 32 (ed25519_Public privKey)),
                rs_Signature = signature\<rparr>)"

definition VerifyScoreSignature :: "crypto \<Rightarrow> ReputationScore option \<Rightarrow> bool" where
  "VerifyScoreSignature C score \<longleftrightarrow>
     (case score of
        None \<Rightarrow> False
      | Some s \<Rightarrow> length (rs_Signature s) \<noteq> 0
          \<and> ed25519_Verify C (hash_bytes (rs_Signer s)) (serializeContent (rs_Content s)) (rs_Signature s) = Some True)"

definition score_value :: "ReputationScore \<Rightarrow> double" where
  "score_value s = double_of_bits (sc_Score (rs_Content s))"

definition recalculateAverage :: "hash \<Rightarrow> ReputationManager \<Rightarrow> ReputationManager" where
  "recalculateAverage target rm =
     (let scores = map_get [] (rm_scores rm) target in
      if length scores = 0 then rm\<lparr>rm_averages := (rm_averages rm)(target \<mapsto> Number 5)\<rparr>
      else let tot = foldl (\<lambda>tot s. double_add tot (score_value s)) (Number 0) scores
           in rm\<lparr>rm_averages := (rm_averages rm)(target \<mapsto> double_div tot (double_of_nat (length scores)))\<rparr>)"

definition spam_key :: "hash \<Rightarrow> hash \<Rightarrow> bytes" where
  "spam_key signer target = hash_bytes signer @ hash_bytes target"

definition recordSpamRecord :: "hash \<Rightarrow> hash \<Rightarrow> u64 \<Rightarrow> ReputationManager \<Rightarrow> ReputationManager" where
  "recordSpamRecord signer target timestamp rm =
     (let key = spam_key signer target;
          records = map_get [] (rm_spamRecords rm) key @ [timestamp];
          cutoff = timestamp - 3600
      in rm\<lparr>rm_spamRecords := (rm_spamRecords rm)(key \<mapsto> filter (\<lambda>t. t > cutoff) records)\<rparr>)"

definition validReasons :: "string list" where
  "validReasons = [''good_response'', ''bad_response'', ''timeout'', ''cheating'']"

definition add_score :: "ReputationScore \<Rightarrow> ReputationManager \<Rightarrow> ReputationManager" where
  "add_score s rm =
     (let target = sc_TargetPubKey (rs_Content s);
          rm = recordSpamRecord (rs_Signer s) target (sc_Timestamp (rs_Content s)) rm;
          rm = rm\<lparr>rm_scores := (rm_scores rm)(target \<mapsto> map_get [] (rm_scores rm) target @ [s])\<rparr>
      in recalculateAverage target rm)"

definition SubmitScore ::
  "crypto \<Rightarrow> ReputationManager \<Rightarrow> ReputationScore option \<Rightarrow> (reputation_error, ReputationManager) result" where
  "SubmitScore C rm score =
     (case score of
        None \<Rightarrow> Inl RpNil
      | Some s \<Rightarrow>
          if \<not> VerifyScoreSignature C score then Inl RpSignature
          else if double_less (score_value s) (Number 0) \<or> double_less (Number 10) (score_value s) then Inl RpRange
          else if sc_Reason (rs_Content s) \<notin> set validReasons then Inl (RpReason (sc_Reason (rs_Content s)))
          else Inr (add_score s rm))"

definition GetAverageScore :: "ReputationManager \<Rightarrow> hash \<Rightarrow> double" where
  "GetAverageScore rm node = (case rm_averages rm node of None \<Rightarrow> Number 5 | Some x \<Rightarrow> x)"

definition CalculateWeightMultiplier :: "double \<Rightarrow> double" where
  "CalculateWeightMultiplier score = double_add (Number 1) (double_div (double_sub score (Number 5)) (Number 10))"

definition GetEffectiveWeight :: "ReputationManager \<Rightarrow> hash \<Rightarrow> u64 \<Rightarrow> double" where
  "GetEffectiveWeight rm node stake =
     double_mul (double_of_u64 stake) (CalculateWeightMultiplier (GetAverageScore rm node))"

definition DetectSpam :: "ReputationManager \<Rightarrow> hash \<Rightarrow> hash \<Rightarrow> bool" where
  "DetectSpam rm signer target =
     (case rm_spamRecords rm (spam_key signer target) of None \<Rightarrow> False | Some ts \<Rightarrow> length ts \<ge> 10)"

definition GetScoreCount :: "ReputationManager \<Rightarrow> hash \<Rightarrow> nat" where
  "GetScoreCount rm node = length (map_get [] (rm_scores rm) node)"

definition GetScores :: "ReputationManager \<Rightarrow> hash \<Rightarrow> ReputationScore list" where
  "GetScores rm node = map_get [] (rm_scores rm) node"

text \<open>
  \<open>sort_slice\<close> is \<^verbatim>\<open>sort.Slice\<close>, which is not stable: what it does with equal elements is left to it. A negative
  count panics.
\<close>

definition GetTopValidators ::
  "((Validator \<times> double \<Rightarrow> Validator \<times> double \<Rightarrow> bool) \<Rightarrow> (Validator \<times> double) list \<Rightarrow> (Validator \<times> double) list)
   \<Rightarrow> ReputationManager \<Rightarrow> Validator list \<Rightarrow> int \<Rightarrow> Validator list option" where
  "GetTopValidators sort_slice rm validators n =
     (let scored = map (\<lambda>v. (v, map_get (Number 0) (rm_averages rm) (v_Address v))) validators;
          scored = sort_slice (\<lambda>a b. double_less (snd b) (snd a)) scored
      in if n < 0 then None else Some (map fst (take (nat n) scored)))"

section \<open>Proposers by weight\<close>

datatype v2_error = V2NoActive | V2ZeroWeight | V2Panic | V2BadProposer address address | V2NoValidator
  | V2KeyCount nat | V2AddValidator nat consensus_error

definition GetValidatorEffectiveWeight ::
  "ConsensusState \<Rightarrow> ReputationManager \<Rightarrow> address \<Rightarrow> (v2_error, double) result" where
  "GetValidatorEffectiveWeight cs rm addr =
     (case cn_validators cs addr of
        None \<Rightarrow> Inl V2NoValidator
      | Some v \<Rightarrow> Inr (double_mul (double_of_u64 (v_Stake v)) (CalculateWeightMultiplier (GetAverageScore rm addr))))"

definition validator_weight :: "ReputationManager \<Rightarrow> Validator \<Rightarrow> double" where
  "validator_weight rm v =
     double_mul (double_of_u64 (v_Stake v)) (CalculateWeightMultiplier (GetAverageScore rm (v_Address v)))"

definition weights_total :: "double list \<Rightarrow> double" where
  "weights_total ws = foldl double_add (Number 0) ws"

fun pick_weight :: "double \<Rightarrow> double \<Rightarrow> (address \<times> double) list \<Rightarrow> address option" where
  "pick_weight selected cumulative [] = None"
| "pick_weight selected cumulative ((a, w) # ws) =
     (let cumulative = double_add cumulative w in
      if double_less selected cumulative then Some a else pick_weight selected cumulative ws)"

text \<open>The choice among a list of validators; the remainder by zero panics.\<close>

definition choose_by_weight ::
  "crypto \<Rightarrow> (double \<Rightarrow> u64) \<Rightarrow> ReputationManager \<Rightarrow> bytes \<Rightarrow> u64 \<Rightarrow> Validator list \<Rightarrow> (v2_error, address) result" where
  "choose_by_weight C conv rm seed height validators =
     (if length validators = 0 then Inl V2NoActive
      else let weighted = map (\<lambda>v. (v_Address v, validator_weight rm v)) validators;
               tot = weights_total (map snd weighted)
        in if double_eq tot (Number 0) then Inl V2ZeroWeight
           else let digest = sha256 C (seed @ put_u64_be height);
                    totalWeightBig = u64_of_double conv (double_mul tot (Number 100000000))
             in if totalWeightBig = 0 then Inl V2Panic
                else let selected = double_div (double_of_u64 (of_nat (unat digest mod unat totalWeightBig))) (Number 100000000)
                  in case pick_weight selected (Number 0) weighted of
                       Some a \<Rightarrow> Inr a | None \<Rightarrow> Inr (fst (last weighted)))"

text \<open>
  The hook runs when there is no active validator; \<open>ks0\<close> and \<open>ks\<close> are the orders of the map before and after it. The
  exported function and the internal one have the same body.
\<close>

definition run_hook ::
  "(ConsensusState \<Rightarrow> ConsensusState) option \<Rightarrow> address list \<Rightarrow> ConsensusState \<Rightarrow> ConsensusState" where
  "run_hook hook ks0 cs =
     (if length (getActiveValidatorsLocked ks0 cs) = 0 then (case hook of Some f \<Rightarrow> f cs | None \<Rightarrow> cs) else cs)"

definition selectProposerV2Locked ::
  "crypto \<Rightarrow> (double \<Rightarrow> u64) \<Rightarrow> address list \<Rightarrow> address list \<Rightarrow> (ConsensusState \<Rightarrow> ConsensusState) option \<Rightarrow> ConsensusState
   \<Rightarrow> bytes \<Rightarrow> ReputationManager \<Rightarrow> ConsensusState \<times> (v2_error, address) result" where
  "selectProposerV2Locked C conv ks0 ks hook cs seed rm =
     (let cs = run_hook hook ks0 cs
      in (cs, choose_by_weight C conv rm seed (cn_currentHeight cs) (getActiveValidatorsLocked ks cs)))"

definition SelectProposerV2 ::
  "crypto \<Rightarrow> (double \<Rightarrow> u64) \<Rightarrow> address list \<Rightarrow> address list \<Rightarrow> (ConsensusState \<Rightarrow> ConsensusState) option \<Rightarrow> ConsensusState
   \<Rightarrow> bytes \<Rightarrow> ReputationManager \<Rightarrow> ConsensusState \<times> (v2_error, address) result" where
  "SelectProposerV2 C conv ks0 ks hook cs seed rm =
     (let cs = run_hook hook ks0 cs
      in (cs, choose_by_weight C conv rm seed (cn_currentHeight cs) (getActiveValidatorsLocked ks cs)))"

definition ValidateProposerV2 ::
  "crypto \<Rightarrow> (double \<Rightarrow> u64) \<Rightarrow> address list \<Rightarrow> address list \<Rightarrow> (ConsensusState \<Rightarrow> ConsensusState) option \<Rightarrow> ConsensusState
   \<Rightarrow> address \<Rightarrow> bytes \<Rightarrow> ReputationManager \<Rightarrow> ConsensusState \<times> (v2_error, unit) result" where
  "ValidateProposerV2 C conv ks0 ks hook cs proposer seed rm =
     (let (cs, r) = selectProposerV2Locked C conv ks0 ks hook cs seed rm
      in (cs, rbind r (\<lambda>expected. if expected \<noteq> proposer then Inl (V2BadProposer expected proposer) else Inr ())))"

record V2VerificationResult = ProposerVerificationResult +
  pv_Probability :: double

text \<open>\<open>ks2\<close> is the order in which the last loop ranges over the map of validators.\<close>

definition VerifyReputationBasedSelection ::
  "crypto \<Rightarrow> (double \<Rightarrow> u64) \<Rightarrow> address list \<Rightarrow> address list \<Rightarrow> address list \<Rightarrow> (ConsensusState \<Rightarrow> ConsensusState) option
   \<Rightarrow> ConsensusState \<Rightarrow> address \<Rightarrow> bytes \<Rightarrow> ReputationManager \<Rightarrow> ConsensusState \<times> V2VerificationResult" where
  "VerifyReputationBasedSelection C conv ks0 ks ks2 hook cs proposer seed rm =
     (let result = \<lparr>pv_Valid = False, pv_Bootstrap = False, pv_Error = [], pv_ExpectedProposer = 0, pv_Stake = 0,
                    pv_TotalStake = 0, pv_Probability = Number 0\<rparr>;
          (cs, r) = selectProposerV2Locked C conv ks0 ks hook cs seed rm
      in case r of
           Inl _ \<Rightarrow> (cs, result\<lparr>pv_Error := ''failed to select proposer''\<rparr>)
         | Inr expected \<Rightarrow>
             let result = result\<lparr>pv_ExpectedProposer := expected\<rparr> in
             if proposer \<noteq> expected then (cs, result\<lparr>pv_Error := ''proposer mismatch''\<rparr>)
             else case cn_validators cs proposer of
               None \<Rightarrow> (cs, result\<lparr>pv_Error := ''not in validator set''\<rparr>)
             | Some v \<Rightarrow>
                 let effective = double_mul (double_of_u64 (v_Stake v))
                                   (CalculateWeightMultiplier (GetAverageScore rm proposer));
                     totalWeight = weights_total (map (validator_weight rm) (getActiveValidatorsLocked ks2 cs))
                 in (cs, result\<lparr>pv_Valid := True, pv_Stake := v_Stake v, pv_TotalStake := getTotalStakeLocked ks2 cs,
                                pv_Probability := double_div effective totalWeight\<rparr>))"

section \<open>Genesis and rewards\<close>

definition BlockRewardSatoshi :: u64 where
  "BlockRewardSatoshi = 50 * 100000000"

definition MinStakeV2Satoshi :: u64 where
  "MinStakeV2Satoshi = 1000 * 100000000"

definition InitialNodeCount :: nat where
  "InitialNodeCount = 100"

definition InitialNodeStake :: u64 where
  "InitialNodeStake = 1000"

definition GetV2Config :: PoSConfig where
  "GetV2Config =
     \<lparr>pc_EpochLength = 314, pc_MinStake = MinStakeV2Satoshi, pc_BlockReward = BlockRewardSatoshi,
      pc_MaxValidators = int InitialNodeCount, pc_StakeLockPeriod = 20160, pc_EpochDuration = 0,
      pc_BaseFeePerByte = 0, pc_PriorityFeePerByte = 0\<rparr>"

definition key_address :: "bytes \<Rightarrow> address" where
  "key_address pubKey = hash_of_bytes (take 32 (pubKey @ replicate 32 0))"

text \<open>\<open>order i\<close> is the order of the map when the queue is rebuilt after key \<open>i\<close>. An error leaves what was added.\<close>

fun add_genesis ::
  "(nat \<Rightarrow> address list) \<Rightarrow> nat \<Rightarrow> bytes list \<Rightarrow> ConsensusState \<Rightarrow> ConsensusState \<times> (v2_error, unit) result" where
  "add_genesis order i [] cs = (cs, Inr ())"
| "add_genesis order i (k # ks) cs =
     (case AddValidator (order i) cs (key_address k) (InitialNodeStake * 100000000) k of
        Inl e \<Rightarrow> (cs, Inl (V2AddValidator i e))
      | Inr cs' \<Rightarrow> add_genesis order (Suc i) ks cs')"

definition InitGenesisValidators ::
  "(nat \<Rightarrow> address list) \<Rightarrow> ConsensusState \<Rightarrow> bytes list \<Rightarrow> ConsensusState \<times> (v2_error, unit) result" where
  "InitGenesisValidators order cs keys =
     (if length keys \<noteq> InitialNodeCount then (cs, Inl (V2KeyCount (length keys)))
      else add_genesis order 0 keys (cs\<lparr>cn_config := GetV2Config\<rparr>))"

definition CalculateBlockRewardsV2 :: "(double \<Rightarrow> u64) \<Rightarrow> u64 \<times> u64" where
  "CalculateBlockRewardsV2 conv =
     (let totalReward = double_of_u64 BlockRewardSatoshi in
      (u64_of_double conv (double_mul totalReward (round_double (6 / 10))),
       u64_of_double conv (double_mul totalReward (round_double (4 / 10)))))"

definition NewAddressFromPublicKey :: "crypto \<Rightarrow> bytes \<Rightarrow> address" where
  "NewAddressFromPublicKey C pubKey = AddressFromPublicKey C pubKey"

definition CreateCoinbaseV2 :: "crypto \<Rightarrow> (double \<Rightarrow> u64) \<Rightarrow> hash \<Rightarrow> u64 \<Rightarrow> Transaction" where
  "CreateCoinbaseV2 C conv proposer blockHeight =
     (let (stakingReward, inferenceReward) = CalculateBlockRewardsV2 conv;
          addr = NewAddressFromPublicKey C (hash_bytes proposer)
      in \<lparr>tx_Version = 2,
          tx_Inputs = [\<lparr>ti_TxHash = 0, ti_Index = 0xffffffff,
                        ti_Signature = string_bytes (''coinbase_v2_height_'' @ dec_string (unat blockHeight)),
                        ti_PublicKey = hash_bytes proposer\<rparr>],
          tx_Outputs = [\<lparr>to_Value = stakingReward, to_Script = string_bytes ''staking'', to_Address = addr\<rparr>,
                        \<lparr>to_Value = inferenceReward, to_Script = string_bytes ''inference'', to_Address = addr\<rparr>],
          tx_LockTime = 0, tx_Sequence = blockHeight\<rparr>)"

text \<open>The hash that counts as the work of inference.\<close>

definition GenerateInferencePoW :: "crypto \<Rightarrow> hash \<Rightarrow> hash \<Rightarrow> u64 \<Rightarrow> bytes" where
  "GenerateInferencePoW C proposer prevBlockHash height =
     hash_bytes (sha256 C (hash_bytes proposer @ hash_bytes prevBlockHash @ put_u64_be height @ string_bytes ''PoAIW-v2''))"

end
