(* ===== verification/Validator.thy ===== *)
theory Validator
  imports Chain Reputation
begin

text \<open>
  \<^verbatim>\<open>pkg/utxo/validator.go\<close>: the validators of blocks and transactions that stand beside the chain, with the check of
  the proof of inference work. A validator is its output provider and its consensus state, each of which may be
  missing; the clock is an argument (\<open>nowUnix\<close>). Errors carry what the messages name.
\<close>

datatype validator_error =
    VaPanic
  | VaVersionZero
  | VaFuture
  | VaNoProposer
  | VaNoSignature
  | VaNoInferencePoW
  | VaNoModel
  | VaBadInferencePoW
  | VaLowStake
  | VaNoInputs
  | VaNoOutputs
  | VaBadSignature nat
  | VaNoOutput nat
  | VaFee tx_error
  | VaFeeTooLow u64
  | VaCoinbaseInputs
  | VaCoinbaseHash
  | VaCoinbaseIndex
  | VaCoinbaseOutputs
  | VaTransaction nat validator_error
  | VaMerkle
  | VaHash
  | VaTooFar u64 u64
  | VaNoParent u64
  | VaParent chain_error
  | VaPrevHash
  | VaNotAfterParent
  | VaHeight
  | VaNotGenesis
  | VaChain chain_error
  | VaNoKey nat
  | VaWrongOwner nat
  | VaDoubleSpend nat nat

section \<open>Proof of inference work\<close>

text \<open>The comparison byte by byte of two slices of the same length.\<close>

definition verifyInferencePoW :: "crypto \<Rightarrow> BlockHeader \<Rightarrow> bool" where
  "verifyInferencePoW C header \<longleftrightarrow>
     \<not> length (bh_InferencePoW header) < 32 \<and>
     (let expected = GenerateInferencePoW C (bh_Proposer header) (bh_PrevBlockHash header) (bh_Height header) in
      length expected = length (bh_InferencePoW header)
      \<and> list_all2 (=) expected (bh_InferencePoW header))"

definition verifyMinStake :: "ConsensusState option \<Rightarrow> address \<Rightarrow> bool" where
  "verifyMinStake consensus proposer =
     (case consensus of
        None \<Rightarrow> True
      | Some cs \<Rightarrow> (case GetValidator cs proposer of Inl _ \<Rightarrow> False | Inr v \<Rightarrow> v_Stake v \<ge> MinStakeV2Satoshi))"

definition validatePoAIW :: "crypto \<Rightarrow> ConsensusState option \<Rightarrow> Block \<Rightarrow> (validator_error, unit) result" where
  "validatePoAIW C consensus block =
     (let h = bl_Header block in
      if bh_Version h < 2 then Inr ()
      else if length (bh_InferencePoW h) = 0 then Inl VaNoInferencePoW
      else if bh_ModelID h = [] then Inl VaNoModel
      else if \<not> verifyInferencePoW C h then Inl VaBadInferencePoW
      else if \<not> verifyMinStake consensus (bh_Proposer h) then Inl VaLowStake
      else Inr ())"

section \<open>The default validator\<close>

record DefaultBlockValidator =
  dv_utxoProvider :: "utxo_provider option"
  dv_consensus :: "ConsensusState option"

definition NewDefaultBlockValidator :: "utxo_provider option \<Rightarrow> ConsensusState option \<Rightarrow> DefaultBlockValidator" where
  "NewDefaultBlockValidator utxoProvider consensus = \<lparr>dv_utxoProvider = utxoProvider, dv_consensus = consensus\<rparr>"

definition ValidateHeader :: "u64 \<Rightarrow> BlockHeader \<Rightarrow> (validator_error, unit) result" where
  "ValidateHeader nowUnix header =
     (if bh_Version header = 0 then Inl VaVersionZero
      else if bh_Timestamp header > nowUnix + 300 then Inl VaFuture
      else if bh_Proposer header = 0 then Inl VaNoProposer
      else if length (bh_Signature header) = 0 then Inl VaNoSignature
      else Inr ())"

definition validateCoinbase :: "Transaction \<Rightarrow> (validator_error, unit) result" where
  "validateCoinbase tx =
     (if length (tx_Inputs tx) \<noteq> 1 then Inl VaCoinbaseInputs
      else if ti_TxHash (tx_Inputs tx ! 0) \<noteq> 0 then Inl VaCoinbaseHash
      else if ti_Index (tx_Inputs tx ! 0) \<noteq> 0xffffffff then Inl VaCoinbaseIndex
      else if length (tx_Outputs tx) = 0 then Inl VaCoinbaseOutputs
      else Inr ())"

fun check_input_signatures :: "crypto \<Rightarrow> Transaction \<Rightarrow> nat list \<Rightarrow> (validator_error, unit) result" where
  "check_input_signatures C tx [] = Inr ()"
| "check_input_signatures C tx (i # is) =
     (case VerifyInput C tx (int i) of
        None \<Rightarrow> Inl VaPanic
      | Some ok \<Rightarrow> if \<not> ok then Inl (VaBadSignature i) else check_input_signatures C tx is)"

fun outputs_exist :: "utxo_provider \<Rightarrow> nat \<Rightarrow> TXInput list \<Rightarrow> (validator_error, unit) result" where
  "outputs_exist prov i [] = Inr ()"
| "outputs_exist prov i (inp # ins) =
     (if prov (ti_TxHash inp) (ti_Index inp) = None then Inl (VaNoOutput i) else outputs_exist prov (Suc i) ins)"

definition ValidateTransactionFees :: "Transaction \<Rightarrow> utxo_provider \<Rightarrow> (validator_error, unit) result" where
  "ValidateTransactionFees tx prov =
     (if IsCoinbase tx then Inr ()
      else case GetFee prov tx of
        Inl e \<Rightarrow> Inl (VaFee e)
      | Inr fee \<Rightarrow> if fee < MinTransactionFee then Inl (VaFeeTooLow fee) else Inr ())"

definition validator_ValidateTransaction ::
  "crypto \<Rightarrow> DefaultBlockValidator \<Rightarrow> Transaction \<Rightarrow> (validator_error, unit) result" where
  "validator_ValidateTransaction C v tx =
     (if IsCoinbase tx then validateCoinbase tx
      else if length (tx_Inputs tx) = 0 then Inl VaNoInputs
      else if length (tx_Outputs tx) = 0 then Inl VaNoOutputs
      else rbind (check_input_signatures C tx [0..<length (tx_Inputs tx)]) (\<lambda>_.
        case dv_utxoProvider v of
          None \<Rightarrow> Inr ()
        | Some prov \<Rightarrow>
            rbind (outputs_exist prov 0 (tx_Inputs tx)) (\<lambda>_.
              case GetFee prov tx of
                Inl e \<Rightarrow> Inl (VaFee e)
              | Inr fee \<Rightarrow> if fee < MinTransactionFee then Inl (VaFeeTooLow fee) else Inr ())))"

fun validator_transactions ::
  "crypto \<Rightarrow> DefaultBlockValidator \<Rightarrow> nat \<Rightarrow> Transaction list \<Rightarrow> (validator_error, unit) result" where
  "validator_transactions C v i [] = Inr ()"
| "validator_transactions C v i (tx # txs) =
     (case validator_ValidateTransaction C v tx of
        Inl e \<Rightarrow> Inl (VaTransaction i e)
      | Inr _ \<Rightarrow> validator_transactions C v (Suc i) txs)"

definition validator_ValidateBlock ::
  "crypto \<Rightarrow> u64 \<Rightarrow> DefaultBlockValidator \<Rightarrow> Block \<Rightarrow> (validator_error, unit) result" where
  "validator_ValidateBlock C nowUnix v block =
     rbind (ValidateHeader nowUnix (bl_Header block)) (\<lambda>_.
     rbind (validatePoAIW C (dv_consensus v) block) (\<lambda>_.
     rbind (validator_transactions C v 0 (bl_Transactions block)) (\<lambda>_.
       if CalculateMerkleRoot C block \<noteq> bh_MerkleRoot (bl_Header block) then Inl VaMerkle
       else if CalculateHash C block \<noteq> bl_Hash block then Inl VaHash
       else Inr ())))"

section \<open>The validator with a chain\<close>

definition validateGenesis :: "Block \<Rightarrow> (validator_error, unit) result" where
  "validateGenesis block =
     (if \<not> IsGenesis block then Inl VaNotGenesis
      else if bh_PrevBlockHash (bl_Header block) \<noteq> 0 then Inl VaPrevHash
      else Inr ())"

definition ValidateBlockWithContext ::
  "crypto \<Rightarrow> 'd bbolt \<Rightarrow> chain_env \<Rightarrow> 'd ChainState \<Rightarrow> Block
   \<Rightarrow> 'd ChainState \<times> Block \<times> (validator_error, unit) result" where
  "ValidateBlockWithContext C B ev cs block =
     (let (cs, block, r) = chain_ValidateBlock C B ev cs block in
      (cs, block, case r of Inl e \<Rightarrow> Inl (VaChain e) | Inr _ \<Rightarrow> Inr ()))"

definition ValidateBlockForInsertion ::
  "crypto \<Rightarrow> 'd bbolt \<Rightarrow> chain_env \<Rightarrow> 'd ChainState \<Rightarrow> Block
   \<Rightarrow> 'd ChainState \<times> Block \<times> (validator_error, unit) result" where
  "ValidateBlockForInsertion C B ev cs block =
     (let h = bl_Header block; currentHeight = GetBestBlockHeight cs in
      if bh_Height h > currentHeight + 1 then (cs, block, Inl (VaTooFar (bh_Height h) currentHeight))
      else if bh_Height h = 0 then (cs, block, validateGenesis block)
      else if \<not> HasBlock cs (bh_Height h - 1) then (cs, block, Inl (VaNoParent (bh_Height h - 1)))
      else case GetBlockByHeight C B cs (bh_Height h - 1) of
        Inl e \<Rightarrow> (cs, block, Inl (VaParent e))
      | Inr parent \<Rightarrow>
          if bh_PrevBlockHash h \<noteq> bl_Hash parent then (cs, block, Inl VaPrevHash)
          else if bh_Timestamp h \<le> bh_Timestamp (bl_Header parent) then (cs, block, Inl VaNotAfterParent)
          else if bh_Height h \<noteq> bh_Height (bl_Header parent) + 1 then (cs, block, Inl VaHeight)
          else ValidateBlockWithContext C B ev cs block)"

section \<open>Errors and helpers\<close>

record ValidationError =
  ver_Code :: string
  ver_Message :: string
  ver_Cause :: "string option"

definition ValidationError_Error :: "ValidationError \<Rightarrow> string" where
  "ValidationError_Error e =
     (case ver_Cause e of
        Some cause \<Rightarrow> ver_Code e @ '': '' @ ver_Message e @ '' (caused by: '' @ cause @ '')''
      | None \<Rightarrow> ver_Code e @ '': '' @ ver_Message e)"

definition ValidationError_Unwrap :: "ValidationError \<Rightarrow> string option" where
  "ValidationError_Unwrap e = ver_Cause e"

definition IsValidTimestamp :: "u64 \<Rightarrow> u64 \<Rightarrow> u64 \<Rightarrow> bool" where
  "IsValidTimestamp nowUnix timestamp parentTimestamp =
     (if timestamp \<le> parentTimestamp then False
      else if timestamp > nowUnix + 300 then False
      else if sint ((timestamp - parentTimestamp) * 1000000000) < MinBlockTime then False
      else True)"

fun check_owned_inputs ::
  "crypto \<Rightarrow> utxo_provider \<Rightarrow> Transaction \<Rightarrow> nat \<Rightarrow> TXInput list \<Rightarrow> (validator_error, unit) result" where
  "check_owned_inputs C prov tx i [] = Inr ()"
| "check_owned_inputs C prov tx i (inp # ins) =
     (case prov (ti_TxHash inp) (ti_Index inp) of
        None \<Rightarrow> Inl (VaNoOutput i)
      | Some utxo \<Rightarrow>
          if length (ti_PublicKey inp) = 0 then Inl (VaNoKey i)
          else case VerifyInput C tx (int i) of
            None \<Rightarrow> Inl VaPanic
          | Some ok \<Rightarrow>
              if \<not> ok then Inl (VaBadSignature i)
              else if AddressFromPublicKey C (ti_PublicKey inp) \<noteq> u_Address utxo then Inl (VaWrongOwner i)
              else check_owned_inputs C prov tx (Suc i) ins)"

definition ValidateTransactionInputs ::
  "crypto \<Rightarrow> Transaction \<Rightarrow> utxo_provider \<Rightarrow> (validator_error, unit) result" where
  "ValidateTransactionInputs C tx prov =
     (if IsCoinbase tx then Inr () else check_owned_inputs C prov tx 0 (tx_Inputs tx))"

fun mark_spends :: "nat \<Rightarrow> nat \<Rightarrow> TXInput list \<Rightarrow> string set \<Rightarrow> (validator_error, string set) result" where
  "mark_spends i j [] seen = Inr seen"
| "mark_spends i j (inp # ins) seen =
     (if input_key inp \<in> seen then Inl (VaDoubleSpend i j)
      else mark_spends i (Suc j) ins (insert (input_key inp) seen))"

fun double_spend_loop :: "nat \<Rightarrow> Transaction list \<Rightarrow> string set \<Rightarrow> (validator_error, unit) result" where
  "double_spend_loop i [] seen = Inr ()"
| "double_spend_loop i (tx # txs) seen =
     (if IsCoinbase tx then double_spend_loop (Suc i) txs seen
      else rbind (mark_spends i 0 (tx_Inputs tx) seen) (\<lambda>seen. double_spend_loop (Suc i) txs seen))"

definition CheckForDoubleSpend :: "Transaction list \<Rightarrow> (validator_error, unit) result" where
  "CheckForDoubleSpend txs = double_spend_loop 0 txs {}"

record BlockAcceptanceResult =
  ba_CanAccept :: bool
  ba_Reason :: string

definition EvaluateBlockAcceptance ::
  "crypto \<Rightarrow> 'd bbolt \<Rightarrow> 'd ChainState \<Rightarrow> Block \<Rightarrow> BlockAcceptanceResult" where
  "EvaluateBlockAcceptance C B cs block =
     (let h = bl_Header block;
          known = (HasBlock cs (bh_Height h)
                   \<and> (case GetBlockByHeight C B cs (bh_Height h) of Inl _ \<Rightarrow> False | Inr existing \<Rightarrow> bl_Hash existing = bl_Hash block))
      in if known then \<lparr>ba_CanAccept = False, ba_Reason = ''block already in chain''\<rparr>
         else if bh_Height h > cs_bestHeight cs + 1
         then \<lparr>ba_CanAccept = False,
               ba_Reason = ''block height '' @ dec_string (unat (bh_Height h)) @ '' is too far ahead (current: ''
                 @ dec_string (unat (cs_bestHeight cs)) @ '')''\<rparr>
         else if bh_Height h = cs_bestHeight cs + 1 \<and> bh_PrevBlockHash h \<noteq> cs_bestHash cs
         then \<lparr>ba_CanAccept = False, ba_Reason = ''block does not extend current best chain''\<rparr>
         else \<lparr>ba_CanAccept = True, ba_Reason = []\<rparr>)"

end
