(* ===== verification/Validator_Runs.thy ===== *)
theory Validator_Runs
  imports Validator Mempool
begin

text \<open>
  Properties of the validators: what the checks of transactions look at, what the check for double spends decides, and
  what the proof of inference work proves.
\<close>

section \<open>The owner of an output\<close>

text \<open>The checks of the chain and of the default validator see an output's value and nothing else of it.\<close>

definition same_values :: "utxo_provider \<Rightarrow> utxo_provider \<Rightarrow> bool" where
  "same_values p q \<longleftrightarrow> (\<forall>h i. map_option u_Value (p h i) = map_option u_Value (q h i))"

lemma same_values_None: "same_values p q \<Longrightarrow> p h i = None \<longleftrightarrow> q h i = None"
  by (metis same_values_def option.map_disc_iff)

lemma same_values_add: "same_values p q \<Longrightarrow> add_input_values p ins tot = add_input_values q ins tot"
proof (induction ins arbitrary: tot)
  case (Cons inp ins)
  have "map_option u_Value (p (ti_TxHash inp) (ti_Index inp)) = map_option u_Value (q (ti_TxHash inp) (ti_Index inp))"
    using Cons.prems by (simp add: same_values_def)
  then show ?case
    using Cons.IH [OF Cons.prems] by (auto split: option.splits)
qed simp

lemma same_values_fee: "same_values p q \<Longrightarrow> GetFee p tx = GetFee q tx"
  by (simp add: GetFee_def GetInputsValue_def same_values_add)

lemma same_values_exist:
  "same_values p q \<Longrightarrow> outputs_exist p i ins = outputs_exist q i ins"
  "same_values p q \<Longrightarrow> inputs_exist p i j ins = inputs_exist q i j ins"
proof -
  assume s: "same_values p q"
  show "outputs_exist p i ins = outputs_exist q i ins"
    by (induction ins arbitrary: i) (simp_all add: same_values_None [OF s])
  show "inputs_exist p i j ins = inputs_exist q i j ins"
    by (induction ins arbitrary: j) (simp_all add: same_values_None [OF s])
qed

lemma same_values_txs: "same_values p q \<Longrightarrow> validate_txs C (Some p) i txs = validate_txs C (Some q) i txs"
  by (induction txs arbitrary: i) (simp_all add: same_values_exist same_values_fee split: option.split)

lemma same_values_reserve:
  "same_values p q \<Longrightarrow> reserve_inputs C p tx spent i ins = reserve_inputs C q tx spent i ins"
proof (induction ins arbitrary: spent i)
  case (Cons inp ins)
  then show ?case
    using same_values_None [OF Cons.prems, of "ti_TxHash inp" "ti_Index inp"]
    by (auto simp: Let_def split: option.split bool.split)
qed simp

text \<open>No check a node makes looks at whom an output belongs to. The mempool, the validation of a block's transactions
  and the default validator give the same results for two views of the outputs that agree on which outputs exist and
  what each is worth, whatever addresses and scripts the two views give them.\<close>

theorem owner_never_looked_at:
  assumes "\<And>h i. map_option u_Value (p h i) = map_option u_Value (q h i)"
  shows "AddTransaction C now p m tx = AddTransaction C now q m tx
    \<and> validateBlockTransactions C era (Some p) b = validateBlockTransactions C era (Some q) b
    \<and> validator_ValidateTransaction C \<lparr>dv_utxoProvider = Some p, dv_consensus = cs\<rparr> tx
      = validator_ValidateTransaction C \<lparr>dv_utxoProvider = Some q, dv_consensus = cs\<rparr> tx"
proof -
  have s: "same_values p q" using assms by (simp add: same_values_def)
  have "AddTransaction C now p m tx = AddTransaction C now q m tx"
    by (simp add: AddTransaction_def Let_def same_values_reserve [OF s] same_values_fee [OF s]
        split: prod.split option.split)
  moreover have "validateBlockTransactions C era (Some p) b = validateBlockTransactions C era (Some q) b"
    by (simp add: validateBlockTransactions_def Let_def same_values_txs [OF s])
  moreover have "validator_ValidateTransaction C \<lparr>dv_utxoProvider = Some p, dv_consensus = cs\<rparr> tx
      = validator_ValidateTransaction C \<lparr>dv_utxoProvider = Some q, dv_consensus = cs\<rparr> tx"
    by (simp add: validator_ValidateTransaction_def same_values_fee [OF s] same_values_exist [OF s])
  ultimately show ?thesis by blast
qed

theorem owner_never_looked_at_witness:
  "AddTransaction pool_crypto 0 sample_provider (NewMempool 5 1) signed_tx
   = AddTransaction pool_crypto 0 (\<lambda>h i. map_option (\<lambda>u. u\<lparr>u_Address := 77\<rparr>) (sample_provider h i)) (NewMempool 5 1) signed_tx"
  using owner_never_looked_at [of sample_provider "\<lambda>h i. map_option (\<lambda>u. u\<lparr>u_Address := 77\<rparr>) (sample_provider h i)"]
  by (simp add: option.map_comp comp_def)

text \<open>So any key spends any output.\<close>

lemma check_owned_single:
  assumes "tx_Inputs tx = [inp]" and "\<not> IsCoinbase tx" and "prov (ti_TxHash inp) (ti_Index inp) = Some u"
    and "ti_PublicKey inp \<noteq> []" and "VerifyInput C tx 0 = Some True"
  shows "ValidateTransactionInputs C tx prov =
    (if AddressFromPublicKey C (ti_PublicKey inp) = u_Address u then Inr () else Inl (VaWrongOwner 0))"
  using assms by (simp add: ValidateTransactionInputs_def)

lemma sign_single:
  assumes "tx_Inputs t = [inp]" and "key_pair C priv"
  shows "SignInput C t 0 priv = Inr (t\<lparr>tx_Inputs := [inp\<lparr>ti_Signature := ed_sign C priv (SerializeForSigning t),
    ti_PublicKey := ed25519_Public priv\<rparr>]\<rparr>)"
  using assms(1) by (simp add: SignInput_def key_pair_verifies(1) [OF assms(2)])

text \<open>C4. Any key spends any output. Whoever holds a key pair signs a transaction that moves an existing output, of
  whatever owner, to outputs of their choice that leave the minimal fee. An empty mempool admits it, the validation of
  a block's transactions and the default validator accept it; only \<^verbatim>\<open>ValidateTransactionInputs\<close>, which compares the
  key's address with the owner, refuses it, and no node calls that function.\<close>

theorem any_key_spends:
  assumes key: "key_pair C priv" and out: "prov (ti_TxHash inp) (ti_Index inp) = Some u"
    and inp: "ti_TxHash inp \<noteq> 0" and outs: "outs \<noteq> []" "exact_sum (map to_Value outs) + 100 \<le> unat (u_Value u)"
    and pool: "0 < maxSize" "minFee \<le> MinTransactionFee"
  shows "\<exists>tx. SignInput C (NewTransaction [inp] outs) 0 priv = Inr tx \<and> tx_Outputs tx = outs
    \<and> fst (AddTransaction C now prov (NewMempool maxSize minFee) tx) = None
    \<and> validate_txs C (Some prov) i [tx] = Inr ()
    \<and> validator_ValidateTransaction C \<lparr>dv_utxoProvider = Some prov, dv_consensus = cs\<rparr> tx = Inr ()
    \<and> ValidateTransactionInputs C tx prov =
      (if AddressFromPublicKey C (ed25519_Public priv) = u_Address u then Inr () else Inl (VaWrongOwner 0))"
proof -
  let ?raw = "NewTransaction [inp] outs"
  let ?inp = "inp\<lparr>ti_Signature := ed_sign C priv (SerializeForSigning ?raw), ti_PublicKey := ed25519_Public priv\<rparr>"
  let ?tx = "?raw\<lparr>tx_Inputs := [?inp]\<rparr>"
  have new: "tx_Inputs ?raw = [inp]" "tx_Outputs ?raw = outs" by (simp_all add: NewTransaction_def)
  have sign: "SignInput C ?raw 0 priv = Inr ?tx"
    by (rule sign_single [OF new(1) key])
  have "SerializeForSigning ?tx = SerializeForSigning ?raw"
    using sign by (rule SerializeForSigning_SignInput)
  then have ver: "VerifyInput C ?tx 0 = Some True"
    using key_pair_verifies [OF key] by (simp add: VerifyInput_def)
  have nc: "\<not> IsCoinbase ?tx" using inp by (simp add: IsCoinbase_def)
  have tot: "unat (sum_list (map to_Value outs)) = exact_sum (map to_Value outs)"
    using outs(2) unsigned_less [of "u_Value u", where ?'a = nat] by (intro unat_sum_list) simp
  have le: "sum_list (map to_Value outs) \<le> u_Value u" using tot outs(2) by (simp add: word_le_nat_alt)
  have fee: "GetFee prov ?tx = Inr (u_Value u - sum_list (map to_Value outs))"
    using le out nc by (subst GetFee_Inr) (simp_all add: output_values_def input_values_def NewTransaction_def)
  have enough: "MinTransactionFee \<le> u_Value u - sum_list (map to_Value outs)"
    using tot outs(2) unat_minus_le [OF le] by (simp add: MinTransactionFee_def word_le_nat_alt)
  have "minFee \<le> u_Value u - sum_list (map to_Value outs)" using pool(2) enough by (rule order_trans)
  then have "fst (AddTransaction C now prov (NewMempool maxSize minFee) ?tx) = None"
    using pool(1) out ver fee by (simp add: AddTransaction_def NewMempool_def Let_def map_len_def map_get_def)
  moreover have "validate_txs C (Some prov) i [?tx] = Inr ()"
    using nc out ver fee enough by (simp add: VerifyAllInputs_def rbind_def not_less)
  moreover have "validator_ValidateTransaction C \<lparr>dv_utxoProvider = Some prov, dv_consensus = cs\<rparr> ?tx = Inr ()"
    using nc out ver fee enough outs(1)
    by (simp add: validator_ValidateTransaction_def rbind_def not_less NewTransaction_def)
  moreover have "ValidateTransactionInputs C ?tx prov =
      (if AddressFromPublicKey C (ed25519_Public priv) = u_Address u then Inr () else Inl (VaWrongOwner 0))"
    using check_owned_single [of ?tx ?inp prov u C] nc out ver key_pair_verifies(4) [OF key] by simp
  moreover have "tx_Outputs ?tx = outs" by (simp add: NewTransaction_def)
  ultimately show ?thesis using sign by blast
qed

definition rich_provider :: utxo_provider where
  "rich_provider h i = Some \<lparr>u_TxHash = h, u_Index = i, u_Value = 200, u_Script = [], u_Address = 4\<rparr>"

theorem any_key_spends_witness:
  "\<exists>tx. SignInput demo_crypto (NewTransaction [sample_input] [sample_output]) 0 (replicate 64 1) = Inr tx
    \<and> fst (AddTransaction demo_crypto 0 rich_provider (NewMempool 5 100) tx) = None
    \<and> validate_txs demo_crypto (Some rich_provider) 1 [tx] = Inr ()
    \<and> ValidateTransactionInputs demo_crypto tx rich_provider = Inl (VaWrongOwner 0)"
proof -
  let ?u = "\<lparr>u_TxHash = 7, u_Index = 1, u_Value = 200, u_Script = [], u_Address = 4\<rparr> :: UTXO"
  have key: "key_pair demo_crypto (replicate 64 1)"
    by (simp add: key_pair_def demo_crypto_def sample_crypto_def ed25519_Public_def)
  have "rich_provider (ti_TxHash sample_input) (ti_Index sample_input) = Some ?u"
    "ti_TxHash sample_input \<noteq> 0" "[sample_output] \<noteq> []"
    "exact_sum (map to_Value [sample_output]) + 100 \<le> unat (u_Value ?u)" "(0 :: int) < 5" "100 \<le> MinTransactionFee"
    by (simp_all add: rich_provider_def sample_input_def sample_output_def MinTransactionFee_def)
  from any_key_spends [where prov = rich_provider and inp = sample_input, OF key this, of 0 1] have *:
    "\<exists>tx. SignInput demo_crypto (NewTransaction [sample_input] [sample_output]) 0 (replicate 64 1) = Inr tx
      \<and> fst (AddTransaction demo_crypto 0 rich_provider (NewMempool 5 100) tx) = None
      \<and> validate_txs demo_crypto (Some rich_provider) 1 [tx] = Inr ()
      \<and> ValidateTransactionInputs demo_crypto tx rich_provider =
        (if AddressFromPublicKey demo_crypto (ed25519_Public (replicate 64 1)) = u_Address ?u then Inr () else Inl (VaWrongOwner 0))"
    by blast
  have "AddressFromPublicKey demo_crypto (ed25519_Public (replicate 64 1)) \<noteq> u_Address ?u"
    by (simp add: AddressFromPublicKey_def demo_crypto_def)
  with * show ?thesis by (simp only: if_False)
qed

section \<open>Double spends\<close>

lemma mark_spends_eq:
  "mark_spends i j ins seen = Inr seen' \<longleftrightarrow>
     distinct (map input_key ins) \<and> set (map input_key ins) \<inter> seen = {} \<and> seen' = set (map input_key ins) \<union> seen"
  by (induction ins arbitrary: j seen) auto

lemma double_spend_loop_eq:
  "double_spend_loop i txs seen = Inr () \<longleftrightarrow>
     (let ks = concat (map (\<lambda>tx. map input_key (tx_Inputs tx)) (filter (\<lambda>tx. \<not> IsCoinbase tx) txs))
      in distinct ks \<and> set ks \<inter> seen = {})"
proof (induction txs arbitrary: i seen)
  case (Cons tx txs)
  show ?case
  proof (cases "IsCoinbase tx")
    case True
    then show ?thesis using Cons.IH by simp
  next
    case False
    define ks where "ks = concat (map (\<lambda>tx. map input_key (tx_Inputs tx)) (filter (\<lambda>tx. \<not> IsCoinbase tx) txs))"
    define ms where "ms = map input_key (tx_Inputs tx)"
    have "double_spend_loop i (tx # txs) seen = Inr () \<longleftrightarrow>
        (\<exists>seen'. mark_spends i 0 (tx_Inputs tx) seen = Inr seen' \<and> double_spend_loop (Suc i) txs seen' = Inr ())"
      using False by (simp add: rbind_def split: sum.split)
    also have "\<dots> \<longleftrightarrow> distinct ms \<and> set ms \<inter> seen = {} \<and> distinct ks \<and> set ks \<inter> (set ms \<union> seen) = {}"
      unfolding mark_spends_eq Cons.IH Let_def ks_def [symmetric] ms_def [symmetric] by blast
    also have "\<dots> \<longleftrightarrow> distinct (ms @ ks) \<and> set (ms @ ks) \<inter> seen = {}" by auto
    finally show ?thesis using False by (simp add: ks_def ms_def Let_def)
  qed
qed simp

text \<open>\<^verbatim>\<open>CheckForDoubleSpend\<close> decides exactly what it says: it accepts a list of transactions when no output
  is spent by two of the inputs of its transactions other than coinbases, within one transaction or across two.\<close>

theorem double_spend_check_exact:
  "CheckForDoubleSpend txs = Inr () \<longleftrightarrow>
     distinct (concat (map (\<lambda>tx. map (\<lambda>inp. (ti_TxHash inp, ti_Index inp)) (tx_Inputs tx))
       (filter (\<lambda>tx. \<not> IsCoinbase tx) txs)))"
proof -
  let ?txs = "filter (\<lambda>tx. \<not> IsCoinbase tx) txs" and ?key = "\<lambda>(h, i). UTXOKey h i"
  have "concat (map (\<lambda>tx. map input_key (tx_Inputs tx)) ?txs)
      = map ?key (concat (map (\<lambda>tx. map (\<lambda>inp. (ti_TxHash inp, ti_Index inp)) (tx_Inputs tx)) ?txs))"
    by (simp add: map_concat comp_def input_key_def [abs_def])
  moreover have "inj_on ?key A" for A by (auto simp: inj_on_def)
  ultimately show ?thesis
    by (simp add: CheckForDoubleSpend_def double_spend_loop_eq Let_def distinct_map)
qed

section \<open>Proof of inference work\<close>

text \<open>The work is a hash of what the header shows, so whoever writes the header has it for the price of one hash.\<close>

lemma inference_work_is_one_hash:
  "verifyInferencePoW C (h\<lparr>bh_InferencePoW := GenerateInferencePoW C (bh_Proposer h) (bh_PrevBlockHash h) (bh_Height h)\<rparr>)"
  by (simp add: verifyInferencePoW_def Let_def GenerateInferencePoW_def list.rel_eq [symmetric] list.rel_refl)

lemma inference_work_unique:
  "verifyInferencePoW C h \<Longrightarrow> bh_InferencePoW h = GenerateInferencePoW C (bh_Proposer h) (bh_PrevBlockHash h) (bh_Height h)"
  by (simp add: verifyInferencePoW_def Let_def list.rel_eq)

end
