(* ===== verification/Anchor.thy ===== *)
theory Anchor
  imports Block Staking KV_Store
begin

text \<open>
  \<^verbatim>\<open>pkg/utxo/anchor.go\<close> and \<^verbatim>\<open>pkg/utxo/anchor_index.go\<close>: release records in the scripts of outputs, and the index of the
  records seen on the chain. A Go string is its bytes.
\<close>

section \<open>Scripts\<close>

definition AnchorMagic :: byte where
  "AnchorMagic = 0xA1"

definition computeAnchorAddress :: "crypto \<Rightarrow> address" where
  "computeAnchorAddress C = sha256 C (string_bytes ''aib-release-anchor-v1'')"

datatype anchor_error = AnNotAnchor | AnVersion byte

definition BuildAnchorScript :: "bytes \<Rightarrow> hash \<Rightarrow> hash \<Rightarrow> bytes" where
  "BuildAnchorScript name binarySHA installerSHA =
     (let n = (if length name > 32 then 32 else length name) in
      [AnchorMagic, 2, of_nat n] @ take n name @ hash_bytes binarySHA @ hash_bytes installerSHA)"

definition ParseAnchorScript :: "bytes \<Rightarrow> (anchor_error, bytes \<times> hash \<times> hash) result" where
  "ParseAnchorScript script =
     (if length script < 3 then Inl AnNotAnchor
      else if script ! 0 \<noteq> AnchorMagic then Inl AnNotAnchor
      else let ver = script ! 1 in
        if ver \<noteq> 1 \<and> ver \<noteq> 2 then Inl (AnVersion ver)
        else let n = unat (script ! 2) in
          if n > 32 \<or> length script < 3 + n + 32 then Inl AnNotAnchor
          else Inr (take n (drop 3 script), hash_of_bytes (take 32 (drop (3 + n) script)),
                    if ver = 2 \<and> length script \<ge> 3 + n + 64
                    then hash_of_bytes (take 32 (drop (3 + n + 32) script)) else 0))"

definition IsAnchorOutput :: "TXOutput \<Rightarrow> bool" where
  "IsAnchorOutput out = (case ParseAnchorScript (to_Script out) of Inl _ \<Rightarrow> False | Inr _ \<Rightarrow> True)"

section \<open>The index\<close>

record ReleaseRecord =
  rr_Name :: bytes
  rr_SHA256 :: string
  rr_InstallerSHA256 :: string
  rr_Height :: u64
  rr_TxHash :: string

record AnchorIndex =
  ai_latest :: "ReleaseRecord option"
  ai_history :: "ReleaseRecord list"

definition NewAnchorIndex :: AnchorIndex where
  "NewAnchorIndex = \<lparr>ai_latest = None, ai_history = []\<rparr>"

definition hexIfSet :: "hash \<Rightarrow> string" where
  "hexIfSet sha = (if list_ex (\<lambda>b. b \<noteq> 0) (hash_bytes sha) then hex_string (hash_bytes sha) else [])"

definition release_record :: "crypto \<Rightarrow> u64 \<Rightarrow> Transaction \<Rightarrow> bytes \<times> hash \<times> hash \<Rightarrow> ReleaseRecord" where
  "release_record C height tx = (\<lambda>(name, binSHA, insSHA).
     \<lparr>rr_Name = name, rr_SHA256 = hex_string (hash_bytes binSHA), rr_InstallerSHA256 = hexIfSet insSHA,
      rr_Height = height, rr_TxHash = hex_string (hash_bytes (TxHash C tx))\<rparr>)"

fun scan_outputs :: "crypto \<Rightarrow> u64 \<Rightarrow> Transaction \<Rightarrow> AnchorIndex \<Rightarrow> TXOutput list \<Rightarrow> AnchorIndex" where
  "scan_outputs C height tx ai [] = ai"
| "scan_outputs C height tx ai (out # outs) =
     (if \<not> IsAnchorOutput out then scan_outputs C height tx ai outs
      else case ParseAnchorScript (to_Script out) of
        Inl _ \<Rightarrow> scan_outputs C height tx ai outs
      | Inr parsed \<Rightarrow>
          let rec = release_record C height tx parsed in
          scan_outputs C height tx
            (ai\<lparr>ai_history := ai_history ai @ [rec], ai_latest := Some rec\<rparr>) outs)"

definition ScanBlock :: "crypto \<Rightarrow> AnchorIndex \<Rightarrow> Block \<Rightarrow> AnchorIndex" where
  "ScanBlock C ai b =
     foldl (\<lambda>ai tx. scan_outputs C (bh_Height (bl_Header b)) tx ai (tx_Outputs tx)) ai (bl_Transactions b)"

definition Latest :: "AnchorIndex \<Rightarrow> ReleaseRecord option" where
  "Latest ai = ai_latest ai"

definition History :: "AnchorIndex \<Rightarrow> ReleaseRecord list" where
  "History ai = ai_history ai"

section \<open>Properties\<close>

lemma hexIfSet_eq: "hexIfSet sha = (if sha = 0 then [] else hex_string (hash_bytes sha))"
proof -
  have zero: "hash_bytes 0 = replicate 32 0"
    by code_simp
  have "hash_bytes sha = replicate 32 0" if "\<forall>b \<in> set (hash_bytes sha). b = 0"
    using replicate_length_same [OF that] by simp
  then have "list_ex (\<lambda>b. b \<noteq> 0) (hash_bytes sha) \<longleftrightarrow> hash_bytes sha \<noteq> hash_bytes 0"
    unfolding list_ex_iff zero by auto
  then show ?thesis by (simp add: hexIfSet_def)
qed

text \<open>Reading what was written gives the name, cut to 32 bytes, and both hashes.\<close>

lemma anchor_script_roundtrip:
  "ParseAnchorScript (BuildAnchorScript name b i @ junk) = Inr (take 32 name, b, i)"
proof (cases "length name > 32")
  case True
  then have "length (take 32 name) = 32" "(32 :: byte) = of_nat 32" by simp_all
  moreover have "unat (32 :: byte) = 32" by simp
  ultimately show ?thesis
    using True by (simp add: ParseAnchorScript_def BuildAnchorScript_def Let_def)
next
  case False
  then have "unat (of_nat (length name) :: byte) = length name" by (simp add: unat_of_nat)
  moreover have "drop (3 + length name) (x # y # z # name @ zs) = zs"
    and "drop (3 + length name + 32) (x # y # z # name @ hash_bytes b @ zs) = zs" for x y z and zs :: bytes
    by (simp_all add: drop_Cons')
  ultimately show ?thesis
    using False by (simp add: ParseAnchorScript_def BuildAnchorScript_def Let_def add.assoc)
qed

text \<open>All outputs of a sequence of blocks, in order, with the height and the transaction they stand in, and the record
  an output leaves in the index.\<close>

definition chain_outputs :: "Block list \<Rightarrow> (u64 \<times> Transaction \<times> TXOutput) list" where
  "chain_outputs blocks = concat (map (\<lambda>b. concat (map (\<lambda>tx.
     map (\<lambda>out. (bh_Height (bl_Header b), tx, out)) (tx_Outputs tx)) (bl_Transactions b))) blocks)"

definition is_anchor :: "u64 \<times> Transaction \<times> TXOutput \<Rightarrow> bool" where
  "is_anchor x = IsAnchorOutput (snd (snd x))"

definition output_records :: "crypto \<Rightarrow> (u64 \<times> Transaction \<times> TXOutput) list \<Rightarrow> ReleaseRecord list" where
  "output_records C xs = concat (map (\<lambda>(h, tx, out). case ParseAnchorScript (to_Script out) of
     Inl _ \<Rightarrow> [] | Inr parsed \<Rightarrow> [release_record C h tx parsed]) xs)"

lemma output_records_simps [simp]:
  "output_records C [] = []"
  "output_records C (xs @ ys) = output_records C xs @ output_records C ys"
  by (simp_all add: output_records_def)

lemma length_output_records: "length (output_records C xs) = length (filter is_anchor xs)"
  by (induction xs) (auto simp: output_records_def is_anchor_def IsAnchorOutput_def split: sum.splits)

definition add_records :: "AnchorIndex \<Rightarrow> ReleaseRecord list \<Rightarrow> AnchorIndex" where
  "add_records ai new =
     ai\<lparr>ai_history := ai_history ai @ new, ai_latest := if new = [] then ai_latest ai else Some (last new)\<rparr>"

lemma add_records_append [simp]: "add_records ai [] = ai" "add_records (add_records ai xs) ys = add_records ai (xs @ ys)"
  by (simp_all add: add_records_def)

lemma scan_outputs_eq:
  "scan_outputs C height tx ai outs = add_records ai (output_records C (map (\<lambda>out. (height, tx, out)) outs))"
proof (induction outs arbitrary: ai)
  case (Cons out outs)
  have "ai\<lparr>ai_history := ai_history ai @ [r], ai_latest := Some r\<rparr> = add_records ai [r]" for r
    by (simp add: add_records_def)
  with Cons show ?case
    by (auto simp: IsAnchorOutput_def output_records_def Let_def split: sum.splits)
qed simp

lemma ScanBlock_eq: "ScanBlock C ai b = add_records ai (output_records C (chain_outputs [b]))"
proof -
  have "foldl (\<lambda>ai tx. scan_outputs C h tx ai (tx_Outputs tx)) ai txs
      = add_records ai (output_records C (concat (map (\<lambda>tx. map (\<lambda>out. (h, tx, out)) (tx_Outputs tx)) txs)))" for h txs
    by (induction txs arbitrary: ai) (simp_all add: scan_outputs_eq)
  then show ?thesis by (simp add: ScanBlock_def chain_outputs_def)
qed

lemma ScanBlocks_eq: "foldl (ScanBlock C) ai blocks = add_records ai (output_records C (chain_outputs blocks))"
proof (induction blocks arbitrary: ai)
  case (Cons b blocks)
  then show ?case by (simp add: ScanBlock_eq chain_outputs_def)
qed (simp add: chain_outputs_def)

text \<open>C38. Anyone releases. However many blocks the index scans, its history grows by one record for every output with an
  anchor script, in the order of the outputs, and keeps what it had. Any output of any transaction whose script
  \<^verbatim>\<open>BuildAnchorScript\<close> made (with anything behind it) leaves its own name, cut to 32 bytes, its two hashes, its height
  and its transaction at its place of the history: who signed the transaction, what the output is worth and to which
  address it goes do not matter. When no output with an anchor script follows, \<^verbatim>\<open>Latest\<close> reports it as the release.\<close>

theorem anyone_releases:
  assumes "chain_outputs blocks = before @ (h, tx, out) # after"
    and "to_Script out = BuildAnchorScript name binary installer @ junk"
  shows "let ai' = foldl (ScanBlock C) ai blocks;
      anchors = (\<lambda>xs. length (filter (\<lambda>(h, tx, out). IsAnchorOutput out) xs));
      r = \<lparr>rr_Name = take 32 name, rr_SHA256 = hex_string (hash_bytes binary),
           rr_InstallerSHA256 = (if installer = 0 then [] else hex_string (hash_bytes installer)),
           rr_Height = h, rr_TxHash = hex_string (hash_bytes (TxHash C tx))\<rparr>
    in length (History ai') = length (History ai) + anchors (chain_outputs blocks)
      \<and> take (length (History ai)) (History ai') = History ai
      \<and> History ai' ! (length (History ai) + anchors before) = r
      \<and> (anchors after = 0 \<longrightarrow> Latest ai' = Some r)"
proof -
  let ?r = "\<lparr>rr_Name = take 32 name, rr_SHA256 = hex_string (hash_bytes binary),
      rr_InstallerSHA256 = (if installer = 0 then [] else hex_string (hash_bytes installer)),
      rr_Height = h, rr_TxHash = hex_string (hash_bytes (TxHash C tx))\<rparr>"
  have anch: "(\<lambda>(h, tx, out). IsAnchorOutput out) = is_anchor"
    by (auto simp: is_anchor_def)
  have "hexIfSet installer = (if installer = 0 then [] else hex_string (hash_bytes installer))"
    by (rule hexIfSet_eq)
  then have here: "output_records C [(h, tx, out)] = [?r]"
    using anchor_script_roundtrip [of name binary installer junk]
    by (simp add: output_records_def assms(2) release_record_def)
  have "output_records C (chain_outputs blocks) = output_records C before @ output_records C [(h, tx, out)] @ output_records C after"
    by (simp add: assms(1) flip: output_records_simps(2))
  then have all: "output_records C (chain_outputs blocks) = output_records C before @ ?r # output_records C after"
    unfolding here by simp
  have "output_records C after = []" if "length (filter is_anchor after) = 0"
    using that length_output_records [of C after] by simp
  then show ?thesis
    unfolding Let_def anch ScanBlocks_eq
    by (simp add: all add_records_def History_def Latest_def nth_append
        flip: length_output_records [of C])
qed

theorem anyone_releases_witness:
  "let out = (\<lambda>n. \<lparr>to_Value = 5, to_Script = BuildAnchorScript [118, n] 3 4, to_Address = 9\<rparr>);
       b = \<lparr>bl_Header = empty_header, bl_Transactions = [NewTransaction [] [out 49, out 50]], bl_Hash = 0, bl_SignedHash = 0\<rparr>;
       ai = foldl (ScanBlock sample_crypto) NewAnchorIndex [b]
   in (\<exists>r. Latest ai = Some r \<and> rr_Name r = [118, 50]) \<and> rr_Name (History ai ! 1) = [118, 50] \<and> length (History ai) = 2"
proof -
  let ?out = "\<lambda>n. \<lparr>to_Value = 5, to_Script = BuildAnchorScript [118, n] 3 4, to_Address = 9\<rparr>"
  let ?b = "\<lparr>bl_Header = empty_header, bl_Transactions = [NewTransaction [] [?out 49, ?out 50]], bl_Hash = 0, bl_SignedHash = 0\<rparr>"
  let ?tx = "NewTransaction [] [?out 49, ?out 50]"
  have "chain_outputs [?b] = [(0, ?tx, ?out 49)] @ (0, ?tx, ?out 50) # []" "to_Script (?out 50) = BuildAnchorScript [118, 50] 3 4 @ []"
    by (simp_all add: chain_outputs_def NewTransaction_def empty_header_def)
  from anyone_releases [OF this, of sample_crypto NewAnchorIndex]
  have "length (History (foldl (ScanBlock sample_crypto) NewAnchorIndex [?b])) = 2
      \<and> rr_Name (History (foldl (ScanBlock sample_crypto) NewAnchorIndex [?b]) ! 1) = [118, 50]
      \<and> (\<exists>r. Latest (foldl (ScanBlock sample_crypto) NewAnchorIndex [?b]) = Some r \<and> rr_Name r = [118, 50])"
    using anchor_script_roundtrip [of "[118, 49]" 3 4 "[]"] anchor_script_roundtrip [of "[118, 50]" 3 4 "[]"]
    by (simp add: Let_def IsAnchorOutput_def History_def NewAnchorIndex_def chain_outputs_def NewTransaction_def)
  then show ?thesis by (simp add: Let_def)
qed

text \<open>The magic byte of an anchor is the tag of a stake: every anchor output is an output that counts as stake.\<close>

lemma anchor_counts_as_stake:
  "IsAnchorOutput out \<Longrightarrow> IsStakeOutputTx out"
  by (auto simp: IsAnchorOutput_def ParseAnchorScript_def IsStakeOutputTx_def AnchorMagic_def StakeScriptTag_def
      split: if_splits)

end
