(* ===== verification/Reputation_Runs.thy ===== *)
theory Reputation_Runs
  imports Reputation
begin

text \<open>
  Properties of scores and of the choice of a proposer by weight: what a history of submitted scores leaves, bounds of
  averages and multipliers, and who is chosen.
\<close>

section \<open>The history of scores\<close>

definition submit_all :: "crypto \<Rightarrow> ReputationManager \<Rightarrow> ReputationScore option list \<Rightarrow> ReputationManager" where
  "submit_all C rm ss = foldl (\<lambda>rm s. case SubmitScore C rm s of Inl _ \<Rightarrow> rm | Inr rm' \<Rightarrow> rm') rm ss"

text \<open>Whether a score is accepted does not depend on the manager.\<close>

definition acceptable :: "crypto \<Rightarrow> ReputationScore option \<Rightarrow> bool" where
  "acceptable C score \<longleftrightarrow>
     (case score of
        None \<Rightarrow> False
      | Some s \<Rightarrow> VerifyScoreSignature C score
          \<and> \<not> double_less (score_value s) (Number 0) \<and> \<not> double_less (Number 10) (score_value s)
          \<and> sc_Reason (rs_Content s) \<in> set validReasons)"

definition scores_of :: "crypto \<Rightarrow> hash \<Rightarrow> ReputationScore option list \<Rightarrow> ReputationScore list" where
  "scores_of C node ss =
     map the (filter (\<lambda>s. acceptable C s \<and> sc_TargetPubKey (rs_Content (the s)) = node) ss)"

definition average :: "ReputationScore list \<Rightarrow> double" where
  "average scores =
     double_div (foldl (\<lambda>tot s. double_add tot (score_value s)) (Number 0) scores) (double_of_nat (length scores))"

lemma SubmitScore_cases:
  "SubmitScore C rm score = (if acceptable C score then Inr (add_score (the score) rm) else Inl
     (case score of None \<Rightarrow> RpNil | Some s \<Rightarrow>
        if \<not> VerifyScoreSignature C score then RpSignature
        else if double_less (score_value s) (Number 0) \<or> double_less (Number 10) (score_value s) then RpRange
        else RpReason (sc_Reason (rs_Content s))))"
  by (auto simp: SubmitScore_def acceptable_def split: option.split)

lemma add_score_scores:
  "map_get [] (rm_scores (add_score s rm)) node =
     map_get [] (rm_scores rm) node @ (if sc_TargetPubKey (rs_Content s) = node then [s] else [])"
  by (simp add: add_score_def recalculateAverage_def recordSpamRecord_def Let_def map_get_def)

lemma add_score_averages:
  "rm_averages (add_score s rm) node =
     (if sc_TargetPubKey (rs_Content s) = node then Some (average (map_get [] (rm_scores rm) node @ [s]))
      else rm_averages rm node)"
  by (simp add: add_score_def recalculateAverage_def recordSpamRecord_def Let_def map_get_def average_def)

lemma submit_all_snoc:
  "submit_all C rm (ss @ [s]) =
     (if acceptable C s then add_score (the s) (submit_all C rm ss) else submit_all C rm ss)"
  by (simp add: submit_all_def SubmitScore_cases)

lemma submit_all_scores: "map_get [] (rm_scores (submit_all C NewReputationManager ss)) node = scores_of C node ss"
proof (induction ss rule: rev_induct)
  case Nil
  show ?case by (simp add: submit_all_def scores_of_def NewReputationManager_def map_get_def)
next
  case (snoc s ss)
  then show ?case by (simp add: submit_all_snoc add_score_scores scores_of_def)
qed

lemma submit_all_averages:
  "rm_averages (submit_all C NewReputationManager ss) node =
     (if scores_of C node ss = [] then None else Some (average (scores_of C node ss)))"
proof (induction ss rule: rev_induct)
  case Nil
  show ?case by (simp add: submit_all_def scores_of_def NewReputationManager_def)
next
  case (snoc s ss)
  then show ?case
    by (auto simp: submit_all_snoc add_score_averages submit_all_scores scores_of_def)
qed

text \<open>The manager is the history of the scores handed to it: after any sequence of submissions, the scores of a node
  are those with a valid signature, an allowed reason and no value outside 0 to 10, in order and each as often as it
  was submitted, and the average is their sum by their number, or 5 without any.\<close>

theorem scores_are_history:
  "let rm = submit_all C NewReputationManager ss in
     GetScores rm node = scores_of C node ss \<and> GetScoreCount rm node = length (scores_of C node ss)
     \<and> GetAverageScore rm node = (if scores_of C node ss = [] then Number 5 else average (scores_of C node ss))"
  by (simp add: Let_def GetScores_def GetScoreCount_def GetAverageScore_def submit_all_scores submit_all_averages)

section \<open>Bounds\<close>

definition at_least :: "rat \<Rightarrow> double \<Rightarrow> bool" where
  "at_least a d = (case d of NaN \<Rightarrow> False | Infinity s \<Rightarrow> \<not> s | Number r \<Rightarrow> a \<le> r)"

lemma at_least_round:
  assumes "representable a" and "a \<le> x"
  shows "at_least a (round_double x)"
proof -
  have "0 \<le> x" using assms by (simp add: representable_def)
  moreover have "a \<le> round_abs x" using assms by (rule round_abs_ge)
  ultimately show ?thesis by (simp add: at_least_def round_double_def Let_def)
qed

lemma at_least_add:
  assumes "at_least a x" and "at_least b y" and "representable (a + b)"
  shows "at_least (a + b) (double_add x y)"
  using assms at_least_round [OF assms(3)]
  by (cases x; cases y) (auto simp: at_least_def [of a] at_least_def [of b] at_least_def [of _ "Infinity _"])

lemma at_least_mul:
  assumes "at_least a x" and "at_least b y" and "0 < a" and "0 < b" and "representable (a * b)"
  shows "at_least (a * b) (double_mul x y)"
proof (cases x; cases y)
  fix r s
  assume xy: "x = Number r" "y = Number s"
  then have "a * b \<le> r * s" using assms(1-4) by (intro mult_mono) (auto simp: at_least_def)
  then show ?thesis using at_least_round [OF assms(5)] xy by simp
qed (use assms in \<open>auto simp: at_least_def\<close>)

lemma representable_numerals:
  "representable 0" "representable (1 / 2)" "representable 1" "representable (3 / 2)" "representable 5"
  "representable 10" "representable 100000000000" "representable 200000000000" "representable 184467440738"
  "representable (2 ^ 64)" "representable 100000000"
  using representable_nat [of 0] representable_nat [of 1] representable_nat [of 5] representable_nat [of 10]
    representable_nat [of 100000000000] representable_nat [of 200000000000] representable_nat [of 184467440738]
    representable_scaled [of 1 "- 1"] representable_scaled [of 3 "- 1"] representable_scaled [of 1 64]
    representable_nat [of 100000000]
  by (simp_all add: pow2_def)

lemma foldl_scores_bounded:
  assumes "length xs < 2 ^ 49" and "\<forall>x \<in> set xs. \<exists>v. x = Number v \<and> 0 \<le> v \<and> v \<le> 10"
  shows "\<exists>t. foldl double_add (Number 0) xs = Number t \<and> 0 \<le> t \<and> t \<le> 10 * of_nat (length xs)"
  using assms
proof (induction xs rule: rev_induct)
  case (snoc x xs)
  then obtain t v where tv: "foldl double_add (Number 0) xs = Number t" "0 \<le> t" "t \<le> 10 * of_nat (length xs)"
    "x = Number v" "0 \<le> v" "v \<le> 10" by auto
  let ?b = "of_nat (10 * length (xs @ [x])) :: rat"
  have "representable ?b" using snoc.prems(1) by (intro representable_nat) simp
  moreover have "?b < 2 ^ 1024"
  proof -
    have "?b \<le> of_nat (2 ^ 53)" using snoc.prems(1) by (intro of_nat_mono) simp
    then show ?thesis by (rule le_less_trans) simp
  qed
  ultimately obtain r where "round_double (t + v) = Number r" "0 \<le> r" "r \<le> ?b"
    using tv representable_numerals(1) round_double_between [of 0 "t + v" ?b] by auto
  then show ?case using tv by simp
qed simp

lemma average_of_bounded:
  assumes "scores \<noteq> []" and "length scores < 2 ^ 49"
    and "\<forall>s \<in> set scores. \<exists>v. score_value s = Number v \<and> 0 \<le> v \<and> v \<le> 10"
  shows "\<exists>r. average scores = Number r \<and> 0 \<le> r \<and> r \<le> 10"
proof -
  obtain t where t: "foldl double_add (Number 0) (map score_value scores) = Number t" "0 \<le> t" "t \<le> 10 * of_nat (length scores)"
    using foldl_scores_bounded [of "map score_value scores"] assms by auto
  let ?n = "of_nat (length scores) :: rat"
  have n: "0 < ?n" using assms(1) by simp
  have "representable ?n" using assms(2) by (intro representable_nat) simp
  moreover have "?n < 2 ^ 1024"
  proof -
    have "?n \<le> of_nat (2 ^ 49)" using assms(2) by (intro of_nat_mono) simp
    then show ?thesis by (rule le_less_trans) simp
  qed
  ultimately have len: "double_of_nat (length scores) = Number ?n"
    using n by (simp add: double_of_nat_def round_double_exact)
  obtain r where "round_double (t / ?n) = Number r" "0 \<le> r" "r \<le> 10"
    using round_double_between [of 0 "t / ?n" 10] t(2,3) n representable_numerals(1,6) by (auto simp: divide_le_eq)
  then show ?thesis using t(1) len n by (simp add: average_def foldl_map)
qed

lemma multiplier_bounded:
  assumes "0 \<le> r" and "r \<le> 10"
  shows "\<exists>m. CalculateWeightMultiplier (Number r) = Number m \<and> 1 / 2 \<le> m \<and> m \<le> 3 / 2"
proof -
  have "\<bar>r - 5\<bar> \<le> 5" using assms by linarith
  then obtain d where d: "round_double (r - 5) = Number d" "\<bar>d\<bar> \<le> 5"
    using round_double_abs [of "r - 5" 5] representable_numerals(5) by auto
  then have "\<bar>d / 10\<bar> \<le> 1 / 2" by simp
  then obtain q where q: "round_double (d / 10) = Number q" "\<bar>q\<bar> \<le> 1 / 2"
    using round_double_abs [of "d / 10" "1 / 2"] representable_numerals(2) by auto
  then have "1 / 2 \<le> 1 + q" "1 + q \<le> 3 / 2" by linarith+
  then obtain m where "round_double (1 + q) = Number m" "1 / 2 \<le> m" "m \<le> 3 / 2"
    using round_double_between [of "1 / 2" "1 + q" "3 / 2"] representable_numerals(2,4) by auto
  then show ?thesis
    using d q by (simp add: CalculateWeightMultiplier_def double_sub_def)
qed

lemma acceptable_value:
  assumes "acceptable C (Some s)" and "score_value s \<noteq> NaN"
  shows "\<exists>v. score_value s = Number v \<and> 0 \<le> v \<and> v \<le> 10"
  using assms by (cases "score_value s") (auto simp: acceptable_def)

lemma scores_of_mem: "s \<in> set (scores_of C node ss) \<Longrightarrow> Some s \<in> set ss \<and> acceptable C (Some s)"
  by (auto simp: scores_of_def acceptable_def split: option.splits)

lemma length_scores_of: "length (scores_of C node ss) \<le> length ss"
  by (simp add: scores_of_def)

text \<open>C13. Without a score that is not a number, every average lies between 0 and 10 and every multiplier between 1/2
  and 3/2, rounding included, after any history of fewer than two to the 49 submissions.\<close>

theorem averages_bounded:
  assumes "length ss < 2 ^ 49" and "\<forall>s \<in> set ss. s \<noteq> None \<longrightarrow> score_value (the s) \<noteq> NaN"
  shows "\<exists>r m. GetAverageScore (submit_all C NewReputationManager ss) node = Number r \<and> 0 \<le> r \<and> r \<le> 10
    \<and> CalculateWeightMultiplier (Number r) = Number m \<and> 1 / 2 \<le> m \<and> m \<le> 3 / 2"
proof -
  let ?scores = "scores_of C node ss"
  have avg: "GetAverageScore (submit_all C NewReputationManager ss) node = (if ?scores = [] then Number 5 else average ?scores)"
    by (simp add: GetAverageScore_def submit_all_averages)
  have vals: "\<forall>s \<in> set ?scores. \<exists>v. score_value s = Number v \<and> 0 \<le> v \<and> v \<le> 10"
    using assms(2) acceptable_value scores_of_mem by fastforce
  have len: "length ?scores < 2 ^ 49" using length_scores_of [of C node ss] assms(1) by simp
  obtain r where "GetAverageScore (submit_all C NewReputationManager ss) node = Number r" "0 \<le> r" "r \<le> 10"
    using average_of_bounded [OF _ len vals] avg by (cases "?scores = []") auto
  then show ?thesis using multiplier_bounded by blast
qed

section \<open>Scores that are not numbers\<close>

lemma double_add_NaN [simp]: "double_add x NaN = NaN"
  by (cases x) simp_all

lemma double_mul_NaN [simp]: "double_mul x NaN = NaN"
  by (cases x) simp_all

lemma foldl_NaN: "foldl double_add NaN xs = NaN"
  by (induction xs) simp_all

lemma foldl_member_NaN: "NaN \<in> set xs \<Longrightarrow> foldl double_add x xs = NaN"
  by (induction xs arbitrary: x) (auto simp: foldl_NaN)

lemma average_NaN: "NaN \<in> score_value ` set scores \<Longrightarrow> average scores = NaN"
  using foldl_member_NaN [of "map score_value scores" "Number 0"] by (simp add: average_def foldl_map)

lemma signed_score_verifies:
  assumes "key_pair C priv"
  obtains s where "SignScore C c priv = Some s" "rs_Content s = c" "VerifyScoreSignature C (Some s)"
proof -
  let ?s = "\<lparr>rs_Content = c, rs_Signer = hash_of_bytes (take 32 (ed25519_Public priv)),
            rs_Signature = ed_sign C priv (serializeContent c)\<rparr>"
  have pub: "length (ed25519_Public priv) = 32"
    using assms by (simp add: key_pair_def ed25519_Public_def)
  have "SignScore C c priv = Some ?s" by (simp add: SignScore_def key_pair_verifies(1) [OF assms])
  moreover have "VerifyScoreSignature C (Some ?s)"
    using key_pair_verifies(2,3) [OF assms] hash_bytes_of_bytes [OF pub] pub by (simp add: VerifyScoreSignature_def)
  ultimately show thesis using that [of ?s] by simp
qed

text \<open>C12. Anyone ruins a node's score for good. Any key pair signs a score whose bits are not a number; the range check
  lets it pass, and whatever was and will be submitted, the average and the effective weight of the node are not
  numbers.\<close>

theorem one_score_ruins_a_node:
  assumes "key_pair C priv" and "double_of_bits bits = NaN" and "reason \<in> set validReasons"
  shows "\<exists>s. SignScore C \<lparr>sc_TargetPubKey = node, sc_Score = bits, sc_Reason = reason, sc_Timestamp = t\<rparr> priv = Some s
    \<and> (\<forall>before after. let rm = submit_all C NewReputationManager (before @ Some s # after) in
          GetAverageScore rm node = NaN \<and> GetEffectiveWeight rm node stake = NaN)"
proof -
  let ?c = "\<lparr>sc_TargetPubKey = node, sc_Score = bits, sc_Reason = reason, sc_Timestamp = t\<rparr>"
  obtain s where s: "SignScore C ?c priv = Some s" "rs_Content s = ?c" "VerifyScoreSignature C (Some s)"
    by (rule signed_score_verifies [OF assms(1)])
  have v: "score_value s = NaN" using s(2) assms(2) by (simp add: score_value_def)
  then have acc: "acceptable C (Some s)" using s(2,3) assms(3) by (simp add: acceptable_def)
  have "GetAverageScore (submit_all C NewReputationManager (before @ Some s # after)) node = NaN" for before after
  proof -
    have "s \<in> set (scores_of C node (before @ Some s # after))"
      using acc s(2) by (simp add: scores_of_def)
    then have "average (scores_of C node (before @ Some s # after)) = NaN"
      using v by (intro average_NaN) (metis image_eqI)
    then show ?thesis
      using acc s(2) by (simp add: GetAverageScore_def submit_all_averages scores_of_def)
  qed
  then show ?thesis
    using s(1) by (auto simp: Let_def GetEffectiveWeight_def CalculateWeightMultiplier_def double_sub_def)
qed

definition honest_score :: ReputationScore where
  "honest_score = the (SignScore sample_crypto
     \<lparr>sc_TargetPubKey = 7, sc_Score = 0x4024000000000000, sc_Reason = ''good_response'', sc_Timestamp = 9\<rparr> (replicate 64 1))"

lemma honest_score_value: "score_value honest_score = Number 10"
proof -
  have "rs_Content honest_score
      = \<lparr>sc_TargetPubKey = 7, sc_Score = 0x4024000000000000, sc_Reason = ''good_response'', sc_Timestamp = 9\<rparr>"
    by (simp add: honest_score_def SignScore_def ed25519_Sign_def)
  moreover have "double_of_bits 0x4024000000000000 = Number 10" by code_simp
  ultimately show ?thesis by (simp add: score_value_def)
qed

theorem averages_bounded_witness:
  "\<exists>r m. GetAverageScore (submit_all sample_crypto NewReputationManager [Some honest_score, None]) 7 = Number r
     \<and> 0 \<le> r \<and> r \<le> 10 \<and> CalculateWeightMultiplier (Number r) = Number m \<and> 1 / 2 \<le> m \<and> m \<le> 3 / 2"
  by (rule averages_bounded) (simp_all add: honest_score_value)

theorem one_score_ruins_a_node_witness:
  "\<exists>s. SignScore sample_crypto \<lparr>sc_TargetPubKey = 7, sc_Score = 0x7FF8000000000001, sc_Reason = ''timeout'', sc_Timestamp = 1\<rparr>
         (replicate 64 1) = Some s
    \<and> GetAverageScore (submit_all sample_crypto NewReputationManager [Some honest_score, Some s, Some honest_score]) 7 = NaN"
proof -
  have "key_pair sample_crypto (replicate 64 1)" "double_of_bits 0x7FF8000000000001 = NaN" "''timeout'' \<in> set validReasons"
  proof -
    show "key_pair sample_crypto (replicate 64 1)" by (simp add: sample_crypto_key_pair)
    show "double_of_bits 0x7FF8000000000001 = NaN" by code_simp
  qed (simp add: validReasons_def)
  from one_score_ruins_a_node [OF this, of 7 1 0] obtain s where s:
    "SignScore sample_crypto \<lparr>sc_TargetPubKey = 7, sc_Score = 0x7FF8000000000001, sc_Reason = ''timeout'', sc_Timestamp = 1\<rparr>
       (replicate 64 1) = Some s"
    and all: "\<And>before after. GetAverageScore (submit_all sample_crypto NewReputationManager (before @ Some s # after)) 7 = NaN"
    by (auto simp: Let_def)
  show ?thesis using s all [of "[Some honest_score]" "[Some honest_score]"] by auto
qed

section \<open>The choice of a proposer\<close>

lemma multiplier_at_least_1:
  assumes "at_least 5 score"
  shows "at_least 1 (CalculateWeightMultiplier score)"
proof (cases score)
  case (Number r)
  with assms have "0 \<le> r - 5" by (simp add: at_least_def)
  then have "at_least 0 (round_double (r - 5))" by (rule at_least_round [OF representable_numerals(1)])
  then have "at_least 0 (double_div (round_double (r - 5)) (Number 10))"
    by (cases "round_double (r - 5)") (auto simp: at_least_def intro: at_least_round [OF representable_numerals(1), unfolded at_least_def])
  then have "at_least (1 + 0) (double_add (Number 1) (double_div (round_double (r - 5)) (Number 10)))"
    by (intro at_least_add) (simp_all add: representable_numerals at_least_def)
  then show ?thesis by (simp add: Number CalculateWeightMultiplier_def double_sub_def)
qed (use assms in \<open>auto simp: at_least_def CalculateWeightMultiplier_def double_sub_def\<close>)

definition full_weight :: "ReputationManager \<Rightarrow> Validator \<Rightarrow> bool" where
  "full_weight rm v \<longleftrightarrow> MinStakeV2Satoshi \<le> v_Stake v \<and> at_least 5 (GetAverageScore rm (v_Address v))"

lemma full_weight_at_least:
  assumes "full_weight rm v"
  shows "at_least 100000000000 (validator_weight rm v)"
proof -
  have "(100000000000 :: int) \<le> uint (v_Stake v)"
    using assms by (simp add: full_weight_def MinStakeV2Satoshi_def word_le_def)
  then have "(100000000000 :: rat) \<le> of_int (uint (v_Stake v))"
    by (metis of_int_le_iff of_int_numeral)
  then have "at_least 100000000000 (double_of_u64 (v_Stake v))"
    unfolding double_of_u64_def by (rule at_least_round [OF representable_numerals(7)])
  then have "at_least (100000000000 * 1) (validator_weight rm v)"
    unfolding validator_weight_def using assms
    by (intro at_least_mul multiplier_at_least_1) (simp_all add: full_weight_def representable_numerals)
  then show ?thesis by simp
qed

lemma selected_bounded:
  assumes "x \<le> k" and "x < 2 ^ 64" and "representable (of_nat k)" and "k \<le> 2 ^ 64"
    and "k \<le> b * 100000000" and "b < 2 ^ 53"
  shows "\<exists>q. double_div (double_of_u64 (of_nat x)) (Number 100000000) = Number q \<and> 0 \<le> q \<and> q \<le> of_nat b"
proof -
  have "uint (of_nat x :: u64) = int x" using assms(2) by (simp add: uint_nat unat_of_nat)
  moreover have "(of_nat k :: rat) < 2 ^ 1024"
  proof -
    have "(of_nat k :: rat) \<le> of_nat (2 ^ 64)" using assms(4) by (rule of_nat_mono)
    then show ?thesis by (rule le_less_trans) simp
  qed
  ultimately obtain s where s: "double_of_u64 (of_nat x) = Number s" "0 \<le> s" "s \<le> of_nat k"
    using round_double_between [of 0 "of_nat x" "of_nat k"] representable_numerals(1) assms(1,3)
    by (auto simp: double_of_u64_def)
  have "(of_nat k :: rat) \<le> of_nat (b * 100000000)" using assms(5) by (rule of_nat_mono)
  then have "0 \<le> s / 100000000" "s / 100000000 \<le> of_nat b" using s by simp_all
  moreover have "(of_nat b :: rat) < 2 ^ 1024"
  proof -
    have "(of_nat b :: rat) \<le> of_nat (2 ^ 53)" using assms(6) by (intro of_nat_mono) simp
    then show ?thesis by (rule le_less_trans) simp
  qed
  ultimately obtain q where "round_double (s / 100000000) = Number q" "0 \<le> q" "q \<le> of_nat b"
    using round_double_between [of 0 "s / 100000000" "of_nat b"] representable_numerals(1) representable_nat [OF assms(6)]
    by auto
  then show ?thesis using s(1) by simp
qed

lemma at_least_less: "at_least a c \<Longrightarrow> q < a \<Longrightarrow> double_less (Number q) c"
  by (cases c) (auto simp: at_least_def)

lemma first_weights:
  assumes "full_weight rm v1" and "full_weight rm v2"
  shows "at_least 100000000000 (double_add (Number 0) (validator_weight rm v1))"
    and "at_least 200000000000 (double_add (double_add (Number 0) (validator_weight rm v1)) (validator_weight rm v2))"
proof -
  have z: "at_least 0 (Number 0)" by (simp add: at_least_def)
  show w: "at_least 100000000000 (double_add (Number 0) (validator_weight rm v1))"
    using at_least_add [OF z full_weight_at_least [OF assms(1)]] by (simp add: representable_numerals)
  show "at_least 200000000000 (double_add (double_add (Number 0) (validator_weight rm v1)) (validator_weight rm v2))"
    using at_least_add [OF w full_weight_at_least [OF assms(2)]] by (simp add: representable_numerals)
qed

lemma SelectProposerV2_active:
  "getActiveValidatorsLocked ks cs \<noteq> [] \<Longrightarrow> SelectProposerV2 C conv ks ks hook cs seed rm
     = (cs, choose_by_weight C conv rm seed (cn_currentHeight cs) (getActiveValidatorsLocked ks cs))"
  by (simp add: SelectProposerV2_def run_hook_def)

definition total_units :: "(double \<Rightarrow> u64) \<Rightarrow> ReputationManager \<Rightarrow> Validator list \<Rightarrow> u64" where
  "total_units conv rm vs =
     u64_of_double conv (double_mul (weights_total (map (validator_weight rm) vs)) (Number 100000000))"

definition selected_weight :: "crypto \<Rightarrow> bytes \<Rightarrow> u64 \<Rightarrow> u64 \<Rightarrow> double" where
  "selected_weight C seed height units =
     double_div (double_of_u64 (of_nat (unat (sha256 C (seed @ put_u64_be height)) mod unat units))) (Number 100000000)"

lemma choose_by_weight_eq:
  "choose_by_weight C conv rm seed height vs =
     (if vs = [] then Inl V2NoActive
      else if double_eq (weights_total (map (validator_weight rm) vs)) (Number 0) then Inl V2ZeroWeight
      else if total_units conv rm vs = 0 then Inl V2Panic
      else case pick_weight (selected_weight C seed height (total_units conv rm vs)) (Number 0)
             (map (\<lambda>v. (v_Address v, validator_weight rm v)) vs) of
           Some a \<Rightarrow> Inr a | None \<Rightarrow> Inr (v_Address (last vs)))"
  by (simp add: choose_by_weight_def Let_def comp_def total_units_def selected_weight_def last_map
      split: option.split)

lemma selected_weight_bounded:
  assumes "units \<noteq> 0" and "unat units \<le> k" and "representable (of_nat k)" and "k \<le> 2 ^ 64"
    and "k \<le> b * 100000000" and "b < 2 ^ 53"
  shows "\<exists>q. selected_weight C seed height units = Number q \<and> q \<le> of_nat b"
proof -
  let ?x = "unat (sha256 C (seed @ put_u64_be height)) mod unat units"
  have "0 < unat units" using assms(1) by (simp add: unat_gt_0)
  then have "?x < unat units" by simp
  moreover from this have "?x < 2 ^ 64" by (rule less_trans) (use unat_bound [of units] in simp)
  ultimately have "?x \<le> k" "?x < 2 ^ 64" using assms(2) by simp_all
  then show ?thesis
    using selected_bounded [of ?x k b] assms(3-6) by (auto simp: selected_weight_def)
qed

text \<open>C11. However many validators there are, only the first two in the order of the map can be chosen. When these two have
  the minimal stake and a score of 5 or more, whatever the seed and whatever an implementation makes of a total weight
  times 10 to the 8 that exceeds every \<^verbatim>\<open>uint64\<close>, the random weight stays below the weight of the first two.\<close>

theorem only_first_two_proposers:
  assumes "getActiveValidatorsLocked ks cs = v1 # v2 # vs" and "full_weight rm v1" and "full_weight rm v2"
    and "snd (SelectProposerV2 C conv ks ks hook cs seed rm) = Inr a"
  shows "a = v_Address v1 \<or> a = v_Address v2"
proof -
  let ?vs = "v1 # v2 # vs" and ?w = "validator_weight rm"
  have r: "choose_by_weight C conv rm seed (cn_currentHeight cs) ?vs = Inr a"
    using assms(4) SelectProposerV2_active [of ks cs C conv hook seed rm] by (simp add: assms(1))
  then have big: "total_units conv rm ?vs \<noteq> 0" by (auto simp: choose_by_weight_eq split: if_splits)
  obtain q where q: "selected_weight C seed (cn_currentHeight cs) (total_units conv rm ?vs) = Number q" "q \<le> 184467440738"
    using selected_weight_bounded [OF big, of "2 ^ 64" 184467440738 C seed "cn_currentHeight cs"]
      unat_bound [of "total_units conv rm ?vs"] representable_numerals(10) by auto
  then have "double_less (Number q) (double_add (double_add (Number 0) (?w v1)) (?w v2))"
    by (intro at_least_less [OF first_weights(2) [OF assms(2,3)]]) simp
  then show ?thesis
    using r q(1) by (auto simp: choose_by_weight_eq Let_def split: if_splits)
qed

lemma two_validators_overflow:
  assumes "\<forall>v \<in> set (v1 # vs1). full_weight rm v" and "vs1 \<noteq> []"
  shows "at_least 200000000000 (weights_total (map (validator_weight rm) (v1 # vs1)))"
proof -
  obtain v2 vs where vs1: "vs1 = v2 # vs" using assms(2) by (cases vs1) auto
  have "at_least 200000000000 (foldl double_add x ws)"
    if "at_least 200000000000 x" "\<forall>w \<in> set ws. at_least 0 w" for x ws
    using that
  proof (induction ws arbitrary: x)
    case (Cons w ws)
    have "at_least (200000000000 + 0) (double_add x w)"
      using Cons.prems by (intro at_least_add) (simp_all add: representable_numerals)
    then show ?case using Cons by simp
  qed simp
  moreover have "at_least 0 (validator_weight rm v)" if "full_weight rm v" for v
    using full_weight_at_least [OF that] by (auto simp: at_least_def split: double.splits)
  ultimately show ?thesis
    using first_weights(2) [of rm v1 v2] assms(1) by (simp add: vs1 weights_total_def)
qed

lemma total_units_conv:
  assumes "at_least 200000000000 (weights_total (map (validator_weight rm) vs))"
  shows "\<exists>x. total_units conv rm vs = conv x"
proof -
  have "at_least (200000000000 * 100000000) (double_mul (weights_total (map (validator_weight rm) vs)) (Number 100000000))"
    using assms representable_nat [of "5 ^ 19"] representable_scaled [of "5 ^ 19" 20]
    by (intro at_least_mul) (simp_all add: at_least_def)
  then show ?thesis
    by (auto simp: total_units_def u64_of_double_def at_least_def split: double.splits)
qed

lemma first_is_chosen:
  assumes "\<forall>v \<in> set (v1 # vs1). full_weight rm v" and "vs1 \<noteq> []" and "\<And>x. conv x = 2 ^ 63"
  shows "choose_by_weight C conv rm seed height (v1 # vs1) = Inr (v_Address v1)"
proof -
  let ?vs = "v1 # vs1"
  have tot: "at_least 200000000000 (weights_total (map (validator_weight rm) ?vs))"
    by (rule two_validators_overflow [OF assms(1,2)])
  then have units: "total_units conv rm ?vs = 2 ^ 63" using total_units_conv assms(3) by metis
  have "representable (of_nat (2 ^ 63))" using representable_scaled [of 1 63] by simp
  then obtain q where q: "selected_weight C seed height (2 ^ 63) = Number q" "q \<le> 92233720369"
    using selected_weight_bounded [of "2 ^ 63" "2 ^ 63" 92233720369 C seed height] by auto
  have "double_less (Number q) (double_add (Number 0) (validator_weight rm v1))"
    using first_weights(1) [of rm v1 v1] assms(1) q(2) by (intro at_least_less) auto
  moreover have "\<not> double_eq (weights_total (map (validator_weight rm) ?vs)) (Number 0)"
    using tot by (auto simp: at_least_def split: double.splits)
  ultimately show ?thesis using units q(1) by (simp add: choose_by_weight_eq Let_def)
qed

text \<open>Where the conversion of a value out of range gives 2 to the 63, the seed plays no role: the first validator in the
  order of the map is chosen. Two nodes whose maps start with different validators reject each other's blocks.\<close>

theorem map_order_decides:
  assumes "getActiveValidatorsLocked ks cs = v1 # vs1" and "getActiveValidatorsLocked ks' cs = v2 # vs2"
    and "\<forall>v \<in> set (v1 # vs1). full_weight rm v" and "\<forall>v \<in> set (v2 # vs2). full_weight rm v"
    and "vs1 \<noteq> []" and "vs2 \<noteq> []" and "v_Address v1 \<noteq> v_Address v2" and "\<And>x. conv x = 2 ^ 63"
  shows "SelectProposerV2 C conv ks ks hook cs seed rm = (cs, Inr (v_Address v1))
    \<and> ValidateProposerV2 C conv ks' ks' hook cs (v_Address v1) seed rm
      = (cs, Inl (V2BadProposer (v_Address v2) (v_Address v1)))"
  using first_is_chosen [OF assms(3,5,8)] first_is_chosen [OF assms(4,6,8)] assms(1,2,7)
  by (simp add: SelectProposerV2_active ValidateProposerV2_def selectProposerV2Locked_def run_hook_def Let_def)

text \<open>Two validators of a thousand coins each, never scored, whose map starts with either.\<close>

definition v2_state :: ConsensusState where
  "v2_state = (NewConsensusState 0 GetV2Config)\<lparr>cn_validators :=
     [4 \<mapsto> new_validator 4 MinStakeV2Satoshi 0 [] False, 9 \<mapsto> new_validator 9 MinStakeV2Satoshi 0 [] False]\<rparr>"

lemma v2_state_active:
  "getActiveValidatorsLocked [4, 9] v2_state
     = [new_validator 4 MinStakeV2Satoshi 0 [] False, new_validator 9 MinStakeV2Satoshi 0 [] False]"
  "getActiveValidatorsLocked [9, 4] v2_state
     = [new_validator 9 MinStakeV2Satoshi 0 [] False, new_validator 4 MinStakeV2Satoshi 0 [] False]"
  by (simp_all add: getActiveValidatorsLocked_def v2_state_def NewConsensusState_def range_values_def IsActive_def
      new_validator_def GetV2Config_def)

lemma v2_state_full: "full_weight NewReputationManager (new_validator a MinStakeV2Satoshi 0 [] False)"
  by (simp add: full_weight_def new_validator_def GetAverageScore_def NewReputationManager_def at_least_def)

theorem map_order_decides_witness:
  "SelectProposerV2 sample_crypto (\<lambda>x. 2 ^ 63) [4, 9] [4, 9] None v2_state [] NewReputationManager = (v2_state, Inr 4)
   \<and> ValidateProposerV2 sample_crypto (\<lambda>x. 2 ^ 63) [9, 4] [9, 4] None v2_state 4 [] NewReputationManager
     = (v2_state, Inl (V2BadProposer 9 4))"
  using map_order_decides [OF v2_state_active, of NewReputationManager "\<lambda>x. 2 ^ 63" sample_crypto None "[]"]
  by (simp add: v2_state_full) (simp add: new_validator_def)

definition v2_three :: ConsensusState where
  "v2_three = v2_state\<lparr>cn_validators := (cn_validators v2_state)(13 \<mapsto> new_validator 13 (2 * MinStakeV2Satoshi) 0 [] False)\<rparr>"

lemma v2_three_active:
  "getActiveValidatorsLocked [13, 4, 9] v2_three
     = [new_validator 13 (2 * MinStakeV2Satoshi) 0 [] False, new_validator 4 MinStakeV2Satoshi 0 [] False,
        new_validator 9 MinStakeV2Satoshi 0 [] False]"
  by (simp add: getActiveValidatorsLocked_def v2_three_def v2_state_def NewConsensusState_def range_values_def IsActive_def
      new_validator_def GetV2Config_def MinStakeV2Satoshi_def)

theorem only_first_two_proposers_witness:
  "\<exists>a. snd (SelectProposerV2 sample_crypto (\<lambda>x. 2 ^ 63) [13, 4, 9] [13, 4, 9] None v2_three [1] NewReputationManager) = Inr a
     \<and> (a = 13 \<or> a = 4)"
proof -
  let ?v = "new_validator 13 (2 * MinStakeV2Satoshi) 0 [] False"
  have f: "full_weight NewReputationManager ?v"
    by (simp add: full_weight_def new_validator_def GetAverageScore_def NewReputationManager_def at_least_def
        MinStakeV2Satoshi_def)
  have "snd (SelectProposerV2 sample_crypto (\<lambda>x. 2 ^ 63) [13, 4, 9] [13, 4, 9] None v2_three [1] NewReputationManager)
      = Inr (v_Address ?v)"
    using SelectProposerV2_active [of "[13, 4, 9]" v2_three] f v2_state_full
    by (simp add: v2_three_active first_is_chosen)
  with only_first_two_proposers [OF v2_three_active f v2_state_full this] show ?thesis
    by (simp add: new_validator_def)
qed

end
