(* ===== verification/Block_V2.thy ===== *)
theory Block_V2
  imports Reputation
begin

text \<open>
  \<^verbatim>\<open>pkg/utxo/block_v2.go\<close>: blocks with reputation scores and statistics of inference. A \<^verbatim>\<open>float64\<close> field is kept as
  its bits. The loop of \<^verbatim>\<open>CalculateReputationRoot\<close> is the one of the Merkle root of a block.
\<close>

section \<open>Definitions\<close>

definition BlockRewardV2Total :: u64 where
  "BlockRewardV2Total = 50 * 100000000"

definition StakingRewardAmount :: u64 where
  "StakingRewardAmount = 30 * 100000000"

definition InferenceRewardAmount :: u64 where
  "InferenceRewardAmount = 20 * 100000000"

record BlockReputationScore =
  br_NodeID :: hash
  br_TotalScore :: u64
  br_UserScore :: u64
  br_TechScore :: u64
  br_HistoryScore :: u64
  br_StakeScore :: u64
  br_TotalTasksCompleted :: u64
  br_TotalBlocksProduced :: u64
  br_TotalSlashes :: u64
  br_UpdatedAt :: u64
  br_Signature :: bytes

record BlockInferenceStats =
  bi_TotalInferences :: u64
  bi_ActiveNodes :: u32
  bi_AvgLatencyMs :: u64
  bi_TopContributors :: "hash list"

record BlockV2 =
  b2_Block :: Block
  b2_ReputationUpdates :: "BlockReputationScore list"
  b2_InferenceStats :: BlockInferenceStats

datatype block_v2_error =
    B2EmptyNode
  | B2TotalScore u64
  | B2UserScore u64
  | B2TechScore u64
  | B2HistoryScore u64
  | B2StakeScore u64
  | B2Inferences u64
  | B2ActiveNodes u32
  | B2Latency u64
  | B2Update nat block_v2_error
  | B2Stats block_v2_error
  | B2NoCoinbase
  | B2FirstNotCoinbase
  | B2Total u64
  | B2OutputCount nat
  | B2Staking u64
  | B2Inference u64
  | B2Read string

definition NewBlockV2 ::
  "crypto \<Rightarrow> u64 \<Rightarrow> Transaction list \<Rightarrow> hash \<Rightarrow> u64 \<Rightarrow> hash \<Rightarrow> BlockReputationScore list \<Rightarrow> BlockInferenceStats \<Rightarrow> BlockV2" where
  "NewBlockV2 C nowUnix transactions prevBlockHash height proposer reputationUpdates inferenceStats =
     \<lparr>b2_Block = NewBlock C nowUnix transactions prevBlockHash height proposer,
      b2_ReputationUpdates = reputationUpdates, b2_InferenceStats = inferenceStats\<rparr>"

definition CreateCoinbaseV2Tx :: "hash \<Rightarrow> hash \<Rightarrow> u64 \<Rightarrow> Transaction" where
  "CreateCoinbaseV2Tx proposer topInferenceNode height =
     (NewTransaction
        [\<lparr>ti_TxHash = 0, ti_Index = 0xffffffff, ti_Signature = [], ti_PublicKey = []\<rparr>]
        [\<lparr>to_Value = StakingRewardAmount, to_Script = string_bytes ''staking'', to_Address = proposer\<rparr>,
         \<lparr>to_Value = InferenceRewardAmount, to_Script = string_bytes ''inference'', to_Address = topInferenceNode\<rparr>])
     \<lparr>tx_LockTime := ucast height\<rparr>"

definition out_of_bounds :: "rat \<Rightarrow> rat \<Rightarrow> u64 \<Rightarrow> bool" where
  "out_of_bounds lo hi bits \<longleftrightarrow>
     double_less (double_of_bits bits) (Number lo) \<or> double_less (Number hi) (double_of_bits bits)"

definition score_validate :: "BlockReputationScore \<Rightarrow> (block_v2_error, unit) result" where
  "score_validate rep =
     (if br_NodeID rep = 0 then Inl B2EmptyNode
      else if out_of_bounds (- 200) 500 (br_TotalScore rep) then Inl (B2TotalScore (br_TotalScore rep))
      else if out_of_bounds 0 100 (br_UserScore rep) then Inl (B2UserScore (br_UserScore rep))
      else if out_of_bounds 0 100 (br_TechScore rep) then Inl (B2TechScore (br_TechScore rep))
      else if out_of_bounds 0 100 (br_HistoryScore rep) then Inl (B2HistoryScore (br_HistoryScore rep))
      else if out_of_bounds 0 100 (br_StakeScore rep) then Inl (B2StakeScore (br_StakeScore rep))
      else Inr ())"

definition stats_validate :: "BlockInferenceStats \<Rightarrow> (block_v2_error, unit) result" where
  "stats_validate s =
     (if bi_TotalInferences s > 1000000000 then Inl (B2Inferences (bi_TotalInferences s))
      else if bi_ActiveNodes s > 10000 then Inl (B2ActiveNodes (bi_ActiveNodes s))
      else if bi_AvgLatencyMs s > 3600000 then Inl (B2Latency (bi_AvgLatencyMs s))
      else Inr ())"

fun validate_updates :: "nat \<Rightarrow> BlockReputationScore list \<Rightarrow> (block_v2_error, unit) result" where
  "validate_updates i [] = Inr ()"
| "validate_updates i (rep # reps) =
     (case score_validate rep of Inl e \<Rightarrow> Inl (B2Update i e) | Inr _ \<Rightarrow> validate_updates (Suc i) reps)"

definition ValidateReputationUpdates :: "BlockV2 \<Rightarrow> (block_v2_error, unit) result" where
  "ValidateReputationUpdates b =
     rbind (validate_updates 0 (b2_ReputationUpdates b)) (\<lambda>_.
       case stats_validate (b2_InferenceStats b) of Inl e \<Rightarrow> Inl (B2Stats e) | Inr _ \<Rightarrow> Inr ())"

definition score_Serialize :: "BlockReputationScore \<Rightarrow> bytes" where
  "score_Serialize rep =
     hash_bytes (br_NodeID rep) @ put_u64 (br_TotalScore rep) @ put_u64 (br_UserScore rep)
     @ put_u64 (br_TechScore rep) @ put_u64 (br_HistoryScore rep) @ put_u64 (br_StakeScore rep)
     @ put_u64 (br_TotalTasksCompleted rep) @ put_u64 (br_TotalBlocksProduced rep)
     @ put_u64 (br_TotalSlashes rep) @ put_u64 (br_UpdatedAt rep)"

definition score_Hash :: "crypto \<Rightarrow> BlockReputationScore \<Rightarrow> hash" where
  "score_Hash C rep = sha256d C (score_Serialize rep)"

definition CalculateReputationRoot :: "crypto \<Rightarrow> BlockV2 \<Rightarrow> hash" where
  "CalculateReputationRoot C b =
     (if length (b2_ReputationUpdates b) = 0 then 0
      else merkle_root (merkle_node C) (map (score_Hash C) (b2_ReputationUpdates b)))"

definition read_field :: "string \<Rightarrow> (bytes \<Rightarrow> ('a \<times> bytes) option) \<Rightarrow> bytes \<Rightarrow> (block_v2_error, 'a \<times> bytes) result" where
  "read_field name rd r = (case rd r of None \<Rightarrow> Inl (B2Read name) | Some x \<Rightarrow> Inr x)"

definition DeserializeBlockReputationScore :: "bytes \<Rightarrow> (block_v2_error, BlockReputationScore) result" where
  "DeserializeBlockReputationScore r =
     rbind (read_field ''node ID'' read_hash r) (\<lambda>(nodeID, r).
     rbind (read_field ''total score'' read_u64 r) (\<lambda>(totalScore, r).
     rbind (read_field ''user score'' read_u64 r) (\<lambda>(userScore, r).
     rbind (read_field ''tech score'' read_u64 r) (\<lambda>(techScore, r).
     rbind (read_field ''history score'' read_u64 r) (\<lambda>(historyScore, r).
     rbind (read_field ''stake score'' read_u64 r) (\<lambda>(stakeScore, r).
     rbind (read_field ''tasks completed'' read_u64 r) (\<lambda>(tasks, r).
     rbind (read_field ''blocks produced'' read_u64 r) (\<lambda>(blocks, r).
     rbind (read_field ''total slashes'' read_u64 r) (\<lambda>(slashes, r).
     rbind (read_field ''updated at'' read_u64 r) (\<lambda>(updatedAt, r).
       Inr \<lparr>br_NodeID = nodeID, br_TotalScore = totalScore, br_UserScore = userScore, br_TechScore = techScore,
            br_HistoryScore = historyScore, br_StakeScore = stakeScore, br_TotalTasksCompleted = tasks,
            br_TotalBlocksProduced = blocks, br_TotalSlashes = slashes, br_UpdatedAt = updatedAt,
            br_Signature = []\<rparr>))))))))))"

definition GetTotalBlockRewardV2 :: "BlockV2 \<Rightarrow> u64" where
  "GetTotalBlockRewardV2 b = BlockRewardV2Total"

definition GetStakingReward :: "BlockV2 \<Rightarrow> u64" where
  "GetStakingReward b = StakingRewardAmount"

definition GetInferenceReward :: "BlockV2 \<Rightarrow> u64" where
  "GetInferenceReward b = InferenceRewardAmount"

definition GetV2CoinbaseTransaction :: "BlockV2 \<Rightarrow> Transaction option" where
  "GetV2CoinbaseTransaction b =
     (if length (bl_Transactions (b2_Block b)) > 0 then Some (bl_Transactions (b2_Block b) ! 0) else None)"

definition ValidateCoinbaseDistributionV2 :: "BlockV2 \<Rightarrow> (block_v2_error, unit) result" where
  "ValidateCoinbaseDistributionV2 b =
     (case GetV2CoinbaseTransaction b of
        None \<Rightarrow> Inl B2NoCoinbase
      | Some coinbase \<Rightarrow>
          if \<not> IsCoinbase coinbase then Inl B2FirstNotCoinbase
          else let totalValue = TotalOutputValue coinbase; outs = tx_Outputs coinbase in
            if totalValue \<noteq> BlockRewardV2Total then Inl (B2Total totalValue)
            else if length outs \<noteq> 2 then Inl (B2OutputCount (length outs))
            else if to_Value (outs ! 0) \<noteq> StakingRewardAmount then Inl (B2Staking (to_Value (outs ! 0)))
            else if to_Value (outs ! 1) \<noteq> InferenceRewardAmount then Inl (B2Inference (to_Value (outs ! 1)))
            else Inr ())"

definition CreateBlockReputationScore ::
  "u64 \<Rightarrow> hash \<Rightarrow> u64 \<Rightarrow> u64 \<Rightarrow> u64 \<Rightarrow> u64 \<Rightarrow> u64 \<Rightarrow> u64 \<Rightarrow> u64 \<Rightarrow> BlockReputationScore" where
  "CreateBlockReputationScore nowUnix nodeID userScore techScore historyScore stakeScore tasks blocks slashes =
     (let part = (\<lambda>bits w. double_mul (double_of_bits bits) (round_double w));
          tot = double_add (double_add (double_add (part userScore (30 / 100)) (part techScore (25 / 100)))
                  (part historyScore (25 / 100))) (part stakeScore (20 / 100))
      in \<lparr>br_NodeID = nodeID, br_TotalScore = double_bits tot, br_UserScore = userScore, br_TechScore = techScore,
          br_HistoryScore = historyScore, br_StakeScore = stakeScore, br_TotalTasksCompleted = tasks,
          br_TotalBlocksProduced = blocks, br_TotalSlashes = slashes, br_UpdatedAt = nowUnix, br_Signature = []\<rparr>)"

section \<open>Scores in blocks\<close>

lemma read_field_put:
  "read_field name read_u64 (put_u64 w @ r) = Inr (w, r)"
  "read_field name read_hash (hash_bytes h @ r) = Inr (h, r)"
  by (simp_all add: read_field_def)

lemma score_reads:
  "DeserializeBlockReputationScore (score_Serialize rep @ rest) = Inr (rep\<lparr>br_Signature := []\<rparr>)"
  by (simp add: DeserializeBlockReputationScore_def score_Serialize_def rbind_def read_field_put)

text \<open>A serialized score reads back as it was, but for its signature, which is neither written nor hashed; whatever
  follows it is ignored.\<close>

theorem block_score_roundtrip:
  "DeserializeBlockReputationScore (score_Serialize rep @ rest) = Inr (rep\<lparr>br_Signature := []\<rparr>)"
  by (rule score_reads)

lemma score_Serialize_inject:
  "score_Serialize a = score_Serialize b \<Longrightarrow> a\<lparr>br_Signature := []\<rparr> = b\<lparr>br_Signature := []\<rparr>"
proof -
  assume "score_Serialize a = score_Serialize b"
  then have "DeserializeBlockReputationScore (score_Serialize a @ []) = DeserializeBlockReputationScore (score_Serialize b @ [])"
    by simp
  then show ?thesis unfolding score_reads by simp
qed

text \<open>C39. The reputation root commits to the updates of a block and to nothing else of it: two blocks with as many
  updates and one root have the same updates, but for the signatures, as long as SHA-256 does not collide on the
  strings hashed for the two roots (the serialized scores, the pairs of the two Merkle trees and their first
  hashes). The signatures of the updates are in no root: replacing them by any others leaves it as it is.\<close>

theorem reputation_root_binding:
  assumes "CalculateReputationRoot C b = CalculateReputationRoot C b'"
    and "length (b2_ReputationUpdates b) = length (b2_ReputationUpdates b')"
    and "inj_on (sha256 C) (root_strings C (map score_Serialize (b2_ReputationUpdates b))
           \<union> root_strings C (map score_Serialize (b2_ReputationUpdates b')))"
  shows "map (br_Signature_update (\<lambda>_. [])) (b2_ReputationUpdates b)
      = map (br_Signature_update (\<lambda>_. [])) (b2_ReputationUpdates b')
    \<and> CalculateReputationRoot C (b\<lparr>b2_ReputationUpdates := map (br_Signature_update f) (b2_ReputationUpdates b)\<rparr>)
      = CalculateReputationRoot C b"
proof
  let ?s = "\<lambda>x. map score_Serialize (b2_ReputationUpdates x)"
  have root: "CalculateReputationRoot C x = (if b2_ReputationUpdates x = [] then 0
      else merkle_root (merkle_node C) (map (sha256d C) (?s x)))" for x
    by (simp add: CalculateReputationRoot_def score_Hash_def [abs_def] comp_def)
  have "merkle_root (merkle_node C) (map (sha256d C) (?s b)) = merkle_root (merkle_node C) (map (sha256d C) (?s b'))"
    using assms(1,2) unfolding root by (auto split: if_splits)
  then have "?s b = ?s b'"
    by (rule root_items_inject [OF assms(3), rotated]) (simp add: assms(2))
  then show "map (br_Signature_update (\<lambda>_. [])) (b2_ReputationUpdates b)
      = map (br_Signature_update (\<lambda>_. [])) (b2_ReputationUpdates b')"
    by (intro nth_equalityI) (auto simp: map_equality_iff dest!: score_Serialize_inject)
  have "score_Serialize (br_Signature_update f x) = score_Serialize x" for x
    by (simp add: score_Serialize_def)
  then show "CalculateReputationRoot C (b\<lparr>b2_ReputationUpdates := map (br_Signature_update f) (b2_ReputationUpdates b)\<rparr>)
      = CalculateReputationRoot C b"
    unfolding root by (simp add: comp_def)
qed

text \<open>Every bound of a score is passed by what is not a number.\<close>

lemma not_a_number_validates:
  assumes "br_NodeID rep \<noteq> 0" and "double_of_bits (br_TotalScore rep) = NaN" and "double_of_bits (br_UserScore rep) = NaN"
    and "double_of_bits (br_TechScore rep) = NaN" and "double_of_bits (br_HistoryScore rep) = NaN"
    and "double_of_bits (br_StakeScore rep) = NaN"
  shows "score_validate rep = Inr ()"
  using assms by (simp add: score_validate_def out_of_bounds_def)

section \<open>Coinbases\<close>

lemma rewards_exact: "CalculateBlockRewardsV2 conv = (StakingRewardAmount, InferenceRewardAmount)"
proof -
  have "double_mul (double_of_u64 BlockRewardSatoshi) (round_double (6 / 10)) = Number 3000000000"
    "double_mul (double_of_u64 BlockRewardSatoshi) (round_double (4 / 10)) = Number 2000000000"
    by code_simp+
  then show ?thesis
    by (simp add: CalculateBlockRewardsV2_def u64_of_double_def StakingRewardAmount_def InferenceRewardAmount_def)
qed

text \<open>The coinbase of a second-version block is accepted exactly when the first transaction is a coinbase with two
  outputs, of 30 and of 20 coins; the products with 0.6 and 0.4 in floating point give exactly these, so both
  functions that create a coinbase pass.\<close>

theorem coinbase_distribution:
  "(ValidateCoinbaseDistributionV2 b = Inr () \<longleftrightarrow>
      (\<exists>tx txs o1 o2. bl_Transactions (b2_Block b) = tx # txs \<and> IsCoinbase tx \<and> tx_Outputs tx = [o1, o2]
        \<and> to_Value o1 = 3000000000 \<and> to_Value o2 = 2000000000))
   \<and> map to_Value (tx_Outputs (CreateCoinbaseV2 C conv proposer height)) = [3000000000, 2000000000]
   \<and> map to_Value (tx_Outputs (CreateCoinbaseV2Tx proposer node height)) = [3000000000, 2000000000]
   \<and> IsCoinbase (CreateCoinbaseV2 C conv proposer height) \<and> IsCoinbase (CreateCoinbaseV2Tx proposer node height)"
proof (intro conjI)
  show "ValidateCoinbaseDistributionV2 b = Inr () \<longleftrightarrow>
      (\<exists>tx txs o1 o2. bl_Transactions (b2_Block b) = tx # txs \<and> IsCoinbase tx \<and> tx_Outputs tx = [o1, o2]
        \<and> to_Value o1 = 3000000000 \<and> to_Value o2 = 2000000000)" (is "?l \<longleftrightarrow> ?r")
  proof
    assume l: ?l
    then obtain tx txs where tx: "bl_Transactions (b2_Block b) = tx # txs"
      by (cases "bl_Transactions (b2_Block b)") (auto simp: ValidateCoinbaseDistributionV2_def GetV2CoinbaseTransaction_def)
    with l have "IsCoinbase tx" "length (tx_Outputs tx) = 2" "to_Value (tx_Outputs tx ! 0) = 3000000000"
      "to_Value (tx_Outputs tx ! 1) = 2000000000"
      by (auto simp: ValidateCoinbaseDistributionV2_def GetV2CoinbaseTransaction_def Let_def StakingRewardAmount_def
          InferenceRewardAmount_def split: if_splits)
    moreover from this(2) obtain o1 o2 where "tx_Outputs tx = [o1, o2]"
      by (auto simp: length_Suc_conv numeral_2_eq_2)
    ultimately show ?r using tx by auto
  next
    assume ?r
    then show ?l
      by (auto simp: ValidateCoinbaseDistributionV2_def GetV2CoinbaseTransaction_def TotalOutputValue_def
          StakingRewardAmount_def InferenceRewardAmount_def BlockRewardV2Total_def)
  qed
  show "map to_Value (tx_Outputs (CreateCoinbaseV2 C conv proposer height)) = [3000000000, 2000000000]"
    "IsCoinbase (CreateCoinbaseV2 C conv proposer height)"
    by (simp_all add: CreateCoinbaseV2_def Let_def rewards_exact StakingRewardAmount_def InferenceRewardAmount_def IsCoinbase_def)
  show "map to_Value (tx_Outputs (CreateCoinbaseV2Tx proposer node height)) = [3000000000, 2000000000]"
    "IsCoinbase (CreateCoinbaseV2Tx proposer node height)"
    by (simp_all add: CreateCoinbaseV2Tx_def NewTransaction_def StakingRewardAmount_def InferenceRewardAmount_def IsCoinbase_def)
qed

section \<open>Genesis\<close>

definition genesis_validator :: "u64 \<Rightarrow> bytes \<Rightarrow> Validator" where
  "genesis_validator height k = new_validator (key_address k) (InitialNodeStake * 100000000) height k False"

lemma add_genesis_result:
  assumes "cn_config cs = GetV2Config" and "finite (dom (cn_validators cs))"
    and "card (dom (cn_validators cs)) + length ks \<le> 100"
  shows "(snd (add_genesis order i ks cs) = Inr () \<longleftrightarrow>
      distinct (map key_address ks) \<and> set (map key_address ks) \<inter> dom (cn_validators cs) = {})
    \<and> (snd (add_genesis order i ks cs) = Inr () \<longrightarrow>
      (\<forall>k \<in> set ks. cn_validators (fst (add_genesis order i ks cs)) (key_address k)
         = Some (genesis_validator (cn_currentHeight cs) k))
      \<and> dom (cn_validators (fst (add_genesis order i ks cs))) = dom (cn_validators cs) \<union> set (map key_address ks)
      \<and> (\<forall>a \<in> dom (cn_validators cs). cn_validators (fst (add_genesis order i ks cs)) a = cn_validators cs a))"
  using assms
proof (induction ks arbitrary: cs i)
  case (Cons k ks)
  let ?a = "key_address k"
  show ?case
  proof (cases "cn_validators cs ?a")
    case None
    let ?cs = "rebuildProposerQueue (order i) (cs\<lparr>cn_validators := (cn_validators cs)(?a \<mapsto>
             new_validator ?a (InitialNodeStake * 100000000) (cn_currentHeight cs) k False)\<rparr>)"
    have fields: "cn_config ?cs = cn_config cs" "cn_currentHeight ?cs = cn_currentHeight cs"
      "cn_validators ?cs = (cn_validators cs)(?a \<mapsto> genesis_validator (cn_currentHeight cs) k)"
      by (simp_all add: rebuildProposerQueue_def Let_def genesis_validator_def)
    have add: "AddValidator (order i) cs ?a (InitialNodeStake * 100000000) k = Inr ?cs"
      using Cons.prems None
      by (simp add: AddValidator_def GetV2Config_def MinStakeV2Satoshi_def InitialNodeStake_def InitialNodeCount_def map_len_def)
    have "card (dom (cn_validators ?cs)) + length ks \<le> 100" "finite (dom (cn_validators ?cs))"
      using Cons.prems None by (simp_all add: fields card_insert_if domIff)
    note IH = Cons.IH [of ?cs "Suc i", unfolded fields, OF Cons.prems(1) this(2,1) [unfolded fields]]
    have step: "add_genesis order i (k # ks) cs = add_genesis order (Suc i) ks ?cs" by (simp add: add)
    show ?thesis
    proof -
      define r where "r = add_genesis order (Suc i) ks ?cs"
      define m where "m = cn_validators cs"
      have m: "?a \<notin> dom m" using None by (simp add: m_def domIff)
      have dom_upd: "dom (\<lambda>b. if b = ?a then Some g else cn_validators cs b) = insert ?a (dom (cn_validators cs))" for g
        by (auto simp: domIff)
      have IH1: "snd r = Inr () \<longleftrightarrow> distinct (map key_address ks) \<and> set (map key_address ks) \<inter> insert ?a (dom m) = {}"
        and IH2: "snd r = Inr () \<Longrightarrow> (\<forall>k \<in> set ks. cn_validators (fst r) (key_address k) = Some (genesis_validator (cn_currentHeight cs) k))
          \<and> dom (cn_validators (fst r)) = insert ?a (dom m) \<union> set (map key_address ks)
          \<and> (\<forall>b \<in> insert ?a (dom m). cn_validators (fst r) b = (m(?a \<mapsto> genesis_validator (cn_currentHeight cs) k)) b)"
        using IH dom_upd by (simp_all add: r_def m_def fun_upd_def)
      have A: "snd r = Inr () \<longleftrightarrow> distinct (map key_address (k # ks)) \<and> set (map key_address (k # ks)) \<inter> dom m = {}"
        unfolding IH1 using m by auto
      have B: "(\<forall>k' \<in> set (k # ks). cn_validators (fst r) (key_address k') = Some (genesis_validator (cn_currentHeight cs) k'))
          \<and> dom (cn_validators (fst r)) = dom m \<union> set (map key_address (k # ks))
          \<and> (\<forall>b \<in> dom m. cn_validators (fst r) b = m b)" if ok: "snd r = Inr ()"
        using IH2 [OF ok] m by auto
      show ?thesis unfolding step by (rule conjI [OF A impI [OF B], unfolded r_def m_def])
    qed
  next
    case (Some v)
    then have "AddValidator (order i) cs ?a (InitialNodeStake * 100000000) k = Inl CnValidatorExists"
      using Cons.prems
      by (simp add: AddValidator_def GetV2Config_def MinStakeV2Satoshi_def InitialNodeStake_def InitialNodeCount_def map_len_def)
    then show ?thesis using Some by (auto simp: domIff)
  qed
qed simp

text \<open>C40. The genesis validators: on an empty validator set, \<^verbatim>\<open>InitGenesisValidators\<close> succeeds exactly for a hundred
  keys with different addresses, and then the validators are these keys, with a thousand coins each.\<close>

theorem genesis_validators:
  assumes "cn_validators cs = Map.empty"
  shows "(snd (InitGenesisValidators order cs keys) = Inr () \<longleftrightarrow> length keys = 100 \<and> distinct (map key_address keys))
    \<and> (snd (InitGenesisValidators order cs keys) = Inr () \<longrightarrow>
        dom (cn_validators (fst (InitGenesisValidators order cs keys))) = set (map key_address keys)
        \<and> (\<forall>k \<in> set keys. cn_validators (fst (InitGenesisValidators order cs keys)) (key_address k)
             = Some (new_validator (key_address k) 100000000000 (cn_currentHeight cs) k False)))"
proof (cases "length keys = 100")
  case True
  then show ?thesis
    using add_genesis_result [of "cs\<lparr>cn_config := GetV2Config\<rparr>" keys order 0] assms
    by (simp add: InitGenesisValidators_def InitialNodeCount_def genesis_validator_def InitialNodeStake_def)
qed (simp add: InitGenesisValidators_def InitialNodeCount_def)

theorem genesis_validators_witness:
  "let r = InitGenesisValidators (\<lambda>_. []) (NewConsensusState 0 DefaultPoSConfig) (map (\<lambda>i. [of_nat i]) [0..<100])
   in snd r = Inr () \<and> cn_validators (fst r) (key_address [42]) = Some (new_validator (key_address [42]) 100000000000 0 [42] False)"
proof -
  let ?keys = "map (\<lambda>i. [of_nat i :: byte]) [0..<100]"
  have "hash_bytes (key_address [x]) = x # replicate 31 0" for x :: byte
    by (simp add: key_address_def hash_bytes_of_bytes take_Cons' numeral_eq_Suc)
  then have inj: "key_address [x] = key_address [y] \<longleftrightarrow> x = y" for x y :: byte
    by (metis list.inject)
  have "i = j" if "(of_nat i :: byte) = of_nat j" "i < 100" "j < 100" for i j
    using arg_cong [OF that(1), of unat] that(2,3) by (simp add: unat_of_nat)
  then have "inj_on (\<lambda>i. key_address [of_nat i :: byte]) {0..<100}"
    by (auto simp: inj_on_def inj)
  then have "distinct (map key_address ?keys)" by (simp add: distinct_map comp_def)
  moreover have e: "cn_validators (NewConsensusState 0 DefaultPoSConfig) = Map.empty"
    and h: "cn_currentHeight (NewConsensusState 0 DefaultPoSConfig) = 0"
    by (simp_all add: NewConsensusState_def)
  moreover have l: "length ?keys = 100" by simp
  ultimately have r: "snd (InitGenesisValidators (\<lambda>_. []) (NewConsensusState 0 DefaultPoSConfig) ?keys) = Inr ()"
    using genesis_validators [OF e, of "\<lambda>_. []" ?keys] by blast
  have "[42] \<in> set ?keys"
    by (auto simp: image_iff intro!: bexI [of _ 42])
  then have "cn_validators (fst (InitGenesisValidators (\<lambda>_. []) (NewConsensusState 0 DefaultPoSConfig) ?keys)) (key_address [42])
      = Some (new_validator (key_address [42]) 100000000000 0 [42] False)"
    using genesis_validators [OF e, of "\<lambda>_. []" ?keys] r h by metis
  with r show ?thesis unfolding Let_def by blast
qed

definition sample_update :: BlockReputationScore where
  "sample_update = CreateBlockReputationScore 9 7 0x4049000000000000 0 0 0 1 2 3"

text \<open>A hash without collisions on the strings of one update, and the same update under another signature.\<close>

definition update_crypto :: crypto where
  "update_crypto = sample_crypto\<lparr>sha256 := \<lambda>bs. if bs = score_Serialize sample_update then 1 else 2\<rparr>"

theorem reputation_root_binding_witness:
  "let stats = \<lparr>bi_TotalInferences = 1, bi_ActiveNodes = 2, bi_AvgLatencyMs = 3, bi_TopContributors = []\<rparr>;
       b = NewBlockV2 update_crypto 0 [] 0 1 2 [sample_update] stats;
       b' = NewBlockV2 update_crypto 0 [] 0 1 2 [sample_update\<lparr>br_Signature := [1]\<rparr>] stats;
       strings = root_strings update_crypto [score_Serialize sample_update]
   in inj_on (sha256 update_crypto) (strings \<union> strings) \<and> CalculateReputationRoot update_crypto b = 2
      \<and> CalculateReputationRoot update_crypto (b'\<lparr>b2_ReputationUpdates :=
           map (br_Signature_update (\<lambda>_. [7])) (b2_ReputationUpdates b')\<rparr>) = 2
      \<and> map (br_Signature_update (\<lambda>_. [])) (b2_ReputationUpdates b)
        = map (br_Signature_update (\<lambda>_. [])) (b2_ReputationUpdates b')"
proof -
  let ?C = update_crypto and ?s = "score_Serialize sample_update"
  let ?stats = "\<lparr>bi_TotalInferences = 1, bi_ActiveNodes = 2, bi_AvgLatencyMs = 3, bi_TopContributors = []\<rparr> :: BlockInferenceStats"
  let ?b = "NewBlockV2 ?C 0 [] 0 1 2 [sample_update] ?stats"
  let ?c = "NewBlockV2 ?C 0 [] 0 1 2 [sample_update\<lparr>br_Signature := [1]\<rparr>] ?stats"
  have len: "length ?s \<noteq> 32"
    by (simp add: score_Serialize_def)
  then have d: "hash_bytes 1 \<noteq> ?s"
    by (auto dest: arg_cong [where f = length])
  have sig: "score_Serialize (sample_update\<lparr>br_Signature := [1]\<rparr>) = ?s"
    by (simp add: score_Serialize_def)
  have strings: "root_strings ?C [?s] = {?s, hash_bytes 1}"
    by (simp add: root_strings_def tree_strings_step double_strings_def update_crypto_def)
  have inj: "inj_on (sha256 ?C) (root_strings ?C [?s] \<union> root_strings ?C [?s])"
    using d unfolding strings by (simp add: inj_on_def update_crypto_def)
  have r: "CalculateReputationRoot ?C ?b = 2" "CalculateReputationRoot ?C ?c = 2"
    using d by (simp_all add: CalculateReputationRoot_def NewBlockV2_def merkle_root_def merkle_levels.simps
        score_Hash_def sig sha256d_def update_crypto_def)
  have ups: "b2_ReputationUpdates ?b = [sample_update]" "b2_ReputationUpdates ?c = [sample_update\<lparr>br_Signature := [1]\<rparr>]"
    by (simp_all add: NewBlockV2_def)
  have "inj_on (sha256 ?C) (root_strings ?C (map score_Serialize (b2_ReputationUpdates ?c))
      \<union> root_strings ?C (map score_Serialize (b2_ReputationUpdates ?b)))"
    unfolding ups by (simp add: sig inj [simplified])
  from reputation_root_binding [OF _ _ this, where f = "\<lambda>_. [7]"] show ?thesis
    using inj r ups by (simp add: Let_def)
qed

text \<open>The root appears in no header, so the hash of a new block does not depend on the updates at all.\<close>

lemma updates_not_hashed:
  "bl_Hash (b2_Block (NewBlockV2 C t txs prev height proposer updates stats))
     = bl_Hash (b2_Block (NewBlockV2 C t txs prev height proposer [] stats'))"
  by (simp add: NewBlockV2_def)

end
