(* ===== verification/Spec2Isabelle.thy ===== *)
theory Spec2Isabelle
  imports Staking Mempool PoW Fee_Burn Consensus Channel_Runs Atomic_Swap Address_Display Merkle_Proof Order_Runs
    Multisig Dispute_Runs Fork_Runs Settlement_Runs Watch_Runs Persistent_Runs Chain_Forks Proposer_VRF Validator_Runs Anchor Reputation_Runs Block_V2
begin

text \<open>
  Verification of the ledger and payment-channel core of AIB, a proof-of-stake / proof-of-work
  blockchain written in Go.

  \<^bold>\<open>The program.\<close> A node keeps a set of unspent outputs with a balance table (\<^verbatim>\<open>pkg/utxo/store.go\<close>).
  Transactions (\<^verbatim>\<open>pkg/utxo/transaction.go\<close>) are validated against it, wait in the mempool
  (\<^verbatim>\<open>pkg/utxo/mempool.go\<close>), are chosen for a block (\<^verbatim>\<open>pkg/utxo/block.go\<close>) and applied to the store. Who
  may propose a block follows from the stake (\<^verbatim>\<open>pkg/utxo/staking.go\<close>, \<^verbatim>\<open>consensus.go\<close>, \<^verbatim>\<open>vrf_proposer.go\<close>) or from
  proof of work (\<^verbatim>\<open>pkg/utxo/pow.go\<close>), which also fixes the emission; the fees of an epoch are split
  by \<^verbatim>\<open>pkg/economy/feeburn.go\<close>. A node that hears of another chain compares and reorganizes
  (\<^verbatim>\<open>pkg/sync/fork_choice.go\<close>). Addresses are Bech32m strings (\<^verbatim>\<open>pkg/utxo/address.go\<close>,
  \<^verbatim>\<open>address_display.go\<close>), light clients verify Merkle proofs (\<^verbatim>\<open>core/crypto/merkle.go\<close>).
  Off the chain, two parties move value in channels (\<^verbatim>\<open>pkg/channel/state_channel.go\<close>) funded by
  multi-signature outputs (\<^verbatim>\<open>pkg/utxo/multisig.go\<close>), with hash time-locked contracts, routes and atomic
  swaps on top (\<^verbatim>\<open>pkg/channel/htlc.go\<close>), an order book (\<^verbatim>\<open>orderbook.go\<close>), a resolver of disputes
  (\<^verbatim>\<open>dispute.go\<close>), settlement on the chain (\<^verbatim>\<open>settlement.go\<close>) and a watchtower (\<^verbatim>\<open>watchtower.go\<close>), each of
  which holds a pointer to the channel manager and calls its methods.

  \<^bold>\<open>Conventions.\<close> Machine integers keep their width: \<^verbatim>\<open>uint64\<close> is a 64-bit word whose addition wraps. A
  32-byte array is a 256-bit word read big-endian. A \<^verbatim>\<open>big.Int\<close> that is never negative is a natural
  number, a \<^verbatim>\<open>float64\<close> is the rational it denotes with explicit rounding (\<open>Float64\<close>), or a value of \<open>Double\<close> where
  infinities and values that are not numbers matter. An error return
  is \<open>Inl\<close> of the component's error datatype, and a panic is a value of it too. A Go map is a partial
  map; where the code ranges over one, the order of the keys is an argument, and the theorems hold
  for every order. The clock, random numbers, the environment and everything outside the repository
  (SHA-256, Ed25519, the multi-signature locker, signers) are arguments; what a theorem needs of
  them is a hypothesis of that theorem. That hashes bind what they are made of is stated for any hash
  function that is injective on the strings the compared computations hash, a finite set that the
  theorem names. Methods hold their component's mutex, so each is one atomic
  step on a state record. A method that can fail after it has changed the state returns the state
  next to the error.

  \<^bold>\<open>Theories.\<close>
  \<^item> \<open>AIB_Prelude\<close>: machine types, byte encodings and readers, the locale \<open>stream_codec\<close> of encoders
    that can be decoded from a stream, map iteration. \<open>Crypto\<close>: the cryptographic parameter.
    \<open>Float64\<close>: rounding to 53 bits.
  \<^item> \<open>Transaction\<close>: records and operations of \<^verbatim>\<open>transaction.go\<close>. The wire format of inputs and outputs
    interprets \<open>stream_codec\<close>; from it follow the round trip of whole transactions and that equal
    hashes mean equal transactions unless SHA-256 collides on the strings hashed for them. Signing and verifying agree; the fee
    accounts for all value if no sum wraps, and a concrete transaction shows what wrapping does.
  \<^item> \<open>UTXO_Store\<close>: the store. The locale \<open>utxo_set\<close> is the contract of a set of unspent outputs and
    the store interprets it. Applying a validated transaction removes exactly its inputs and adds
    exactly its outputs, keeps the balance table equal to the sums of the outputs, and coin
    selection returns enough distinct spendable outputs or reports that there are not enough.
  \<^item> \<open>Staking\<close>: the stake index and the checks of stake and unstake transactions.
  \<^item> \<open>Mempool\<close>: the pool, a step relation over its methods, the invariant that no two pooled
    transactions spend the same output, and the block template with its size limit.
  \<^item> \<open>Merkle\<close>: the tree with the pair hash as a parameter; the locale \<open>hash_node\<close> carries the binding of a
    pair hash, which fails only where the function below collides on the strings of the two pairs, to trees
    and the strings of all their pairs. It is interpreted twice, in \<open>Block\<close> and in \<open>Consensus\<close>.
  \<^item> \<open>Block\<close>: versioned header and block formats and their round trips, hash, signature, the checks of
    a block on its own and against its parent.
  \<^item> \<open>PoW\<close>: emission, the header's proof of work, compact targets, retargeting.
  \<^item> \<open>Fee_Burn\<close>: the burn of an epoch's fees.
  \<^item> \<open>Consensus\<close>: the validator set, the weighted choice of a proposer, the processing of a block, the
    verification of its proposer, the root of the validators' states.
  \<^item> \<open>State_Channel\<close> and \<open>HTLC_Manager\<close>: every method of the channel manager and of the contracts in
    its channels. \<open>Channel_Runs\<close>: the step relation over those methods; conservation of a channel's
    total, growth of the sequence numbers and termination of the contracts by induction over
    histories. \<open>Atomic_Swap\<close>: the separate manager of swaps and its life cycle.
  \<^item> \<open>Address\<close> and \<open>Address_Display\<close>: Bech32m over the field with 32 elements (two wrong characters in one
    string are always detected) and the round trip of the display layer.
  \<^item> \<open>Merkle_Proof\<close>: the standard tree with its inclusion proofs and the sparse tree.
  \<^item> \<open>Order_Book\<close>, \<open>Order_Matching\<close>, \<open>Order_Runs\<close>: the order book. The matching loop is a partial function that
    is proved to terminate; placing an order refines matching against one list of resting orders sorted
    by price and age, a book of limit orders is never crossed, and every trade is made with a resting order at
    the price of that order, within both limits.
  \<^item> \<open>Multisig\<close>: scripts, their verifier, and the adapter that is the repository's own locker of channel
    outputs; composed with the channel manager it can close no channel.
  \<^item> \<open>Dispute_Resolver\<close> and \<open>Dispute_Runs\<close>: evidence, the course of a dispute and who wins it.
  \<^item> \<open>Settlement\<close>, \<open>Settlement_Proof\<close>, \<open>Settlement_Runs\<close>: settling a channel. The locale \<open>output_locker\<close> is what
    a locker promises about the outputs it holds, the adapter of \<open>Multisig\<close> interprets it, and from the
    promise alone follows that a cooperative settlement never succeeds. The records are well formed in
    every reachable state.
  \<^item> \<open>Watchtower\<close>, \<open>Watch_Service\<close>, \<open>Watch_Runs\<close>: the watchtower with its queues and goroutines as a step
    relation next to the channel manager; it never changes a channel, and the evidence it collects is
    never processed.
  \<^item> \<open>Fork_Choice\<close> and \<open>Fork_Runs\<close>: comparing chains, finding the fork, planning and carrying out a
    reorganization, over the interface of the local chain as a parameter; the exact verdict on a candidate.
  \<^item> \<open>KV_Store\<close>, \<open>Persistent_Store\<close>, \<open>Persistent_Runs\<close>: the store of unspent outputs on bbolt. The database is a
    parameter; the locale \<open>bbolt_laws\<close> states its documented behaviour and is interpreted by a database in
    memory. The persistent store refines the one of \<open>UTXO_Store\<close>.
  \<^item> \<open>Chain\<close>, \<open>Chain_Runs\<close>, \<open>Chain_Forks\<close>: the chain itself, in memory and on bbolt, and pruning, on top of the
    persistent store, the pool and the consensus state. A step relation over its operations with the invariant
    that the index is a chain of hashes; then what happens to blocks beside the chain and to blocks that fail
    after they have been accepted.
  \<^item> \<open>Proposer_VRF\<close>: the choice of a proposer on the producing side, which agrees with the one \<open>Consensus\<close> checks,
    and the random function made of signatures.
  \<^item> \<open>Validator\<close>, \<open>Validator_Runs\<close>: the validators beside the chain. No check a node makes looks at the owner of
    an output; the one function that does is never called.
  \<^item> \<open>Double\<close>: \<^verbatim>\<open>float64\<close> with all its values and its bits; rounding is monotone. \<open>Reputation\<close>, \<open>Reputation_Runs\<close>:
    signed scores and the second version of proof of stake. What a history of scores leaves and its bounds; one score
    that is not a number ruins a node; only the first two validators of the map can be chosen. \<open>Block_V2\<close>:
    blocks with reputation scores, their root, coinbases and the genesis validators.
  \<^item> \<open>Anchor\<close>: release records in scripts, their round trip and index.
  \<^item> This theory: the property that spans pool and store. The transactions of a block template can be
    applied to the store one after the other.

  \<^bold>\<open>Defects.\<close> Where the code does not do what it means to, the theorem says what it does, on a concrete
  run or in general: wrapping sums in the fee, inputs locked by a rejected transaction, duplicated
  leaves of the Merkle tree, coinbase blocks that fail their own validation, the compact encoding and
  the clamp of retargeting, channels closed by superseded states or overruled after a close,
  contracts above the balance, swaps that can no longer be refunded, market orders that sell to the
  lowest bid, inner nodes accepted as leaves, sparse proofs that are rejected, scripts that never verify,
  disputes won with one signature or blocked by anyone, settlements that spend an output twice or pay
  what nobody agreed to, punishments that never succeed, chains that are an error because they are longer, blocks
  beside the chain that mint coins, blocks that stop a node, outputs that any key spends, releases that anyone announces,
  averages that are not numbers, proposers that only the order of a map decides.

  \<^bold>\<open>Termination.\<close> No definition uses fuel. Loops over slices and key orders are structural; the Merkle
  loops end because a level has fewer hashes than the one below; the shifting loops of the compact
  encoding and of \<open>bit_length\<close> end because the number shrinks; the parser of scripts ends because its offset
  grows. The matching loop of the order book and the walk of \<^verbatim>\<open>FindFork\<close> are \<open>partial_function\<close>s, since the code
  gives no bound; that they return is proved where it holds (for books whose orders are open, and for
  every local chain).

  \<^bold>\<open>Not modelled.\<close> Inference channels, \<^verbatim>\<open>pkg/zkrollup\<close>, \<^verbatim>\<open>pkg/eutxo\<close> and the \<^verbatim>\<open>zkml\<close> prototype are the
  plan, in this order. Networking, HTTP, command line and deployment code is input and output around
  these components and is left out, and so is code that drives third-party libraries.
\<close>

section \<open>From the pool to the store\<close>

text \<open>Applying a list of transactions one after the other, as a block does.\<close>

fun apply_all :: "crypto \<Rightarrow> UTXOStore \<Rightarrow> Transaction list \<Rightarrow> (store_error, UTXOStore) result" where
  "apply_all C s [] = Inr s"
| "apply_all C s (tx # txs) = rbind (ApplyTransaction C s tx) (\<lambda>s'. apply_all C s' txs)"

definition present :: "UTXOStore \<Rightarrow> outpoint \<Rightarrow> bool" where
  "present s p \<longleftrightarrow> GetUTXO s (fst p) (snd p) \<noteq> None"

lemma present_add_outputs: "present s p \<Longrightarrow> present (add_outputs s h n outs) p"
  by (induction outs arbitrary: s n) (simp_all add: present_def GetUTXO_AddUTXO)

lemma present_spend_inputs:
  "spend_inputs s ins = Inr s' \<Longrightarrow> p \<notin> outpoint_of ` set ins \<Longrightarrow> present s p \<Longrightarrow> present s' p"
proof (induction ins arbitrary: s)
  case (Cons i ins)
  let ?k = "UTXOKey (ti_TxHash i) (ti_Index i)"
  from Cons.prems(1) obtain u :: UTXO where
    run: "spend_inputs \<lparr>st_utxos = (st_utxos s)(?k := None),
            st_balances = debit (st_balances s) (u_Address u) (u_Value u)\<rparr> ins = Inr s'"
    by (auto simp: Let_def split: option.splits)
  show ?case
    using Cons.prems(2,3) by (intro Cons.IH [OF run]) (auto simp: present_def GetUTXO_def outpoint_of_def prod_eq_iff)
qed simp

lemma check_inputs_present:
  "check_inputs s ins {} = Inr () \<longleftrightarrow> distinct (map outpoint_of ins) \<and> (\<forall>i \<in> set ins. present s (outpoint_of i))"
  by (simp add: check_inputs_ok present_def outpoint_of_def)

lemma spend_inputs_ok:
  "distinct (map outpoint_of ins) \<Longrightarrow> (\<forall>i \<in> set ins. present s (outpoint_of i)) \<Longrightarrow>
   \<exists>s'. spend_inputs s ins = Inr s'"
proof (induction ins arbitrary: s)
  case (Cons i ins)
  let ?k = "UTXOKey (ti_TxHash i) (ti_Index i)"
  obtain u where u: "st_utxos s ?k = Some u"
    using Cons.prems(2) by (auto simp: present_def GetUTXO_def outpoint_of_def)
  let ?s = "\<lparr>st_utxos = (st_utxos s)(?k := None), st_balances = debit (st_balances s) (u_Address u) (u_Value u)\<rparr>"
  have "\<forall>j \<in> set ins. present ?s (outpoint_of j)"
    using Cons.prems by (auto simp: present_def GetUTXO_def outpoint_of_def image_iff)
  then have "\<exists>s'. spend_inputs ?s ins = Inr s'"
    using Cons.prems(1) by (intro Cons.IH) auto
  with u show ?case by simp
qed simp

lemma validated_applies:
  assumes "ValidateTransaction C s tx = Inr ()"
  obtains s' where "ApplyTransaction C s tx = Inr s'"
    and "\<And>p. p \<notin> outpoint_of ` set (tx_Inputs tx) \<Longrightarrow> present s p \<Longrightarrow> present s' p"
proof -
  have "check_inputs s (tx_Inputs tx) {} = Inr ()"
    using assms by (auto simp: ValidateTransaction_def rbind_Inr_iff)
  then obtain s1 where s1: "spend_inputs s (tx_Inputs tx) = Inr s1"
    using spend_inputs_ok [of "tx_Inputs tx" s] by (auto simp: check_inputs_present)
  show thesis
    using assms s1 present_spend_inputs [OF s1]
    by (intro that [of "add_outputs s1 (TxHash C tx) 0 (tx_Outputs tx)"])
      (auto simp: ApplyTransaction_def intro: present_add_outputs)
qed

lemma spends_outpoints: "spends a \<inter> spends b = {} \<longleftrightarrow>
    outpoint_of ` set (tx_Inputs a) \<inter> outpoint_of ` set (tx_Inputs b) = {}"
  by (auto simp: spends_def input_key_def outpoint_of_def)

text \<open>A valid transaction stays valid while transactions that spend other outputs are applied.\<close>

lemma ValidateTransaction_cong:
  assumes "ValidateTransaction C s tx = Inr ()" and "\<forall>i \<in> set (tx_Inputs tx). present s' (outpoint_of i)"
  shows "ValidateTransaction C s' tx = Inr ()"
  using assms by (auto simp: ValidateTransaction_def rbind_Inr_iff check_inputs_present)

lemma apply_all_ok:
  "(\<forall>tx \<in> set txs. ValidateTransaction C s tx = Inr ()) \<Longrightarrow>
   sorted_wrt (\<lambda>a b. spends a \<inter> spends b = {}) txs \<Longrightarrow> \<exists>s'. apply_all C s txs = Inr s'"
proof (induction txs arbitrary: s)
  case (Cons tx txs)
  obtain s1 where s1: "ApplyTransaction C s tx = Inr s1"
    and keep: "\<And>p. p \<notin> outpoint_of ` set (tx_Inputs tx) \<Longrightarrow> present s p \<Longrightarrow> present s1 p"
    using validated_applies [of C s tx] Cons.prems(1) by auto
  have "ValidateTransaction C s1 t = Inr ()" if t: "t \<in> set txs" for t
  proof (rule ValidateTransaction_cong)
    show v: "ValidateTransaction C s t = Inr ()"
      using Cons.prems(1) t by simp
    have "outpoint_of ` set (tx_Inputs tx) \<inter> outpoint_of ` set (tx_Inputs t) = {}"
      using Cons.prems(2) t by (simp flip: spends_outpoints)
    moreover have "\<forall>i \<in> set (tx_Inputs t). present s (outpoint_of i)"
      using v by (auto simp: ValidateTransaction_def rbind_Inr_iff check_inputs_present)
    ultimately show "\<forall>i \<in> set (tx_Inputs t). present s1 (outpoint_of i)"
      using keep by blast
  qed
  then have "\<exists>s'. apply_all C s1 txs = Inr s'"
    using Cons.prems(2) by (intro Cons.IH) auto
  with s1 show ?case by simp
qed simp

lemma template_no_conflict:
  assumes "pool_inv C m" and "iteration_of ks (mp_entries m)"
  shows "set (GetTransactionsForBlock ks m cap) \<subseteq> me_Tx ` ran (mp_entries m)
    \<and> sorted_wrt (\<lambda>a b. spends a \<inter> spends b = {}) (GetTransactionsForBlock ks m cap)"
proof -
  let ?all = "sort_key (\<lambda>e. - me_FeeRate e) (range_values ks (mp_entries m))"
  have "distinct ?all" "set ?all = ran (mp_entries m)"
    using pool_entries_distinct [OF assms] assms(2) by (simp_all add: set_range_values)
  moreover have "sorted_wrt (\<lambda>a b. spends (me_Tx a) \<inter> spends (me_Tx b) = {}) es"
    if "distinct es" "set es \<subseteq> ran (mp_entries m)" for es
    using that
  proof (induction es)
    case (Cons e es)
    then have "spends (me_Tx e) \<inter> spends (me_Tx e') = {}" if "e' \<in> set es" for e'
      using that by (intro pool_no_conflict [OF assms(1)]) auto
    with Cons show ?case by simp
  qed simp
  ultimately have "sorted_wrt (\<lambda>a b. spends (me_Tx a) \<inter> spends (me_Tx b) = {}) (fill_entries cap ?all 0)"
    using fill_entries_distinct set_fill_entries by blast
  then show ?thesis
    using set_fill_entries [of cap ?all 0] \<open>set ?all = ran (mp_entries m)\<close>
    by (auto simp: GetTransactionsForBlock_def fill_block_entries sorted_wrt_map)
qed

text \<open>C2. A block template is applicable as a whole: if every transaction in a reachable pool is valid
  against a store, then the transactions \<^verbatim>\<open>GetTransactionsForBlock\<close> chooses, in the order it returns them,
  can be applied to that store one after the other without any of them failing.\<close>

theorem template_applies:
  assumes "(mempool_step C)\<^sup>*\<^sup>* (NewMempool maxSize minFee) m" and "iteration_of ks (mp_entries m)"
    and "\<forall>e \<in> ran (mp_entries m). ValidateTransaction C s (me_Tx e) = Inr ()"
  shows "\<exists>s'. apply_all C s (GetTransactionsForBlock ks m cap) = Inr s'"
  using template_no_conflict [OF pool_inv_reachable [OF assms(1)] assms(2), of cap] assms(3)
  by (intro apply_all_ok) auto

definition two_store :: UTXOStore where
  "two_store = AddUTXO sample_store (sample_utxo\<lparr>u_TxHash := 8\<rparr>)"

lemma two_valid:
  "ValidateTransaction pool_crypto two_store signed_tx = Inr ()"
  "ValidateTransaction pool_crypto two_store second_tx = Inr ()"
proof -
  have "HasUTXO two_store 7 1" "HasUTXO two_store 8 1"
    by (simp_all add: HasUTXO_def two_store_def sample_store_def AddUTXO_def sample_utxo_def)
  then show "ValidateTransaction pool_crypto two_store signed_tx = Inr ()"
    "ValidateTransaction pool_crypto two_store second_tx = Inr ()"
    by (simp_all add: ValidateTransaction_def signed_tx_def second_tx_def NewTransaction_def
        VerifyInput_def ed25519_Verify_def pool_crypto_def sample_crypto_def)
qed

theorem template_applies_witness:
  "\<exists>s'. apply_all pool_crypto two_store
          (GetTransactionsForBlock [TxHash pool_crypto signed_tx, TxHash pool_crypto second_tx] two_pool 300)
        = Inr s'"
proof (rule template_applies [OF two_pool_reachable])
  show "iteration_of [TxHash pool_crypto signed_tx, TxHash pool_crypto second_tx] (mp_entries two_pool)"
    using two_hashes_differ by (auto simp: iteration_of_def two_pool_def)
  show "\<forall>e \<in> ran (mp_entries two_pool). ValidateTransaction pool_crypto two_store (me_Tx e) = Inr ()"
    using two_valid by (auto simp: two_pool_def ran_def split: if_splits)
qed

end
